(* ===== verification/Prelude.thy ===== *)
theory Prelude
  imports Complex_Main "HOL-Library.AList"
begin

text \<open>
  Shared vocabulary of the development: the exceptions of the program as one
  datatype, the result type \<open>exn + 'a\<close> with its bind, insertion-ordered
  dictionaries as association lists, ASCII case folding (Python's
  \<open>str.upper\<close> on ASCII text), and the collections of rewrite rules the
  component theories add to.
\<close>

named_theorems result_simps \<open>rewriting of results: bind, guards, folds\<close>
named_theorems dict_simps \<open>lookups in insertion-ordered dictionaries\<close>

subsection \<open>Enumerations that exceptions carry\<close>

text \<open>\<open>CapabilityStatus\<close> and \<open>Gate\<close> of agent/policy.py are \<open>IntEnum\<close>s, so a
  status is compared by its number.\<close>

datatype capability_status =
  DISABLED | RESEARCH_ONLY | PAPER_ONLY | APPROVAL_REQUIRED | PRODUCTION_ALLOWED

fun status_value :: "capability_status \<Rightarrow> nat" where
  "status_value DISABLED = 0"
| "status_value RESEARCH_ONLY = 1"
| "status_value PAPER_ONLY = 2"
| "status_value APPROVAL_REQUIRED = 3"
| "status_value PRODUCTION_ALLOWED = 4"

lemma status_value_inj [simp]: "status_value a = status_value b \<longleftrightarrow> a = b"
  by (cases a; cases b) auto

instantiation capability_status :: linorder
begin

definition less_eq_capability_status :: "capability_status \<Rightarrow> capability_status \<Rightarrow> bool" where
  "less_eq_capability_status a b \<longleftrightarrow> status_value a \<le> status_value b"

definition less_capability_status :: "capability_status \<Rightarrow> capability_status \<Rightarrow> bool" where
  "less_capability_status a b \<longleftrightarrow> status_value a < status_value b"

instance
  by standard (auto simp: less_eq_capability_status_def less_capability_status_def)

end

datatype gate = UNIVERSE | RISK_CONSTRAINER | PRE_SUBMIT | ADAPTER

subsection \<open>Exceptions\<close>

text \<open>
  One constructor per exception class the modelled code raises, grouped by the part of the
  program that raises it; each class is used by its own name. The human-readable message is not modelled; the structured
  attributes (the gate of a rejection, the two account ids of a cross-account
  error) are. \<open>ValueError\<close>, \<open>KeyError\<close>, \<open>TypeError\<close>, \<open>AssertionError\<close>,
  \<open>ZeroDivisionError\<close> and \<open>InvalidOperation\<close> are Python's own.
\<close>

datatype (plugins only: code size) trade_exn =
    Exn_PolicyViolation gate string string capability_status | Exn_CrossAccountError string string
  | Exn_UnsupportedLotSelectionPolicy | Exn_HoldingViolation | Exn_DayTradeBlocked | Exn_PostureMismatch
  | Exn_UnverifiableDayTradeCount | Exn_CalendarCoverageError | Exn_CalendarExpiryError
  | Exn_Rejected string

datatype (plugins only: code size) approval_exn =
    Exn_ApprovalError | Exn_TokenExpired | Exn_TokenConsumed | Exn_OrderMismatch | Exn_PriceOutOfBand
  | Exn_TokenReissued | Exn_ApprovalRequestStoreError | Exn_ApprovalBridgeError
  | Exn_ApprovalTriggerError | Exn_MissingStagedOrder | Exn_DecisionError | Exn_DecisionConflict

datatype (plugins only: code size) broker_exn =
    Exn_AdapterError | Exn_CapabilityPolicyUnset | Exn_MissingApproval | Exn_StagingKeyUnset
  | Exn_StagingForged | Exn_TransportTimeout | Exn_TransportError | Exn_AlpacaError
  | Exn_AlpacaAccountIdentityMismatch | Exn_AmbiguousOrderState | Exn_UnsupportedOrderShape | Exn_AlpacaResponseError

datatype (plugins only: code size) ledger_exn =
    Exn_LedgerError | Exn_UnknownLotError | Exn_LotOverdrawnError | Exn_DuplicateFillError
  | Exn_DuplicateCashAdjustmentError | Exn_DuplicateOpeningBalanceCorrectionError
  | Exn_ReconciliationMismatch | Exn_LedgerStoreError | Exn_CashEventQuarantineError
  | Exn_ExecutionQuarantineError | Exn_SyncFillsError

datatype (plugins only: code size) system_exn =
    Exn_ModeTransitionError | Exn_IllegalModeTransition | Exn_ConfirmationRequired | Exn_ModeStoreError
  | Exn_AuditError | Exn_StoreError | Exn_AuditChainBroken | Exn_AccountsNotExpectedForMode

datatype (plugins only: code size) execution_exn =
    Exn_ExecutionError | Exn_DriftDetected | Exn_SessionClosed | Exn_ModeNotPermitted
  | Exn_ReconciliationNotFresh | Exn_QuoteUnavailable | Exn_StagingSignatureInvalid

datatype (plugins only: code size) research_exn =
    Exn_CostLedgerError | Exn_ExtractionCacheStoreError | Exn_AnalysisResultStoreError
  | Exn_OpportunityEventStoreError | Exn_OpportunityEventTrackerError | Exn_MaterialityInputError string
  | Exn_MaterialityCycleError | Exn_EdgarCollectorError | Exn_AnalysisPromptError | Exn_AnalysisError
  | Exn_BudgetExceeded | Exn_AnalysisRefused | Exn_MalformedResponse | Exn_AnalysisTriggerError
  | Exn_MarketDataInputError | Exn_MarketDataFetchError | Exn_NewsCollectorError
  | Exn_AlpacaMarketDataError

datatype (plugins only: code size) exn =
    ValueError | KeyError string | TypeError | AssertionError string | ZeroDivisionError
  | InvalidOperation | NotImplementedError | JSONDecodeError | OSError | Trade_Exn trade_exn
  | Approval_Exn approval_exn | Broker_Exn broker_exn | Ledger_Exn ledger_exn | System_Exn system_exn
  | Execution_Exn execution_exn | Research_Exn research_exn

abbreviation PolicyViolation :: "gate \<Rightarrow> string \<Rightarrow> string \<Rightarrow> capability_status \<Rightarrow> exn" where
  "PolicyViolation a b c d \<equiv> Trade_Exn (Exn_PolicyViolation a b c d)"
abbreviation CrossAccountError :: "string \<Rightarrow> string \<Rightarrow> exn" where
  "CrossAccountError a b \<equiv> Trade_Exn (Exn_CrossAccountError a b)"
abbreviation UnsupportedLotSelectionPolicy :: exn where
  "UnsupportedLotSelectionPolicy \<equiv> Trade_Exn Exn_UnsupportedLotSelectionPolicy"
abbreviation HoldingViolation :: exn where "HoldingViolation \<equiv> Trade_Exn Exn_HoldingViolation"
abbreviation DayTradeBlocked :: exn where "DayTradeBlocked \<equiv> Trade_Exn Exn_DayTradeBlocked"
abbreviation PostureMismatch :: exn where "PostureMismatch \<equiv> Trade_Exn Exn_PostureMismatch"
abbreviation UnverifiableDayTradeCount :: exn where
  "UnverifiableDayTradeCount \<equiv> Trade_Exn Exn_UnverifiableDayTradeCount"
abbreviation CalendarCoverageError :: exn where
  "CalendarCoverageError \<equiv> Trade_Exn Exn_CalendarCoverageError"
abbreviation CalendarExpiryError :: exn where "CalendarExpiryError \<equiv> Trade_Exn Exn_CalendarExpiryError"
abbreviation Rejected :: "string \<Rightarrow> exn" where "Rejected a \<equiv> Trade_Exn (Exn_Rejected a)"
abbreviation ApprovalError :: exn where "ApprovalError \<equiv> Approval_Exn Exn_ApprovalError"
abbreviation TokenExpired :: exn where "TokenExpired \<equiv> Approval_Exn Exn_TokenExpired"
abbreviation TokenConsumed :: exn where "TokenConsumed \<equiv> Approval_Exn Exn_TokenConsumed"
abbreviation OrderMismatch :: exn where "OrderMismatch \<equiv> Approval_Exn Exn_OrderMismatch"
abbreviation PriceOutOfBand :: exn where "PriceOutOfBand \<equiv> Approval_Exn Exn_PriceOutOfBand"
abbreviation TokenReissued :: exn where "TokenReissued \<equiv> Approval_Exn Exn_TokenReissued"
abbreviation ApprovalRequestStoreError :: exn where
  "ApprovalRequestStoreError \<equiv> Approval_Exn Exn_ApprovalRequestStoreError"
abbreviation ApprovalBridgeError :: exn where
  "ApprovalBridgeError \<equiv> Approval_Exn Exn_ApprovalBridgeError"
abbreviation ApprovalTriggerError :: exn where
  "ApprovalTriggerError \<equiv> Approval_Exn Exn_ApprovalTriggerError"
abbreviation MissingStagedOrder :: exn where "MissingStagedOrder \<equiv> Approval_Exn Exn_MissingStagedOrder"
abbreviation DecisionError :: exn where "DecisionError \<equiv> Approval_Exn Exn_DecisionError"
abbreviation DecisionConflict :: exn where "DecisionConflict \<equiv> Approval_Exn Exn_DecisionConflict"
abbreviation AdapterError :: exn where "AdapterError \<equiv> Broker_Exn Exn_AdapterError"
abbreviation CapabilityPolicyUnset :: exn where
  "CapabilityPolicyUnset \<equiv> Broker_Exn Exn_CapabilityPolicyUnset"
abbreviation MissingApproval :: exn where "MissingApproval \<equiv> Broker_Exn Exn_MissingApproval"
abbreviation StagingKeyUnset :: exn where "StagingKeyUnset \<equiv> Broker_Exn Exn_StagingKeyUnset"
abbreviation StagingForged :: exn where "StagingForged \<equiv> Broker_Exn Exn_StagingForged"
abbreviation TransportTimeout :: exn where "TransportTimeout \<equiv> Broker_Exn Exn_TransportTimeout"
abbreviation TransportError :: exn where "TransportError \<equiv> Broker_Exn Exn_TransportError"
abbreviation AlpacaError :: exn where "AlpacaError \<equiv> Broker_Exn Exn_AlpacaError"
abbreviation AmbiguousOrderState :: exn where "AmbiguousOrderState \<equiv> Broker_Exn Exn_AmbiguousOrderState"
abbreviation UnsupportedOrderShape :: exn where "UnsupportedOrderShape \<equiv> Broker_Exn Exn_UnsupportedOrderShape"
abbreviation AlpacaResponseError :: exn where "AlpacaResponseError \<equiv> Broker_Exn Exn_AlpacaResponseError"
abbreviation AlpacaAccountIdentityMismatch :: exn where
  "AlpacaAccountIdentityMismatch \<equiv> Broker_Exn Exn_AlpacaAccountIdentityMismatch"
abbreviation LedgerError :: exn where "LedgerError \<equiv> Ledger_Exn Exn_LedgerError"
abbreviation UnknownLotError :: exn where "UnknownLotError \<equiv> Ledger_Exn Exn_UnknownLotError"
abbreviation LotOverdrawnError :: exn where "LotOverdrawnError \<equiv> Ledger_Exn Exn_LotOverdrawnError"
abbreviation DuplicateFillError :: exn where "DuplicateFillError \<equiv> Ledger_Exn Exn_DuplicateFillError"
abbreviation DuplicateCashAdjustmentError :: exn where
  "DuplicateCashAdjustmentError \<equiv> Ledger_Exn Exn_DuplicateCashAdjustmentError"
abbreviation DuplicateOpeningBalanceCorrectionError :: exn where
  "DuplicateOpeningBalanceCorrectionError \<equiv> Ledger_Exn Exn_DuplicateOpeningBalanceCorrectionError"
abbreviation ReconciliationMismatch :: exn where
  "ReconciliationMismatch \<equiv> Ledger_Exn Exn_ReconciliationMismatch"
abbreviation LedgerStoreError :: exn where "LedgerStoreError \<equiv> Ledger_Exn Exn_LedgerStoreError"
abbreviation CashEventQuarantineError :: exn where
  "CashEventQuarantineError \<equiv> Ledger_Exn Exn_CashEventQuarantineError"
abbreviation ExecutionQuarantineError :: exn where
  "ExecutionQuarantineError \<equiv> Ledger_Exn Exn_ExecutionQuarantineError"
abbreviation SyncFillsError :: exn where "SyncFillsError \<equiv> Ledger_Exn Exn_SyncFillsError"
abbreviation ModeTransitionError :: exn where
  "ModeTransitionError \<equiv> System_Exn Exn_ModeTransitionError"
abbreviation IllegalModeTransition :: exn where
  "IllegalModeTransition \<equiv> System_Exn Exn_IllegalModeTransition"
abbreviation ConfirmationRequired :: exn where
  "ConfirmationRequired \<equiv> System_Exn Exn_ConfirmationRequired"
abbreviation ModeStoreError :: exn where "ModeStoreError \<equiv> System_Exn Exn_ModeStoreError"
abbreviation AuditError :: exn where "AuditError \<equiv> System_Exn Exn_AuditError"
abbreviation StoreError :: exn where "StoreError \<equiv> System_Exn Exn_StoreError"
abbreviation AuditChainBroken :: exn where "AuditChainBroken \<equiv> System_Exn Exn_AuditChainBroken"
abbreviation AccountsNotExpectedForMode :: exn where
  "AccountsNotExpectedForMode \<equiv> System_Exn Exn_AccountsNotExpectedForMode"
abbreviation ExecutionError :: exn where "ExecutionError \<equiv> Execution_Exn Exn_ExecutionError"
abbreviation DriftDetected :: exn where "DriftDetected \<equiv> Execution_Exn Exn_DriftDetected"
abbreviation SessionClosed :: exn where "SessionClosed \<equiv> Execution_Exn Exn_SessionClosed"
abbreviation ModeNotPermitted :: exn where "ModeNotPermitted \<equiv> Execution_Exn Exn_ModeNotPermitted"
abbreviation ReconciliationNotFresh :: exn where
  "ReconciliationNotFresh \<equiv> Execution_Exn Exn_ReconciliationNotFresh"
abbreviation QuoteUnavailable :: exn where "QuoteUnavailable \<equiv> Execution_Exn Exn_QuoteUnavailable"
abbreviation StagingSignatureInvalid :: exn where
  "StagingSignatureInvalid \<equiv> Execution_Exn Exn_StagingSignatureInvalid"

abbreviation CostLedgerError :: exn where "CostLedgerError \<equiv> Research_Exn Exn_CostLedgerError"
abbreviation ExtractionCacheStoreError :: exn where
  "ExtractionCacheStoreError \<equiv> Research_Exn Exn_ExtractionCacheStoreError"
abbreviation AnalysisResultStoreError :: exn where
  "AnalysisResultStoreError \<equiv> Research_Exn Exn_AnalysisResultStoreError"
abbreviation OpportunityEventStoreError :: exn where
  "OpportunityEventStoreError \<equiv> Research_Exn Exn_OpportunityEventStoreError"
abbreviation OpportunityEventTrackerError :: exn where
  "OpportunityEventTrackerError \<equiv> Research_Exn Exn_OpportunityEventTrackerError"
abbreviation MaterialityCycleError :: exn where "MaterialityCycleError \<equiv> Research_Exn Exn_MaterialityCycleError"
abbreviation EdgarCollectorError :: exn where "EdgarCollectorError \<equiv> Research_Exn Exn_EdgarCollectorError"
abbreviation AnalysisPromptError :: exn where "AnalysisPromptError \<equiv> Research_Exn Exn_AnalysisPromptError"
abbreviation AnalysisError :: exn where "AnalysisError \<equiv> Research_Exn Exn_AnalysisError"
abbreviation BudgetExceeded :: exn where "BudgetExceeded \<equiv> Research_Exn Exn_BudgetExceeded"
abbreviation AnalysisRefused :: exn where "AnalysisRefused \<equiv> Research_Exn Exn_AnalysisRefused"
abbreviation MalformedResponse :: exn where "MalformedResponse \<equiv> Research_Exn Exn_MalformedResponse"
abbreviation AnalysisTriggerError :: exn where "AnalysisTriggerError \<equiv> Research_Exn Exn_AnalysisTriggerError"
abbreviation MarketDataInputError :: exn where "MarketDataInputError \<equiv> Research_Exn Exn_MarketDataInputError"
abbreviation MarketDataFetchError :: exn where "MarketDataFetchError \<equiv> Research_Exn Exn_MarketDataFetchError"
abbreviation NewsCollectorError :: exn where "NewsCollectorError \<equiv> Research_Exn Exn_NewsCollectorError"
abbreviation AlpacaMarketDataError :: exn where "AlpacaMarketDataError \<equiv> Research_Exn Exn_AlpacaMarketDataError"
abbreviation MaterialityInputError :: "string \<Rightarrow> exn" where
  "MaterialityInputError a \<equiv> Research_Exn (Exn_MaterialityInputError a)"

lemmas exn_splits = exn.splits trade_exn.splits approval_exn.splits broker_exn.splits ledger_exn.splits
  system_exn.splits execution_exn.splits research_exn.splits

type_synonym 'a result = "exn + 'a"

definition bindE :: "'a result \<Rightarrow> ('a \<Rightarrow> 'b result) \<Rightarrow> 'b result" where
  "bindE m f = (case m of Inl e \<Rightarrow> Inl e | Inr x \<Rightarrow> f x)"

definition guardE :: "bool \<Rightarrow> exn \<Rightarrow> unit result" where
  "guardE ok e = (if ok then Inr () else Inl e)"

fun foldE :: "('s \<Rightarrow> 'a \<Rightarrow> 's result) \<Rightarrow> 's \<Rightarrow> 'a list \<Rightarrow> 's result" where
  "foldE f s [] = Inr s"
| "foldE f s (x # xs) = bindE (f s x) (\<lambda>s'. foldE f s' xs)"

definition is_ok :: "'a result \<Rightarrow> bool" where
  "is_ok m \<longleftrightarrow> (case m of Inl _ \<Rightarrow> False | Inr _ \<Rightarrow> True)"

lemma bindE_Inl [simp, result_simps]: "bindE (Inl e) f = Inl e"
  and bindE_Inr [simp, result_simps]: "bindE (Inr x) f = f x"
  by (simp_all add: bindE_def)

lemma bindE_cong [fundef_cong]:
  "m = m' \<Longrightarrow> (\<And>x. m' = Inr x \<Longrightarrow> f x = f' x) \<Longrightarrow> bindE m f = bindE m' f'"
  by (cases m') auto

lemma bindE_eq_Inr [result_simps]:
  "bindE m f = Inr y \<longleftrightarrow> (\<exists>x. m = Inr x \<and> f x = Inr y)"
  by (cases m) auto

lemma bindE_eq_Inl:
  "bindE m f = Inl e \<longleftrightarrow> m = Inl e \<or> (\<exists>x. m = Inr x \<and> f x = Inl e)"
  by (cases m) auto

lemma guardE_eq_Inr [simp, result_simps]: "guardE ok e = Inr u \<longleftrightarrow> ok"
  by (simp add: guardE_def)

lemma guardE_eq_Inl [simp, result_simps]: "guardE ok e = Inl e' \<longleftrightarrow> \<not> ok \<and> e' = e"
  by (auto simp: guardE_def)

lemma guardE_True [simp]: "guardE True e = Inr ()"
  and guardE_False [simp]: "guardE False e = Inl e"
  by (simp_all add: guardE_def)

lemma is_ok_iff [result_simps]: "is_ok m \<longleftrightarrow> (\<exists>x. m = Inr x)"
  by (cases m) (auto simp: is_ok_def)

text \<open>An invariant that every step of a fold keeps holds of its result.\<close>

lemma foldE_invariant:
  assumes "foldE f s xs = Inr s'" and "P s"
    and "\<And>s x s'. x \<in> set xs \<Longrightarrow> P s \<Longrightarrow> f s x = Inr s' \<Longrightarrow> P s'"
  shows "P s'"
  using assms
proof (induction xs arbitrary: s)
  case Nil
  then show ?case by simp
next
  case (Cons x xs)
  then obtain t where t: "f s x = Inr t" "foldE f t xs = Inr s'"
    by (auto simp: bindE_eq_Inr)
  moreover have "P t" using Cons.prems(2,3) t(1) by (meson list.set_intros(1))
  ultimately show ?case using Cons.IH Cons.prems(3) by (meson list.set_intros(2))
qed

lemma foldE_append:
  "foldE f s (xs @ ys) = bindE (foldE f s xs) (\<lambda>s'. foldE f s' ys)"
proof (induction xs arbitrary: s)
  case (Cons x xs)
  then show ?case by (cases "f s x") auto
qed simp

subsection \<open>Dictionaries\<close>

text \<open>
  A Python dict keeps insertion order, and the program iterates over dicts where
  order is observable (the binding constraints of \<open>risk_constrain\<close>, the order of
  \<open>Ledger.lots\<close>). A dict is therefore an association list with distinct keys:
  \<open>map_of\<close> reads, \<open>AList.update\<close> overwrites in place or appends at the end,
  \<open>AList.delete\<close> deletes.
\<close>

type_synonym 'v dict = "(string \<times> 'v) list"

definition dict_get :: "'v dict \<Rightarrow> string \<Rightarrow> 'v \<Rightarrow> 'v" where
  "dict_get d k v0 = (case map_of d k of None \<Rightarrow> v0 | Some v \<Rightarrow> v)"

definition dict_ok :: "'v dict \<Rightarrow> bool" where
  "dict_ok d \<longleftrightarrow> distinct (map fst d)"

lemma map_of_update [simp, dict_simps]:
  "map_of (AList.update k v d) = (map_of d)(k \<mapsto> v)"
  by (simp add: update_conv')

lemma dict_get_update [simp, dict_simps]:
  "dict_get (AList.update k v d) k' v0 = (if k' = k then v else dict_get d k' v0)"
  by (simp add: dict_get_def)

lemma dict_ok_Nil [simp]: "dict_ok []"
  by (simp add: dict_ok_def)

lemma dict_ok_update [simp]: "dict_ok d \<Longrightarrow> dict_ok (AList.update k v d)"
  by (simp add: dict_ok_def distinct_update)

lemma update_mem: "(k', x) \<in> set (AList.update k v d) \<Longrightarrow> x = v \<or> (k', x) \<in> set d"
  by (induction d) (auto split: if_splits)

lemma update_absent: "map_of d k = None \<Longrightarrow> AList.update k v d = d @ [(k, v)]"
  by (induction d) (auto split: if_splits)

lemma length_update_le: "length (AList.update k v d) \<le> Suc (length d)"
  by (induction d) auto

lemma dict_ok_map_value [simp]: "dict_ok (map (\<lambda>(k, v). (k, f k v)) d) = dict_ok d"
  by (simp add: dict_ok_def case_prod_unfold comp_def)

lemma dict_ok_filter [simp]: "dict_ok d \<Longrightarrow> dict_ok (filter P d)"
  by (simp add: dict_ok_def distinct_map_filter)

lemma map_of_SomeD_dict: "map_of d k = Some v \<Longrightarrow> (k, v) \<in> set d"
  by (rule map_of_SomeD)

lemma dict_mem: "dict_ok d \<Longrightarrow> (k, v) \<in> set d \<longleftrightarrow> map_of d k = Some v"
  by (simp add: dict_ok_def)

subsection \<open>ASCII case folding\<close>

definition upper_char :: "char \<Rightarrow> char" where
  "upper_char c = (let n = (of_char c :: nat)
                   in if 97 \<le> n \<and> n \<le> 122 then char_of (n - 32) else c)"

definition upper :: "string \<Rightarrow> string" where
  "upper s = map upper_char s"

lemma upper_char_idem [simp]: "upper_char (upper_char c) = upper_char c"
proof (cases "97 \<le> (of_char c :: nat) \<and> (of_char c :: nat) \<le> 122")
  case True
  then have "(of_char c :: nat) - 32 < 256" by linarith
  then have "(of_char (char_of ((of_char c :: nat) - 32) :: char) :: nat) = of_char c - 32"
    by simp
  moreover from True have "\<not> 97 \<le> (of_char c :: nat) - 32" by linarith
  ultimately show ?thesis using True by (simp add: upper_char_def Let_def)
next
  case False
  then show ?thesis by (auto simp: upper_char_def Let_def)
qed

lemma upper_idem [simp]: "upper (upper s) = upper s"
  by (simp add: upper_def)

lemma upper_Nil [simp]: "upper s = [] \<longleftrightarrow> s = []"
  by (simp add: upper_def)

text \<open>The order-side and status literals of the program are upper case already.\<close>

lemma upper_literals [simp]:
  "upper ''BUY'' = ''BUY''" "upper ''SELL'' = ''SELL''" "upper ''CANCEL'' = ''CANCEL''"
  "upper ''CLOSE'' = ''CLOSE''" "upper ''REPLACE'' = ''REPLACE''"
  "upper ''LIMIT'' = ''LIMIT''" "upper ''DAY'' = ''DAY''" "upper ''SPY'' = ''SPY''"
  "upper ''SETTLED_CASH'' = ''SETTLED_CASH''" "upper ''REGULAR'' = ''REGULAR''"
  "upper ''US_EQUITY'' = ''US_EQUITY''" "upper ''buy'' = ''BUY''" "upper ''sell'' = ''SELL''"
  by code_simp+

end
