(* ===== verification/Policy.thy ===== *)
theory Policy
  imports Prelude
begin

text \<open>
  agent/policy.py: the trade-capability policy and the check that runs at all four gates.

  The tables of \<open>TradeCapabilityPolicy\<close> are dicts from upper-case values to statuses; an
  unlisted value is \<open>DISABLED\<close>. The keyword arguments \<open>**dimensions\<close> of \<open>check\<close> are the
  list of pairs in the order the caller wrote them.

  What the later gates rely on is the locale \<open>capability_gate\<close>: whether a check passes does
  not depend on the gate, live permission implies paper permission, and a refusal carries the
  gate it came from. It is interpreted for every policy.
\<close>

record capability_policy =
  cp_version :: string
  cp_asset_class :: "capability_status dict"
  cp_side :: "capability_status dict"
  cp_funding :: "capability_status dict"
  cp_order_type :: "capability_status dict"
  cp_session :: "capability_status dict"
  cp_time_in_force :: "capability_status dict"
  cp_symbol_blocklist :: "string list"

type_synonym dimensions = "(string \<times> string) list"

definition policy_table :: "capability_policy \<Rightarrow> string \<Rightarrow> capability_status dict option" where
  "policy_table p dn =
     (if dn = ''asset_class'' then Some (cp_asset_class p)
      else if dn = ''side'' then Some (cp_side p)
      else if dn = ''funding'' then Some (cp_funding p)
      else if dn = ''order_type'' then Some (cp_order_type p)
      else if dn = ''session'' then Some (cp_session p)
      else if dn = ''time_in_force'' then Some (cp_time_in_force p)
      else None)"

definition policy_status :: "capability_policy \<Rightarrow> string \<Rightarrow> string \<Rightarrow> capability_status result" where
  "policy_status p dn v =
     (case policy_table p dn of
        None \<Rightarrow> Inl (KeyError dn)
      | Some t \<Rightarrow> Inr (dict_get t (upper v) DISABLED))"

definition policy_required :: "bool \<Rightarrow> capability_status" where
  "policy_required live = (if live then APPROVAL_REQUIRED else PAPER_ONLY)"

fun check_dimensions ::
  "capability_policy \<Rightarrow> gate \<Rightarrow> capability_status \<Rightarrow> dimensions \<Rightarrow> unit result" where
  "check_dimensions p g least [] = Inr ()"
| "check_dimensions p g least ((dn, v) # ds) =
     (if policy_table p dn = None then Inl (KeyError dn)
      else bindE (policy_status p dn v) (\<lambda>st.
        if st < least then Inl (PolicyViolation g dn v st)
        else check_dimensions p g least ds))"

definition policy_check ::
  "capability_policy \<Rightarrow> gate \<Rightarrow> bool \<Rightarrow> string option \<Rightarrow> dimensions \<Rightarrow> unit result" where
  "policy_check p g live sy ds =
     (case sy of
        Some s \<Rightarrow> if s \<noteq> [] \<and> upper s \<in> set (cp_symbol_blocklist p)
                  then Inl (PolicyViolation g ''symbol'' s DISABLED)
                  else check_dimensions p g (policy_required live) ds
      | None \<Rightarrow> check_dimensions p g (policy_required live) ds)"

text \<open>\<open>allows\<close> catches \<open>PolicyViolation\<close> only; an unknown dimension still raises.\<close>

definition policy_allows ::
  "capability_policy \<Rightarrow> gate \<Rightarrow> bool \<Rightarrow> string option \<Rightarrow> dimensions \<Rightarrow> bool result" where
  "policy_allows p g live sy ds =
     (case policy_check p g live sy ds of
        Inr _ \<Rightarrow> Inr True
      | Inl (PolicyViolation _ _ _ _) \<Rightarrow> Inr False
      | Inl e \<Rightarrow> Inl e)"

definition initial_policy :: "string \<Rightarrow> capability_policy" where
  "initial_policy version =
     (let P = PRODUCTION_ALLOWED; D = DISABLED; PO = PAPER_ONLY in
      \<lparr> cp_version = version,
        cp_asset_class = [(''US_EQUITY'', P), (''ETF'', P), (''OPTIONS'', D), (''CRYPTO'', D),
          (''FUTURES'', D), (''FOREX'', D), (''OTC'', D), (''SHORT_SELLING'', D), (''MARGIN'', D)],
        cp_side = [(''BUY'', P), (''SELL'', P), (''SELL_SHORT'', D), (''BUY_TO_COVER'', D),
          (''CANCEL'', P), (''CLOSE'', P)],
        cp_funding = [(''SETTLED_CASH'', P), (''MARGIN'', D), (''UNSETTLED_CASH'', D)],
        cp_order_type = [(''LIMIT'', P), (''MARKET'', P), (''STOP'', P), (''STOP_LIMIT'', P),
          (''TRAILING_STOP'', PO)],
        cp_session = [(''REGULAR'', P), (''EXTENDED'', D), (''OVERNIGHT'', D)],
        cp_time_in_force = [(''DAY'', P), (''GTC'', D), (''IOC'', D), (''FOK'', D)],
        cp_symbol_blocklist = [] \<rparr>)"

subsection \<open>When a check passes\<close>

text \<open>A dimension value passes if the dimension exists and its status reaches the floor.\<close>

definition dimension_ok :: "capability_policy \<Rightarrow> bool \<Rightarrow> string \<times> string \<Rightarrow> bool" where
  "dimension_ok p live dv =
     (case policy_table p (fst dv) of
        None \<Rightarrow> False
      | Some t \<Rightarrow> policy_required live \<le> dict_get t (upper (snd dv)) DISABLED)"

definition symbol_ok :: "capability_policy \<Rightarrow> string option \<Rightarrow> bool" where
  "symbol_ok p sy = (case sy of None \<Rightarrow> True
     | Some s \<Rightarrow> s = [] \<or> upper s \<notin> set (cp_symbol_blocklist p))"

lemma check_dimensions_ok:
  "check_dimensions p g (policy_required live) ds = Inr u \<longleftrightarrow> (\<forall>dv \<in> set ds. dimension_ok p live dv)"
  by (induction p g "policy_required live" ds rule: check_dimensions.induct)
     (auto simp: dimension_ok_def policy_status_def not_less split: option.splits)

lemma policy_check_ok:
  "policy_check p g live sy ds = Inr u \<longleftrightarrow>
   symbol_ok p sy \<and> (\<forall>dv \<in> set ds. dimension_ok p live dv)"
  by (auto simp: policy_check_def symbol_ok_def check_dimensions_ok split: option.splits)

lemma policy_required_mono: "policy_required False \<le> policy_required live"
  by (cases live) (auto simp: policy_required_def less_eq_capability_status_def)

lemma dimension_ok_paper: "dimension_ok p True dv \<Longrightarrow> dimension_ok p live dv"
  using policy_required_mono [of True]
  by (cases live) (auto simp: dimension_ok_def split: option.splits intro: order_trans)

text \<open>A check of known dimensions can only raise \<open>PolicyViolation\<close>, and at its own gate.\<close>

definition known_dimensions :: "dimensions \<Rightarrow> bool" where
  "known_dimensions ds \<longleftrightarrow> set (map fst ds) \<subseteq>
     {''asset_class'', ''side'', ''funding'', ''order_type'', ''session'', ''time_in_force''}"

lemma known_dimensions_table:
  "known_dimensions ds \<Longrightarrow> (d, v) \<in> set ds \<Longrightarrow> \<exists>t. policy_table p d = Some t"
  by (force simp: known_dimensions_def policy_table_def)

lemma check_dimensions_error:
  "known_dimensions ds \<Longrightarrow> check_dimensions p g least ds = Inl e \<Longrightarrow>
   \<exists>d v st. e = PolicyViolation g d v st"
proof (induction p g least ds rule: check_dimensions.induct)
  case (2 p g least dn v ds)
  then obtain t where "policy_table p dn = Some t"
    using known_dimensions_table [of "(dn, v) # ds" dn v p] by auto
  with 2 show ?case
    by (auto simp: policy_status_def known_dimensions_def split: if_splits)
qed simp

lemma policy_check_error:
  "known_dimensions ds \<Longrightarrow> policy_check p g live sy ds = Inl e \<Longrightarrow>
   \<exists>d v st. e = PolicyViolation g d v st"
  by (auto simp: policy_check_def dest: check_dimensions_error split: option.splits if_splits)

subsection \<open>The contract the gates rely on\<close>

locale capability_gate =
  fixes check :: "gate \<Rightarrow> bool \<Rightarrow> string option \<Rightarrow> dimensions \<Rightarrow> unit result"
  assumes check_gate: "check g live sy ds = Inr u \<longleftrightarrow> check g' live sy ds = Inr u"
    and check_live: "check g True sy ds = Inr u \<Longrightarrow> check g False sy ds = Inr u"
    and check_error: "known_dimensions ds \<Longrightarrow> check g live sy ds = Inl e \<Longrightarrow>
          \<exists>d v st. e = PolicyViolation g d v st"
    and check_subset: "check g live sy ds = Inr u \<Longrightarrow> set ds' \<subseteq> set ds \<Longrightarrow> check g live sy ds' = Inr u"
begin

text \<open>A later gate that re-checks the same order repeats the earlier answer.\<close>

lemma recheck: "check g live sy ds = Inr () \<Longrightarrow> check g' live sy ds = Inr ()"
  using check_gate by blast

lemma recheck_weaker: "check g live sy ds = Inr () \<Longrightarrow> check g' False sy ds = Inr ()"
  by (cases live) (auto intro: recheck check_live)

lemma recheck_reordered:
  "check g live sy ds = Inr () \<Longrightarrow> set ds' \<subseteq> set ds \<Longrightarrow> check g' live sy ds' = Inr ()"
  by (blast intro: recheck check_subset)

end

interpretation policy: capability_gate "policy_check p" for p
  by unfold_locales
     (auto simp: policy_check_ok intro: dimension_ok_paper dest: policy_check_error)

lemma policy_allows_iff:
  "known_dimensions ds \<Longrightarrow>
   policy_allows p g live sy ds = Inr (symbol_ok p sy \<and> (\<forall>dv \<in> set ds. dimension_ok p live dv))"
proof -
  assume k: "known_dimensions ds"
  show ?thesis
  proof (cases "policy_check p g live sy ds")
    case (Inl e)
    then obtain d v st where "e = PolicyViolation g d v st" using policy_check_error [OF k] by blast
    with Inl policy_check_ok [of p g live sy ds "()"] show ?thesis by (auto simp: policy_allows_def)
  next
    case (Inr u)
    with policy_check_ok [of p g live sy ds u] show ?thesis by (auto simp: policy_allows_def)
  qed
qed

subsection \<open>Properties\<close>

text \<open>
  The four-gate check is default-deny and gate-independent: at any gate it passes exactly
  when the symbol is not blocklisted and every supplied dimension is a known one whose status,
  \<open>DISABLED\<close> for a value the policy does not list, reaches \<open>APPROVAL_REQUIRED\<close> in live mode
  and \<open>PAPER_ONLY\<close> otherwise.
\<close>
theorem policy_check_passes_iff:
  "policy_check p g live (Some sy) ds = Inr () \<longleftrightarrow>
   \<not> (sy \<noteq> [] \<and> upper sy \<in> set (cp_symbol_blocklist p)) \<and>
   set ds \<subseteq> {(d, v). \<exists>t. policy_table p d = Some t
      \<and> (if live then APPROVAL_REQUIRED else PAPER_ONLY) \<le> dict_get t (upper v) DISABLED}"
  by (force simp: policy_check_ok symbol_ok_def dimension_ok_def policy_required_def
      split: option.splits)

text \<open>
  Under the initial policy a live order passes a gate exactly when it is a US equity or ETF,
  one of BUY, SELL, CANCEL, CLOSE, funded by settled cash, of type LIMIT, MARKET, STOP or
  STOP_LIMIT, in the regular session and good for the day; everything else is refused.
\<close>
theorem initial_policy_live_boundary:
  "policy_check (initial_policy v) g True (Some sy)
     [(''asset_class'', ac), (''side'', sd), (''funding'', fu), (''order_type'', ot),
      (''session'', se), (''time_in_force'', tif)] = Inr () \<longleftrightarrow>
   upper ac \<in> {''US_EQUITY'', ''ETF''} \<and> upper sd \<in> {''BUY'', ''SELL'', ''CANCEL'', ''CLOSE''} \<and>
   upper fu = ''SETTLED_CASH'' \<and> upper ot \<in> {''LIMIT'', ''MARKET'', ''STOP'', ''STOP_LIMIT''} \<and>
   upper se = ''REGULAR'' \<and> upper tif = ''DAY''"
proof -
  let ?p = "initial_policy v"
  have "dimension_ok ?p True (''asset_class'', ac) \<longleftrightarrow> upper ac \<in> {''US_EQUITY'', ''ETF''}"
    "dimension_ok ?p True (''side'', sd) \<longleftrightarrow> upper sd \<in> {''BUY'', ''SELL'', ''CANCEL'', ''CLOSE''}"
    "dimension_ok ?p True (''funding'', fu) \<longleftrightarrow> upper fu = ''SETTLED_CASH''"
    "dimension_ok ?p True (''order_type'', ot) \<longleftrightarrow> upper ot \<in> {''LIMIT'', ''MARKET'', ''STOP'', ''STOP_LIMIT''}"
    "dimension_ok ?p True (''session'', se) \<longleftrightarrow> upper se = ''REGULAR''"
    "dimension_ok ?p True (''time_in_force'', tif) \<longleftrightarrow> upper tif = ''DAY''"
    by (auto simp: dimension_ok_def policy_table_def initial_policy_def Let_def dict_get_def
        policy_required_def less_eq_capability_status_def split: if_splits)
  moreover have "symbol_ok ?p (Some sy)"
    by (simp add: symbol_ok_def initial_policy_def Let_def)
  ultimately show ?thesis by (simp add: policy_check_ok)
qed

end
