(* ===== verification/PyNum.thy ===== *)
theory PyNum
  imports Prelude
begin

text \<open>
  Python's two inexact number types, executable on rationals.

  \<^item> A \<open>float\<close> is a rational number; every operation rounds its exact result to
    the nearest value with a 53-bit significand, ties to even (\<open>fl\<close>).
  \<^item> A \<open>decimal.Decimal\<close> is a rational number; every arithmetic operation rounds
    its exact result to 28 significant decimal digits, ties to even (\<open>dec\<close>), which is
    Python's default decimal context. Constructing a Decimal does not round.

  Both are instances of \<open>round_sig b p\<close>: base \<open>b\<close>, \<open>p\<close> digits. The exponent range is
  unbounded: overflow to infinity, underflow to subnormals, NaN and signed zeros are not
  modelled. The locale \<open>rounding\<close> states what the components use of such a rounding
  (monotone, odd, idempotent, small relative error) and proves the consequences once;
  it is interpreted for \<open>fl\<close> and for \<open>dec\<close>.
\<close>

named_theorems num_simps \<open>exactness of rounded arithmetic on representable values\<close>

type_synonym pyfloat = rat
type_synonym decimal = rat

subsection \<open>Round half to even\<close>

definition rhe :: "rat \<Rightarrow> int" where
  "rhe x = (let f = \<lfloor>x\<rfloor>; d = x - of_int f
            in if d < 1/2 then f else if d > 1/2 then f + 1
               else if even f then f else f + 1)"

lemma rhe_of_int [simp]: "rhe (of_int n) = n"
  by (simp add: rhe_def Let_def)

lemma rhe_near: "\<bar>of_int (rhe x) - x\<bar> \<le> 1/2"
proof -
  have "of_int \<lfloor>x\<rfloor> \<le> x" "x < of_int \<lfloor>x\<rfloor> + 1" by linarith+
  then show ?thesis by (auto simp: rhe_def Let_def abs_le_iff)
qed

lemma rhe_mono: assumes "x \<le> y" shows "rhe x \<le> rhe y"
proof (cases "\<lfloor>x\<rfloor> = \<lfloor>y\<rfloor>")
  case True
  with assms show ?thesis by (auto simp: rhe_def Let_def)
next
  case False
  moreover have "\<lfloor>x\<rfloor> \<le> \<lfloor>y\<rfloor>" using assms by (rule floor_mono)
  ultimately have "\<lfloor>x\<rfloor> + 1 \<le> \<lfloor>y\<rfloor>" by simp
  moreover have "rhe x \<le> \<lfloor>x\<rfloor> + 1" "\<lfloor>y\<rfloor> \<le> rhe y" by (auto simp: rhe_def Let_def)
  ultimately show ?thesis by linarith
qed

lemma rhe_nonneg: "0 \<le> x \<Longrightarrow> 0 \<le> rhe x"
  using rhe_mono [of 0 x] rhe_of_int [of 0] by simp

lemma rhe_ge_int: "of_int n \<le> x \<Longrightarrow> n \<le> rhe x"
  using rhe_mono [of "of_int n" x] by simp

lemma rhe_le_int: "x \<le> of_int n \<Longrightarrow> rhe x \<le> n"
  using rhe_mono [of x "of_int n"] by simp

subsection \<open>Rounding to \<open>p\<close> significant digits in base \<open>b\<close>\<close>

text \<open>
  The unit in the last place of \<open>x > 0\<close> is the power \<open>s\<close> of the base with
  \<open>b ^ (p - 1) \<le> x / s < b ^ p\<close>. It is searched upwards from 1 and then downwards.
\<close>

lemma floor_div_less:
  fixes a b :: rat
  assumes a: "1 \<le> a" and b: "2 \<le> b"
  shows "nat \<lfloor>a / b\<rfloor> < nat \<lfloor>a\<rfloor>"
proof -
  have "a / b \<le> a / 2" by (rule divide_left_mono) (use a b in auto)
  then have le: "\<lfloor>a / b\<rfloor> \<le> \<lfloor>a / 2\<rfloor>" by (rule floor_mono)
  have one: "1 \<le> \<lfloor>a\<rfloor>" using a by simp
  have "a < of_int \<lfloor>a\<rfloor> + 1" by linarith
  moreover have "(1::rat) \<le> of_int \<lfloor>a\<rfloor>" using one by linarith
  ultimately have "a / 2 < of_int \<lfloor>a\<rfloor>" by linarith
  then have "\<lfloor>a / 2\<rfloor> < \<lfloor>a\<rfloor>" by (simp add: floor_less_iff)
  with le one show ?thesis by linarith
qed

function ulp_up :: "rat \<Rightarrow> nat \<Rightarrow> rat \<Rightarrow> rat \<Rightarrow> rat" where
  "ulp_up b p x s =
     (if 2 \<le> b \<and> 0 < s \<and> b ^ p * s \<le> x then ulp_up b p x (s * b) else s)"
  by pat_completeness auto
termination
proof (relation "measure (\<lambda>(b, p, x, s). nat \<lfloor>x / s\<rfloor>)", goal_cases)
  case (2 b p x s)
  then have h: "2 \<le> b" "0 < s" "b ^ p * s \<le> x" by simp_all
  have "1 \<le> b ^ p" by (rule one_le_power) (use h in simp)
  then have "1 * s \<le> b ^ p * s" by (rule mult_right_mono) (use h in simp)
  with h(3) have "1 * s \<le> x" by linarith
  with h(2) have "1 \<le> x / s" by (simp add: le_divide_eq)
  from floor_div_less [OF this h(1)] show ?case by (simp add: mult.commute)
qed simp

function ulp_down :: "rat \<Rightarrow> nat \<Rightarrow> rat \<Rightarrow> rat \<Rightarrow> rat" where
  "ulp_down b p x s =
     (if 2 \<le> b \<and> 0 < x \<and> x < b ^ (p - 1) * s then ulp_down b p x (s / b) else s)"
  by pat_completeness auto
termination
proof (relation "measure (\<lambda>(b, p, x, s). nat \<lfloor>b ^ (p - 1) * s / x\<rfloor>)", goal_cases)
  case (2 b p x s)
  then have "1 \<le> b ^ (p - 1) * s / x" by (simp add: le_divide_eq)
  from floor_div_less [OF this, of b] 2 show ?case by (simp add: mult.commute)
qed simp

declare ulp_up.simps [simp del] ulp_down.simps [simp del]

definition ulp_of :: "rat \<Rightarrow> nat \<Rightarrow> rat \<Rightarrow> rat" where
  "ulp_of b p x = ulp_down b p x (ulp_up b p x 1)"

definition round_sig :: "nat \<Rightarrow> nat \<Rightarrow> rat \<Rightarrow> rat" where
  "round_sig b p x =
     (if x = 0 then 0
      else let s = ulp_of (of_nat b) p \<bar>x\<bar> in sgn x * (of_int (rhe (\<bar>x\<bar> / s)) * s))"

definition fl :: "rat \<Rightarrow> pyfloat" where "fl = round_sig 2 53"
definition dec :: "rat \<Rightarrow> decimal" where "dec = round_sig 10 28"

lemma ulp_up_spec:
  assumes "2 \<le> b" and "s = b powi e"
  shows "\<exists>e'. ulp_up b p x s = b powi e' \<and> x < b ^ p * b powi e'"
  using assms
proof (induction b p x s arbitrary: e rule: ulp_up.induct)
  case (1 b p x s)
  have pos: "0 < s" using "1.prems" by (simp add: zero_less_power_int)
  show ?case
  proof (cases "b ^ p * s \<le> x")
    case True
    have "s * b = b powi (e + 1)" using "1.prems" by (simp add: power_int_add)
    moreover have "ulp_up b p x s = ulp_up b p x (s * b)"
      using True pos "1.prems"(1) by (subst ulp_up.simps) simp
    ultimately show ?thesis using "1.IH" [of "e + 1"] True pos "1.prems"(1) by metis
  next
    case False
    then have "ulp_up b p x s = s" by (subst ulp_up.simps) simp
    with False "1.prems" show ?thesis by (intro exI [of _ e]) auto
  qed
qed

lemma ulp_down_spec:
  assumes "2 \<le> b" and "1 \<le> p" and "0 < x" and "s = b powi e" and "x < b ^ p * s"
  shows "\<exists>e'. ulp_down b p x s = b powi e' \<and> b ^ (p - 1) * b powi e' \<le> x \<and> x < b ^ p * b powi e'"
  using assms
proof (induction b p x s arbitrary: e rule: ulp_down.induct)
  case (1 b p x s)
  show ?case
  proof (cases "x < b ^ (p - 1) * s")
    case True
    have "s / b = b powi (e - 1)" using "1.prems" by (simp add: power_int_diff)
    moreover have "b ^ p * (s / b) = b ^ (p - 1) * s"
      using "1.prems" by (cases p) simp_all
    moreover have "ulp_down b p x s = ulp_down b p x (s / b)"
      using True "1.prems"(1,3) by (subst ulp_down.simps) simp
    ultimately show ?thesis using "1.IH" [of "e - 1"] True "1.prems"(1-3) by metis
  next
    case False
    then have "ulp_down b p x s = s" by (subst ulp_down.simps) simp
    with False "1.prems" show ?thesis by (intro exI [of _ e]) auto
  qed
qed

lemma ulp_of_spec:
  assumes "2 \<le> b" and "1 \<le> p" and "0 < x"
  obtains e where "ulp_of b p x = b powi e"
    and "b ^ (p - 1) * b powi e \<le> x" and "x < b ^ p * b powi e"
proof -
  obtain e0 where e0: "ulp_up b p x 1 = b powi e0" "x < b ^ p * b powi e0"
    using ulp_up_spec [OF assms(1), of 1 0 p x] by auto
  from ulp_down_spec [OF assms e0(1)] e0 show ?thesis
    using that by (auto simp: ulp_of_def)
qed

text \<open>Rounding a positive value: the result keeps the binade (or decade) of its argument.\<close>

definition round_pos :: "nat \<Rightarrow> nat \<Rightarrow> rat \<Rightarrow> rat" where
  "round_pos b p x = (let s = ulp_of (of_nat b) p x in of_int (rhe (x / s)) * s)"

lemma round_sig_pos: "0 < x \<Longrightarrow> round_sig b p x = round_pos b p x"
  by (simp add: round_sig_def round_pos_def)

lemma round_sig_uminus: "round_sig b p (- x) = - round_sig b p x"
  by (simp add: round_sig_def sgn_minus Let_def)

lemma round_sig_0 [simp]: "round_sig b p 0 = 0"
  by (simp add: round_sig_def)

lemma round_pos_bounds:
  assumes "2 \<le> b" and "1 \<le> p" and "0 < x"
  obtains e where "ulp_of (of_nat b) p x = of_nat b powi e"
    and "of_nat b ^ (p - 1) * of_nat b powi e \<le> x" and "x < of_nat b ^ p * of_nat b powi e"
    and "of_nat b ^ (p - 1) * of_nat b powi e \<le> round_pos b p x"
    and "round_pos b p x \<le> of_nat b ^ p * of_nat b powi e"
    and "round_pos b p x = of_int (rhe (x / of_nat b powi e)) * of_nat b powi e"
proof -
  have b: "(2::rat) \<le> of_nat b" using assms(1) by simp
  obtain e where e: "ulp_of (of_nat b) p x = of_nat b powi e"
    "of_nat b ^ (p - 1) * of_nat b powi e \<le> x" "x < of_nat b ^ p * of_nat b powi e"
    by (rule ulp_of_spec [OF b assms(2,3)])
  have s: "0 < (of_nat b powi e :: rat)" using b by (simp add: zero_less_power_int)
  have "of_int (int b ^ (p - 1)) \<le> x / of_nat b powi e" using e s by (simp add: le_divide_eq)
  then have lo: "int b ^ (p - 1) \<le> rhe (x / of_nat b powi e)" by (rule rhe_ge_int)
  have "x / of_nat b powi e \<le> of_int (int b ^ p)" using e s by (simp add: divide_le_eq)
  then have hi: "rhe (x / of_nat b powi e) \<le> int b ^ p" by (rule rhe_le_int)
  have "of_int (int b ^ (p - 1)) \<le> (of_int (rhe (x / of_nat b powi e)) :: rat)"
    and "(of_int (rhe (x / of_nat b powi e)) :: rat) \<le> of_int (int b ^ p)"
    using lo hi by (simp_all only: of_int_le_iff)
  with e s show ?thesis
    by (intro that [of e]) (simp_all add: round_pos_def Let_def)
qed

lemma round_pos_mono:
  assumes b: "2 \<le> b" and p: "1 \<le> p" and x: "0 < x" and "x \<le> y"
  shows "round_pos b p x \<le> round_pos b p y"
proof -
  have y: "0 < y" using x \<open>x \<le> y\<close> by linarith
  have B: "(1::rat) < of_nat b" using b by simp
  obtain e where e: "of_nat b ^ (p - 1) * of_nat b powi e \<le> x"
    "round_pos b p x \<le> of_nat b ^ p * of_nat b powi e"
    "round_pos b p x = of_int (rhe (x / of_nat b powi e)) * of_nat b powi e"
    by (rule round_pos_bounds [OF b p x])
  obtain f where f: "y < of_nat b ^ p * of_nat b powi f"
    "of_nat b ^ (p - 1) * of_nat b powi f \<le> round_pos b p y"
    "round_pos b p y = of_int (rhe (y / of_nat b powi f)) * of_nat b powi f"
    by (rule round_pos_bounds [OF b p y])
  have split_p: "(of_nat b ^ p :: rat) = of_nat b * of_nat b ^ (p - 1)" using p by (cases p) simp_all
  have step: "of_nat b ^ p * of_nat b powi g = of_nat b ^ (p - 1) * (of_nat b powi (g + 1) :: rat)" for g
    using B by (simp add: split_p power_int_add)
  have "of_nat b ^ (p - 1) * of_nat b powi e < of_nat b ^ (p - 1) * (of_nat b powi (f + 1) :: rat)"
    using e(1) f(1) \<open>x \<le> y\<close> step [of f] by linarith
  then have "(of_nat b powi e :: rat) < of_nat b powi (f + 1)" using B by simp
  moreover have "(of_nat b powi (f + 1) :: rat) \<le> of_nat b powi e" if "f + 1 \<le> e"
    using that B by (intro power_int_increasing) auto
  ultimately have "e < f + 1" by fastforce
  then consider "e = f" | "e + 1 \<le> f" by linarith
  then show ?thesis
  proof cases
    case 1
    have s: "0 < (of_nat b powi f :: rat)" using B by (simp add: zero_less_power_int)
    have "x / of_nat b powi f \<le> y / of_nat b powi f" using \<open>x \<le> y\<close> s by (simp add: divide_right_mono)
    from rhe_mono [OF this] show ?thesis using e(3) f(3) 1 s by (simp add: mult_right_mono)
  next
    case 2
    then have "(of_nat b powi (e + 1) :: rat) \<le> of_nat b powi f"
      using B by (simp add: power_int_increasing)
    then have "of_nat b ^ (p - 1) * (of_nat b powi (e + 1) :: rat) \<le> of_nat b ^ (p - 1) * of_nat b powi f"
      by (rule mult_left_mono) simp
    with step [of e] e(2) f(2) show ?thesis by linarith
  qed
qed

lemma round_pos_pos:
  assumes "2 \<le> b" and "1 \<le> p" and "0 < x"
  shows "0 < round_pos b p x"
proof -
  obtain e where "of_nat b ^ (p - 1) * of_nat b powi e \<le> round_pos b p x"
    by (rule round_pos_bounds [OF assms])
  moreover have "0 < of_nat b ^ (p - 1) * (of_nat b powi e :: rat)"
    using assms(1) by (simp add: zero_less_power_int)
  ultimately show ?thesis by linarith
qed

lemma round_sig_mono:
  assumes b: "2 \<le> b" and p: "1 \<le> p" and "x \<le> y"
  shows "round_sig b p x \<le> round_sig b p y"
proof -
  have nn: "0 \<le> round_sig b p z" if "0 \<le> z" for z
    using that round_pos_pos [OF b p, of z] by (cases "z = 0") (auto simp: round_sig_pos less_imp_le)
  consider "0 < x" | "x \<le> 0" "0 \<le> y" | "y < 0" by linarith
  then show ?thesis
  proof cases
    case 1
    with \<open>x \<le> y\<close> round_pos_mono [OF b p 1, of y] show ?thesis by (simp add: round_sig_pos)
  next
    case 2
    then show ?thesis using nn [of "- x"] nn [of y] by (simp add: round_sig_uminus)
  next
    case 3
    with \<open>x \<le> y\<close> round_pos_mono [OF b p, of "- y" "- x"] have
      "round_sig b p (- y) \<le> round_sig b p (- x)" by (simp add: round_sig_pos)
    then show ?thesis by (simp add: round_sig_uminus)
  qed
qed

lemma round_pos_error:
  assumes "2 \<le> b" and "1 \<le> p" and "0 < x"
  shows "\<bar>round_pos b p x - x\<bar> \<le> x / (2 * of_nat b ^ (p - 1))"
proof -
  obtain e where e: "of_nat b ^ (p - 1) * of_nat b powi e \<le> x"
    "round_pos b p x = of_int (rhe (x / of_nat b powi e)) * of_nat b powi e"
    by (rule round_pos_bounds [OF assms])
  define s :: rat where "s = of_nat b powi e"
  have s: "0 < s" using assms(1) by (simp add: s_def zero_less_power_int)
  have B: "0 < (of_nat b ^ (p - 1) :: rat)" using assms(1) by simp
  have "round_pos b p x - x = (of_int (rhe (x / s)) - x / s) * s"
    using s e(2) by (simp add: left_diff_distrib flip: s_def)
  then have "\<bar>round_pos b p x - x\<bar> = \<bar>of_int (rhe (x / s)) - x / s\<bar> * s"
    using s by (simp add: abs_mult)
  also have "\<dots> \<le> 1/2 * s" using rhe_near s by (intro mult_right_mono) auto
  also have "\<dots> \<le> x / (2 * of_nat b ^ (p - 1))"
    using e(1) B by (simp add: s_def field_simps)
  finally show ?thesis .
qed

lemma round_sig_error:
  assumes "2 \<le> b" and "1 \<le> p"
  shows "\<bar>round_sig b p x - x\<bar> \<le> 1 / (2 * of_nat b ^ (p - 1)) * \<bar>x\<bar>"
proof -
  consider "0 < x" | "x = 0" | "0 < - x" by linarith
  then show ?thesis
  proof cases
    case 1
    with round_pos_error [OF assms 1] show ?thesis by (simp add: round_sig_pos)
  next
    case 3
    have "\<bar>round_sig b p x - x\<bar> = \<bar>round_sig b p (- x) - (- x)\<bar>"
      by (simp add: round_sig_uminus abs_minus_commute)
    with 3 round_pos_error [OF assms 3] show ?thesis by (simp add: round_sig_pos)
  qed simp
qed

text \<open>A value with at most \<open>p\<close> digits is represented exactly.\<close>

lemma round_pos_exact:
  assumes b: "2 \<le> b" and p: "1 \<le> p" and n: "0 < n" "n \<le> int b ^ p"
    and x: "x = of_int n * of_nat b powi g"
  shows "round_pos b p x = x"
proof -
  have B: "(1::rat) < of_nat b" using b by simp
  have pw: "0 < (of_nat b powi k :: rat)" for k using B by (simp add: zero_less_power_int)
  have x0: "0 < x" using n(1) pw x by simp
  obtain e where e: "of_nat b ^ (p - 1) * of_nat b powi e \<le> x"
    "round_pos b p x = of_int (rhe (x / of_nat b powi e)) * of_nat b powi e"
    by (rule round_pos_bounds [OF b p x0])
  have "\<exists>m::int. x / of_nat b powi e = of_int m"
  proof (cases "e \<le> g")
    case True
    then obtain k where k: "g = e + int k" using zle_iff_zadd by auto
    have "x / of_nat b powi e = of_int (n * int b ^ k)"
      using pw [of e] B by (simp add: x k power_int_add)
    then show ?thesis by blast
  next
    case False
    have "of_int n \<le> (of_int (int b ^ p) :: rat)" using n(2) by (simp only: of_int_le_iff)
    then have "x \<le> of_nat b ^ p * of_nat b powi g" using pw [of g] by (simp add: x)
    moreover have "of_nat b ^ p * of_nat b powi g = of_nat b ^ (p - 1) * (of_nat b powi (g + 1) :: rat)"
      using B p by (cases p) (simp_all add: power_int_add)
    moreover have "of_nat b ^ (p - 1) * (of_nat b powi (g + 1) :: rat) \<le> of_nat b ^ (p - 1) * of_nat b powi e"
      using False B by (intro mult_left_mono power_int_increasing) auto
    ultimately have "x = of_nat b ^ (p - 1) * of_nat b powi e" using e(1) by linarith
    then have "x / of_nat b powi e = of_int (int b ^ (p - 1))" using pw [of e] b by simp
    then show ?thesis by blast
  qed
  then obtain m :: int where m: "x / of_nat b powi e = of_int m" by blast
  then have "x = of_int m * of_nat b powi e"
    using pw [of e] by (metis less_irrefl nonzero_divide_eq_eq)
  with e(2) m show ?thesis by simp
qed

lemma round_sig_exact:
  assumes b: "2 \<le> b" and p: "1 \<le> p" and n: "\<bar>n\<bar> \<le> int b ^ p"
  shows "round_sig b p (of_int n * of_nat b powi g) = of_int n * of_nat b powi g"
proof -
  have pw: "0 < (of_nat b powi g :: rat)" using b by (simp add: zero_less_power_int)
  consider "0 < n" | "n = 0" | "0 < - n" by linarith
  then show ?thesis
  proof cases
    case 1
    with round_pos_exact [OF b p 1 _ refl, of g] n pw show ?thesis by (simp add: round_sig_pos)
  next
    case 3
    have "round_sig b p (of_int (- n) * of_nat b powi g) = of_int (- n) * of_nat b powi g"
      using round_pos_exact [OF b p 3 _ refl, of g] n pw 3
      by (simp only: round_sig_pos mult_pos_pos of_int_0_less_iff abs_le_iff)
    then show ?thesis by (simp add: round_sig_uminus)
  qed simp
qed

lemma round_sig_idem:
  assumes b: "2 \<le> b" and p: "1 \<le> p"
  shows "round_sig b p (round_sig b p x) = round_sig b p x"
proof -
  have pos: "round_sig b p (round_sig b p y) = round_sig b p y" if y: "0 < y" for y
  proof -
    obtain e where e: "round_pos b p y \<le> of_nat b ^ p * of_nat b powi e"
      "round_pos b p y = of_int (rhe (y / of_nat b powi e)) * of_nat b powi e"
      by (rule round_pos_bounds [OF b p y])
    have pw: "0 < (of_nat b powi e :: rat)" using b by (simp add: zero_less_power_int)
    have "of_int (rhe (y / of_nat b powi e)) \<le> (of_int (int b ^ p) :: rat)" using e pw by simp
    then have "rhe (y / of_nat b powi e) \<le> int b ^ p" by (simp only: of_int_le_iff)
    moreover have "0 \<le> rhe (y / of_nat b powi e)" using y pw by (intro rhe_nonneg) simp
    ultimately have "round_sig b p (round_pos b p y) = round_pos b p y"
      unfolding e(2) by (intro round_sig_exact [OF b p]) simp
    with y show ?thesis by (simp add: round_sig_pos)
  qed
  consider "0 < x" | "x = 0" | "0 < - x" by linarith
  then show ?thesis
    by cases (use pos [of x] pos [of "- x"] in \<open>simp_all add: round_sig_uminus\<close>)
qed

subsection \<open>What the components use of a rounding\<close>

text \<open>Left-to-right summation, Python's \<open>sum\<close> (plain accumulation, as in CPython up to 3.11).\<close>

fun sum_seq :: "(rat \<Rightarrow> rat) \<Rightarrow> rat \<Rightarrow> rat list \<Rightarrow> rat" where
  "sum_seq r a [] = a"
| "sum_seq r a (x # xs) = sum_seq r (r (a + x)) xs"

locale rounding =
  fixes rnd :: "rat \<Rightarrow> rat" and u :: rat
  assumes rnd_mono: "x \<le> y \<Longrightarrow> rnd x \<le> rnd y"
    and rnd_uminus: "rnd (- x) = - rnd x"
    and rnd_idem: "rnd (rnd x) = rnd x"
    and rnd_error: "\<bar>rnd x - x\<bar> \<le> u * \<bar>x\<bar>"
    and u_nonneg: "0 \<le> u" and u_less_1: "u < 1"
begin

lemma rnd_0 [simp]: "rnd 0 = 0"
  using rnd_uminus [of 0] by simp

lemma rnd_nonneg: "0 \<le> x \<Longrightarrow> 0 \<le> rnd x"
  using rnd_mono [of 0 x] by simp

lemma rnd_nonpos: "x \<le> 0 \<Longrightarrow> rnd x \<le> 0"
  using rnd_mono [of x 0] by simp

lemma rnd_upper: "0 \<le> x \<Longrightarrow> rnd x \<le> (1 + u) * x"
  using rnd_error [of x] by (auto simp: abs_le_iff algebra_simps)

lemma rnd_lower: "0 \<le> x \<Longrightarrow> (1 - u) * x \<le> rnd x"
  using rnd_error [of x] by (auto simp: abs_le_iff algebra_simps)

lemma rnd_pos: "0 < x \<Longrightarrow> 0 < rnd x"
proof -
  assume "0 < x"
  moreover from this have "0 < (1 - u) * x" using u_less_1 by simp
  ultimately show ?thesis using rnd_lower [of x] by linarith
qed

lemma rnd_pos_iff: "0 < rnd x \<longleftrightarrow> 0 < x"
  using rnd_pos [of x] rnd_nonpos [of x] by linarith

lemma rnd_le_fixed: "rnd y = y \<Longrightarrow> x \<le> y \<Longrightarrow> rnd x \<le> y"
  using rnd_mono [of x y] by simp

lemma rnd_ge_fixed: "rnd y = y \<Longrightarrow> y \<le> x \<Longrightarrow> y \<le> rnd x"
  using rnd_mono [of y x] by simp

text \<open>Scaling a representable value down never rounds it up past itself.\<close>

lemma rnd_scale_le:
  assumes "rnd x = x" and "0 \<le> x" and "k \<le> 1"
  shows "rnd (x * k) \<le> x"
  using assms by (intro rnd_le_fixed) (auto simp: mult_left_le)

lemma sum_seq_nonneg:
  "0 \<le> a \<Longrightarrow> \<forall>x \<in> set xs. 0 \<le> x \<Longrightarrow> 0 \<le> sum_seq rnd a xs"
  by (induction xs arbitrary: a) (auto simp: rnd_nonneg)

lemma sum_seq_upper:
  "0 \<le> a \<Longrightarrow> \<forall>x \<in> set xs. 0 \<le> x \<Longrightarrow>
   sum_seq rnd a xs \<le> (1 + u) ^ length xs * (a + sum_list xs)"
proof (induction xs arbitrary: a)
  case (Cons x xs)
  have nn: "0 \<le> sum_list xs" using Cons.prems by (simp add: sum_list_nonneg)
  have "sum_seq rnd a (x # xs) \<le> (1 + u) ^ length xs * (rnd (a + x) + sum_list xs)"
    using Cons.IH [of "rnd (a + x)"] Cons.prems by (simp add: rnd_nonneg)
  also have "\<dots> \<le> (1 + u) ^ length xs * ((1 + u) * (a + x + sum_list xs))"
  proof (intro mult_left_mono)
    have "rnd (a + x) \<le> (1 + u) * (a + x)" using Cons.prems by (intro rnd_upper) simp
    moreover have "sum_list xs \<le> (1 + u) * sum_list xs" using nn u_nonneg by (simp add: distrib_right)
    ultimately show "rnd (a + x) + sum_list xs \<le> (1 + u) * (a + x + sum_list xs)"
      by (simp add: algebra_simps)
  qed (use u_nonneg in simp)
  also have "\<dots> = (1 + u) ^ length (x # xs) * (a + sum_list (x # xs))"
    by (simp add: ac_simps)
  finally show ?case .
qed simp

lemma sum_seq_lower:
  "0 \<le> a \<Longrightarrow> \<forall>x \<in> set xs. 0 \<le> x \<Longrightarrow>
   (1 - u) ^ length xs * (a + sum_list xs) \<le> sum_seq rnd a xs"
proof (induction xs arbitrary: a)
  case (Cons x xs)
  have nn: "0 \<le> sum_list xs" using Cons.prems by (simp add: sum_list_nonneg)
  have "(1 - u) ^ length (x # xs) * (a + sum_list (x # xs))
      = (1 - u) ^ length xs * ((1 - u) * (a + x + sum_list xs))"
    by (simp add: ac_simps)
  also have "\<dots> \<le> (1 - u) ^ length xs * (rnd (a + x) + sum_list xs)"
  proof (intro mult_left_mono)
    have "(1 - u) * (a + x) \<le> rnd (a + x)" using Cons.prems by (intro rnd_lower) simp
    moreover have "(1 - u) * sum_list xs \<le> sum_list xs" using nn u_nonneg by (simp add: algebra_simps)
    ultimately show "(1 - u) * (a + x + sum_list xs) \<le> rnd (a + x) + sum_list xs"
      by (simp add: algebra_simps)
  qed (use u_less_1 in simp)
  also have "\<dots> \<le> sum_seq rnd a (x # xs)"
    using Cons.IH [of "rnd (a + x)"] Cons.prems by (simp add: rnd_nonneg)
  finally show ?case .
qed simp

text \<open>A sum of values on a grid of representable numbers is exact.\<close>

lemma sum_seq_exact:
  "(\<And>k. k \<le> length xs \<Longrightarrow> rnd (a + sum_list (take k xs)) = a + sum_list (take k xs)) \<Longrightarrow>
   sum_seq rnd a xs = a + sum_list xs"
proof (induction xs arbitrary: a)
  case (Cons x xs)
  have "rnd (a + x) = a + x" using Cons.prems [of 1] by simp
  moreover have "sum_seq rnd (a + x) xs = (a + x) + sum_list xs"
    by (rule Cons.IH) (use Cons.prems [of "Suc _"] in \<open>simp add: add.assoc\<close>)
  ultimately show ?case by (simp add: add.assoc)
qed simp

end

text \<open>Both number types of the program are instances.\<close>

interpretation flt: rounding fl "1 / 2 ^ 53"
proof unfold_locales
  fix x y :: rat
  show "x \<le> y \<Longrightarrow> fl x \<le> fl y" by (simp add: fl_def round_sig_mono)
  show "fl (- x) = - fl x" by (simp add: fl_def round_sig_uminus)
  show "fl (fl x) = fl x" by (simp add: fl_def round_sig_idem)
  show "\<bar>fl x - x\<bar> \<le> 1 / 2 ^ 53 * \<bar>x\<bar>" using round_sig_error [of 2 53 x] by (simp add: fl_def)
qed simp_all

interpretation dcm: rounding dec "5 / 10 ^ 28"
proof unfold_locales
  fix x y :: rat
  show "x \<le> y \<Longrightarrow> dec x \<le> dec y" by (simp add: dec_def round_sig_mono)
  show "dec (- x) = - dec x" by (simp add: dec_def round_sig_uminus)
  show "dec (dec x) = dec x" by (simp add: dec_def round_sig_idem)
  show "\<bar>dec x - x\<bar> \<le> 5 / 10 ^ 28 * \<bar>x\<bar>" using round_sig_error [of 10 28 x] by (simp add: dec_def)
qed simp_all

subsection \<open>Exact cases\<close>

lemma fl_of_int [num_simps]: "\<bar>n\<bar> \<le> 2 ^ 53 \<Longrightarrow> fl (of_int n) = of_int n"
  using round_sig_exact [of 2 53 n 0] by (simp add: fl_def)

lemma fl_dyadic: "\<bar>n\<bar> \<le> 2 ^ 53 \<Longrightarrow> fl (of_int n / 2 ^ k) = of_int n / 2 ^ k"
  using round_sig_exact [of 2 53 n "- int k"] by (simp add: fl_def power_int_minus divide_inverse)

lemma fl_0 [simp]: "fl 0 = 0" and dec_0 [simp]: "dec 0 = 0"
  by simp_all

lemma fl_1 [simp]: "fl 1 = 1"
  using fl_of_int [of 1] by simp

lemma fl_numeral [num_simps]:
  "(numeral n :: int) \<le> 2 ^ 53 \<Longrightarrow> fl (numeral n) = numeral n"
  using fl_of_int [of "numeral n"] by simp

text \<open>The value of a rounding from a certificate: the integer significand and the exponent.\<close>

lemma round_sig_eqI:
  fixes b p :: nat and x :: rat
  defines "B \<equiv> (of_nat b :: rat)"
  assumes b: "2 \<le> b" and p: "1 \<le> p" and lo: "B ^ (p - 1) \<le> x * B ^ k" and hi: "x * B ^ k < B ^ p"
    and n: "\<bar>x * B ^ k - of_int n\<bar> < 1 / 2"
  shows "round_sig b p x = of_int n / B ^ k"
proof -
  have B: "2 \<le> B" using b unfolding B_def by (metis of_nat_le_iff of_nat_numeral)
  have k: "B powi (- int k) = 1 / B ^ k" by (simp add: power_int_minus divide_inverse)
  have Bk: "0 < B ^ k" using B by simp
  have "0 < x * B ^ k" using lo B by (intro less_le_trans [OF _ lo]) simp
  then have x: "0 < x" using Bk B by (simp add: zero_less_mult_iff)
  obtain e where e: "B ^ (p - 1) * B powi e \<le> x" "x < B ^ p * B powi e"
    "round_pos b p x = of_int (rhe (x / B powi e)) * B powi e"
    using round_pos_bounds [OF b p x] unfolding B_def by metis
  have x2: "B ^ (p - 1) * B powi (- int k) \<le> x" "x < B ^ p * B powi (- int k)"
    using lo hi Bk by (simp_all add: k field_simps)
  have s: "B ^ p * B powi j = B ^ (p - 1) * B powi (j + 1)" for j
    using p B by (cases p) (simp_all add: power_int_add)
  have "B ^ (p - 1) * B powi e < B ^ (p - 1) * B powi (- int k + 1)"
    using e(1) x2(2) s [of "- int k"] by linarith
  moreover have "B ^ (p - 1) * B powi (- int k) < B ^ (p - 1) * B powi (e + 1)"
    using e(2) x2(1) s [of e] by linarith
  moreover have "0 < B ^ (p - 1)" using B by simp
  ultimately have "B powi e < B powi (- int k + 1)" "B powi (- int k) < B powi (e + 1)"
    by (simp_all only: mult_less_cancel_left_pos)
  moreover have mono: "i < j" if "B powi i < B powi j" for i j
    using that power_int_increasing [of j i B] B by (cases "i < j") auto
  ultimately have "e < - int k + 1" "- int k < e + 1" by blast+
  then have ek: "e = - int k" by linarith
  have "x / B powi e = x * B ^ k" by (simp add: ek k)
  moreover have "rhe (x * B ^ k) = n"
  proof -
    have "\<bar>of_int (rhe (x * B ^ k)) - x * B ^ k\<bar> \<le> 1 / 2" by (rule rhe_near)
    with n have "\<bar>of_int (rhe (x * B ^ k)) - of_int n :: rat\<bar> < 1" by linarith
    then have "\<bar>of_int (rhe (x * B ^ k) - n) :: rat\<bar> < 1" by simp
    then have "of_int \<bar>rhe (x * B ^ k) - n\<bar> < (of_int 1 :: rat)" by simp
    then show ?thesis by (simp only: of_int_less_iff)
  qed
  ultimately show ?thesis using x e(3) by (simp add: round_sig_pos ek k)
qed

lemma fl_eqI:
  "2 ^ 52 \<le> x * 2 ^ k \<Longrightarrow> x * 2 ^ k < 2 ^ 53 \<Longrightarrow> \<bar>x * 2 ^ k - of_int n\<bar> < 1 / 2 \<Longrightarrow> fl x = of_int n / 2 ^ k"
  using round_sig_eqI [of 2 53 x k n] by (simp add: fl_def)

lemma dec_eqI:
  "10 ^ 27 \<le> x * 10 ^ k \<Longrightarrow> x * 10 ^ k < 10 ^ 28 \<Longrightarrow> \<bar>x * 10 ^ k - of_int n\<bar> < 1 / 2 \<Longrightarrow> dec x = of_int n / 10 ^ k"
  using round_sig_eqI [of 10 28 x k n] by (simp add: dec_def)

lemma dec_grid:
  "\<bar>n\<bar> \<le> 10 ^ 28 \<Longrightarrow> dec (of_int n / 10 ^ k) = of_int n / 10 ^ k"
  using round_sig_exact [of 10 28 n "- int k"] by (simp add: dec_def power_int_minus divide_inverse)

text \<open>Values with \<open>k\<close> decimal places, closed under sums, exact while they stay small.\<close>

definition on_grid :: "nat \<Rightarrow> rat \<Rightarrow> bool" where
  "on_grid k x \<longleftrightarrow> x * 10 ^ k \<in> \<int>"

lemma on_grid_0 [simp]: "on_grid k 0"
  by (simp add: on_grid_def)

lemma on_grid_add [intro]: "on_grid k x \<Longrightarrow> on_grid k y \<Longrightarrow> on_grid k (x + y)"
  by (simp add: on_grid_def distrib_right)

lemma on_grid_diff [intro]: "on_grid k x \<Longrightarrow> on_grid k y \<Longrightarrow> on_grid k (x - y)"
  by (simp add: on_grid_def left_diff_distrib)

lemma on_grid_uminus [simp]: "on_grid k (- x) = on_grid k x"
  by (simp add: on_grid_def)

lemma on_grid_sum_list: "\<forall>x \<in> set xs. on_grid k x \<Longrightarrow> on_grid k (sum_list xs)"
  by (induction xs) auto

lemma dec_on_grid:
  assumes "on_grid k x" and "\<bar>x\<bar> * 10 ^ k \<le> 10 ^ 28"
  shows "dec x = x"
proof -
  obtain n :: int where n: "x * 10 ^ k = of_int n" using assms(1) by (auto simp: on_grid_def Ints_def)
  have "\<bar>of_int n :: rat\<bar> \<le> 10 ^ 28" using assms(2) by (simp add: n [symmetric] abs_mult)
  then have "of_int \<bar>n\<bar> \<le> (of_int (10 ^ 28) :: rat)" by simp
  then have "\<bar>n\<bar> \<le> 10 ^ 28" by (simp only: of_int_le_iff)
  moreover have "x = of_int n / 10 ^ k" using n by (simp add: eq_divide_eq)
  ultimately show ?thesis by (simp add: dec_grid)
qed

subsection \<open>Rounding to a fixed number of decimal places\<close>

text \<open>\<open>Decimal.quantize(Decimal("0.01"), ROUND_HALF_EVEN)\<close>: a result of more than 28 digits
  is \<open>InvalidOperation\<close>.\<close>

definition quantize_cent :: "decimal \<Rightarrow> decimal result" where
  "quantize_cent x = (let n = rhe (x * 100)
                      in if \<bar>n\<bar> < 10 ^ 28 then Inr (of_int n / 100) else Inl InvalidOperation)"

text \<open>Python's \<open>round(x, n)\<close> on a float: the nearest multiple of \<open>10 ^ - n\<close>, back to a float.\<close>

definition py_round :: "pyfloat \<Rightarrow> nat \<Rightarrow> pyfloat" where
  "py_round x n = fl (of_int (rhe (x * 10 ^ n)) / 10 ^ n)"

lemma quantize_cent_grid: "quantize_cent x = Inr y \<Longrightarrow> on_grid 2 y"
  by (auto simp: quantize_cent_def on_grid_def Let_def simp del: divide_eq_eq_numeral1 split: if_splits)

lemma quantize_cent_near:
  assumes "quantize_cent x = Inr y"
  shows "\<bar>y - x\<bar> \<le> 1 / 200"
proof -
  have "y * 100 = of_int (rhe (x * 100))"
    using assms by (auto simp: quantize_cent_def Let_def split: if_splits)
  with rhe_near [of "x * 100"] have "\<bar>y * 100 - x * 100\<bar> \<le> 1/2" by simp
  then show ?thesis by linarith
qed

lemma quantize_cent_exact:
  "on_grid 2 x \<Longrightarrow> \<bar>x\<bar> < 10 ^ 26 \<Longrightarrow> quantize_cent x = Inr x"
proof -
  assume "on_grid 2 x" and small: "\<bar>x\<bar> < 10 ^ 26"
  then obtain n :: int where n: "x * 100 = of_int n" by (auto simp: on_grid_def Ints_def)
  have "\<bar>of_int n :: rat\<bar> < 10 ^ 28" using small by (simp add: n [symmetric] abs_mult)
  then have "of_int \<bar>n\<bar> < (of_int (10 ^ 28) :: rat)" by simp
  then have "\<bar>n\<bar> < 10 ^ 28" by (simp only: of_int_less_iff)
  with n show ?thesis by (simp add: quantize_cent_def Let_def eq_divide_eq)
qed

subsection \<open>\<open>to_decimal\<close>\<close>

text \<open>
  agent/money.py: a float becomes a Decimal through \<open>str\<close>, the shortest decimal that reads back as the
  same float. The search tries one significant digit, then two, and so on; at each length the nearest
  decimal first and then its two neighbours (at a power of two the nearest one may not read back).
  Seventeen digits always suffice for a binary64 value, so the last equation is not reached on one.
\<close>

fun repr_search :: "nat \<Rightarrow> nat \<Rightarrow> rat \<Rightarrow> rat" where
  "repr_search 0 n x = x"
| "repr_search (Suc k) n x =
     (let d = round_sig 10 n x; s = ulp_of 10 n \<bar>x\<bar>
      in if fl d = x then d
         else if fl (d + s) = x then d + s
         else if fl (d - s) = x then d - s
         else repr_search k (n + 1) x)"

definition to_decimal_float :: "pyfloat \<Rightarrow> decimal" where
  "to_decimal_float x = repr_search 17 1 x"

lemma repr_search_reads_back: "fl x = x \<Longrightarrow> fl (repr_search k n x) = x"
  by (induction k n x rule: repr_search.induct) (auto simp: Let_def)

lemma to_decimal_reads_back: "fl x = x \<Longrightarrow> fl (to_decimal_float x) = x"
  by (simp add: to_decimal_float_def repr_search_reads_back)

text \<open>The conversion keeps the order of representable values.\<close>

lemma to_decimal_less:
  assumes "fl x = x" and "fl y = y" and "x < y"
  shows "to_decimal_float x < to_decimal_float y"
proof (rule ccontr)
  assume "\<not> to_decimal_float x < to_decimal_float y"
  then have "fl (to_decimal_float y) \<le> fl (to_decimal_float x)" by (intro flt.rnd_mono) simp
  with assms show False by (simp add: to_decimal_reads_back)
qed

lemma to_decimal_nonneg: "fl x = x \<Longrightarrow> 0 \<le> x \<Longrightarrow> 0 \<le> to_decimal_float x"
proof (rule ccontr)
  assume a: "fl x = x" "0 \<le> x" "\<not> 0 \<le> to_decimal_float x"
  then have "fl (to_decimal_float x) \<le> 0" by (intro flt.rnd_nonpos) simp
  with a have "x = 0" by (simp add: to_decimal_reads_back)
  moreover have "to_decimal_float 0 = 0"
    by (simp add: to_decimal_float_def numeral_eq_Suc round_sig_def Let_def)
  ultimately show False using a(3) by simp
qed

end
