(* ===== verification/Calendar.thy ===== *)
theory Calendar
  imports PyNum
begin

text \<open>
  agent/market_calendar.py: the NYSE session calendar and the settlement clock.

  A \<open>date\<close> is its proleptic Gregorian ordinal (\<open>date.toordinal\<close>, day 1 is
  0001-01-01); \<open>year_of\<close> is CPython's \<open>_ord2ymd\<close>. An instant is a UTC time in
  microseconds, day \<open>d\<close> starting at \<open>d * day_us\<close>; a \<open>datetime\<close> is \<open>Aware\<close> of such an
  instant, or \<open>Naive\<close>. \<open>America/New_York\<close> is the rule in force since 2007, which is the
  one that applies to the verified years 2024 to 2028: daylight time from the second Sunday
  of March, 02:00, to the first Sunday of November, 02:00.

  The lemmas characterise the three walks over the calendar (backwards in
  \<open>trailing_sessions\<close>, forwards in \<open>next_trading_day\<close> and \<open>settlement_date\<close>) by the set
  of trading days, state exactly when they raise, and place the settlement instant.
\<close>

subsection \<open>Dates\<close>

type_synonym date = int
type_synonym instant = int
type_synonym timedelta = int

definition is_leap :: "int \<Rightarrow> bool" where
  "is_leap y \<longleftrightarrow> y mod 4 = 0 \<and> (y mod 100 \<noteq> 0 \<or> y mod 400 = 0)"

definition days_before_year :: "int \<Rightarrow> int" where
  "days_before_year year = (let y = year - 1 in y * 365 + y div 4 - y div 100 + y div 400)"

definition days_before_month :: "int \<Rightarrow> nat \<Rightarrow> int" where
  "days_before_month y m =
     [0, 31, 59, 90, 120, 151, 181, 212, 243, 273, 304, 334] ! (m - 1)
       + (if m > 2 \<and> is_leap y then 1 else 0)"

definition mk_date :: "int \<Rightarrow> nat \<Rightarrow> int \<Rightarrow> date" where
  "mk_date y m d = days_before_year y + days_before_month y m + d"

definition year_of :: "date \<Rightarrow> int" where
  "year_of d =
     (let n = d - 1; n400 = n div 146097; r = n mod 146097;
          n100 = r div 36524; s = r mod 36524;
          n4 = s div 1461; t = s mod 1461; n1 = t div 365;
          year = n400 * 400 + 1 + n100 * 100 + n4 * 4 + n1
      in if n1 = 4 \<or> n100 = 4 then year - 1 else year)"

text \<open>Monday is 0, as in \<open>date.weekday\<close>.\<close>

definition weekday :: "date \<Rightarrow> int" where
  "weekday d = (d + 6) mod 7"

lemma days_before_year_parts:
  assumes "0 \<le> b" "b \<le> 3" "0 \<le> c" "c \<le> 24" "0 \<le> e" "e \<le> 3"
  shows "days_before_year (400 * a + 100 * b + 4 * c + e + 1)
    = 146097 * a + 36524 * b + 1461 * c + 365 * e"
proof -
  define y where "y = 400 * a + 100 * b + 4 * c + e"
  have "y div 4 = 100 * a + 25 * b + c"
    by (rule int_div_pos_eq [where r = e]) (use assms in \<open>simp_all add: y_def\<close>)
  moreover have "y div 100 = 4 * a + b"
    by (rule int_div_pos_eq [where r = "4 * c + e"]) (use assms in \<open>simp_all add: y_def\<close>)
  moreover have "y div 400 = a"
    by (rule int_div_pos_eq [where r = "100 * b + 4 * c + e"]) (use assms in \<open>simp_all add: y_def\<close>)
  ultimately show ?thesis by (simp add: days_before_year_def Let_def y_def [symmetric]) (simp add: y_def)
qed

lemma div_step: "0 < k \<Longrightarrow> (y :: int) div k - (y - 1) div k = (if k dvd y then 1 else 0)"
proof -
  assume k: "0 < k"
  have y: "y = k * (y div k) + y mod k" by simp
  show ?thesis
  proof (cases "k dvd y")
    case True
    then have "(y - 1) div k = y div k - 1"
      using k by (intro int_div_pos_eq [where r = "k - 1"]) (auto simp: algebra_simps)
    with True show ?thesis by simp
  next
    case False
    then have "0 < y mod k" using k by (simp add: dvd_eq_mod_eq_0 order_less_le)
    then have "(y - 1) div k = y div k"
      using k by (intro int_div_pos_eq [where r = "y mod k - 1"]) (use y pos_mod_bound [OF k, of y] in \<open>simp_all\<close>)
    with False show ?thesis by simp
  qed
qed

lemma days_before_year_step:
  "days_before_year (y + 1) = days_before_year y + (if is_leap y then 366 else 365)"
proof -
  have imp: "(400::int) dvd y \<Longrightarrow> 100 dvd y" "(100::int) dvd y \<Longrightarrow> 4 dvd y"
    using dvd_trans [of 100 400 y] dvd_trans [of 4 100 y] by simp_all
  have leap: "is_leap y \<longleftrightarrow> 4 dvd y \<and> (\<not> 100 dvd y \<or> 400 dvd y)"
    by (simp add: is_leap_def dvd_eq_mod_eq_0)
  have gen: "(y * 365 + p4 - p100 + p400) - ((y - 1) * 365 + q4 - q100 + q400)
    = 365 + (p4 - q4) - (p100 - q100) + (p400 - q400)" for p4 p100 p400 q4 q100 q400 :: int
    by simp
  have "days_before_year (y + 1) - days_before_year y
    = 365 + (y div 4 - (y - 1) div 4) - (y div 100 - (y - 1) div 100) + (y div 400 - (y - 1) div 400)"
    unfolding days_before_year_def Let_def add_diff_cancel_right' by (rule gen)
  also have "\<dots> = (if is_leap y then 366 else 365)"
    unfolding div_step [of 4 y, simplified] div_step [of 100 y, simplified]
      div_step [of 400 y, simplified] leap
    using imp by (cases "4 dvd y"; cases "100 dvd y"; cases "400 dvd y") simp_all
  finally show ?thesis by linarith
qed

lemma days_before_year_mono: "y \<le> z \<Longrightarrow> days_before_year y \<le> days_before_year z"
proof (induction z rule: int_ge_induct)
  case (step z)
  then show ?case using days_before_year_step [of z] by auto
qed simp

lemma year_of_bounds:
  "days_before_year (year_of d) < d \<and> d \<le> days_before_year (year_of d + 1)"
proof -
  define a where "a = (d - 1) div 146097"
  define r where "r = (d - 1) mod 146097"
  define b where "b = r div 36524"
  define s where "s = r mod 36524"
  define c where "c = s div 1461"
  define t where "t = s mod 1461"
  define e where "e = t div 365"
  define f where "f = t mod 365"
  have r: "0 \<le> r" "r < 146097" and s: "0 \<le> s" "s < 36524"
    and t: "0 \<le> t" "t < 1461" and f: "0 \<le> f" "f < 365"
    by (simp_all add: r_def s_def t_def f_def)
  have b: "0 \<le> b" "b \<le> 4" and c: "0 \<le> c" "c \<le> 24" and e: "0 \<le> e" "e \<le> 4"
    using r s t by (auto simp: b_def c_def e_def)
  have d: "d = 146097 * a + 36524 * b + 1461 * c + 365 * e + f + 1"
    unfolding a_def b_def c_def e_def f_def r_def s_def t_def by simp
  have rs: "r = 36524 * b + s" and st: "s = 1461 * c + t" and tf: "t = 365 * e + f"
    by (simp_all add: b_def s_def c_def t_def e_def f_def)
  have y: "year_of d = (if e = 4 \<or> b = 4 then 400 * a + 100 * b + 4 * c + e
                        else 400 * a + 100 * b + 4 * c + e + 1)"
    by (simp add: year_of_def Let_def a_def b_def c_def e_def r_def s_def t_def)
  consider "b = 4" | "b \<le> 3" "e = 4" | "b \<le> 3" "e \<le> 3" using b e by linarith
  then show ?thesis
  proof cases
    case 1
    then have z: "s = 0" using rs r s by linarith
    have cz: "c = 0" "t = 0" using st z c(1) t(1) by linarith+
    then have ef: "e = 0" "f = 0" using tf e(1) f(1) by linarith+
    have "days_before_year (year_of d) = 146097 * a + 36524 * 3 + 1461 * 24 + 365 * 3"
      using days_before_year_parts [of 3 24 3 a] y 1 cz ef by (simp add: algebra_simps)
    moreover have "days_before_year (year_of d + 1) = 146097 * (a + 1)"
      using days_before_year_parts [of 0 0 0 "a + 1"] y 1 cz ef by (simp add: algebra_simps)
    ultimately show ?thesis using d 1 cz ef by simp
  next
    case 2
    then have fz: "f = 0" using tf t f by linarith
    have "c \<le> 23" using st tf 2 s f c by linarith
    then have "days_before_year (year_of d + 1) = 146097 * a + 36524 * b + 1461 * (c + 1)"
      using days_before_year_parts [of b "c + 1" 0 a] y 2 b c by (simp add: algebra_simps)
    moreover have "days_before_year (year_of d) = 146097 * a + 36524 * b + 1461 * c + 365 * 3"
      using days_before_year_parts [of b c 3 a] y 2 b c by (simp add: algebra_simps)
    ultimately show ?thesis using d 2 fz by simp
  next
    case 3
    then have "days_before_year (year_of d) = 146097 * a + 36524 * b + 1461 * c + 365 * e"
      using days_before_year_parts [of b c e a] y b c e by simp
    moreover from days_before_year_step [of "year_of d"]
    have "days_before_year (year_of d) + 365 \<le> days_before_year (year_of d + 1)" by simp
    ultimately show ?thesis using d f by simp
  qed
qed

lemma year_of_ge_iff: "y \<le> year_of d \<longleftrightarrow> days_before_year y < d"
proof
  assume "y \<le> year_of d"
  with days_before_year_mono [OF this] year_of_bounds [of d] show "days_before_year y < d" by simp
next
  assume "days_before_year y < d"
  show "y \<le> year_of d"
  proof (rule ccontr)
    assume "\<not> y \<le> year_of d"
    then have "days_before_year (year_of d + 1) \<le> days_before_year y"
      by (intro days_before_year_mono) simp
    with \<open>days_before_year y < d\<close> year_of_bounds [of d] show False by simp
  qed
qed

lemma year_of_le_iff: "year_of d \<le> y \<longleftrightarrow> d \<le> days_before_year (y + 1)"
  using year_of_ge_iff [of "y + 1" d] by linarith

subsection \<open>The verified table\<close>

definition MIN_YEAR :: int where "MIN_YEAR = 2024"
definition MAX_YEAR :: int where "MAX_YEAR = 2028"

definition holidays :: "date list" where
  "holidays = [
    mk_date 2024 1 1, mk_date 2024 1 15, mk_date 2024 2 19, mk_date 2024 3 29,
    mk_date 2024 5 27, mk_date 2024 6 19, mk_date 2024 7 4, mk_date 2024 9 2,
    mk_date 2024 11 28, mk_date 2024 12 25,
    mk_date 2025 1 1, mk_date 2025 1 20, mk_date 2025 2 17, mk_date 2025 4 18,
    mk_date 2025 5 26, mk_date 2025 6 19, mk_date 2025 7 4, mk_date 2025 9 1,
    mk_date 2025 11 27, mk_date 2025 12 25,
    mk_date 2026 1 1, mk_date 2026 1 19, mk_date 2026 2 16, mk_date 2026 4 3,
    mk_date 2026 5 25, mk_date 2026 6 19, mk_date 2026 7 3, mk_date 2026 9 7,
    mk_date 2026 11 26, mk_date 2026 12 25,
    mk_date 2027 1 1, mk_date 2027 1 18, mk_date 2027 2 15, mk_date 2027 3 26,
    mk_date 2027 5 31, mk_date 2027 6 18, mk_date 2027 7 5, mk_date 2027 9 6,
    mk_date 2027 11 25, mk_date 2027 12 24,
    mk_date 2028 1 17, mk_date 2028 2 21, mk_date 2028 4 14, mk_date 2028 5 29,
    mk_date 2028 6 19, mk_date 2028 7 4, mk_date 2028 9 4, mk_date 2028 11 23,
    mk_date 2028 12 25]"

definition early_closes :: "date list" where
  "early_closes = [
    mk_date 2024 7 3, mk_date 2024 11 29, mk_date 2024 12 24,
    mk_date 2025 7 3, mk_date 2025 11 28, mk_date 2025 12 24,
    mk_date 2026 11 27, mk_date 2026 12 24,
    mk_date 2027 11 26,
    mk_date 2028 7 3, mk_date 2028 11 24]"

definition in_range :: "date \<Rightarrow> bool" where
  "in_range d \<longleftrightarrow> MIN_YEAR \<le> year_of d \<and> year_of d \<le> MAX_YEAR"

definition check_range :: "date \<Rightarrow> unit result" where
  "check_range d = guardE (in_range d) CalendarCoverageError"

text \<open>The first and the last covered day, as ordinals.\<close>

lemma days_before_year_ends [simp]:
  "days_before_year 2024 = 738885" "days_before_year 2029 = 740712"
  by (simp_all add: days_before_year_def)

lemma year_of_ge_MIN: "MIN_YEAR \<le> year_of d \<longleftrightarrow> 738885 < d"
  by (simp add: MIN_YEAR_def year_of_ge_iff)

lemma year_of_less_MIN: "year_of d < MIN_YEAR \<longleftrightarrow> d \<le> 738885"
  using year_of_ge_MIN [of d] by linarith

lemma year_of_le_MAX: "year_of d \<le> MAX_YEAR \<longleftrightarrow> d \<le> 740712"
  by (simp add: MAX_YEAR_def year_of_le_iff)

lemma in_range_iff: "in_range d \<longleftrightarrow> 738885 < d \<and> d \<le> 740712"
  by (simp add: in_range_def year_of_ge_MIN year_of_le_MAX)

subsection \<open>Trading days\<close>

definition trading :: "date \<Rightarrow> bool" where
  "trading d \<longleftrightarrow> weekday d < 5 \<and> d \<notin> set holidays"

definition is_trading_day :: "date \<Rightarrow> bool result" where
  "is_trading_day d = bindE (check_range d) (\<lambda>_. Inr (trading d))"

definition is_early_close :: "date \<Rightarrow> bool result" where
  "is_early_close d = bindE (check_range d) (\<lambda>_. Inr (d \<in> set early_closes))"

lemma is_trading_day_eq:
  "is_trading_day d = (if in_range d then Inr (trading d) else Inl CalendarCoverageError)"
  by (simp add: is_trading_day_def check_range_def)

lemma is_early_close_eq:
  "is_early_close d = (if in_range d then Inr (d \<in> set early_closes) else Inl CalendarCoverageError)"
  by (simp add: is_early_close_def check_range_def)

subsection \<open>Startup coverage check\<close>

definition EXPIRY_WARNING_DAYS :: int where "EXPIRY_WARNING_DAYS = 90"

definition exercises_calendar :: "string \<Rightarrow> bool" where
  "exercises_calendar mode \<longleftrightarrow> mode \<in> {''PAPER'', ''PRODUCTION_ACTIVE''}"

text \<open>The two warnings, with the number of days the second one quotes.\<close>

datatype coverage_warning = TableExpired | CoverageEndsIn int

definition assert_calendar_coverage_at_startup ::
  "string \<Rightarrow> date \<Rightarrow> coverage_warning option result" where
  "assert_calendar_coverage_at_startup mode today =
     (let last_covered = mk_date MAX_YEAR 12 31
      in if today > last_covered then
           (if exercises_calendar mode then Inl CalendarExpiryError else Inr (Some TableExpired))
         else if today \<ge> last_covered - EXPIRY_WARNING_DAYS then
           Inr (Some (CoverageEndsIn (last_covered - today)))
         else Inr None)"

subsection \<open>Instants and sessions\<close>

datatype datetime = Aware instant | Naive int

definition hour_us :: int where "hour_us = 3600000000"
definition day_us :: int where "day_us = 86400000000"

definition utc_date :: "instant \<Rightarrow> date" where
  "utc_date t = t div day_us"

text \<open>Daylight time in America/New_York: the days it starts and ends on, and the UTC offset
  at an instant and at a local wall time.\<close>

definition dst_start :: "int \<Rightarrow> date" where
  "dst_start y = (let d = mk_date y 3 8 in d + (6 - weekday d) mod 7)"

definition dst_end :: "int \<Rightarrow> date" where
  "dst_end y = (let d = mk_date y 11 1 in d + (6 - weekday d) mod 7)"

definition eastern_offset :: "instant \<Rightarrow> int" where
  "eastern_offset t =
     (let y = year_of (utc_date t)
      in if dst_start y * day_us + 7 * hour_us \<le> t \<and> t < dst_end y * day_us + 6 * hour_us
         then - 4 * hour_us else - 5 * hour_us)"

definition local_offset :: "date \<Rightarrow> int \<Rightarrow> int" where
  "local_offset d tod =
     (let y = year_of d; w = d * day_us + tod
      in if dst_start y * day_us + 2 * hour_us \<le> w \<and> w < dst_end y * day_us + 2 * hour_us
         then - 4 * hour_us else - 5 * hour_us)"

definition local_instant :: "date \<Rightarrow> int \<Rightarrow> instant" where
  "local_instant d tod = d * day_us + tod - local_offset d tod"

record session_times_rec =
  st_session :: date
  st_open :: instant
  st_close :: instant
  st_early :: bool

definition session_times :: "date \<Rightarrow> session_times_rec result" where
  "session_times d =
     bindE (check_range d) (\<lambda>_.
     bindE (is_trading_day d) (\<lambda>td.
     if \<not> td then Inl ValueError
     else bindE (is_early_close d) (\<lambda>early.
       Inr \<lparr> st_session = d,
             st_open = local_instant d (9 * hour_us + hour_us div 2),
             st_close = local_instant d (if early then 13 * hour_us else 16 * hour_us),
             st_early = early \<rparr>)))"

fun session_for_instant :: "datetime \<Rightarrow> date result" where
  "session_for_instant (Naive _) = Inl ValueError"
| "session_for_instant (Aware t) = Inr ((t + eastern_offset t) div day_us)"

subsection \<open>Walks over the calendar\<close>

function trailing_walk :: "int \<Rightarrow> date \<Rightarrow> date list \<Rightarrow> date list result" where
  "trailing_walk n d out =
     (if int (length out) < n then
        (if year_of d < MIN_YEAR then Inl CalendarCoverageError
         else bindE (is_trading_day d)
                (\<lambda>td. trailing_walk n (d - 1) (if td then out @ [d] else out)))
      else Inr (rev out))"
  by pat_completeness auto
termination
  by (relation "measure (\<lambda>(n, d, out). nat (d - 738885))")
     (auto simp: not_less year_of_ge_MIN)

definition trailing_sessions :: "date \<Rightarrow> int \<Rightarrow> date list result" where
  "trailing_sessions as_of n =
     bindE (check_range as_of) (\<lambda>_.
     if n \<le> 0 then Inl ValueError else trailing_walk n as_of [])"

function next_walk :: "date \<Rightarrow> date result" where
  "next_walk d =
     bindE (check_range d) (\<lambda>_.
     bindE (is_trading_day d) (\<lambda>td. if td then Inr d else next_walk (d + 1)))"
  by pat_completeness auto
termination
  by (relation "measure (\<lambda>d. nat (740713 - d))") (auto simp: check_range_def in_range_iff)

definition next_trading_day :: "date \<Rightarrow> date result" where
  "next_trading_day d = bindE (check_range d) (\<lambda>_. next_walk (d + 1))"

function settle_walk :: "date \<Rightarrow> int \<Rightarrow> date result" where
  "settle_walk d remaining =
     (if remaining > 0 then
        bindE (check_range (d + 1)) (\<lambda>_.
        bindE (is_trading_day (d + 1)) (\<lambda>td.
          settle_walk (d + 1) (if td then remaining - 1 else remaining)))
      else Inr d)"
  by pat_completeness auto
termination
  by (relation "measure (\<lambda>(d, r). nat (740713 - d))") (auto simp: check_range_def in_range_iff)

definition settlement_date :: "date \<Rightarrow> int \<Rightarrow> date result" where
  "settlement_date fill_date t_plus =
     bindE (check_range fill_date) (\<lambda>_.
     bindE (is_trading_day fill_date) (\<lambda>td.
     if \<not> td then Inl ValueError
     else if t_plus \<le> 0 then Inl ValueError
     else settle_walk fill_date t_plus))"

definition settlement_instant :: "datetime \<Rightarrow> int \<Rightarrow> instant result" where
  "settlement_instant filled_at t_plus =
     bindE (session_for_instant filled_at) (\<lambda>fill_session.
     bindE (settlement_date fill_session t_plus) (\<lambda>settle_session.
     bindE (session_times settle_session) (\<lambda>st. Inr (st_open st))))"

declare trailing_walk.simps [simp del] next_walk.simps [simp del] settle_walk.simps [simp del]

subsection \<open>What the walks return\<close>

definition sessions_in :: "date \<Rightarrow> date \<Rightarrow> date set" where
  "sessions_in lo hi = {lo<..hi} \<inter> {d. trading d}"

lemma finite_sessions_in [simp]: "finite (sessions_in lo hi)"
  by (simp add: sessions_in_def)

lemma sessions_in_empty [simp]: "hi \<le> lo \<Longrightarrow> sessions_in lo hi = {}"
  by (simp add: sessions_in_def)

lemma sessions_in_below:
  "lo < hi \<Longrightarrow> sessions_in lo hi
     = (if trading hi then insert hi (sessions_in lo (hi - 1)) else sessions_in lo (hi - 1))"
  by (auto simp: sessions_in_def order_le_less)

lemma sessions_in_above:
  "lo < hi \<Longrightarrow> sessions_in lo hi
     = (if trading (lo + 1) then insert (lo + 1) (sessions_in (lo + 1) hi)
        else sessions_in (lo + 1) hi)"
  by (auto simp: sessions_in_def order_less_le)

lemma card_sessions_below:
  "lo < hi \<Longrightarrow> card (sessions_in lo hi)
     = card (sessions_in lo (hi - 1)) + (if trading hi then 1 else 0)"
  by (subst sessions_in_below) (auto simp: sessions_in_def)

lemma card_sessions_above:
  "lo < hi \<Longrightarrow> card (sessions_in lo hi)
     = card (sessions_in (lo + 1) hi) + (if trading (lo + 1) then 1 else 0)"
  by (subst sessions_in_above) (auto simp: sessions_in_def)

lemma trailing_walk_defined:
  assumes "d \<le> 740712"
  shows "is_ok (trailing_walk n d out)
    \<longleftrightarrow> n \<le> int (length out) + int (card (sessions_in 738885 d))"
  using assms
proof (induction n d out rule: trailing_walk.induct)
  case (1 n d out)
  show ?case
  proof (cases "int (length out) < n \<and> MIN_YEAR \<le> year_of d")
    case True
    then have "in_range d" and lo: "738885 < d" using "1.prems" by (auto simp: in_range_iff year_of_ge_MIN)
    then have td: "is_trading_day d = Inr (trading d)" by (simp add: is_trading_day_eq)
    have "is_ok (trailing_walk n d out)
        = is_ok (trailing_walk n (d - 1) (if trading d then out @ [d] else out))"
      using True td by (subst trailing_walk.simps) simp
    also have "\<dots> \<longleftrightarrow> n \<le> int (length out) + int (card (sessions_in 738885 d))"
      using "1.IH" [OF _ _ td] True "1.prems" card_sessions_below [OF lo] by auto
    finally show ?thesis .
  next
    case False
    then show ?thesis
      by (subst trailing_walk.simps) (auto simp: is_ok_iff year_of_ge_MIN year_of_less_MIN)
  qed
qed

lemma trailing_walk_spec:
  assumes "trailing_walk n d out = Inr ws" and "d \<le> 740712"
    and "sorted_wrt (>) out" and "set out = sessions_in d hi" and "d \<le> hi"
    and "int (length out) \<le> n"
  shows "int (length ws) = n \<and> sorted_wrt (<) ws \<and> (\<exists>lo \<le> hi. set ws = sessions_in lo hi)"
  using assms
proof (induction n d out rule: trailing_walk.induct)
  case (1 n d out)
  show ?case
  proof (cases "int (length out) < n")
    case True
    with "1.prems"(1) have y: "\<not> year_of d < MIN_YEAR" by (subst (asm) trailing_walk.simps) (auto split: if_splits)
    with "1.prems"(2) have td: "is_trading_day d = Inr (trading d)"
      by (simp add: is_trading_day_eq in_range_iff not_less year_of_ge_MIN)
    let ?out = "if trading d then out @ [d] else out"
    have rec: "trailing_walk n (d - 1) ?out = Inr ws"
      using "1.prems"(1) True y td by (subst (asm) trailing_walk.simps) simp
    have "sorted_wrt (>) ?out" using "1.prems"(3,4) by (auto simp: sorted_wrt_append sessions_in_def)
    moreover have "set ?out = sessions_in (d - 1) hi"
      using "1.prems"(4,5) sessions_in_above [of "d - 1" hi] by auto
    ultimately show ?thesis
      using "1.IH" [OF True y td rec] "1.prems"(2,5) True by auto
  next
    case False
    with "1.prems" have "ws = rev out" by (subst (asm) trailing_walk.simps) auto
    with False "1.prems" show ?thesis by (auto simp: sorted_wrt_rev)
  qed
qed

lemma int_ge_cases: "(d :: int) \<le> x \<longleftrightarrow> x = d \<or> d + 1 \<le> x"
  by auto

lemma next_walk_spec:
  "next_walk d = Inr r \<Longrightarrow> in_range r \<and> trading r \<and> d \<le> r \<and> (\<forall>x. d \<le> x \<and> x < r \<longrightarrow> \<not> trading x)"
proof (induction d rule: next_walk.induct)
  case (1 d)
  from "1.prems" have rng: "in_range d"
    by (subst (asm) next_walk.simps) (auto simp: result_simps check_range_def)
  then have td: "is_trading_day d = Inr (trading d)" by (simp add: is_trading_day_eq)
  show ?case
  proof (cases "trading d")
    case True
    with "1.prems" rng td show ?thesis
      by (subst (asm) next_walk.simps) (auto simp: check_range_def)
  next
    case False
    with "1.prems" rng td have "next_walk (d + 1) = Inr r"
      by (subst (asm) next_walk.simps) (auto simp: check_range_def)
    with "1.IH" [of "()" "trading d"] td rng False
    have "in_range r \<and> trading r \<and> d + 1 \<le> r \<and> (\<forall>x. d + 1 \<le> x \<and> x < r \<longrightarrow> \<not> trading x)"
      by (simp add: check_range_def)
    with False show ?thesis by (auto simp: int_ge_cases [of d])
  qed
qed

lemma next_walk_defined:
  "738885 < d \<Longrightarrow> is_ok (next_walk d) \<longleftrightarrow> (\<exists>x. d \<le> x \<and> x \<le> 740712 \<and> trading x)"
proof (induction d rule: next_walk.induct)
  case (1 d)
  show ?case
  proof (cases "in_range d")
    case True
    then have td: "is_trading_day d = Inr (trading d)" and le: "d \<le> 740712"
      by (auto simp: is_trading_day_eq in_range_iff)
    show ?thesis
    proof (cases "trading d")
      case True
      with \<open>in_range d\<close> td le show ?thesis
        by (subst next_walk.simps) (auto simp: check_range_def is_ok_iff)
    next
      case False
      have "is_ok (next_walk d) = is_ok (next_walk (d + 1))"
        using \<open>in_range d\<close> td False by (subst next_walk.simps) (simp add: check_range_def)
      also have "\<dots> \<longleftrightarrow> (\<exists>x. d + 1 \<le> x \<and> x \<le> 740712 \<and> trading x)"
        using "1.IH" [of "()" "trading d"] \<open>in_range d\<close> td False "1.prems" by (simp add: check_range_def)
      also have "\<dots> \<longleftrightarrow> (\<exists>x. d \<le> x \<and> x \<le> 740712 \<and> trading x)"
        using False by (auto simp: int_ge_cases [of d])
      finally show ?thesis .
    qed
  next
    case False
    with "1.prems" show ?thesis
      by (subst next_walk.simps) (auto simp: check_range_def is_ok_iff in_range_iff)
  qed
qed

lemma settle_walk_spec:
  "settle_walk d k = Inr r \<Longrightarrow> 0 \<le> k \<Longrightarrow>
   d \<le> r \<and> int (card (sessions_in d r)) = k \<and> (0 < k \<longrightarrow> in_range r \<and> trading r \<and> d < r)
   \<and> (k = 0 \<longrightarrow> r = d)"
proof (induction d k rule: settle_walk.induct)
  case (1 d k)
  show ?case
  proof (cases "0 < k")
    case True
    with "1.prems" have rng: "in_range (d + 1)"
      by (subst (asm) settle_walk.simps) (auto simp: result_simps check_range_def)
    then have td: "is_trading_day (d + 1) = Inr (trading (d + 1))" by (simp add: is_trading_day_eq)
    let ?k = "if trading (d + 1) then k - 1 else k"
    have rec: "settle_walk (d + 1) ?k = Inr r"
      using "1.prems"(1) True rng td by (subst (asm) settle_walk.simps) (simp add: check_range_def)
    have IH: "d + 1 \<le> r \<and> int (card (sessions_in (d + 1) r)) = ?k
      \<and> (0 < ?k \<longrightarrow> in_range r \<and> trading r \<and> d + 1 < r) \<and> (?k = 0 \<longrightarrow> r = d + 1)"
      using "1.IH" [of "()" "trading (d + 1)"] True rng td rec by (simp add: check_range_def)
    then have "int (card (sessions_in d r)) = k" using card_sessions_above [of d r] True by auto
    with IH True rng show ?thesis by (cases "?k = 0") (auto split: if_splits)
  next
    case False
    with "1.prems" show ?thesis by (subst (asm) settle_walk.simps) auto
  qed
qed

lemma settlement_date_eq_Inr:
  "settlement_date f k = Inr r \<longleftrightarrow>
   in_range f \<and> trading f \<and> 0 < k \<and> settle_walk f k = Inr r"
  by (auto simp: settlement_date_def check_range_def is_trading_day_eq result_simps)

lemma session_times_eq_Inr:
  "session_times d = Inr st \<longleftrightarrow> in_range d \<and> trading d \<and>
     st = \<lparr> st_session = d, st_open = local_instant d (9 * hour_us + hour_us div 2),
            st_close = local_instant d (if d \<in> set early_closes then 13 * hour_us else 16 * hour_us),
            st_early = (d \<in> set early_closes) \<rparr>"
  by (auto simp: session_times_def check_range_def is_trading_day_eq is_early_close_eq result_simps)

lemma eastern_offset_bounds: "- 5 * hour_us \<le> eastern_offset t" "eastern_offset t \<le> - 4 * hour_us"
  by (simp_all add: eastern_offset_def hour_us_def Let_def)

lemma local_offset_bounds: "- 5 * hour_us \<le> local_offset d w" "local_offset d w \<le> - 4 * hour_us"
  by (simp_all add: local_offset_def hour_us_def Let_def)

lemma session_for_instant_bounds:
  assumes "session_for_instant (Aware t) = Inr d"
  shows "d * day_us + 4 * hour_us \<le> t" and "t < (d + 1) * day_us + 5 * hour_us"
proof -
  define w where "w = t + eastern_offset t"
  have d: "d = w div day_us" using assms by (simp add: w_def)
  have "w = d * day_us + w mod day_us" by (simp add: d)
  moreover have "0 \<le> w mod day_us" "w mod day_us < day_us" by (simp_all add: day_us_def)
  ultimately have "d * day_us \<le> w" "w < (d + 1) * day_us" by (simp_all add: distrib_right)
  then show "d * day_us + 4 * hour_us \<le> t" "t < (d + 1) * day_us + 5 * hour_us"
    using eastern_offset_bounds [of t] by (simp_all add: w_def)
qed

lemma settlement_instant_eq_Inr:
  "settlement_instant (Aware t) k = Inr s \<longleftrightarrow>
   (\<exists>r. settlement_date ((t + eastern_offset t) div day_us) k = Inr r \<and> in_range r \<and> trading r
     \<and> s = local_instant r (9 * hour_us + hour_us div 2))"
  by (auto simp: settlement_instant_def session_times_eq_Inr result_simps)

lemma settlement_date_sound:
  assumes "settlement_date f k = Inr r"
  shows "trading r \<and> in_range r \<and> f < r \<and> int (card (sessions_in f r)) = k"
  using assms settle_walk_spec [of f k r] by (auto simp: settlement_date_eq_Inr)

lemma settlement_instant_later:
  assumes "settlement_instant (Aware t) k = Inr s"
  shows "t + 8 * hour_us + hour_us div 2 < s"
proof -
  obtain f r where f: "session_for_instant (Aware t) = Inr f" and r: "settlement_date f k = Inr r"
    and s: "s = local_instant r (9 * hour_us + hour_us div 2)"
    using assms by (auto simp: settlement_instant_eq_Inr)
  have "f + 1 \<le> r" using settlement_date_sound [OF r] by simp
  then have "(f + 1) * day_us \<le> r * day_us" by (rule mult_right_mono) (simp add: day_us_def)
  then show ?thesis
    using session_for_instant_bounds [OF f] local_offset_bounds [of r]
    by (simp add: s local_instant_def hour_us_def) (smt (verit))
qed

subsection \<open>Properties\<close>

text \<open>
  \<open>trailing_sessions(as_of, n)\<close> returns, oldest first and without repetition, exactly the
  \<open>n\<close> most recent trading days on or before \<open>as_of\<close>: every trading day between the first
  returned date and \<open>as_of\<close> is in the list, and nothing else is.
\<close>
theorem trailing_sessions_spec:
  assumes "trailing_sessions as_of n = Inr ws"
  shows "int (length ws) = n \<and> sorted_wrt (<) ws
    \<and> set ws = {d. hd ws \<le> d \<and> d \<le> as_of \<and> trading d}"
proof -
  from assms have n: "0 < n" and rng: "in_range as_of" and w: "trailing_walk n as_of [] = Inr ws"
    by (auto simp: trailing_sessions_def check_range_def result_simps split: if_splits)
  then obtain lo where lo: "int (length ws) = n" "sorted_wrt (<) ws" "set ws = sessions_in lo as_of"
    using trailing_walk_spec [OF w, of as_of] by (auto simp: in_range_iff)
  with n obtain x xs where ws: "ws = x # xs" by (cases ws) auto
  have "{d. x \<le> d \<and> d \<le> as_of \<and> trading d} = sessions_in lo as_of"
  proof (intro set_eqI iffI)
    fix d assume "d \<in> {d. x \<le> d \<and> d \<le> as_of \<and> trading d}"
    moreover have "lo < x" using lo(3) ws by (auto simp: sessions_in_def)
    ultimately show "d \<in> sessions_in lo as_of" by (auto simp: sessions_in_def)
  next
    fix d assume d: "d \<in> sessions_in lo as_of"
    then have "d \<in> set ws" using lo(3) by simp
    then have "x \<le> d" using lo(2) ws by (auto simp: order_le_less)
    with d show "d \<in> {d. x \<le> d \<and> d \<le> as_of \<and> trading d}" by (auto simp: sessions_in_def)
  qed
  with lo ws show ?thesis by simp
qed

theorem trailing_sessions_spec_witness:
  "trailing_sessions (mk_date 2026 7 5) 3
     = Inr [mk_date 2026 6 30, mk_date 2026 7 1, mk_date 2026 7 2]
   \<and> set [mk_date 2026 6 30, mk_date 2026 7 1, mk_date 2026 7 2]
     = {d. mk_date 2026 6 30 \<le> d \<and> d \<le> mk_date 2026 7 5 \<and> trading d}"
proof -
  have h: "trailing_sessions (mk_date 2026 7 5) 3
    = Inr [mk_date 2026 6 30, mk_date 2026 7 1, mk_date 2026 7 2]" by code_simp
  show ?thesis using h trailing_sessions_spec [OF h] by simp
qed

text \<open>
  \<open>trailing_sessions(as_of, n)\<close> answers exactly when \<open>as_of\<close> lies in the verified years,
  \<open>n\<close> is positive and the table holds at least \<open>n\<close> trading days up to \<open>as_of\<close>; otherwise it
  raises, and it never loops.
\<close>
theorem trailing_sessions_defined:
  "is_ok (trailing_sessions as_of n) \<longleftrightarrow>
   in_range as_of \<and> 0 < n \<and> n \<le> int (card (sessions_in (days_before_year MIN_YEAR) as_of))"
  using trailing_walk_defined [of as_of n "[]"]
  by (auto simp: trailing_sessions_def check_range_def is_ok_iff result_simps in_range_iff MIN_YEAR_def)

text \<open>
  A fill settles \<open>t_plus\<close> trading sessions after its own session: the settlement date is a
  trading day strictly after the fill date with exactly \<open>t_plus\<close> trading days from the fill
  date (exclusive) to it (inclusive).
\<close>
theorem settlement_date_counts_sessions:
  assumes "settlement_date fill t_plus = Inr r"
  shows "trading r \<and> fill < r \<and> int (card {d. fill < d \<and> d \<le> r \<and> trading d}) = t_plus"
proof -
  have "{d. fill < d \<and> d \<le> r \<and> trading d} = sessions_in fill r" by (auto simp: sessions_in_def)
  with settlement_date_sound [OF assms] show ?thesis by simp
qed

theorem settlement_date_counts_sessions_witness:
  "settlement_date (mk_date 2026 7 2) 1 = Inr (mk_date 2026 7 6)
   \<and> int (card {d. mk_date 2026 7 2 < d \<and> d \<le> mk_date 2026 7 6 \<and> trading d}) = 1"
proof -
  have h: "settlement_date (mk_date 2026 7 2) 1 = Inr (mk_date 2026 7 6)" by code_simp
  show ?thesis using h settlement_date_counts_sessions [OF h] by simp
qed

text \<open>
  The settlement instant of a fill lies more than eight and a half hours after the fill,
  whatever the time of day, the season and the number of sessions: proceeds never settle at
  or before the trade that produced them.
\<close>
theorem settlement_instant_after_fill:
  assumes "settlement_instant (Aware t) t_plus = Inr s"
  shows "t + 8 * hour_us + hour_us div 2 < s"
  using assms by (rule settlement_instant_later)

theorem settlement_instant_after_fill_witness:
  "settlement_instant (Aware (mk_date 2026 7 2 * day_us + 18 * hour_us)) 1
     = Inr (mk_date 2026 7 6 * day_us + 13 * hour_us + hour_us div 2)
   \<and> mk_date 2026 7 2 * day_us + 18 * hour_us + 8 * hour_us + hour_us div 2
     < mk_date 2026 7 6 * day_us + 13 * hour_us + hour_us div 2"
proof -
  have h: "settlement_instant (Aware (mk_date 2026 7 2 * day_us + 18 * hour_us)) 1
     = Inr (mk_date 2026 7 6 * day_us + 13 * hour_us + hour_us div 2)" by code_simp
  show ?thesis using h settlement_instant_after_fill [OF h] by simp
qed

end
