(* ===== verification/Lots.thy ===== *)
theory Lots
  imports Calendar "HOL-Library.Product_Lexorder" "HOL-Library.List_Lexorder" "HOL-Library.Char_ord"
    "HOL-Library.Multiset"
begin

text \<open>
  agent/lot_selection.py and agent/holding.py: versioned policies, lots, the broker's disposal
  order and the minimum-hold gate.

  A registry is the dict \<open>_by_version\<close>. Both registries have the same contract, the locale
  \<open>versioned_registry\<close>: what a version means never changes once it is registered. Times are
  instants, \<open>minimum_hold\<close> and \<open>cooldown_period\<close> are microseconds, quantities are Decimals.
  The property of the gate is stated against the disposal the broker performs
  (\<open>fifo_touched\<close>): a quantity the gate calls sellable reaches eligible lots only.
\<close>

subsection \<open>Immutable versioned registries\<close>

locale versioned_registry =
  fixes version_of :: "'p \<Rightarrow> string"
    and register :: "'r \<Rightarrow> 'p \<Rightarrow> 'r result"
    and get :: "'r \<Rightarrow> string \<Rightarrow> 'p result"
  assumes get_register: "register r p = Inr r' \<Longrightarrow>
            get r' v = (if v = version_of p then Inr p else get r v)"
    and register_conflict: "get r (version_of p) = Inr q \<Longrightarrow> q \<noteq> p \<Longrightarrow> \<exists>e. register r p = Inl e"
begin

text \<open>A registered version keeps its meaning under any later registrations.\<close>

lemma register_keeps: "get r v = Inr p \<Longrightarrow> register r q = Inr r' \<Longrightarrow> get r' v = Inr p"
  using get_register [of r q r' v] register_conflict [of r q p] by (auto split: if_splits)

lemma register_all_keeps:
  "get r v = Inr p \<Longrightarrow> foldE register r qs = Inr r' \<Longrightarrow> get r' v = Inr p"
  by (rule foldE_invariant [where P = "\<lambda>r. get r v = Inr p"]) (auto intro: register_keeps)

end

subsection \<open>Lot selection\<close>

datatype lot_selection_method =
  BROKER_FIFO | SPECIFIC_IDENTIFICATION | HIFO | LIFO | TAX_OPTIMIZED

definition SUPPORTED_METHODS :: "lot_selection_method list" where
  "SUPPORTED_METHODS = [BROKER_FIFO]"

record lot_selection_policy =
  lsp_version :: string
  lsp_method :: lot_selection_method

type_synonym lsp_registry = "lot_selection_policy dict"

definition lsp_register :: "lsp_registry \<Rightarrow> lot_selection_policy \<Rightarrow> lsp_registry result" where
  "lsp_register r p =
     (case map_of r (lsp_version p) of
        Some existing \<Rightarrow> if existing \<noteq> p then Inl UnsupportedLotSelectionPolicy
                         else Inr (AList.update (lsp_version p) p r)
      | None \<Rightarrow> Inr (AList.update (lsp_version p) p r))"

definition lsp_get :: "lsp_registry \<Rightarrow> string \<Rightarrow> lot_selection_policy result" where
  "lsp_get r v = (case map_of r v of Some p \<Rightarrow> Inr p | None \<Rightarrow> Inl UnsupportedLotSelectionPolicy)"

interpretation lsp: versioned_registry lsp_version lsp_register lsp_get
  by unfold_locales
     (auto simp: lsp_register_def lsp_get_def split: option.splits if_splits)

definition ALPACA_DEFAULT_POLICY :: lot_selection_policy where
  "ALPACA_DEFAULT_POLICY = \<lparr> lsp_version = ''alpaca-2026-07'', lsp_method = BROKER_FIFO \<rparr>"

text \<open>Anything with an opening instant and a lot id can be ordered; \<open>key\<close> reads both.\<close>

definition disposal_order ::
  "lot_selection_policy \<Rightarrow> ('a \<Rightarrow> instant \<times> string) \<Rightarrow> 'a list \<Rightarrow> 'a list result" where
  "disposal_order policy key lots =
     (if lsp_method policy \<notin> set SUPPORTED_METHODS then Inl UnsupportedLotSelectionPolicy
      else Inr (sort_key key lots))"

lemma disposal_order_eq_Inr:
  "disposal_order policy key lots = Inr xs \<longleftrightarrow> lsp_method policy = BROKER_FIFO \<and> xs = sort_key key lots"
  by (auto simp: disposal_order_def SUPPORTED_METHODS_def)

lemma disposal_order_default [simp]:
  "disposal_order ALPACA_DEFAULT_POLICY key lots = Inr (sort_key key lots)"
  by (simp add: disposal_order_eq_Inr ALPACA_DEFAULT_POLICY_def)

subsection \<open>Holding policies and lots\<close>

datatype exit_category =
  STOP_LOSS | ADVERSE_DISCLOSURE | DISTRESS_EVENT | PORTFOLIO_BREACH
  | RECONCILIATION_FAULT | MANUAL_INSTRUCTION

definition EVIDENCE_EXEMPT :: "exit_category list" where
  "EVIDENCE_EXEMPT = [MANUAL_INSTRUCTION]"

record holding_policy =
  hp_version :: string
  hp_minimum_holding_period :: timedelta
  hp_cooldown_period :: timedelta
  hp_effective_at :: "instant option"

type_synonym hp_registry = "holding_policy dict"

definition hp_register :: "hp_registry \<Rightarrow> holding_policy \<Rightarrow> hp_registry result" where
  "hp_register r p =
     (case map_of r (hp_version p) of
        Some existing \<Rightarrow> if existing \<noteq> p then Inl HoldingViolation
                         else Inr (AList.update (hp_version p) p r)
      | None \<Rightarrow> Inr (AList.update (hp_version p) p r))"

definition hp_get :: "hp_registry \<Rightarrow> string \<Rightarrow> holding_policy result" where
  "hp_get r v = (case map_of r v of Some p \<Rightarrow> Inr p | None \<Rightarrow> Inl HoldingViolation)"

interpretation hp: versioned_registry hp_version hp_register hp_get
  by unfold_locales
     (auto simp: hp_register_def hp_get_def split: option.splits if_splits)

record lot =
  lot_id :: string
  lot_account :: string
  lot_symbol :: string
  lot_qty :: decimal
  lot_cost_basis :: decimal
  lot_opened_at :: instant
  lot_minimum_hold :: timedelta
  lot_policy_version :: string
  lot_settles_at :: "instant option"
  lot_closed_at :: "instant option"

definition make_lot ::
  "hp_registry \<Rightarrow> string \<Rightarrow> string \<Rightarrow> string \<Rightarrow> decimal \<Rightarrow> decimal \<Rightarrow> instant \<Rightarrow> string
   \<Rightarrow> instant option \<Rightarrow> lot result" where
  "make_lot r lid acct sy qty basis opened version settles =
     bindE (hp_get r version) (\<lambda>policy.
       Inr \<lparr> lot_id = lid, lot_account = acct, lot_symbol = sy, lot_qty = qty,
             lot_cost_basis = basis, lot_opened_at = opened,
             lot_minimum_hold = hp_minimum_holding_period policy,
             lot_policy_version = hp_version policy, lot_settles_at = settles,
             lot_closed_at = None \<rparr>)"

definition earliest_normal_exit_at :: "lot \<Rightarrow> instant" where
  "earliest_normal_exit_at l = lot_opened_at l + lot_minimum_hold l"

definition is_settled :: "lot \<Rightarrow> instant \<Rightarrow> bool" where
  "is_settled l now = (case lot_settles_at l of None \<Rightarrow> True | Some t \<Rightarrow> now \<ge> t)"

definition is_hold_eligible :: "lot \<Rightarrow> instant \<Rightarrow> bool" where
  "is_hold_eligible l now \<longleftrightarrow> now \<ge> earliest_normal_exit_at l"

definition is_open :: "lot \<Rightarrow> bool" where
  "is_open l \<longleftrightarrow> lot_closed_at l = None"

definition remaining_hold :: "lot \<Rightarrow> instant \<Rightarrow> timedelta" where
  "remaining_hold l now = max 0 (earliest_normal_exit_at l - now)"

definition open_lots :: "lot list \<Rightarrow> string \<Rightarrow> string option \<Rightarrow> lot list" where
  "open_lots lots acct sy =
     filter (\<lambda>l. is_open l \<and> lot_account l = acct
                 \<and> (case sy of None \<Rightarrow> True | Some s \<Rightarrow> lot_symbol l = s)) lots"

definition fifo_key :: "lot \<Rightarrow> instant \<times> string" where
  "fifo_key l = (lot_opened_at l, lot_id l)"

text \<open>The loop of \<open>sellable_qty\<close>: it stops at the first lot that is unsettled or still held.\<close>

definition exit_ready :: "instant \<Rightarrow> lot \<Rightarrow> bool" where
  "exit_ready now l \<longleftrightarrow> is_hold_eligible l now \<and> is_settled l now"

fun sellable_walk :: "instant \<Rightarrow> decimal \<Rightarrow> lot list \<Rightarrow> decimal" where
  "sellable_walk now tot [] = tot"
| "sellable_walk now tot (l # ls) =
     (if \<not> (is_hold_eligible l now \<and> is_settled l now) then tot
      else sellable_walk now (dec (tot + lot_qty l)) ls)"

definition sellable_qty ::
  "lot_selection_policy \<Rightarrow> lot list \<Rightarrow> string \<Rightarrow> string \<Rightarrow> instant \<Rightarrow> decimal result" where
  "sellable_qty policy lots acct sy now =
     bindE (disposal_order policy fifo_key (open_lots lots acct (Some sy)))
       (\<lambda>ordered. Inr (sellable_walk now 0 ordered))"

definition blocked_qty ::
  "lot_selection_policy \<Rightarrow> lot list \<Rightarrow> string \<Rightarrow> string \<Rightarrow> instant \<Rightarrow> decimal result" where
  "blocked_qty policy lots acct sy now =
     (let total_open = sum_seq dec 0 (map lot_qty (open_lots lots acct (Some sy)))
      in bindE (sellable_qty policy lots acct sy now) (\<lambda>s. Inr (dec (total_open - s))))"

definition symbols_in_cooldown :: "hp_registry \<Rightarrow> instant \<Rightarrow> lot list \<Rightarrow> string list result" where
  "symbols_in_cooldown r now =
     foldE (\<lambda>acc l. case lot_closed_at l of
               None \<Rightarrow> Inr acc
             | Some c \<Rightarrow> bindE (hp_get r (lot_policy_version l)) (\<lambda>policy.
                 Inr (if now - c < hp_cooldown_period policy then List.insert (lot_symbol l) acc
                      else acc))) []"

definition check_normal_exit :: "lot \<Rightarrow> instant \<Rightarrow> unit result" where
  "check_normal_exit l now =
     (if \<not> is_open l then Inl HoldingViolation
      else if \<not> is_settled l now then Inl HoldingViolation
      else if \<not> is_hold_eligible l now then Inl HoldingViolation
      else Inr ())"

record early_exit_request =
  ex_request_id :: string
  ex_lot_id :: string
  ex_category :: exit_category
  ex_evidence :: "string option"
  ex_remaining_hold :: timedelta
  ex_requested_at :: instant

text \<open>\<open>not evidence_fact_ref\<close> holds of \<open>None\<close> and of the empty string.\<close>

definition request_early_exit ::
  "lot \<Rightarrow> string \<Rightarrow> exit_category \<Rightarrow> string option \<Rightarrow> instant \<Rightarrow> early_exit_request result" where
  "request_early_exit l rid cat evidence now =
     (if cat \<notin> set EVIDENCE_EXEMPT \<and> (evidence = None \<or> evidence = Some []) then Inl HoldingViolation
      else if is_hold_eligible l now \<and> is_settled l now then Inl HoldingViolation
      else Inr \<lparr> ex_request_id = rid, ex_lot_id = lot_id l, ex_category = cat,
                 ex_evidence = evidence, ex_remaining_hold = remaining_hold l now,
                 ex_requested_at = now \<rparr>)"

subsection \<open>Frozen policies\<close>

lemma make_lot_eq_Inr:
  "make_lot r lid acct sy qty basis opened v settles = Inr l \<longleftrightarrow>
   (\<exists>p. hp_get r v = Inr p \<and>
     l = \<lparr> lot_id = lid, lot_account = acct, lot_symbol = sy, lot_qty = qty,
           lot_cost_basis = basis, lot_opened_at = opened,
           lot_minimum_hold = hp_minimum_holding_period p, lot_policy_version = hp_version p,
           lot_settles_at = settles, lot_closed_at = None \<rparr>)"
  by (auto simp: make_lot_def result_simps)

subsection \<open>The sellable quantity\<close>

text \<open>Quantities that Decimal arithmetic adds up exactly: non-negative, at most \<open>k\<close> decimal
  places, and a total below \<open>10 ^ (28 - k)\<close>.\<close>

definition exact_qtys :: "nat \<Rightarrow> lot list \<Rightarrow> bool" where
  "exact_qtys k ls \<longleftrightarrow> (\<forall>l \<in> set ls. 0 \<le> lot_qty l \<and> on_grid k (lot_qty l))
     \<and> sum_list (map lot_qty ls) * 10 ^ k \<le> 10 ^ 28"

lemma sum_qty_nonneg: "\<forall>l \<in> set ls. 0 \<le> lot_qty l \<Longrightarrow> 0 \<le> sum_list (map lot_qty ls)"
  by (induction ls) auto

lemma sellable_walk_exact:
  assumes "\<forall>l \<in> set ls. 0 \<le> lot_qty l \<and> on_grid k (lot_qty l)"
    and "on_grid k tot" and "0 \<le> tot"
    and "(tot + sum_list (map lot_qty ls)) * 10 ^ k \<le> 10 ^ 28"
  shows "sellable_walk now tot ls = tot + sum_list (map lot_qty (takeWhile (exit_ready now) ls))"
  using assms
proof (induction ls arbitrary: tot)
  case (Cons l ls)
  have nn: "0 \<le> sum_list (map lot_qty ls)" using Cons.prems(1) by (intro sum_qty_nonneg) auto
  have g: "on_grid k (tot + lot_qty l)" using Cons.prems(1,2) by auto
  have "(tot + lot_qty l) * 10 ^ k \<le> (tot + lot_qty l + sum_list (map lot_qty ls)) * 10 ^ k"
    using nn by (intro mult_right_mono) auto
  also have "\<dots> \<le> 10 ^ 28" using Cons.prems(4) by (simp add: add.assoc)
  finally have d: "dec (tot + lot_qty l) = tot + lot_qty l"
    using g Cons.prems(1,3) by (intro dec_on_grid) auto
  have "sellable_walk now (tot + lot_qty l) ls
    = (tot + lot_qty l) + sum_list (map lot_qty (takeWhile (exit_ready now) ls))"
    using Cons.prems g by (intro Cons.IH) (auto simp: add.assoc)
  with d show ?case by (simp add: exit_ready_def [of now l])
qed simp

lemma exact_qtys_sort [simp]: "exact_qtys k (sort_key f ls) = exact_qtys k ls"
proof -
  have "mset (map lot_qty (sort_key f ls)) = mset (map lot_qty ls)" by simp
  then have "sum_list (map lot_qty (sort_key f ls)) = sum_list (map lot_qty ls)"
    by (metis sum_mset_sum_list)
  then show ?thesis by (simp add: exact_qtys_def)
qed

lemma sellable_qty_exact:
  assumes "sellable_qty policy lots acct sy now = Inr s"
    and "exact_qtys k (open_lots lots acct (Some sy))"
  shows "s = sum_list (map lot_qty
           (takeWhile (exit_ready now) (sort_key fifo_key (open_lots lots acct (Some sy)))))"
proof -
  let ?ls = "sort_key fifo_key (open_lots lots acct (Some sy))"
  have "s = sellable_walk now 0 ?ls"
    using assms(1) by (auto simp: sellable_qty_def disposal_order_eq_Inr result_simps)
  moreover have "exact_qtys k ?ls" using assms(2) by simp
  ultimately show ?thesis
    using sellable_walk_exact [of ?ls k 0 now] by (simp add: exact_qtys_def)
qed

text \<open>The lots a sale of \<open>q\<close> reaches when the broker disposes of them in the given order.\<close>

fun fifo_touched :: "decimal \<Rightarrow> lot list \<Rightarrow> lot list" where
  "fifo_touched q [] = []"
| "fifo_touched q (l # ls) = (if q \<le> 0 then [] else l # fifo_touched (q - lot_qty l) ls)"

lemma fifo_touched_ready:
  "q \<le> sum_list (map lot_qty (takeWhile (exit_ready now) ls)) \<Longrightarrow>
   l \<in> set (fifo_touched q ls) \<Longrightarrow> exit_ready now l"
  by (induction q ls rule: fifo_touched.induct) (auto simp: algebra_simps split: if_splits)

lemma sum_takeWhile_le:
  "\<forall>l \<in> set ls. 0 \<le> lot_qty l \<Longrightarrow>
   sum_list (map lot_qty (takeWhile P ls)) \<le> sum_list (map lot_qty ls)"
  by (induction ls) (auto simp: sum_qty_nonneg add_nonneg_nonneg)

lemma open_lots_idem [simp]: "open_lots (open_lots lots acct sy) acct sy = open_lots lots acct sy"
  by (simp add: open_lots_def)

lemma sellable_qty_own_lots:
  "sellable_qty policy (open_lots lots acct (Some sy)) acct sy now = sellable_qty policy lots acct sy now"
  by (simp add: sellable_qty_def)

lemma sellable_qty_blocked_first:
  assumes "sellable_qty policy lots acct sy now = Inr s"
    and "sort_key fifo_key (open_lots lots acct (Some sy)) = l # ls" and "\<not> exit_ready now l"
  shows "s = 0"
  using assms by (auto simp: sellable_qty_def disposal_order_eq_Inr exit_ready_def result_simps)

subsection \<open>Normal and early exits\<close>

lemma check_normal_exit_ok:
  "check_normal_exit l now = Inr u \<longleftrightarrow> is_open l \<and> exit_ready now l"
  by (auto simp: check_normal_exit_def exit_ready_def)

lemma request_early_exit_ok:
  "is_ok (request_early_exit l rid cat ev now) \<longleftrightarrow>
   (cat = MANUAL_INSTRUCTION \<or> (\<exists>c cs. ev = Some (c # cs))) \<and> \<not> exit_ready now l"
  by (cases ev rule: option.exhaust; cases "the ev")
     (auto simp: request_early_exit_def EVIDENCE_EXEMPT_def exit_ready_def is_ok_def)

lemma remaining_hold_zero: "remaining_hold l now = 0 \<longleftrightarrow> is_hold_eligible l now"
  by (auto simp: remaining_hold_def is_hold_eligible_def)

lemma symbols_in_cooldown_spec:
  assumes "symbols_in_cooldown r now lots = Inr syms"
  shows "set syms = {lot_symbol l | l p c. l \<in> set lots \<and> lot_closed_at l = Some c
     \<and> hp_get r (lot_policy_version l) = Inr p \<and> now - c < hp_cooldown_period p}"
proof -
  have "foldE (\<lambda>acc l. case lot_closed_at l of None \<Rightarrow> Inr acc
             | Some c \<Rightarrow> bindE (hp_get r (lot_policy_version l)) (\<lambda>policy.
                 Inr (if now - c < hp_cooldown_period policy then List.insert (lot_symbol l) acc
                      else acc))) acc0 lots = Inr syms \<Longrightarrow>
     set syms = set acc0 \<union> {lot_symbol l | l p c. l \<in> set lots \<and> lot_closed_at l = Some c
     \<and> hp_get r (lot_policy_version l) = Inr p \<and> now - c < hp_cooldown_period p}" for acc0
  proof (induction lots arbitrary: acc0)
    case (Cons l ls)
    then show ?case
      by (cases "lot_closed_at l"; cases "hp_get r (lot_policy_version l)")
         (auto simp: List.set_insert split: if_splits)
  qed simp
  from this [of "[]"] assms show ?thesis by (simp add: symbols_in_cooldown_def)
qed

subsection \<open>Properties\<close>

text \<open>
C27: The minimum-hold gate is safe against the broker's own disposal order: if at most the
  quantity \<open>sellable_qty\<close> reports is sold, every lot the broker's first-in-first-out disposal
  reaches is settled and past its minimum hold. Quantities have at most \<open>k\<close> decimal places
  and add up below \<open>10 ^ (28 - k)\<close>, so Decimal sums are exact.
\<close>
theorem sellable_qty_fifo_safe:
  assumes "sellable_qty policy lots acct sy now = Inr s"
    and "exact_qtys k (open_lots lots acct (Some sy))" and "q \<le> s"
    and "l \<in> set (fifo_touched q (sort_key fifo_key (open_lots lots acct (Some sy))))"
  shows "is_settled l now \<and> is_hold_eligible l now"
  using fifo_touched_ready [OF _ assms(4)] sellable_qty_exact [OF assms(1,2)] assms(3)
  by (simp add: exit_ready_def)

definition lot_ex :: "string \<Rightarrow> decimal \<Rightarrow> instant \<Rightarrow> timedelta \<Rightarrow> lot" where
  "lot_ex lid q opened hold =
     \<lparr> lot_id = lid, lot_account = ''A1'', lot_symbol = ''SPY'', lot_qty = q, lot_cost_basis = 100,
       lot_opened_at = opened, lot_minimum_hold = hold, lot_policy_version = ''v1'',
       lot_settles_at = Some (opened + 1), lot_closed_at = None \<rparr>"

lemma fifo_key_lot_ex [simp]: "fifo_key (lot_ex lid q opened hold) = (opened, lid)"
  by (simp add: fifo_key_def lot_ex_def)

theorem sellable_qty_fifo_safe_witness:
  "sellable_qty ALPACA_DEFAULT_POLICY
     [lot_ex ''L3'' 1 3 50, lot_ex ''L2'' 4 20 100, lot_ex ''L1'' (5/2) 0 10] ''A1'' ''SPY'' 60 = Inr (7/2)
   \<and> is_settled (lot_ex ''L3'' 1 3 50) 60 \<and> is_hold_eligible (lot_ex ''L3'' 1 3 50) 60"
proof -
  let ?ls = "[lot_ex ''L3'' 1 3 50, lot_ex ''L2'' 4 20 100, lot_ex ''L1'' (5/2) 0 10]"
  have o: "open_lots ?ls ''A1'' (Some ''SPY'') = ?ls"
    by (simp add: open_lots_def is_open_def lot_ex_def)
  have srt: "sort_key fifo_key ?ls = [lot_ex ''L1'' (5/2) 0 10, lot_ex ''L3'' 1 3 50, lot_ex ''L2'' 4 20 100]"
    by simp
  have ex: "exact_qtys 1 ?ls" by (simp add: exact_qtys_def on_grid_def lot_ex_def)
  have d: "dec (5/2) = 5/2" "dec (7/2) = 7/2"
    using dec_grid [of 25 1] dec_grid [of 35 1] by simp_all
  have h: "sellable_qty ALPACA_DEFAULT_POLICY ?ls ''A1'' ''SPY'' 60 = Inr (7/2)"
    by (simp add: sellable_qty_def o srt)
       (simp add: lot_ex_def is_hold_eligible_def earliest_normal_exit_at_def is_settled_def d)
  have "lot_ex ''L3'' 1 3 50 \<in> set (fifo_touched (7/2)
      (sort_key fifo_key (open_lots ?ls ''A1'' (Some ''SPY''))))"
    unfolding o srt by (simp add: lot_ex_def)
  from sellable_qty_fifo_safe [OF h _ order_refl this, of 1] ex o h show ?thesis by simp
qed

text \<open>
  A lot's minimum hold is frozen by its policy version: once a lot can be made under a
  version, any sequence of later registrations that the registry accepts leaves that lot, its
  hold and its version exactly as they were.
\<close>
theorem holding_policy_frozen:
  assumes "make_lot r lid acct sy qty basis opened v settles = Inr l"
    and "foldE hp_register r ps = Inr r'"
  shows "make_lot r' lid acct sy qty basis opened v settles = Inr l"
proof -
  from assms(1) obtain p where p: "hp_get r v = Inr p" by (auto simp: make_lot_eq_Inr)
  from hp.register_all_keeps [OF p assms(2)] p assms(1) show ?thesis by (auto simp: make_lot_eq_Inr)
qed

definition hp_ex :: "string \<Rightarrow> timedelta \<Rightarrow> holding_policy" where
  "hp_ex v hold = \<lparr> hp_version = v, hp_minimum_holding_period = hold, hp_cooldown_period = 5,
     hp_effective_at = None \<rparr>"

theorem holding_policy_frozen_witness:
  "make_lot [(''v1'', hp_ex ''v1'' 60), (''v2'', hp_ex ''v2'' 1)] ''L'' ''A'' ''SPY'' 1 100 0 ''v1'' None
   = make_lot [(''v1'', hp_ex ''v1'' 60)] ''L'' ''A'' ''SPY'' 1 100 0 ''v1'' None"
proof -
  obtain l where l: "make_lot [(''v1'', hp_ex ''v1'' 60)] ''L'' ''A'' ''SPY'' 1 100 0 ''v1'' None = Inr l"
    by (simp add: make_lot_def hp_get_def)
  have "foldE hp_register [(''v1'', hp_ex ''v1'' 60)] [hp_ex ''v2'' 1, hp_ex ''v1'' 60]
    = Inr [(''v1'', hp_ex ''v1'' 60), (''v2'', hp_ex ''v2'' 1)]"
    by (simp add: hp_register_def hp_ex_def)
  from holding_policy_frozen [OF l this] l show ?thesis by simp
qed

text \<open>
  The early-exit path is no shortcut and no bypass: a request is granted only for a lot that
  a normal exit would refuse at the same instant, only with evidence unless it is a manual
  instruction, and it reports the hold that is left.
\<close>
theorem early_exit_only_when_blocked:
  assumes "request_early_exit l rid cat ev now = Inr req"
  shows "check_normal_exit l now = Inl HoldingViolation
    \<and> (cat = MANUAL_INSTRUCTION \<or> (\<exists>c cs. ev = Some (c # cs)))
    \<and> ex_lot_id req = lot_id l \<and> ex_remaining_hold req = max 0 (lot_opened_at l + lot_minimum_hold l - now)"
proof -
  have "is_ok (request_early_exit l rid cat ev now)" using assms by (simp add: is_ok_def)
  then have "\<not> exit_ready now l" "cat = MANUAL_INSTRUCTION \<or> (\<exists>c cs. ev = Some (c # cs))"
    by (simp_all add: request_early_exit_ok)
  with assms show ?thesis
    by (auto simp: request_early_exit_def check_normal_exit_def exit_ready_def remaining_hold_def
        earliest_normal_exit_at_def split: if_splits)
qed

theorem early_exit_only_when_blocked_witness:
  "check_normal_exit (lot_ex ''L1'' 1 0 100) 60 = Inl HoldingViolation
   \<and> max 0 (0 + 100 - 60) = (40 :: int)"
proof -
  have h: "request_early_exit (lot_ex ''L1'' 1 0 100) ''r1'' STOP_LOSS (Some ''fact-1'') 60
    = Inr \<lparr> ex_request_id = ''r1'', ex_lot_id = ''L1'', ex_category = STOP_LOSS,
            ex_evidence = Some ''fact-1'', ex_remaining_hold = 40, ex_requested_at = 60 \<rparr>"
    by (simp add: request_early_exit_def EVIDENCE_EXEMPT_def lot_ex_def is_hold_eligible_def
        earliest_normal_exit_at_def remaining_hold_def)
  from early_exit_only_when_blocked [OF h] show ?thesis by simp
qed

end
