(* ===== verification/Accounts.thy ===== *)
theory Accounts
  imports Calendar
begin

text \<open>
  agent/accounts.py, agent/tax.py and agent/daytrade.py: the account dimension, the tax
  classification of a closed lot, and the rolling day-trade guard of one account.
\<close>

subsection \<open>Accounts\<close>

datatype account_type = TAXABLE | ROTH_IRA | TRADITIONAL_IRA

definition is_retirement :: "account_type \<Rightarrow> bool" where
  "is_retirement t \<longleftrightarrow> t \<noteq> TAXABLE"

record broker_credentials =
  bc_account :: string
  bc_key_id :: string
  bc_secret_ref :: string

record account_report =
  ar_account :: string
  ar_type :: account_type
  ar_nlv :: pyfloat
  ar_settled_cash :: pyfloat

text \<open>The read-only aggregate is its own type: no order path accepts it.\<close>

record aggregate =
  ag_accounts :: "string list"
  ag_total_nlv :: pyfloat
  ag_total_settled_cash :: pyfloat
  ag_by_account :: "(account_type \<times> pyfloat \<times> pyfloat) dict"

definition aggregate_report :: "account_report list \<Rightarrow> aggregate" where
  "aggregate_report reports =
     \<lparr> ag_accounts = map ar_account reports,
       ag_total_nlv = sum_seq fl 0 (map ar_nlv reports),
       ag_total_settled_cash = sum_seq fl 0 (map ar_settled_cash reports),
       ag_by_account = foldl (\<lambda>d r. AList.update (ar_account r)
                          (ar_type r, ar_nlv r, ar_settled_cash r) d) [] reports \<rparr>"

subsection \<open>Tax classification\<close>

datatype tax_character = SHORT_TERM | LONG_TERM | NOT_APPLICABLE

record tax_classification =
  tx_character :: tax_character
  tx_wash_sale :: bool
  tx_realized_gain :: "pyfloat option"

definition LONG_TERM_THRESHOLD :: timedelta where
  "LONG_TERM_THRESHOLD = 365 * day_us"

definition classify ::
  "account_type \<Rightarrow> instant \<Rightarrow> instant \<Rightarrow> pyfloat \<Rightarrow> pyfloat \<Rightarrow> bool \<Rightarrow> tax_classification" where
  "classify acct opened closed_at proceeds cost_basis repurchased =
     (if is_retirement acct
      then \<lparr> tx_character = NOT_APPLICABLE, tx_wash_sale = False, tx_realized_gain = None \<rparr>
      else let gain = fl (proceeds - cost_basis)
           in \<lparr> tx_character = (if closed_at - opened > LONG_TERM_THRESHOLD then LONG_TERM else SHORT_TERM),
                tx_wash_sale = (gain < 0 \<and> repurchased),
                tx_realized_gain = Some gain \<rparr>)"

text \<open>Rounding the gain never changes its sign, so a wash sale is exactly a loss repurchased.\<close>

lemma fl_neg_iff: "fl x < 0 \<longleftrightarrow> x < 0"
  using flt.rnd_pos_iff [of "- x"] by (simp add: flt.rnd_uminus)

text \<open>
  A wash sale is flagged exactly for a taxable account whose lot closed below its cost basis
  and was repurchased in the window; a retirement account has no gain and no flag, whatever
  the prices and the holding period. The float subtraction never flips the sign.
\<close>
theorem wash_sale_exactly_taxable_loss:
  "(tx_wash_sale (classify acct opened closed_at proceeds cost_basis repurchased))
     = (acct = TAXABLE \<and> proceeds < cost_basis \<and> repurchased)
   \<and> (tx_realized_gain (classify acct opened closed_at proceeds cost_basis repurchased) = None)
     = (acct \<noteq> TAXABLE)"
  by (auto simp: classify_def is_retirement_def Let_def fl_neg_iff)

subsection \<open>The day-trade guard\<close>

definition WINDOW_SESSIONS :: int where "WINDOW_SESSIONS = 5"

record day_trade_guard =
  dt_account :: string
  dt_max :: int
  dt_round_trips :: "(date \<times> string) list"

definition dt_record :: "day_trade_guard \<Rightarrow> date \<Rightarrow> string \<Rightarrow> day_trade_guard" where
  "dt_record g session sy = g\<lparr>dt_round_trips := dt_round_trips g @ [(session, sy)]\<rparr>"

definition dt_count :: "day_trade_guard \<Rightarrow> date \<Rightarrow> int result" where
  "dt_count g as_of =
     bindE (trailing_sessions as_of WINDOW_SESSIONS) (\<lambda>window.
       Inr (int (length (filter (\<lambda>(s, _). s \<in> set window) (dt_round_trips g)))))"

definition dt_would_breach :: "day_trade_guard \<Rightarrow> date \<Rightarrow> bool result" where
  "dt_would_breach g as_of = bindE (dt_count g as_of) (\<lambda>n. Inr (n \<ge> dt_max g))"

definition dt_check :: "day_trade_guard \<Rightarrow> date \<Rightarrow> string \<Rightarrow> unit result" where
  "dt_check g as_of posture =
     (if posture = ''MARGIN_OVER_25K'' then Inr ()
      else bindE (dt_would_breach g as_of) (\<lambda>b. if b then Inl DayTradeBlocked else Inr ()))"

definition dt_reconcile ::
  "day_trade_guard \<Rightarrow> string \<Rightarrow> int option \<Rightarrow> date \<Rightarrow> unit result" where
  "dt_reconcile g acct broker_reported as_of =
     (if acct \<noteq> dt_account g then Inl (CrossAccountError (dt_account g) acct)
      else bindE (dt_count g as_of) (\<lambda>local_count.
        case broker_reported of
          None \<Rightarrow> if local_count = 0 then Inr () else Inl UnverifiableDayTradeCount
        | Some n \<Rightarrow> if n \<noteq> local_count then Inl PostureMismatch else Inr ()))"

text \<open>Round trips that fall on one of the last five trading days up to \<open>as_of\<close>.\<close>

definition trips_since :: "date \<Rightarrow> date \<Rightarrow> day_trade_guard \<Rightarrow> (date \<times> string) list" where
  "trips_since first as_of g =
     filter (\<lambda>(s, _). first \<le> s \<and> s \<le> as_of \<and> trading s) (dt_round_trips g)"

lemma dt_count_window:
  assumes "trailing_sessions as_of 5 = Inr ws"
    and "set ws = {d. hd ws \<le> d \<and> d \<le> as_of \<and> trading d}"
  shows "dt_count g as_of = Inr (int (length (trips_since (hd ws) as_of g)))"
proof -
  have "filter (\<lambda>(s, _). s \<in> set ws) (dt_round_trips g) = trips_since (hd ws) as_of g"
    unfolding trips_since_def by (rule filter_cong) (use assms(2) in auto)
  with assms(1) show ?thesis by (simp add: dt_count_def WINDOW_SESSIONS_def)
qed

text \<open>The trailing window as a set, from the walk.\<close>

lemma trailing_window:
  assumes "trailing_sessions as_of 5 = Inr ws"
  shows "set ws = {d. hd ws \<le> d \<and> d \<le> as_of \<and> trading d} \<and> length ws = 5"
proof -
  from assms have rng: "in_range as_of" and w: "trailing_walk 5 as_of [] = Inr ws"
    by (auto simp: trailing_sessions_def check_range_def result_simps)
  then obtain lo where lo: "int (length ws) = 5" "sorted_wrt (<) ws" "set ws = sessions_in lo as_of"
    using trailing_walk_spec [OF w, of as_of] by (auto simp: in_range_iff)
  then obtain x xs where ws: "ws = x # xs" by (cases ws) auto
  have "lo < x" using lo(3) ws by (auto simp: sessions_in_def)
  moreover have "\<forall>d \<in> set ws. x \<le> d" using lo(2) ws by (auto simp: order_le_less)
  ultimately have "set ws = {d. hd ws \<le> d \<and> d \<le> as_of \<and> trading d}"
    using lo(3) ws by (auto simp: sessions_in_def)
  with lo(1) show ?thesis by simp
qed

definition first_week :: "date list" where
  "first_week = [mk_date 2024 1 2, mk_date 2024 1 3, mk_date 2024 1 4, mk_date 2024 1 5,
     mk_date 2024 1 8]"

lemma first_week_sessions:
  "list_all (\<lambda>d. trading d \<and> 738885 < d \<and> d \<le> mk_date 2024 1 8) first_week" "distinct first_week"
  by code_simp+

lemma trailing_sessions_total:
  assumes "in_range as_of" and "mk_date 2024 1 8 \<le> as_of"
  shows "\<exists>ws. trailing_sessions as_of 5 = Inr ws"
proof -
  have "set first_week \<subseteq> sessions_in 738885 as_of"
    using first_week_sessions(1) assms(2) by (fastforce simp: sessions_in_def list_all_iff)
  then have "card (set first_week) \<le> card (sessions_in 738885 as_of)" by (intro card_mono) simp_all
  moreover have "card (set first_week) = 5"
    using distinct_card [OF first_week_sessions(2)] by (simp add: first_week_def)
  ultimately have "is_ok (trailing_walk 5 as_of [])"
    using assms(1) by (simp add: trailing_walk_defined in_range_iff)
  with assms(1) show ?thesis
    by (auto simp: trailing_sessions_def check_range_def is_ok_iff)
qed

text \<open>
  The day-trade guard blocks exactly when the account is not a margin account over 25k and
  the round trips recorded on the five most recent trading days reach the limit; a trip older
  than the five-session window never counts, whatever holidays lie in between.
\<close>
theorem day_trade_check_blocks_iff:
  assumes "trailing_sessions as_of 5 = Inr ws"
  shows "dt_check g as_of posture = Inl DayTradeBlocked \<longleftrightarrow>
    posture \<noteq> ''MARGIN_OVER_25K'' \<and>
    dt_max g \<le> int (length (filter (\<lambda>(s, _). hd ws \<le> s \<and> s \<le> as_of \<and> trading s) (dt_round_trips g)))"
  using dt_count_window [OF assms conjunct1 [OF trailing_window [OF assms]], of g]
  by (simp add: dt_check_def dt_would_breach_def trips_since_def)

definition guard_ex :: day_trade_guard where
  "guard_ex = \<lparr> dt_account = ''A1'', dt_max = 3,
     dt_round_trips = [(mk_date 2026 6 29, ''SPY''), (mk_date 2026 7 1, ''SPY''), (mk_date 2026 7 2, ''QQQ'')] \<rparr>"

theorem day_trade_check_blocks_iff_witness:
  "dt_check guard_ex (mk_date 2026 7 6) ''CASH'' = Inl DayTradeBlocked
   \<and> dt_check guard_ex (mk_date 2026 7 7) ''CASH'' \<noteq> Inl DayTradeBlocked"
proof -
  have a: "trailing_sessions (mk_date 2026 7 6) 5 = Inr [mk_date 2026 6 29, mk_date 2026 6 30,
      mk_date 2026 7 1, mk_date 2026 7 2, mk_date 2026 7 6]" by code_simp
  have b: "trailing_sessions (mk_date 2026 7 7) 5 = Inr [mk_date 2026 6 30,
      mk_date 2026 7 1, mk_date 2026 7 2, mk_date 2026 7 6, mk_date 2026 7 7]" by code_simp
  have fa: "length (filter (\<lambda>(s, _). mk_date 2026 6 29 \<le> s \<and> s \<le> mk_date 2026 7 6 \<and> trading s)
      (dt_round_trips guard_ex)) = 3" by code_simp
  have fb: "length (filter (\<lambda>(s, _). mk_date 2026 6 30 \<le> s \<and> s \<le> mk_date 2026 7 7 \<and> trading s)
      (dt_round_trips guard_ex)) = 2" by code_simp
  have m: "dt_max guard_ex = 3" by (simp add: guard_ex_def)
  show ?thesis
    using day_trade_check_blocks_iff [OF a, of guard_ex "''CASH''"]
      day_trade_check_blocks_iff [OF b, of guard_ex "''CASH''"] fa fb m by simp
qed

text \<open>
  A mode that trades never meets the end of the calendar from inside the order path: if the
  startup check lets PAPER or PRODUCTION\_ACTIVE start on a day from 2024-01-08 on, the
  day-trade check on that day answers, with a block or a pass, and raises nothing else.
\<close>
theorem startup_coverage_protects_day_trade_check:
  assumes "exercises_calendar mode"
    and "assert_calendar_coverage_at_startup mode today = Inr w"
    and "mk_date 2024 1 8 \<le> today"
  shows "dt_check g today posture \<in> {Inr (), Inl DayTradeBlocked}"
proof -
  have last: "mk_date MAX_YEAR 12 31 = 740712" by code_simp
  have first: "mk_date 2024 1 8 = 738893" by code_simp
  have "today \<le> 740712"
    using assms(1,2) unfolding assert_calendar_coverage_at_startup_def last Let_def
    by (auto split: if_splits)
  then have "in_range today" using assms(3) first by (simp add: in_range_iff)
  then obtain ws where ws: "trailing_sessions today 5 = Inr ws"
    using trailing_sessions_total assms(3) by blast
  from dt_count_window [OF ws conjunct1 [OF trailing_window [OF ws]], of g]
  show ?thesis by (auto simp: dt_check_def dt_would_breach_def)
qed

theorem startup_coverage_protects_day_trade_check_witness:
  "dt_check guard_ex (mk_date 2028 12 29) ''CASH'' \<in> {Inr (), Inl DayTradeBlocked}"
proof -
  have "exercises_calendar ''PAPER''" by (simp add: exercises_calendar_def)
  moreover have "assert_calendar_coverage_at_startup ''PAPER'' (mk_date 2028 12 29) = Inr (Some (CoverageEndsIn 2))"
    by code_simp
  moreover have "mk_date 2024 1 8 \<le> mk_date 2028 12 29" by code_simp
  ultimately show ?thesis by (rule startup_coverage_protects_day_trade_check)
qed

text \<open>
  Day-trade reconciliation accepts only agreement: on the guard's own account it passes
  exactly when the broker reports the local count, or reports nothing at all while the local
  count is zero; a report for another account is always refused.
\<close>
theorem day_trade_reconcile_exact:
  assumes "dt_count g as_of = Inr n"
  shows "dt_reconcile g acct reported as_of = Inr () \<longleftrightarrow>
    acct = dt_account g \<and> (reported = Some n \<or> reported = None \<and> n = 0)"
  using assms by (auto simp: dt_reconcile_def split: option.splits)

theorem day_trade_reconcile_exact_witness:
  "dt_reconcile guard_ex ''A1'' (Some 3) (mk_date 2026 7 6) = Inr ()
   \<and> dt_reconcile guard_ex ''A1'' None (mk_date 2026 7 6) \<noteq> Inr ()"
proof -
  have h: "dt_count guard_ex (mk_date 2026 7 6) = Inr 3" by code_simp
  from day_trade_reconcile_exact [OF h] show ?thesis by (simp add: guard_ex_def)
qed

end
