(* ===== verification/Risk.thy ===== *)
theory Risk
  imports PyNum Policy
begin

text \<open>
  agent/risk.py: the dual-basis reserve and the portfolio constrainer.

  Weights are binary64 floats, so every product, quotient and sum below is rounded with
  \<open>fl\<close>. The four steps of \<open>risk_constrain\<close> are one definition each, composed in the
  specified order; the three \<open>assert\<close>s at its end are branches that raise \<open>AssertionError\<close>.
  The main lemmas bound the rounding errors of the scalings, which is what shows that the
  assertions never fire.
\<close>

record risk_policy =
  rp_version :: string
  rp_max_position_pct :: pyfloat
  rp_max_sector_pct :: pyfloat
  rp_min_settled_cash_pct_of_nlv :: pyfloat
  rp_min_absolute_settled_cash :: pyfloat

record portfolio_state =
  pf_account :: string
  pf_nlv :: pyfloat
  pf_settled_cash :: pyfloat
  pf_unsettled_cash :: pyfloat
  pf_pending_buy_notional :: pyfloat
  pf_estimated_fees :: pyfloat

type_synonym weights = "pyfloat dict"

record constrain_result =
  cr_weights :: weights
  cr_binding :: "string list"
  cr_investable_cash :: pyfloat
  cr_required_reserve :: pyfloat
  cr_rejected :: "(string \<times> string) list"

definition required_reserve :: "portfolio_state \<Rightarrow> risk_policy \<Rightarrow> pyfloat" where
  "required_reserve p policy =
     max (fl (fl (pf_nlv p * rp_min_settled_cash_pct_of_nlv policy) / 100))
         (rp_min_absolute_settled_cash policy)"

definition investable_cash :: "portfolio_state \<Rightarrow> risk_policy \<Rightarrow> pyfloat" where
  "investable_cash p policy =
     max 0 (fl (fl (fl (pf_settled_cash p - pf_pending_buy_notional p) - pf_estimated_fees p)
                - required_reserve p policy))"

text \<open>Step 0: positive targets only.\<close>

definition positive_targets :: "weights \<Rightarrow> weights" where
  "positive_targets target = filter (\<lambda>(_, x). x > 0) target"

text \<open>Step 1: the capability gate. Dropped names are reported with their asset class.\<close>

definition gate_dimensions :: "string \<Rightarrow> dimensions" where
  "gate_dimensions asset_class =
     [(''asset_class'', asset_class), (''side'', ''BUY''), (''funding'', ''SETTLED_CASH'')]"

fun capability_step ::
  "capability_policy \<Rightarrow> string dict \<Rightarrow> bool \<Rightarrow> weights
   \<Rightarrow> (weights \<times> (string \<times> string) list \<times> string list) result" where
  "capability_step cp acs live [] = Inr ([], [], [])"
| "capability_step cp acs live ((sy, x) # w) =
     (let ac = dict_get acs sy ''US_EQUITY''
      in bindE (policy_allows cp RISK_CONSTRAINER live (Some sy) (gate_dimensions ac)) (\<lambda>ok.
         bindE (capability_step cp acs live w) (\<lambda>(w', rej, bnd).
           if ok then Inr ((sy, x) # w', rej, bnd)
           else Inr (w', (sy, ''capability:'' @ ac) # rej, (''capability:'' @ sy) # bnd))))"

text \<open>Step 2: the per-name clip.\<close>

definition position_cap :: "risk_policy \<Rightarrow> pyfloat" where
  "position_cap policy = fl (rp_max_position_pct policy / 100)"

definition clip_weights :: "pyfloat \<Rightarrow> weights \<Rightarrow> weights" where
  "clip_weights cap w = map (\<lambda>(s, x). (s, if x > cap then cap else x)) w"

definition clip_binding :: "pyfloat \<Rightarrow> weights \<Rightarrow> string list" where
  "clip_binding cap w = map (\<lambda>(s, _). ''max_position:'' @ s) (filter (\<lambda>(_, x). x > cap) w)"

text \<open>Step 3: sectors in order of first appearance, each scaled to its cap.\<close>

definition sector_cap :: "risk_policy \<Rightarrow> pyfloat" where
  "sector_cap policy = fl (rp_max_sector_pct policy / 100)"

fun add_to_sector :: "string \<Rightarrow> string \<Rightarrow> (string list) dict \<Rightarrow> (string list) dict" where
  "add_to_sector sec s [] = [(sec, [s])]"
| "add_to_sector sec s ((k, ns) # g) =
     (if k = sec then (k, ns @ [s]) # g else (k, ns) # add_to_sector sec s g)"

definition by_sector :: "string dict \<Rightarrow> weights \<Rightarrow> (string list) dict" where
  "by_sector sectors w =
     foldl (\<lambda>g (s, _). add_to_sector (dict_get sectors s ''UNKNOWN'') s g) [] w"

definition names_total :: "weights \<Rightarrow> string list \<Rightarrow> pyfloat" where
  "names_total w names = sum_seq fl 0 (map (\<lambda>s. dict_get w s 0) names)"

definition scale_names :: "pyfloat \<Rightarrow> string list \<Rightarrow> weights \<Rightarrow> weights" where
  "scale_names k names w = map (\<lambda>(s, x). (s, if s \<in> set names then fl (x * k) else x)) w"

fun sector_step ::
  "pyfloat \<Rightarrow> (string list) dict \<Rightarrow> weights \<Rightarrow> weights \<times> string list" where
  "sector_step cap [] w = (w, [])"
| "sector_step cap ((sec, names) # g) w =
     (let t = names_total w names
      in if t > cap \<and> t > 0
         then let (w', b) = sector_step cap g (scale_names (fl (cap / t)) names w)
              in (w', (''max_sector:'' @ sec) # b)
         else sector_step cap g w)"

text \<open>Step 4: the reserve scale, a trim of the whole book.\<close>

definition book_total :: "weights \<Rightarrow> pyfloat" where
  "book_total w = sum_seq fl 0 (map snd w)"

definition scale_all :: "pyfloat \<Rightarrow> weights \<Rightarrow> weights" where
  "scale_all k w = map (\<lambda>(s, x). (s, fl (x * k))) w"

definition reserve_step :: "pyfloat \<Rightarrow> pyfloat \<Rightarrow> weights \<Rightarrow> weights \<times> string list" where
  "reserve_step nlv cash w =
     (let gross = fl (book_total w * nlv)
      in if gross > cash
         then (scale_all (if gross > 0 then fl (cash / gross) else 0) w, [''settled_cash_reserve''])
         else (w, []))"

definition eps6 :: pyfloat where "eps6 = fl (1 / 10 ^ 6)"
definition eps9 :: pyfloat where "eps9 = fl (1 / 10 ^ 9)"

definition drop_dust :: "weights \<Rightarrow> weights" where
  "drop_dust w = filter (\<lambda>(_, x). x > eps9) w"

definition assertE :: "bool \<Rightarrow> string \<Rightarrow> unit result" where
  "assertE c msg = guardE c (AssertionError msg)"

definition constrain_tail ::
  "portfolio_state \<Rightarrow> risk_policy \<Rightarrow> string dict \<Rightarrow> weights \<Rightarrow> (string \<times> string) list
   \<Rightarrow> string list \<Rightarrow> constrain_result result" where
  "constrain_tail p policy sectors w1 rejected binding1 =
     (let cap = position_cap policy;
          w2 = clip_weights cap w1;
          scap = sector_cap policy;
          groups = by_sector sectors w2;
          (w3, b3) = sector_step scap groups w2;
          reserve = required_reserve p policy;
          cash = investable_cash p policy;
          (w4, b4) = reserve_step (pf_nlv p) cash w3;
          w5 = drop_dust w4
      in bindE (assertE (fl (book_total w5 * pf_nlv p) \<le> fl (cash + eps6)) ''reserve breached'') (\<lambda>_.
         bindE (assertE (\<forall>x \<in> set (map snd w5). x \<le> fl (cap + eps9)) ''position cap breached'') (\<lambda>_.
         bindE (assertE (\<forall>names \<in> set (map snd groups). names_total w5 names \<le> fl (scap + eps9))
                  ''sector cap breached'') (\<lambda>_.
           Inr \<lparr> cr_weights = w5,
                 cr_binding = binding1 @ clip_binding cap w1 @ b3 @ b4,
                 cr_investable_cash = cash, cr_required_reserve = reserve,
                 cr_rejected = rejected \<rparr>))))"

definition risk_constrain ::
  "weights \<Rightarrow> portfolio_state \<Rightarrow> risk_policy \<Rightarrow> string dict \<Rightarrow> capability_policy option
   \<Rightarrow> string dict \<Rightarrow> bool \<Rightarrow> constrain_result result" where
  "risk_constrain target p policy sectors cp acs live =
     (let w0 = positive_targets target
      in case cp of
           None \<Rightarrow> constrain_tail p policy sectors w0 [] []
         | Some c \<Rightarrow> bindE (capability_step c acs live w0) (\<lambda>(w1, rejected, binding1).
                       constrain_tail p policy sectors w1 rejected binding1))"

subsection \<open>Well-formed books\<close>

text \<open>Distinct names, representable weights, none negative.\<close>

definition book_ok :: "weights \<Rightarrow> bool" where
  "book_ok w \<longleftrightarrow> dict_ok w \<and> (\<forall>x \<in> set (map snd w). fl x = x \<and> 0 \<le> x)"

text \<open>\<open>w'\<close> has the names of \<open>w\<close>, in order, each with a weight no larger.\<close>

definition shrinks :: "weights \<Rightarrow> weights \<Rightarrow> bool" where
  "shrinks w' w \<longleftrightarrow> list_all2 (\<lambda>(s', x') (s, x). s' = s \<and> 0 \<le> x' \<and> x' \<le> x \<and> fl x' = x') w' w"

lemma shrinks_refl: "book_ok w \<Longrightarrow> shrinks w w"
  by (auto simp: shrinks_def book_ok_def list_all2_same)

lemma shrinks_trans: "shrinks a b \<Longrightarrow> shrinks b c \<Longrightarrow> shrinks a c"
  unfolding shrinks_def by (rule list_all2_trans [rotated 1]) fastforce+

lemma shrinks_keys: "shrinks w' w \<Longrightarrow> map fst w' = map fst w"
  unfolding shrinks_def by (induction rule: list_all2_induct) auto

lemma shrinks_book_ok: "shrinks w' w \<Longrightarrow> dict_ok w \<Longrightarrow> book_ok w'"
proof -
  assume sh: "shrinks w' w" and d: "dict_ok w"
  have "\<forall>x \<in> set (map snd w'). fl x = x \<and> 0 \<le> x"
    using sh unfolding shrinks_def by (induction rule: list_all2_induct) auto
  with d shrinks_keys [OF sh] show ?thesis by (simp add: book_ok_def dict_ok_def)
qed

lemma shrinks_get: "shrinks w' w \<Longrightarrow> dict_get w' s 0 \<le> dict_get w s 0"
  unfolding shrinks_def by (induction rule: list_all2_induct) (auto simp: dict_get_def)

lemma book_ok_get: "book_ok w \<Longrightarrow> 0 \<le> dict_get w s 0 \<and> fl (dict_get w s 0) = dict_get w s 0"
  by (force simp: book_ok_def dict_get_def split: option.splits dest: map_of_SomeD)

text \<open>Left-to-right float sums are monotone in their summands.\<close>

lemma sum_seq_mono:
  "list_all2 (\<le>) xs ys \<Longrightarrow> a \<le> b \<Longrightarrow> sum_seq fl a xs \<le> sum_seq fl b ys"
  by (induction arbitrary: a b rule: list_all2_induct) (auto intro: flt.rnd_mono add_mono)

lemma sum_seq_drop:
  "\<forall>x \<in> set xs. 0 \<le> x \<Longrightarrow> fl a = a \<Longrightarrow> sum_seq fl a (filter P xs) \<le> sum_seq fl a xs"
proof (induction xs arbitrary: a)
  case (Cons x xs)
  have le: "a \<le> fl (a + x)" using Cons.prems by (intro flt.rnd_ge_fixed) auto
  have "sum_seq fl a (filter P xs) \<le> sum_seq fl (fl (a + x)) (filter P xs)"
    by (rule sum_seq_mono [OF _ le]) (simp add: list_all2_refl)
  with Cons.IH [of "fl (a + x)"] Cons.prems show ?case by (auto simp: flt.rnd_idem)
qed simp

lemma sum_seq_fixed: "fl a = a \<Longrightarrow> fl (sum_seq fl a xs) = sum_seq fl a xs"
  by (induction xs arbitrary: a) (auto simp: flt.rnd_idem)

lemma shrinks_total: "shrinks w' w \<Longrightarrow> names_total w' names \<le> names_total w names"
  unfolding names_total_def
  by (rule sum_seq_mono) (auto simp: list_all2_map1 list_all2_map2 list_all2_same shrinks_get)

lemma shrinks_book_total: "shrinks w' w \<Longrightarrow> book_total w' \<le> book_total w"
  unfolding book_total_def
  by (rule sum_seq_mono) (auto simp: shrinks_def list_all2_map1 list_all2_map2 elim!: list_all2_mono)

subsection \<open>Each step shrinks the book\<close>

lemma shrinks_map:
  assumes "book_ok w" and "\<And>s x. (s, x) \<in> set w \<Longrightarrow> 0 \<le> f s x \<and> f s x \<le> x \<and> fl (f s x) = f s x"
  shows "shrinks (map (\<lambda>(s, x). (s, f s x)) w) w"
  using assms(2) unfolding shrinks_def
  by (auto simp: list_all2_map1 list_all2_same)

lemma book_ok_mem: "book_ok w \<Longrightarrow> (s, x) \<in> set w \<Longrightarrow> fl x = x \<and> 0 \<le> x"
  by (force simp: book_ok_def)

lemma clip_shrinks: "book_ok w \<Longrightarrow> fl cap = cap \<Longrightarrow> 0 \<le> cap \<Longrightarrow> shrinks (clip_weights cap w) w"
  unfolding clip_weights_def by (rule shrinks_map) (auto dest: book_ok_mem)

lemma scale_shrinks: "book_ok w \<Longrightarrow> 0 \<le> k \<Longrightarrow> k \<le> 1 \<Longrightarrow> shrinks (scale_all k w) w"
  unfolding scale_all_def
  by (rule shrinks_map) (auto dest: book_ok_mem simp: flt.rnd_scale_le flt.rnd_idem flt.rnd_nonneg)

lemma scale_names_shrinks: "book_ok w \<Longrightarrow> 0 \<le> k \<Longrightarrow> k \<le> 1 \<Longrightarrow> shrinks (scale_names k names w) w"
  unfolding scale_names_def
  by (rule shrinks_map) (auto dest: book_ok_mem simp: flt.rnd_scale_le flt.rnd_idem flt.rnd_nonneg)

lemma ratio_bounds: "0 \<le> c \<Longrightarrow> c < t \<Longrightarrow> 0 \<le> fl (c / t) \<and> fl (c / t) \<le> 1"
  by (auto intro!: flt.rnd_nonneg flt.rnd_le_fixed)

lemma sector_step_shrinks:
  "book_ok w \<Longrightarrow> 0 \<le> cap \<Longrightarrow> shrinks (fst (sector_step cap g w)) w"
proof (induction cap g w rule: sector_step.induct)
  case (2 cap sec names g w)
  show ?case
  proof (cases "names_total w names > cap \<and> names_total w names > 0")
    case True
    define w' where "w' = scale_names (fl (cap / names_total w names)) names w"
    have sh: "shrinks w' w" unfolding w'_def
      using True 2 ratio_bounds [of cap "names_total w names"] by (intro scale_names_shrinks) auto
    then have "book_ok w'" by (rule shrinks_book_ok) (use 2 in \<open>simp add: book_ok_def\<close>)
    with 2(1) True 2(4) have "shrinks (fst (sector_step cap g w')) w'"
      by (simp add: w'_def)
    with sh True show ?thesis
      by (auto simp: Let_def w'_def split: prod.splits intro: shrinks_trans)
  next
    case False
    with 2 show ?thesis by (simp add: Let_def)
  qed
qed (simp add: shrinks_refl)

lemma reserve_step_shrinks:
  "book_ok w \<Longrightarrow> 0 \<le> cash \<Longrightarrow> shrinks (fst (reserve_step nlv cash w)) w"
  using ratio_bounds [of cash "fl (book_total w * nlv)"]
  by (auto simp: reserve_step_def Let_def shrinks_refl scale_shrinks)

subsection \<open>The error of a scaling\<close>

text \<open>
  Scaling \<open>n\<close> weights that sum to \<open>t\<close> by a rounded factor \<open>q\<close> and summing again gives at
  most \<open>q t\<close>, up to \<open>2 n + 2\<close> roundings; and \<open>m\<close> roundings of a value up to \<open>c\<close> stay within
  \<open>e\<close> of it when \<open>m u (c + e)\<close> does.
\<close>

context rounding begin

lemma scaled_sum_upper:
  assumes nn: "\<forall>x \<in> set xs. 0 \<le> x" and q: "0 \<le> q"
  shows "sum_seq rnd 0 (map (\<lambda>x. rnd (x * rnd q)) xs) * (1 - u) ^ length xs
         \<le> (1 + u) ^ (length xs + 2) * (q * sum_seq rnd 0 xs)"
proof -
  let ?n = "length xs" and ?ys = "map (\<lambda>x. rnd (x * rnd q)) xs"
  have one: "rnd (x * rnd q) \<le> (1 + u) ^ 2 * q * x" if "x \<in> set xs" for x
  proof -
    have x: "0 \<le> x" using nn that by blast
    have "x * rnd q \<le> x * ((1 + u) * q)" using x rnd_upper [OF q] by (intro mult_left_mono)
    then have "(1 + u) * (x * rnd q) \<le> (1 + u) * (x * ((1 + u) * q))"
      by (rule mult_left_mono) (use u_nonneg in simp)
    moreover have "rnd (x * rnd q) \<le> (1 + u) * (x * rnd q)"
      using x rnd_nonneg [OF q] by (intro rnd_upper) simp
    ultimately show ?thesis by (simp add: power2_eq_square ac_simps)
  qed
  have "sum_list ?ys \<le> sum_list (map (\<lambda>x. (1 + u) ^ 2 * q * x) xs)"
    by (rule sum_list_mono) (rule one)
  also have "\<dots> = (1 + u) ^ 2 * q * sum_list xs" by (simp add: sum_list_const_mult)
  finally have s: "sum_list ?ys \<le> (1 + u) ^ 2 * q * sum_list xs" .
  have "\<forall>y \<in> set ?ys. 0 \<le> y" using nn rnd_nonneg [OF q] by (auto intro!: rnd_nonneg)
  then have "sum_seq rnd 0 ?ys \<le> (1 + u) ^ ?n * sum_list ?ys"
    using sum_seq_upper [of 0 ?ys] by simp
  also have "\<dots> \<le> (1 + u) ^ ?n * ((1 + u) ^ 2 * q * sum_list xs)"
    using u_nonneg by (intro mult_left_mono s) simp
  finally have "sum_seq rnd 0 ?ys * (1 - u) ^ ?n
      \<le> (1 + u) ^ ?n * ((1 + u) ^ 2 * q * sum_list xs) * (1 - u) ^ ?n"
    using u_less_1 by (intro mult_right_mono) simp_all
  also have "\<dots> = (1 + u) ^ (?n + 2) * (q * ((1 - u) ^ ?n * sum_list xs))"
    by (simp only: power_add ac_simps)
  also have "\<dots> \<le> (1 + u) ^ (?n + 2) * (q * sum_seq rnd 0 xs)"
    using sum_seq_lower [of 0 xs] nn q u_nonneg by (intro mult_left_mono) simp_all
  finally show ?thesis .
qed

lemma roundings_within:
  assumes X: "X * (1 - u) ^ a \<le> (1 + u) ^ b * c" and X0: "0 \<le> X" and c: "0 \<le> c"
    and m: "of_nat (a + b) * u * (c + e) \<le> e" "of_nat (a + b) * u < 1"
  shows "X \<le> c + e"
proof -
  define m where "m = a + b"
  have "(1 + u) * (1 - u) \<le> 1" by (simp add: algebra_simps)
  moreover have "0 \<le> (1 + u) * (1 - u)" using u_nonneg u_less_1 by simp
  ultimately have "((1 + u) * (1 - u)) ^ b \<le> 1" by (intro power_le_one)
  then have one: "((1 + u) ^ b * (1 - u) ^ b) * c \<le> 1 * c"
    using c unfolding power_mult_distrib by (intro mult_right_mono)
  have "X * (1 - u) ^ a * (1 - u) ^ b \<le> (1 + u) ^ b * c * (1 - u) ^ b"
    using X u_less_1 by (intro mult_right_mono) simp_all
  then have "X * (1 - u) ^ m \<le> c" using one by (simp add: m_def power_add ac_simps)
  moreover have "1 + of_nat m * (- u) \<le> (1 + (- u)) ^ m"
    using u_less_1 by (intro Bernoulli_inequality) simp
  then have "X * (1 - of_nat m * u) \<le> X * (1 - u) ^ m" using X0 by (intro mult_left_mono) simp_all
  ultimately have le: "X * (1 - of_nat m * u) \<le> c" by linarith
  have pos: "0 < 1 - of_nat m * u" using m(2) by (simp add: m_def)
  have "c \<le> (c + e) * (1 - of_nat m * u)" using m(1) by (simp add: m_def algebra_simps)
  with le have "X * (1 - of_nat m * u) \<le> (c + e) * (1 - of_nat m * u)" by linarith
  with pos show ?thesis by (simp add: mult_le_cancel_right)
qed

end

subsection \<open>The totals after each step\<close>

lemma dict_get_scale_names:
  "s \<in> set names \<Longrightarrow> dict_get (scale_names k names w) s 0 = fl (dict_get w s 0 * k)"
  by (induction w) (auto simp: scale_names_def dict_get_def)

lemma names_total_scale:
  "names_total (scale_names k names w) names
   = sum_seq fl 0 (map (\<lambda>x. fl (x * k)) (map (\<lambda>s. dict_get w s 0) names))"
  by (simp add: names_total_def dict_get_scale_names cong: map_cong)

lemma names_total_nonneg: "book_ok w \<Longrightarrow> 0 \<le> names_total w names"
  unfolding names_total_def by (rule flt.sum_seq_nonneg) (auto simp: book_ok_get)

lemma names_total_fixed: "fl (names_total w names) = names_total w names"
  unfolding names_total_def by (rule sum_seq_fixed) simp

lemma book_total_nonneg: "book_ok w \<Longrightarrow> 0 \<le> book_total w"
  unfolding book_total_def by (rule flt.sum_seq_nonneg) (auto simp: book_ok_def)

lemma sector_scaled_within:
  assumes w: "book_ok w" and cap: "0 \<le> cap" "cap < names_total w names"
    and m: "of_nat (2 * length names + 2) * (1 / 2 ^ 53) * (cap + e) \<le> e"
      "of_nat (2 * length names + 2) * (1 / 2 ^ 53 :: rat) < 1"
  shows "names_total (scale_names (fl (cap / names_total w names)) names w) names \<le> cap + e"
proof -
  let ?xs = "map (\<lambda>s. dict_get w s 0) names" and ?t = "names_total w names"
  have t: "sum_seq fl 0 ?xs = ?t" by (simp add: names_total_def)
  have sh: "shrinks (scale_names (fl (cap / ?t)) names w) w"
    using ratio_bounds [OF cap] by (intro scale_names_shrinks w) simp_all
  have nn: "\<forall>x \<in> set ?xs. 0 \<le> x" using book_ok_get [OF w] by simp
  have q: "0 \<le> cap / ?t" using cap by simp
  from flt.scaled_sum_upper [OF nn q] cap
  have "names_total (scale_names (fl (cap / ?t)) names w) names * (1 - 1 / 2 ^ 53) ^ length names
        \<le> (1 + 1 / 2 ^ 53) ^ (length names + 2) * cap"
    unfolding t names_total_scale by (simp del: map_map)
  then show ?thesis
  proof (rule flt.roundings_within)
    show "0 \<le> names_total (scale_names (fl (cap / ?t)) names w) names"
      by (rule names_total_nonneg, rule shrinks_book_ok [OF sh]) (use w in \<open>simp add: book_ok_def\<close>)
    have l: "length names + (length names + 2) = 2 * length names + 2" by simp
    show "of_nat (length names + (length names + 2)) * (1 / 2 ^ 53) * (cap + e) \<le> e"
      unfolding l by (rule m(1))
    show "of_nat (length names + (length names + 2)) * (1 / 2 ^ 53) < (1::rat)"
      unfolding l by (rule m(2))
  qed (rule cap)
qed

lemma sector_step_within:
  assumes "book_ok w" and "0 \<le> cap" and "(sec, names) \<in> set g" and e: "0 \<le> e"
    and "of_nat (2 * length names + 2) * (1 / 2 ^ 53) * (cap + e) \<le> e"
      "of_nat (2 * length names + 2) * (1 / 2 ^ 53 :: rat) < 1"
  shows "names_total (fst (sector_step cap g w)) names \<le> cap + e"
  using assms
proof (induction cap g w rule: sector_step.induct)
  case (2 cap sec0 names0 g w)
  define t where "t = names_total w names0"
  define w' where "w' = (if t > cap \<and> t > 0 then scale_names (fl (cap / t)) names0 w else w)"
  have step: "fst (sector_step cap ((sec0, names0) # g) w) = fst (sector_step cap g w')"
    by (simp add: Let_def w'_def t_def split: prod.splits)
  have "shrinks w' w" unfolding w'_def
    using 2 ratio_bounds [of cap t] by (auto intro!: scale_names_shrinks shrinks_refl)
  then have w': "book_ok w'" by (rule shrinks_book_ok) (use 2 in \<open>simp add: book_ok_def\<close>)
  show ?case
  proof (cases "(sec, names) \<in> set g")
    case True
    with 2 w' show ?thesis unfolding step by (simp add: w'_def t_def split: if_splits)
  next
    case False
    then have n: "names0 = names" using 2 by simp
    have "names_total (fst (sector_step cap g w')) names \<le> names_total w' names"
      by (rule shrinks_total, rule sector_step_shrinks) (use w' 2 in auto)
    also have "\<dots> \<le> cap + e"
    proof (cases "t > cap \<and> t > 0")
      case True
      then show ?thesis unfolding w'_def t_def n
        using 2 by (auto simp: n t_def intro!: sector_scaled_within)
    next
      case False
      then have "names_total w names \<le> cap" "w' = w" using 2 by (auto simp: t_def w'_def n)
      then show ?thesis using e by simp
    qed
    finally show ?thesis unfolding step .
  qed
qed simp

lemma reserve_step_within:
  assumes w: "book_ok w" and cash: "0 \<le> cash" and nlv: "0 \<le> nlv" and e: "0 \<le> e"
    and m: "of_nat (2 * length w + 3) * (1 / 2 ^ 53) * (cash + e) \<le> e"
      "of_nat (2 * length w + 3) * (1 / 2 ^ 53 :: rat) < 1"
  shows "fl (book_total (fst (reserve_step nlv cash w)) * nlv) \<le> max cash (fl (cash + e))"
proof (cases "fl (book_total w * nlv) > cash")
  case False
  then show ?thesis by (simp add: reserve_step_def Let_def)
next
  case True
  define t where "t = book_total w"
  define g where "g = fl (t * nlv)"
  define q where "q = cash / g"
  have g: "cash < g" using True by (simp add: g_def t_def)
  then have q: "0 \<le> q" "fl q \<le> 1" using cash ratio_bounds [of cash g] by (auto simp: q_def)
  let ?X = "book_total (scale_all (fl q) w)"
  let ?n = "length w" and ?u = "1 / 2 ^ 53 :: rat"
  have xs: "map snd (scale_all (fl q) w) = map (\<lambda>x. fl (x * fl q)) (map snd w)"
    by (simp add: scale_all_def case_prod_unfold)
  have nn: "\<forall>x \<in> set (map snd w). 0 \<le> x" using w by (simp add: book_ok_def)
  from flt.scaled_sum_upper [OF nn q(1)]
  have X: "?X * (1 - ?u) ^ ?n \<le> (1 + ?u) ^ (?n + 2) * (q * t)"
    unfolding t_def book_total_def xs by (simp del: map_map)
  have X0: "0 \<le> ?X"
    unfolding book_total_def xs using nn q by (intro flt.sum_seq_nonneg) (auto intro!: flt.rnd_nonneg mult_nonneg_nonneg)
  have t0: "0 \<le> t * nlv" using book_total_nonneg [OF w] nlv by (simp add: t_def)
  have "q * ((1 - ?u) * (t * nlv)) \<le> q * g"
    using flt.rnd_lower [OF t0] q(1) unfolding g_def by (rule mult_left_mono)
  then have "q * (t * nlv) * (1 - ?u) \<le> q * g" by (simp only: ac_simps)
  also have "q * g = cash" using g cash by (simp add: q_def)
  finally have c: "q * (t * nlv) * (1 - ?u) \<le> cash" .
  have "?X * (1 - ?u) ^ ?n * (nlv * (1 - ?u)) \<le> (1 + ?u) ^ (?n + 2) * (q * t) * (nlv * (1 - ?u))"
    by (rule mult_right_mono [OF X]) (use nlv in simp)
  also have "\<dots> = (1 + ?u) ^ (?n + 2) * (q * (t * nlv) * (1 - ?u))" by (simp only: ac_simps)
  also have "\<dots> \<le> (1 + ?u) ^ (?n + 2) * cash" using c by (rule mult_left_mono) simp
  finally have "?X * nlv * (1 - ?u) ^ (?n + 1) \<le> (1 + ?u) ^ (?n + 2) * cash"
    by (simp only: power_add power_one_right ac_simps)
  then have "?X * nlv \<le> cash + e"
  proof (rule flt.roundings_within)
    have l: "?n + 1 + (?n + 2) = 2 * ?n + 3" by simp
    show "of_nat (?n + 1 + (?n + 2)) * ?u * (cash + e) \<le> e" unfolding l by (rule m(1))
    show "of_nat (?n + 1 + (?n + 2)) * ?u < 1" unfolding l by (rule m(2))
  qed (use X0 nlv cash in auto)
  then have "fl (?X * nlv) \<le> fl (cash + e)" by (rule flt.rnd_mono)
  moreover have "fst (reserve_step nlv cash w) = scale_all (fl q) w"
    using True cash by (auto simp: reserve_step_def Let_def q_def g_def t_def)
  ultimately show ?thesis by simp
qed

subsection \<open>The grouping by sector\<close>

lemma add_to_sector_length:
  "(k, ns) \<in> set (add_to_sector sec s g) \<Longrightarrow>
   \<forall>(k, ns) \<in> set g. length ns \<le> N \<Longrightarrow> length ns \<le> Suc N"
  by (induction sec s g rule: add_to_sector.induct) (auto split: if_splits)

lemma by_sector_length: "(sec, names) \<in> set (by_sector sectors w) \<Longrightarrow> length names \<le> length w"
proof -
  have "\<forall>(k, ns) \<in> set (foldl (\<lambda>g (s, _). add_to_sector (dict_get sectors s ''UNKNOWN'') s g) g w).
          length ns \<le> N + length w" if "\<forall>(k, ns) \<in> set g. length ns \<le> N" for g N
    using that
  proof (induction w arbitrary: g N)
    case (Cons a w)
    obtain s x where a: "a = (s, x)" by force
    have "\<forall>(k, ns) \<in> set (add_to_sector (dict_get sectors s ''UNKNOWN'') s g). length ns \<le> Suc N"
      using Cons.prems by (blast dest: add_to_sector_length)
    from Cons.IH [OF this] show ?case by (simp add: a)
  qed simp
  from this [of "[]" 0] show "(sec, names) \<in> set (by_sector sectors w) \<Longrightarrow> length names \<le> length w"
    by (auto simp: by_sector_def)
qed

text \<open>Each group holds the names of its sector, in the order of the book.\<close>

lemma map_of_add_to_sector:
  "map_of (add_to_sector sec s g) k =
     (if k = sec then Some ((case map_of g sec of None \<Rightarrow> [] | Some ns \<Rightarrow> ns) @ [s]) else map_of g k)"
  by (induction sec s g rule: add_to_sector.induct) auto

lemma by_sector_names:
  "(case map_of (by_sector sectors w) sec of None \<Rightarrow> [] | Some ns \<Rightarrow> ns)
   = filter (\<lambda>s. dict_get sectors s ''UNKNOWN'' = sec) (map fst w)"
proof (induction w rule: rev_induct)
  case (snoc a w)
  obtain s x where "a = (s, x)" by force
  then have "by_sector sectors (w @ [a]) = add_to_sector (dict_get sectors s ''UNKNOWN'') s (by_sector sectors w)"
    by (simp add: by_sector_def)
  with snoc \<open>a = (s, x)\<close> show ?case by (auto simp: map_of_add_to_sector)
qed (simp add: by_sector_def)

lemma by_sector_keys: "map fst w = map fst w' \<Longrightarrow> by_sector sectors w = by_sector sectors w'"
proof -
  have "by_sector sectors w = foldl (\<lambda>g s. add_to_sector (dict_get sectors s ''UNKNOWN'') s g) [] (map fst w)" for w :: weights
    by (simp add: by_sector_def foldl_map case_prod_unfold)
  then show "map fst w = map fst w' \<Longrightarrow> by_sector sectors w = by_sector sectors w'" by simp
qed

subsection \<open>The capability step\<close>

lemma gate_dimensions_known: "known_dimensions (gate_dimensions ac)"
  by (simp add: known_dimensions_def gate_dimensions_def)

lemma capability_step_total:
  "\<exists>rej bnd. capability_step cp acs live w
     = Inr (filter (\<lambda>(s, _). policy_check cp RISK_CONSTRAINER live (Some s)
               (gate_dimensions (dict_get acs s ''US_EQUITY'')) = Inr ()) w, rej, bnd)"
proof (induction w)
  case (Cons a w)
  then show ?case
    by (cases a)
       (auto simp: Let_def policy_allows_iff [OF gate_dimensions_known] policy_check_ok)
qed simp

subsection \<open>Dropping dust\<close>

lemma dust_get: "dict_ok w \<Longrightarrow> \<forall>x \<in> set (map snd w). 0 \<le> x \<Longrightarrow> dict_get (drop_dust w) s 0 \<le> dict_get w s 0"
  unfolding drop_dust_def
  by (induction w) (force simp: dict_get_def dict_ok_def split: option.splits dest: map_of_SomeD)+

lemma dust_names_total: "book_ok w \<Longrightarrow> names_total (drop_dust w) names \<le> names_total w names"
  unfolding names_total_def
  by (rule sum_seq_mono)
     (auto simp: list_all2_map1 list_all2_map2 list_all2_same book_ok_def intro!: dust_get)

lemma dust_book_total: "book_ok w \<Longrightarrow> book_total (drop_dust w) \<le> book_total w"
proof -
  assume w: "book_ok w"
  have "map snd (drop_dust w) = filter (\<lambda>x. x > eps9) (map snd w)"
    by (simp add: drop_dust_def filter_map comp_def case_prod_unfold)
  with sum_seq_drop [of "map snd w" 0] w show ?thesis by (simp add: book_total_def book_ok_def)
qed

lemma eps_values: "9 / 10 ^ 7 \<le> eps6" "9 / 10 ^ 10 \<le> eps9"
  using flt.rnd_lower [of "1 / 10 ^ 6"] flt.rnd_lower [of "1 / 10 ^ 9"]
  by (simp_all add: eps6_def eps9_def)

subsection \<open>The assertions never fire\<close>

text \<open>What the configuration guarantees of the policy, and what the caller of the book.\<close>

definition risk_policy_ok :: "risk_policy \<Rightarrow> bool" where
  "risk_policy_ok policy \<longleftrightarrow> 0 \<le> rp_max_position_pct policy \<and> 0 \<le> rp_max_sector_pct policy
     \<and> rp_max_sector_pct policy \<le> 100"

definition small_enough :: "portfolio_state \<Rightarrow> risk_policy \<Rightarrow> nat \<Rightarrow> bool" where
  "small_enough p policy n \<longleftrightarrow> n \<le> 10 ^ 6 \<and> 0 \<le> pf_nlv p
     \<and> of_nat (2 * n + 3) * (investable_cash p policy + 1) \<le> 8 * 10 ^ 9"

definition names_kept :: "capability_policy option \<Rightarrow> string dict \<Rightarrow> bool \<Rightarrow> weights \<Rightarrow> weights" where
  "names_kept cp acs live w =
     (case cp of None \<Rightarrow> w
      | Some c \<Rightarrow> filter (\<lambda>(s, _). policy_check c RISK_CONSTRAINER live (Some s)
                     (gate_dimensions (dict_get acs s ''US_EQUITY'')) = Inr ()) w)"

definition final_weights :: "portfolio_state \<Rightarrow> risk_policy \<Rightarrow> string dict \<Rightarrow> weights \<Rightarrow> weights" where
  "final_weights p policy sectors w1 =
     (let w2 = clip_weights (position_cap policy) w1
      in drop_dust (fst (reserve_step (pf_nlv p) (investable_cash p policy)
           (fst (sector_step (sector_cap policy) (by_sector sectors w2) w2)))))"

lemma unit_scale: "a * c \<le> B \<Longrightarrow> a * (1 / 2 ^ 53) * c \<le> B / (2 ^ 53 :: rat)"
  by (simp add: divide_right_mono)

lemma final_weights_props:
  assumes w: "book_ok w1" and pol: "risk_policy_ok policy" and sm: "small_enough p policy (length w1)"
    and f: "final_weights p policy sectors w1 = w5"
  shows "(s, x) \<in> set w5 \<Longrightarrow> eps9 < x \<and> x \<le> position_cap policy \<and> (\<exists>x1. map_of w1 s = Some x1 \<and> x \<le> x1)"
    and "fl (book_total w5 * pf_nlv p) \<le> fl (investable_cash p policy + eps6)"
    and "(sec, names) \<in> set (by_sector sectors w1) \<Longrightarrow> names_total w5 names \<le> fl (sector_cap policy + eps9)"
proof -
  define cap where "cap = position_cap policy"
  define scap where "scap = sector_cap policy"
  define cash where "cash = investable_cash p policy"
  define w2 where "w2 = clip_weights cap w1"
  define groups where "groups = by_sector sectors w2"
  define w3 where "w3 = fst (sector_step scap groups w2)"
  define w4 where "w4 = fst (reserve_step (pf_nlv p) cash w3)"
  have w5: "w5 = drop_dust w4"
    using f by (simp add: final_weights_def w4_def w3_def w2_def groups_def cap_def scap_def cash_def Let_def)
  have cap: "0 \<le> cap" "fl cap = cap" and scap: "0 \<le> scap" "scap \<le> 1" and cash: "0 \<le> cash"
    using pol by (auto simp: cap_def scap_def cash_def position_cap_def sector_cap_def
        risk_policy_ok_def investable_cash_def flt.rnd_idem
        intro!: flt.rnd_nonneg flt.rnd_le_fixed)
  have d1: "dict_ok w1" using w by (simp add: book_ok_def)
  have s2: "shrinks w2 w1" unfolding w2_def by (rule clip_shrinks [OF w cap(2,1)])
  have b2: "book_ok w2" by (rule shrinks_book_ok [OF s2 d1])
  have d2: "dict_ok w2" using b2 by (simp add: book_ok_def)
  have s3: "shrinks w3 w2" unfolding w3_def by (rule sector_step_shrinks [OF b2 scap(1)])
  have b3: "book_ok w3" by (rule shrinks_book_ok [OF s3 d2])
  have d3: "dict_ok w3" using b3 by (simp add: book_ok_def)
  have s4: "shrinks w4 w3" unfolding w4_def by (rule reserve_step_shrinks [OF b3 cash])
  have b4: "book_ok w4" by (rule shrinks_book_ok [OF s4 d3])
  have s42: "shrinks w4 w2" by (rule shrinks_trans [OF s4 s3])
  have len: "length w2 = length w1" "length w3 = length w1"
    by (metis s2 shrinks_keys length_map, metis s2 s3 shrinks_keys length_map)
  have n: "of_nat (length w1) \<le> (10 ^ 6 :: rat)" and nlv: "0 \<le> pf_nlv p"
    and big: "of_nat (2 * length w1 + 3) * (cash + 1) \<le> 8 * 10 ^ 9"
    using sm by (auto simp: small_enough_def cash_def dest: of_nat_mono [where 'a = rat])
  {
    assume m: "(s, x) \<in> set w5"
    then have x: "eps9 < x" and m4: "map_of w4 s = Some x"
      using b4 by (auto simp: w5 drop_dust_def book_ok_def dict_mem)
    have "x \<le> dict_get w2 s 0" using shrinks_get [OF s42, of s] m4 by (simp add: dict_get_def)
    moreover obtain x1 where x1: "map_of w1 s = Some x1"
      using m4 shrinks_keys [OF shrinks_trans [OF s42 s2]]
      by (metis domI dom_map_of_conv_image_fst domD set_map)
    moreover have "map_of w2 s = Some (if x1 > cap then cap else x1)"
      using x1 by (simp add: w2_def clip_weights_def map_of_map)
    ultimately show "eps9 < x \<and> x \<le> position_cap policy \<and> (\<exists>x1. map_of w1 s = Some x1 \<and> x \<le> x1)"
      using x by (auto simp: dict_get_def cap_def split: if_splits)
  }
  {
    have "fl (book_total w4 * pf_nlv p) \<le> max cash (fl (cash + 9 / 10 ^ 7))" unfolding w4_def
    proof (rule reserve_step_within [OF b3 cash nlv])
      have "of_nat (2 * length w1 + 3) * (cash + 9 / 10 ^ 7) \<le> of_nat (2 * length w1 + 3) * (cash + 1)"
        by (intro mult_left_mono) simp_all
      with big have "of_nat (2 * length w1 + 3) * (cash + 9 / 10 ^ 7) \<le> 8 * 10 ^ 9" by linarith
      from unit_scale [OF this]
      show "of_nat (2 * length w3 + 3) * (1 / 2 ^ 53) * (cash + 9 / 10 ^ 7) \<le> 9 / 10 ^ 7"
        unfolding len by (rule order_trans) simp
      show "of_nat (2 * length w3 + 3) * (1 / 2 ^ 53 :: rat) < 1" using n unfolding len by simp
    qed simp
    moreover have "fl (cash + 9 / 10 ^ 7) \<le> fl (cash + eps6)" using eps_values by (intro flt.rnd_mono) simp
    moreover have "cash \<le> fl (cash + eps6)"
      using eps_values by (intro flt.rnd_ge_fixed) (auto simp: cash_def investable_cash_def flt.rnd_idem max_def)
    moreover have "fl (book_total w5 * pf_nlv p) \<le> fl (book_total w4 * pf_nlv p)"
      unfolding w5 using dust_book_total [OF b4] nlv by (intro flt.rnd_mono mult_right_mono)
    ultimately show "fl (book_total w5 * pf_nlv p) \<le> fl (investable_cash p policy + eps6)"
      by (simp add: cash_def max_def split: if_splits)
  }
  {
    assume "(sec, names) \<in> set (by_sector sectors w1)"
    then have g: "(sec, names) \<in> set groups" 
      unfolding groups_def using by_sector_keys [OF shrinks_keys [OF s2]] by simp
    have l: "length names \<le> length w1" using by_sector_length g len by (fastforce simp: groups_def)
    then have l': "of_nat (length names) \<le> (of_nat (length w1) :: rat)" by simp
    have "of_nat (2 * length names + 2) * (scap + 9 / 10 ^ 10) \<le> of_nat (2 * length names + 2) * (2::rat)"
      using scap by (intro mult_left_mono) simp_all
    also have "\<dots> \<le> 8 * 10 ^ 6" using l' n by simp
    finally have e: "of_nat (2 * length names + 2) * (scap + 9 / 10 ^ 10) \<le> 8 * 10 ^ 6" .
    have "names_total w3 names \<le> scap + 9 / 10 ^ 10" unfolding w3_def
    proof (rule sector_step_within [OF b2 scap(1) g])
      show "of_nat (2 * length names + 2) * (1 / 2 ^ 53) * (scap + 9 / 10 ^ 10) \<le> 9 / 10 ^ 10"
        by (rule order_trans [OF unit_scale [OF e]]) simp
      show "of_nat (2 * length names + 2) * (1 / 2 ^ 53 :: rat) < 1" using l' n by simp
    qed simp
    moreover have "names_total w5 names \<le> names_total w4 names"
      unfolding w5 by (rule dust_names_total [OF b4])
    moreover have "names_total w4 names \<le> names_total w3 names" by (rule shrinks_total [OF s4])
    ultimately have "names_total w5 names \<le> scap + eps9" using eps_values by linarith
    then have "fl (names_total w5 names) \<le> fl (scap + eps9)" by (rule flt.rnd_mono)
    then show "names_total w5 names \<le> fl (sector_cap policy + eps9)"
      by (simp add: names_total_fixed scap_def)
  }
qed

lemma constrain_tail_ok:
  assumes w: "book_ok w1" and pol: "risk_policy_ok policy" and sm: "small_enough p policy (length w1)"
  shows "\<exists>bnd. constrain_tail p policy sectors w1 rej b1 = Inr
      \<lparr> cr_weights = final_weights p policy sectors w1, cr_binding = bnd,
        cr_investable_cash = investable_cash p policy, cr_required_reserve = required_reserve p policy,
        cr_rejected = rej \<rparr>"
proof -
  define w5 where "w5 = final_weights p policy sectors w1"
  note props = final_weights_props [OF w pol sm w5_def [symmetric]]
  have cap: "position_cap policy \<le> fl (position_cap policy + eps9)"
    using eps_values by (intro flt.rnd_ge_fixed) (auto simp: position_cap_def flt.rnd_idem)
  have g: "by_sector sectors (clip_weights (position_cap policy) w1) = by_sector sectors w1"
    by (rule by_sector_keys) (simp add: clip_weights_def case_prod_unfold comp_def)
  have a1: "assertE (fl (book_total w5 * pf_nlv p) \<le> fl (investable_cash p policy + eps6)) m = Inr ()" for m
    using props(2) by (simp add: assertE_def)
  have a2: "assertE (\<forall>x \<in> set (map snd w5). x \<le> fl (position_cap policy + eps9)) m = Inr ()" for m
    using props(1) cap by (fastforce simp: assertE_def)
  have a3: "assertE (\<forall>names \<in> set (map snd (by_sector sectors w1)).
              names_total w5 names \<le> fl (sector_cap policy + eps9)) m = Inr ()" for m
    using props(3) by (force simp: assertE_def)
  obtain w3 b3 where 3: "sector_step (sector_cap policy) (by_sector sectors w1)
      (clip_weights (position_cap policy) w1) = (w3, b3)" by force
  obtain w4 b4 where 4: "reserve_step (pf_nlv p) (investable_cash p policy) w3 = (w4, b4)" by force
  have "drop_dust w4 = w5" by (simp add: w5_def final_weights_def Let_def g 3 4)
  then show ?thesis
    by (simp add: constrain_tail_def Let_def g 3 4 a1 a2 [simplified] a3 [simplified] w5_def [symmetric])
qed

lemma positive_targets_ok:
  "dict_ok target \<Longrightarrow> \<forall>x \<in> set (map snd target). fl x = x \<Longrightarrow> book_ok (positive_targets target)"
  by (force simp: book_ok_def positive_targets_def)

lemma names_kept_ok: "book_ok w \<Longrightarrow> book_ok (names_kept cp acs live w)"
  by (auto simp: names_kept_def book_ok_def split: option.splits)

lemma small_enough_mono: "small_enough p policy n \<Longrightarrow> m \<le> n \<Longrightarrow> small_enough p policy m"
proof -
  assume s: "small_enough p policy n" and le: "m \<le> n"
  have "(of_nat (2 * m + 3) :: rat) \<le> of_nat (2 * n + 3)"
    by (rule of_nat_mono) (use le in simp)
  then have "of_nat (2 * m + 3) * (investable_cash p policy + 1) \<le> of_nat (2 * n + 3) * (investable_cash p policy + 1)"
    by (rule mult_right_mono) (simp add: investable_cash_def)
  also have "\<dots> \<le> 8 * 10 ^ 9" using s unfolding small_enough_def by blast
  finally have c: "of_nat (2 * m + 3) * (investable_cash p policy + 1) \<le> 8 * 10 ^ 9" .
  have "n \<le> 10 ^ 6" "0 \<le> pf_nlv p" using s unfolding small_enough_def by blast+
  with c order_trans [OF le] show ?thesis unfolding small_enough_def by blast
qed

lemma risk_constrain_ok:
  assumes "dict_ok target" and "\<forall>x \<in> set (map snd target). fl x = x"
    and "risk_policy_ok policy" and "small_enough p policy (length target)"
    and w1_def: "w1 = names_kept cp acs live (positive_targets target)"
  shows "book_ok w1" and "small_enough p policy (length w1)"
    and "\<exists>r. risk_constrain target p policy sectors cp acs live = Inr r
           \<and> cr_weights r = final_weights p policy sectors w1"
proof -
  show ok: "book_ok w1" unfolding w1_def by (intro names_kept_ok positive_targets_ok assms)
  have "length w1 \<le> length target"
    by (auto simp: w1_def names_kept_def positive_targets_def split: option.splits
        intro: order_trans [OF length_filter_le])
  then show sm: "small_enough p policy (length w1)" using assms(4) small_enough_mono by blast
  show "\<exists>r. risk_constrain target p policy sectors cp acs live = Inr r
           \<and> cr_weights r = final_weights p policy sectors w1"
  proof (cases cp)
    case None
    obtain bnd where "constrain_tail p policy sectors w1 [] [] = Inr
      \<lparr> cr_weights = final_weights p policy sectors w1, cr_binding = bnd,
        cr_investable_cash = investable_cash p policy, cr_required_reserve = required_reserve p policy,
        cr_rejected = [] \<rparr>" using constrain_tail_ok [OF ok assms(3) sm] by blast
    moreover have "w1 = positive_targets target" by (simp add: w1_def names_kept_def None)
    ultimately show ?thesis by (simp add: risk_constrain_def None)
  next
    case (Some c)
    obtain rej b1 where 1: "capability_step c acs live (positive_targets target) = Inr (w1, rej, b1)"
      using capability_step_total by (fastforce simp: w1_def names_kept_def Some)
    obtain bnd where "constrain_tail p policy sectors w1 rej b1 = Inr
      \<lparr> cr_weights = final_weights p policy sectors w1, cr_binding = bnd,
        cr_investable_cash = investable_cash p policy, cr_required_reserve = required_reserve p policy,
        cr_rejected = rej \<rparr>" using constrain_tail_ok [OF ok assms(3) sm] by blast
    with 1 show ?thesis by (simp add: risk_constrain_def Some)
  qed
qed

subsection \<open>Properties\<close>

text \<open>
C10: The portfolio constrainer never fails its own post-conditions: for a dict of representable
  targets, percentages within 0 to 100, a non-negative account value and an amount of cash whose
  float spacing is finer than the 1e-6 slack, none of the three assertions fires, the capability
  gate raises nothing, and the weights it authorises spend no more than the investable cash (up
  to the slack) and put no more than the sector cap (up to 1e-9) into the names of any sector.
\<close>
theorem risk_constrain_total:
  assumes "dict_ok target" and "\<forall>x \<in> set (map snd target). fl x = x"
    and "risk_policy_ok policy" and "small_enough p policy (length target)"
  shows "\<exists>r. risk_constrain target p policy sectors cp acs live = Inr r
     \<and> fl (book_total (cr_weights r) * pf_nlv p) \<le> fl (investable_cash p policy + eps6)
     \<and> (\<forall>sec. names_total (cr_weights r)
           (filter (\<lambda>s. dict_get sectors s ''UNKNOWN'' = sec)
              (map fst (names_kept cp acs live (positive_targets target))))
         \<le> fl (sector_cap policy + eps9))"
proof -
  note ok = risk_constrain_ok [OF assms refl, where cp = cp and acs = acs and live = live]
  note props = final_weights_props [OF ok(1) assms(3) ok(2) refl]
  have "names_total w5 names \<le> fl (sector_cap policy + eps9)"
    if "w5 = final_weights p policy sectors w1" and "w1 = names_kept cp acs live (positive_targets target)"
      and "names = filter (\<lambda>s. dict_get sectors s ''UNKNOWN'' = sec) (map fst w1)" for w5 w1 names sec
  proof (cases "map_of (by_sector sectors w1) sec")
    case None
    then have "names = []" using by_sector_names [of sectors w1 sec] that by simp
    then show ?thesis using assms(3) eps_values
      by (auto simp: names_total_def sector_cap_def risk_policy_ok_def intro!: flt.rnd_nonneg add_nonneg_nonneg)
  next
    case (Some ns)
    then have "(sec, names) \<in> set (by_sector sectors w1)"
      using by_sector_names [of sectors w1 sec] that by (auto dest: map_of_SomeD)
    with props(3) that show ?thesis by simp
  qed
  with ok(3) [of sectors] props(2) show ?thesis by fastforce
qed

text \<open>
  Every weight the constrainer authorises is justified: its name was requested with at least
  that weight and is in no way invented, the weight is above the dust threshold and no larger than
  the position cap exactly (not only up to the assertion's 1e-9), and, when a capability policy is
  supplied, the name passes the risk-constrainer gate as a settled-cash BUY of its asset class.
\<close>
theorem risk_constrain_authorises_only_requested:
  assumes "dict_ok target" and "\<forall>x \<in> set (map snd target). fl x = x"
    and "risk_policy_ok policy" and "small_enough p policy (length target)"
    and "risk_constrain target p policy sectors (Some c) acs live = Inr r"
    and "(s, x) \<in> set (cr_weights r)"
  shows "eps9 < x \<and> x \<le> position_cap policy \<and> (\<exists>x0. map_of target s = Some x0 \<and> x \<le> x0)
     \<and> policy_check c RISK_CONSTRAINER live (Some s)
         [(''asset_class'', dict_get acs s ''US_EQUITY''), (''side'', ''BUY''), (''funding'', ''SETTLED_CASH'')]
       = Inr ()"
proof -
  note ok = risk_constrain_ok [OF assms(1-4) refl, where cp = "Some c" and acs = acs and live = live]
  let ?w1 = "names_kept (Some c) acs live (positive_targets target)"
  have "cr_weights r = final_weights p policy sectors ?w1" using ok(3) [of sectors] assms(5) by auto
  with final_weights_props(1) [OF ok(1) assms(3) ok(2) refl] assms(6)
  obtain x1 where x1: "eps9 < x" "x \<le> position_cap policy" "map_of ?w1 s = Some x1" "x \<le> x1" by metis
  have m: "(s, x1) \<in> set ?w1" using x1(3) by (rule map_of_SomeD)
  then have "(s, x1) \<in> set target" by (auto simp: names_kept_def positive_targets_def)
  then have "map_of target s = Some x1" using assms(1) by (simp add: dict_mem)
  moreover have "policy_check c RISK_CONSTRAINER live (Some s) (gate_dimensions (dict_get acs s ''US_EQUITY'')) = Inr ()"
    using m by (auto simp: names_kept_def)
  ultimately show ?thesis using x1 by (auto simp: gate_dimensions_def)
qed

subsection \<open>A concrete book\<close>

definition ex_policy :: risk_policy where
  "ex_policy = \<lparr> rp_version = ''v1'', rp_max_position_pct = 50, rp_max_sector_pct = 75,
     rp_min_settled_cash_pct_of_nlv = 10, rp_min_absolute_settled_cash = 0 \<rparr>"

definition ex_state :: portfolio_state where
  "ex_state = \<lparr> pf_account = ''IRA'', pf_nlv = 1000, pf_settled_cash = 900, pf_unsettled_cash = 0,
     pf_pending_buy_notional = 0, pf_estimated_fees = 0 \<rparr>"

lemma fl_quarters: "fl (1 / 2) = 1 / 2" "fl (1 / 4) = 1 / 4" "fl (3 / 4) = 3 / 4"
  using fl_dyadic [of 1 1] fl_dyadic [of 1 2] fl_dyadic [of 3 2] by simp_all

lemma ex_values:
  "position_cap ex_policy = 1 / 2" "sector_cap ex_policy = 3 / 4"
  "investable_cash ex_state ex_policy = 800" "eps9 < 1 / 4"
  using flt.rnd_upper [of "1 / 10 ^ 9"]
  by (simp_all add: position_cap_def sector_cap_def investable_cash_def required_reserve_def
      ex_policy_def ex_state_def num_simps fl_quarters eps9_def)

lemma ex_ok: "risk_policy_ok ex_policy" "small_enough ex_state ex_policy (length [(''AAA'', 1 / 4 :: rat)])"
  by (simp_all add: risk_policy_ok_def small_enough_def ex_values) (simp_all add: ex_policy_def ex_state_def)

lemma ex_kept: "names_kept (Some (initial_policy ''v1'')) [] True (positive_targets [(''AAA'', 1 / 4)]) = [(''AAA'', 1 / 4)]"
  by (simp add: names_kept_def positive_targets_def gate_dimensions_def dict_get_def) code_simp

lemma ex_final: "final_weights ex_state ex_policy [] [(''AAA'', 1 / 4)] = [(''AAA'', 1 / 4)]"
  using ex_values(4)
  by (simp add: final_weights_def ex_values clip_weights_def by_sector_def names_total_def Let_def
      reserve_step_def book_total_def drop_dust_def fl_quarters dict_get_def)
     (simp add: ex_state_def num_simps)

theorem risk_constrain_total_witness:
  "\<exists>r. risk_constrain [(''AAA'', 1 / 4)] ex_state ex_policy [] (Some (initial_policy ''v1'')) [] True = Inr r
     \<and> fl (book_total (cr_weights r) * pf_nlv ex_state) \<le> fl (investable_cash ex_state ex_policy + eps6)"
  using risk_constrain_total [OF _ _ ex_ok, of "[]" "Some (initial_policy ''v1'')" "[]" True]
  by (auto simp: dict_ok_def fl_quarters)

theorem risk_constrain_authorises_only_requested_witness:
  "\<exists>r. risk_constrain [(''AAA'', 1 / 4)] ex_state ex_policy [] (Some (initial_policy ''v1'')) [] True = Inr r
     \<and> (''AAA'', 1 / 4) \<in> set (cr_weights r) \<and> 1 / 4 \<le> position_cap ex_policy"
proof -
  obtain r where r: "risk_constrain [(''AAA'', 1 / 4)] ex_state ex_policy [] (Some (initial_policy ''v1'')) [] True = Inr r"
    "cr_weights r = [(''AAA'', 1 / 4)]"
    using risk_constrain_ok(3) [OF _ _ ex_ok refl, of "[]" "Some (initial_policy ''v1'')" "[]" True]
    by (auto simp: dict_ok_def fl_quarters ex_kept ex_final)
  with risk_constrain_authorises_only_requested [OF _ _ ex_ok r(1), of "''AAA''" "1 / 4"] show ?thesis
    by (simp add: dict_ok_def fl_quarters)
qed

end
