(* ===== verification/Pipeline.thy ===== *)
theory Pipeline
  imports Risk Lots Accounts
begin

text \<open>
  agent/pipeline.py: the Gatekeeper, the one place that composes capability, holding,
  day-trade and risk gates into a signed order.

  \<open>stage\<close> follows the source branch by branch; each gate is a definition of its own.
  The keyword arguments of \<open>Gatekeeper.stage\<close> are the record \<open>stage_args\<close>. Quantities and
  prices are floats (the source keeps them so), \<open>None\<close> is \<open>None\<close>; \<open>now\<close> is an aware
  datetime, i.e. an instant. A \<open>Rejected\<close> carries its gate, its message is not modelled.

  \<open>sign_staged_order\<close> is an HMAC over the JSON text of the signable fields. Its value is the
  parameter \<open>mac key fields\<close> of the definitions; what is proved of it is only that \<open>verify\<close>
  recomputes it.
\<close>

definition ORDER_SIDES :: "string list" where
  "ORDER_SIDES = [''BUY'', ''SELL'', ''CANCEL'', ''CLOSE'', ''REPLACE'']"

subsection \<open>Staged orders\<close>

text \<open>The fields in \<open>_SIGNABLE_FIELDS\<close>, then the signature over them.\<close>

record order_fields =
  of_account :: string
  of_client_order_id :: string
  of_symbol :: string
  of_side :: string
  of_requested_qty :: "pyfloat option"
  of_authorized_qty :: "pyfloat option"
  of_order_type :: string
  of_time_in_force :: string
  of_limit_price :: "pyfloat option"
  of_asset_class :: string
  of_funding :: string
  of_session :: string
  of_requested_notional :: pyfloat
  of_notional :: pyfloat
  of_gates_passed :: "string list"
  of_binding :: "string list"
  of_lot_id :: "string option"

record staged_order =
  so_fields :: order_fields
  so_signature :: string

type_synonym 'k mac = "'k \<Rightarrow> order_fields \<Rightarrow> string"

definition sign_staged_order :: "'k mac \<Rightarrow> order_fields \<Rightarrow> 'k \<Rightarrow> staged_order" where
  "sign_staged_order mac f key = \<lparr> so_fields = f, so_signature = mac key f \<rparr>"

definition so_qty :: "staged_order \<Rightarrow> pyfloat option" where
  "so_qty so = of_authorized_qty (so_fields so)"

definition so_verify :: "'k mac \<Rightarrow> 'k \<Rightarrow> staged_order \<Rightarrow> bool" where
  "so_verify mac key so =
     (if so_signature so = [] then False else mac key (so_fields so) = so_signature so)"

subsection \<open>The gatekeeper\<close>

record 'k gatekeeper =
  gk_account :: string
  gk_account_type :: account_type
  gk_capability :: capability_policy
  gk_risk :: risk_policy
  gk_guard :: day_trade_guard
  gk_live :: bool
  gk_key :: 'k

definition make_gatekeeper ::
  "string \<Rightarrow> account_type \<Rightarrow> capability_policy \<Rightarrow> risk_policy \<Rightarrow> day_trade_guard \<Rightarrow> bool \<Rightarrow> 'k
   \<Rightarrow> 'k gatekeeper result" where
  "make_gatekeeper acct ty cp rp guard live key =
     (if dt_account guard \<noteq> acct then Inl (CrossAccountError acct (dt_account guard))
      else Inr \<lparr> gk_account = acct, gk_account_type = ty, gk_capability = cp, gk_risk = rp,
                 gk_guard = guard, gk_live = live, gk_key = key \<rparr>)"

record stage_args =
  sa_client_order_id :: string
  sa_symbol :: string
  sa_side :: string
  sa_order_type :: string
  sa_time_in_force :: string
  sa_portfolio :: portfolio_state
  sa_now :: instant
  sa_posture :: string
  sa_qty :: "pyfloat option"
  sa_price :: "pyfloat option"
  sa_limit_price :: "pyfloat option"
  sa_asset_class :: string
  sa_funding :: string
  sa_session :: string
  sa_lots :: "lot list"
  sa_opens_day_trade :: bool
  sa_sectors :: "string dict"
  sa_current_weights :: weights
  sa_broker_position_qty :: "pyfloat option"
  sa_lot_id :: "string option"

definition order_dims :: "stage_args \<Rightarrow> dimensions" where
  "order_dims a =
     [(''asset_class'', sa_asset_class a), (''side'', upper (sa_side a)),
      (''funding'', sa_funding a), (''order_type'', sa_order_type a),
      (''session'', sa_session a), (''time_in_force'', sa_time_in_force a)]"

text \<open>A capability check, its violation re-raised as a rejection by the named gate.\<close>

definition stage_capability :: "'k gatekeeper \<Rightarrow> stage_args \<Rightarrow> gate \<Rightarrow> string \<Rightarrow> unit result" where
  "stage_capability gk a g name =
     (case policy_check (gk_capability gk) g (gk_live gk) (Some (sa_symbol a)) (order_dims a) of
        Inr _ \<Rightarrow> Inr ()
      | Inl (PolicyViolation _ _ _ _) \<Rightarrow> Inl (Rejected name)
      | Inl e \<Rightarrow> Inl e)"

definition stage_lot_id :: "'k gatekeeper \<Rightarrow> stage_args \<Rightarrow> unit result" where
  "stage_lot_id gk a =
     (if upper (sa_side a) = ''SELL'' then
        (case sa_lot_id a of
           None \<Rightarrow> Inl (Rejected ''holding'')
         | Some lid \<Rightarrow>
             if \<not> (\<exists>l \<in> set (sa_lots a). lot_id l = lid \<and> lot_account l = gk_account gk
                      \<and> lot_symbol l = sa_symbol a \<and> is_open l)
             then Inl (Rejected ''holding'') else Inr ())
      else if sa_lot_id a \<noteq> None then Inl (Rejected ''holding'') else Inr ())"

text \<open>Holding eligibility: \<open>check_qty > available + 1e-9\<close> on floats.\<close>

definition stage_holding :: "'k gatekeeper \<Rightarrow> stage_args \<Rightarrow> string list \<Rightarrow> string list result" where
  "stage_holding gk a passed =
     (if upper (sa_side a) \<in> {''SELL'', ''CLOSE''} then
        (case (if upper (sa_side a) = ''SELL'' then sa_qty a else sa_broker_position_qty a) of
           None \<Rightarrow> Inl (Rejected ''holding'')
         | Some check_qty \<Rightarrow>
             bindE (sellable_qty ALPACA_DEFAULT_POLICY (sa_lots a) (gk_account gk) (sa_symbol a) (sa_now a))
               (\<lambda>sellable. let available = fl sellable in
                  if check_qty > fl (available + eps9) then Inl (Rejected ''holding'')
                  else Inr (passed @ [''holding''])))
      else Inr passed)"

definition stage_day_trade :: "'k gatekeeper \<Rightarrow> stage_args \<Rightarrow> string list \<Rightarrow> string list result" where
  "stage_day_trade gk a passed =
     (if sa_opens_day_trade a then
        bindE (session_for_instant (Aware (sa_now a))) (\<lambda>as_of.
          case dt_check (gk_guard gk) as_of (sa_posture a) of
            Inr _ \<Rightarrow> Inr (passed @ [''day_trade''])
          | Inl DayTradeBlocked \<Rightarrow> Inl (Rejected ''day_trade'')
          | Inl e \<Rightarrow> Inl e)
      else Inr passed)"

text \<open>What the risk gate decides.\<close>

record sizing =
  sz_requested_qty :: "pyfloat option"
  sz_authorized_qty :: "pyfloat option"
  sz_requested_notional :: pyfloat
  sz_notional :: pyfloat
  sz_binding :: "string list"
  sz_passed :: "string list"

text \<open>\<open>x or 0.0\<close>, and the one call of \<open>risk_constrain\<close>.\<close>

definition or_zero :: "pyfloat option \<Rightarrow> pyfloat" where
  "or_zero v = (case v of None \<Rightarrow> 0 | Some x \<Rightarrow> x)"

definition stage_risk :: "'k gatekeeper \<Rightarrow> stage_args \<Rightarrow> weights \<Rightarrow> constrain_result result" where
  "stage_risk gk a target =
     risk_constrain target (sa_portfolio a) (gk_risk gk) (sa_sectors a) (Some (gk_capability gk))
       [(sa_symbol a, sa_asset_class a)] (gk_live gk)"

definition requested_notional :: "stage_args \<Rightarrow> pyfloat" where
  "requested_notional a = fl (or_zero (sa_qty a) * or_zero (sa_price a))"

definition buy_target :: "stage_args \<Rightarrow> weights" where
  "buy_target a =
     (let nlv = pf_nlv (sa_portfolio a);
          requested_weight = (if nlv \<noteq> 0 then fl (requested_notional a / nlv) else 0);
          current_weight = dict_get (sa_current_weights a) (sa_symbol a) 0
      in AList.update (sa_symbol a) (fl (current_weight + requested_weight)) (sa_current_weights a))"

text \<open>With no price, \<open>authorized_qty * price\<close> multiplies a float by \<open>None\<close>: a \<open>TypeError\<close>.\<close>

definition stage_buy :: "'k gatekeeper \<Rightarrow> stage_args \<Rightarrow> string list \<Rightarrow> sizing result" where
  "stage_buy gk a passed =
     bindE (stage_risk gk a (buy_target a)) (\<lambda>r.
       let nlv = pf_nlv (sa_portfolio a);
           current_weight = dict_get (sa_current_weights a) (sa_symbol a) 0;
           authorized_weight = dict_get (cr_weights r) (sa_symbol a) 0;
           delta_weight = max 0 (fl (authorized_weight - current_weight))
       in case sa_price a of
            None \<Rightarrow> Inl TypeError
          | Some price \<Rightarrow>
              let authorized_qty = (if price \<noteq> 0 then fl (fl (delta_weight * nlv) / price) else 0)
              in if authorized_qty \<le> eps9 then Inl (Rejected ''risk'')
                 else Inr \<lparr> sz_requested_qty = sa_qty a, sz_authorized_qty = Some authorized_qty,
                            sz_requested_notional = requested_notional a,
                            sz_notional = fl (authorized_qty * price),
                            sz_binding = cr_binding r, sz_passed = passed @ [''risk''] \<rparr>)"

definition stage_close :: "'k gatekeeper \<Rightarrow> stage_args \<Rightarrow> pyfloat \<Rightarrow> string list \<Rightarrow> sizing result" where
  "stage_close gk a position passed =
     (case sa_price a of
        None \<Rightarrow> Inl (Rejected ''risk'')
      | Some price \<Rightarrow>
          bindE (stage_risk gk a (AList.update (sa_symbol a) 0 (sa_current_weights a))) (\<lambda>r.
            let nlv = pf_nlv (sa_portfolio a);
                value_held = fl (position * price);
                current_weight = (if nlv \<noteq> 0 then fl (value_held / nlv) else 0);
                authorized_weight = dict_get (cr_weights r) (sa_symbol a) 0;
                delta_weight = max 0 (fl (current_weight - authorized_weight));
                authorized_qty = (if price \<noteq> 0 then fl (fl (delta_weight * nlv) / price) else 0)
            in if authorized_qty \<le> eps9 then Inl (Rejected ''risk'')
               else Inr \<lparr> sz_requested_qty = Some position, sz_authorized_qty = Some authorized_qty,
                          sz_requested_notional = value_held,
                          sz_notional = fl (authorized_qty * price),
                          sz_binding = cr_binding r, sz_passed = passed @ [''risk''] \<rparr>))"

definition stage_size :: "'k gatekeeper \<Rightarrow> stage_args \<Rightarrow> string list \<Rightarrow> sizing result" where
  "stage_size gk a passed =
     (if upper (sa_side a) = ''BUY'' then stage_buy gk a passed
      else if upper (sa_side a) = ''CLOSE'' then
        (case sa_broker_position_qty a of
           None \<Rightarrow> Inl (Rejected ''risk'')
         | Some position \<Rightarrow> stage_close gk a position passed)
      else Inr \<lparr> sz_requested_qty = sa_qty a, sz_authorized_qty = sa_qty a,
                 sz_requested_notional = requested_notional a, sz_notional = requested_notional a,
                 sz_binding = [], sz_passed = passed \<rparr>)"

definition stage_fields :: "'k gatekeeper \<Rightarrow> stage_args \<Rightarrow> sizing \<Rightarrow> string option \<Rightarrow> order_fields" where
  "stage_fields gk a sz lid =
     \<lparr> of_account = gk_account gk, of_client_order_id = sa_client_order_id a,
       of_symbol = sa_symbol a, of_side = upper (sa_side a),
       of_requested_qty = sz_requested_qty sz, of_authorized_qty = sz_authorized_qty sz,
       of_order_type = sa_order_type a, of_time_in_force = sa_time_in_force a,
       of_limit_price = sa_limit_price a, of_asset_class = sa_asset_class a,
       of_funding = sa_funding a, of_session = sa_session a,
       of_requested_notional = sz_requested_notional sz, of_notional = sz_notional sz,
       of_gates_passed = sz_passed sz, of_binding = sz_binding sz, of_lot_id = lid \<rparr>"

definition stage_finish ::
  "'k mac \<Rightarrow> 'k gatekeeper \<Rightarrow> stage_args \<Rightarrow> sizing \<Rightarrow> string option \<Rightarrow> staged_order result" where
  "stage_finish mac gk a sz lid =
     bindE (stage_capability gk a PRE_SUBMIT ''capability:pre_submit'') (\<lambda>_.
       Inr (sign_staged_order mac
              (stage_fields gk a (sz\<lparr>sz_passed := sz_passed sz @ [''capability:pre_submit'']\<rparr>) lid)
              (gk_key gk)))"

definition stage_cancel ::
  "'k mac \<Rightarrow> 'k gatekeeper \<Rightarrow> stage_args \<Rightarrow> string list \<Rightarrow> staged_order result" where
  "stage_cancel mac gk a passed =
     stage_finish mac gk a
       \<lparr> sz_requested_qty = Some 0, sz_authorized_qty = Some 0, sz_requested_notional = 0,
         sz_notional = 0, sz_binding = [], sz_passed = passed \<rparr> None"

definition stage :: "'k mac \<Rightarrow> 'k gatekeeper \<Rightarrow> stage_args \<Rightarrow> staged_order result" where
  "stage mac gk a =
     (if upper (sa_side a) = ''REPLACE'' then Inl NotImplementedError
      else if pf_account (sa_portfolio a) \<noteq> gk_account gk
      then Inl (CrossAccountError (gk_account gk) (pf_account (sa_portfolio a)))
      else
        bindE (stage_capability gk a UNIVERSE ''capability:universe'') (\<lambda>_.
        bindE (stage_lot_id gk a) (\<lambda>_.
        if upper (sa_side a) = ''CANCEL'' then stage_cancel mac gk a [''capability:universe'']
        else if upper (sa_side a) = ''CLOSE'' \<and> sa_broker_position_qty a = None
        then Inl (Rejected ''risk'')
        else
          bindE (stage_holding gk a [''capability:universe'']) (\<lambda>p1.
          bindE (stage_day_trade gk a p1) (\<lambda>p2.
          bindE (stage_size gk a p2) (\<lambda>sz.
            stage_finish mac gk a sz (sa_lot_id a)))))))"

subsection \<open>How a staged order comes about\<close>

lemma stage_capability_ok:
  "stage_capability gk a g name = Inr u \<longleftrightarrow>
   policy_check (gk_capability gk) g (gk_live gk) (Some (sa_symbol a)) (order_dims a) = Inr ()"
  by (auto simp: stage_capability_def split: sum.splits exn_splits)

lemma order_dims_known: "known_dimensions (order_dims a)"
  by (simp add: known_dimensions_def order_dims_def)

lemma stage_capability_cases:
  "stage_capability gk a g name =
     (if policy_check (gk_capability gk) UNIVERSE (gk_live gk) (Some (sa_symbol a)) (order_dims a) = Inr ()
      then Inr () else Inl (Rejected name))"
proof (cases "policy_check (gk_capability gk) g (gk_live gk) (Some (sa_symbol a)) (order_dims a)")
  case (Inl e)
  then obtain d v st where "e = PolicyViolation g d v st"
    using policy.check_error [OF order_dims_known] by blast
  with Inl policy.recheck [where g = UNIVERSE and g' = g] show ?thesis
    by (fastforce simp: stage_capability_def)
next
  case (Inr u)
  with policy.recheck [where g = g and g' = UNIVERSE] show ?thesis
    by (simp add: stage_capability_def)
qed

lemma stage_finish_ok:
  "stage_finish mac gk a sz lid = Inr so \<longleftrightarrow>
   policy_check (gk_capability gk) PRE_SUBMIT (gk_live gk) (Some (sa_symbol a)) (order_dims a) = Inr () \<and>
   so = sign_staged_order mac (stage_fields gk a
     (sz\<lparr>sz_passed := sz_passed sz @ [''capability:pre_submit'']\<rparr>) lid) (gk_key gk)"
  by (auto simp: stage_finish_def result_simps stage_capability_ok)

lemma sign_staged_order_fields [simp]:
  "so_fields (sign_staged_order mac f key) = f" "so_signature (sign_staged_order mac f key) = mac key f"
  by (simp_all add: sign_staged_order_def)

lemma so_verify_signed: "so_verify mac key (sign_staged_order mac f key) \<longleftrightarrow> mac key f \<noteq> []"
  by (simp add: so_verify_def)

lemma stage_okE:
  assumes "stage mac gk a = Inr so"
  obtains (cancel) "upper (sa_side a) = ''CANCEL''" "stage_lot_id gk a = Inr ()"
      "stage_cancel mac gk a [''capability:universe''] = Inr so"
    | (sized) p1 p2 sz where "upper (sa_side a) \<notin> {''CANCEL'', ''REPLACE''}" "stage_lot_id gk a = Inr ()"
      "upper (sa_side a) = ''CLOSE'' \<longrightarrow> sa_broker_position_qty a \<noteq> None"
      "stage_holding gk a [''capability:universe''] = Inr p1" "stage_day_trade gk a p1 = Inr p2"
      "stage_size gk a p2 = Inr sz" "stage_finish mac gk a sz (sa_lot_id a) = Inr so"
  using assms by (auto simp: stage_def result_simps split: if_splits)

lemma stage_ok_guards:
  assumes "stage mac gk a = Inr so"
  shows "upper (sa_side a) \<noteq> ''REPLACE''" and "pf_account (sa_portfolio a) = gk_account gk"
    and "policy_check (gk_capability gk) UNIVERSE (gk_live gk) (Some (sa_symbol a)) (order_dims a) = Inr ()"
  using assms by (auto simp: stage_def result_simps stage_capability_ok split: if_splits)

lemma stage_ok_shape:
  assumes "stage mac gk a = Inr so"
  shows "\<exists>sz lid. so = sign_staged_order mac (stage_fields gk a sz lid) (gk_key gk)"
  using assms by (cases rule: stage_okE) (auto simp: stage_cancel_def stage_finish_ok)

text \<open>The gates a pipeline stage appends, in order.\<close>

lemma stage_holding_ok:
  "stage_holding gk a p = Inr p1 \<Longrightarrow>
   p1 = p @ (if upper (sa_side a) \<in> {''SELL'', ''CLOSE''} then [''holding''] else [])"
  by (auto simp: stage_holding_def result_simps Let_def split: if_splits option.splits)

lemma stage_day_trade_ok:
  "stage_day_trade gk a p = Inr p1 \<Longrightarrow>
   p1 = p @ (if sa_opens_day_trade a then [''day_trade''] else [])"
  by (auto simp: stage_day_trade_def result_simps split: if_splits sum.splits exn_splits)

lemma stage_size_passed:
  "stage_size gk a p = Inr sz \<Longrightarrow>
   sz_passed sz = p @ (if upper (sa_side a) \<in> {''BUY'', ''CLOSE''} then [''risk''] else [])"
  by (auto simp: stage_size_def stage_buy_def stage_close_def result_simps Let_def
      split: if_splits option.splits)

text \<open>A sell passes the holding gate only for a quantity the lots can supply now.\<close>

lemma stage_holding_sell:
  assumes "stage_holding gk a p = Inr p1" and "upper (sa_side a) = ''SELL''"
  obtains q s where "sa_qty a = Some q" and "q \<le> fl (fl s + eps9)"
    and "sellable_qty ALPACA_DEFAULT_POLICY (sa_lots a) (gk_account gk) (sa_symbol a) (sa_now a) = Inr s"
  using assms by (auto simp: stage_holding_def result_simps Let_def not_less split: if_splits option.splits)

lemma stage_holding_close:
  assumes "stage_holding gk a p = Inr p1" and "upper (sa_side a) = ''CLOSE''"
  obtains q s where "sa_broker_position_qty a = Some q" and "q \<le> fl (fl s + eps9)"
    and "sellable_qty ALPACA_DEFAULT_POLICY (sa_lots a) (gk_account gk) (sa_symbol a) (sa_now a) = Inr s"
  using assms by (auto simp: stage_holding_def result_simps Let_def not_less split: if_splits option.splits)

subsection \<open>The weights the constrainer returns\<close>

text \<open>No name is ever added: every name of the result was a positive target.\<close>

lemma clip_names: "map fst (clip_weights cap w) = map fst w"
  by (simp add: clip_weights_def case_prod_unfold comp_def)

lemma scale_names_names: "map fst (scale_names k ns w) = map fst w"
  by (simp add: scale_names_def case_prod_unfold comp_def)

lemma sector_step_names: "map fst (fst (sector_step cap g w)) = map fst w"
  by (induction cap g w rule: sector_step.induct)
     (auto simp: Let_def scale_names_names split: prod.splits)

lemma reserve_step_names: "map fst (fst (reserve_step nlv cash w)) = map fst w"
  by (simp add: reserve_step_def Let_def scale_all_def case_prod_unfold comp_def)

lemma capability_step_names:
  "capability_step cp acs live w = Inr (w', rej, bnd) \<Longrightarrow> set w' \<subseteq> set w"
  by (induction w arbitrary: w' rej bnd)
     (auto simp: Let_def result_simps split: if_splits, blast+)

lemma constrain_tail_names:
  assumes "constrain_tail p policy sectors w1 rej b1 = Inr r"
  shows "set (map fst (cr_weights r)) \<subseteq> set (map fst w1)"
proof -
  let ?w2 = "clip_weights (position_cap policy) w1"
  let ?w3 = "fst (sector_step (sector_cap policy) (by_sector sectors ?w2) ?w2)"
  let ?w4 = "fst (reserve_step (pf_nlv p) (investable_cash p policy) ?w3)"
  have "cr_weights r = drop_dust ?w4"
    using assms by (auto simp: constrain_tail_def Let_def result_simps split: prod.splits)
  then have "set (map fst (cr_weights r)) \<subseteq> set (map fst ?w4)" by (auto simp: drop_dust_def)
  then show ?thesis by (simp only: reserve_step_names sector_step_names clip_names)
qed

lemma risk_constrain_names:
  assumes "risk_constrain target p policy sectors cp acs live = Inr r"
  shows "set (map fst (cr_weights r)) \<subseteq> set (map fst (positive_targets target))"
proof (cases cp)
  case None
  with assms constrain_tail_names show ?thesis by (auto simp: risk_constrain_def)
next
  case (Some c)
  with assms obtain w1 rej b where "capability_step c acs live (positive_targets target) = Inr (w1, rej, b)"
    "constrain_tail p policy sectors w1 rej b = Inr r"
    by (auto simp: risk_constrain_def result_simps)
  from order_trans [OF constrain_tail_names [OF this(2), unfolded set_map] image_mono [OF capability_step_names [OF this(1)]]]
  show ?thesis by (simp only: set_map)
qed

lemma dict_get_absent: "s \<notin> set (map fst w) \<Longrightarrow> dict_get w s v = v"
  by (simp add: dict_get_def map_of_eq_None_iff [THEN iffD2])

subsection \<open>Properties\<close>


text \<open>
  A cancel cannot be trapped: staging a CANCEL for the gatekeeper's own account depends on the
  capability policy alone. Whatever the lots, the weights, the cash, the day trades or the prices
  are, it is staged with quantity zero when the policy allows it (and no lot id is given), and is
  otherwise refused by the universe gate or for the lot id.
\<close>
theorem stage_cancel_needs_only_capability:
  assumes "upper (sa_side a) = ''CANCEL''" and "pf_account (sa_portfolio a) = gk_account gk"
  shows "stage mac gk a =
    (if policy_check (gk_capability gk) ADAPTER (gk_live gk) (Some (sa_symbol a)) (order_dims a) \<noteq> Inr ()
     then Inl (Rejected ''capability:universe'')
     else if sa_lot_id a \<noteq> None then Inl (Rejected ''holding'')
     else Inr (sign_staged_order mac
       \<lparr> of_account = gk_account gk, of_client_order_id = sa_client_order_id a,
         of_symbol = sa_symbol a, of_side = ''CANCEL'', of_requested_qty = Some 0,
         of_authorized_qty = Some 0, of_order_type = sa_order_type a,
         of_time_in_force = sa_time_in_force a, of_limit_price = sa_limit_price a,
         of_asset_class = sa_asset_class a, of_funding = sa_funding a, of_session = sa_session a,
         of_requested_notional = 0, of_notional = 0,
         of_gates_passed = [''capability:universe'', ''capability:pre_submit''],
         of_binding = [], of_lot_id = None \<rparr> (gk_key gk)))"
proof -
  let ?ok = "\<lambda>g. policy_check (gk_capability gk) g (gk_live gk) (Some (sa_symbol a)) (order_dims a) = Inr ()"
  have u: "?ok UNIVERSE \<longleftrightarrow> ?ok ADAPTER" by (auto intro: policy.recheck)
  show ?thesis
    using assms by (simp add: u stage_def stage_capability_cases stage_lot_id_def stage_cancel_def
        stage_finish_def stage_fields_def)
qed

text \<open>
  A staged SELL keeps the minimum hold: its quantity is the requested one, the lot id it signs
  is an open lot of this account and symbol, the quantity exceeds what \<open>sellable_qty\<close> reports
  only by float rounding and the 1e-9 slack, and every lot that the broker's first-in-first-out
  disposal reaches within the sellable quantity is settled and past its hold.
\<close>
theorem stage_sell_respects_hold:
  assumes "stage mac gk a = Inr so" and "upper (sa_side a) = ''SELL''"
    and "exact_qtys k (open_lots (sa_lots a) (gk_account gk) (Some (sa_symbol a)))"
  shows "\<exists>q s lid. of_authorized_qty (so_fields so) = Some q \<and> of_requested_qty (so_fields so) = Some q
    \<and> of_lot_id (so_fields so) = Some lid
    \<and> (\<exists>l \<in> set (sa_lots a). lot_id l = lid \<and> lot_account l = gk_account gk
          \<and> lot_symbol l = sa_symbol a \<and> is_open l)
    \<and> q \<le> (1 + 1 / 2 ^ 53) ^ 2 * s + 2 / 10 ^ 9
    \<and> (\<forall>l \<in> set (fifo_touched (min q s) (sort_key fifo_key
          (open_lots (sa_lots a) (gk_account gk) (Some (sa_symbol a))))).
          is_settled l (sa_now a) \<and> is_hold_eligible l (sa_now a))"
  using assms(1)
proof (cases rule: stage_okE)
  case cancel
  with assms(2) show ?thesis by simp
next
  case (sized p1 p2 sz)
  obtain q s where q: "sa_qty a = Some q" "q \<le> fl (fl s + eps9)"
    and s: "sellable_qty ALPACA_DEFAULT_POLICY (sa_lots a) (gk_account gk) (sa_symbol a) (sa_now a) = Inr s"
    using stage_holding_sell [OF sized(4) assms(2)] by blast
  obtain lid l where l: "sa_lot_id a = Some lid" "l \<in> set (sa_lots a)" "lot_id l = lid"
    "lot_account l = gk_account gk" "lot_symbol l = sa_symbol a" "is_open l"
    using sized(2) assms(2) by (auto simp: stage_lot_id_def split: option.splits if_splits)
  have f: "of_authorized_qty (so_fields so) = Some q" "of_requested_qty (so_fields so) = Some q"
    "of_lot_id (so_fields so) = Some lid"
    using sized(6,7) assms(2) q l by (auto simp: stage_size_def stage_finish_ok stage_fields_def)
  have "0 \<le> sum_list (map lot_qty (takeWhile P (sort_key fifo_key
      (open_lots (sa_lots a) (gk_account gk) (Some (sa_symbol a))))))" for P
    by (rule sum_qty_nonneg) (use assms(3) in \<open>auto simp: exact_qtys_def dest!: set_takeWhileD\<close>)
  then have s0: "0 \<le> s" using sellable_qty_exact [OF s assms(3)] by simp
  have "\<forall>l \<in> set (fifo_touched (min q s) (sort_key fifo_key
          (open_lots (sa_lots a) (gk_account gk) (Some (sa_symbol a))))).
          is_settled l (sa_now a) \<and> is_hold_eligible l (sa_now a)"
  proof
    fix l assume "l \<in> set (fifo_touched (min q s) (sort_key fifo_key
          (open_lots (sa_lots a) (gk_account gk) (Some (sa_symbol a)))))"
    from fifo_touched_ready [OF _ this] sellable_qty_exact [OF s assms(3)]
    show "is_settled l (sa_now a) \<and> is_hold_eligible l (sa_now a)" by (simp add: exit_ready_def)
  qed
  moreover have "q \<le> (1 + 1 / 2 ^ 53) ^ 2 * s + 2 / 10 ^ 9"
  proof -
    have e: "0 \<le> eps9" "eps9 \<le> (1 + 1 / 2 ^ 53) * (1 / 10 ^ 9)"
      using eps_values flt.rnd_upper [of "1 / 10 ^ 9"] by (simp_all add: eps9_def)
    have "fl (fl s + eps9) \<le> (1 + 1 / 2 ^ 53) * (fl s + eps9)"
      using s0 e by (intro flt.rnd_upper add_nonneg_nonneg flt.rnd_nonneg)
    also have "\<dots> \<le> (1 + 1 / 2 ^ 53) * ((1 + 1 / 2 ^ 53) * s + (1 + 1 / 2 ^ 53) * (1 / 10 ^ 9))"
      using e flt.rnd_upper [OF s0] by (intro mult_left_mono add_mono) simp_all
    also have "\<dots> \<le> (1 + 1 / 2 ^ 53) ^ 2 * s + 2 / 10 ^ 9" by (simp add: power2_eq_square algebra_simps)
    finally show ?thesis using q by linarith
  qed
  ultimately show ?thesis using f l by blast
qed

text \<open>One weight is at most the whole book.\<close>

lemma sum_seq_ge: "\<forall>x \<in> set xs. 0 \<le> x \<and> fl x = x \<Longrightarrow> 0 \<le> a \<Longrightarrow> fl a = a \<Longrightarrow>
  a \<le> sum_seq fl a xs \<and> (\<forall>x \<in> set xs. x \<le> sum_seq fl a xs)"
proof (induction xs arbitrary: a)
  case (Cons x xs)
  have "a \<le> fl (a + x)" "x \<le> fl (a + x)"
    using Cons.prems by (auto intro!: flt.rnd_ge_fixed)
  moreover have "fl (a + x) \<le> sum_seq fl (fl (a + x)) xs
      \<and> (\<forall>y \<in> set xs. y \<le> sum_seq fl (fl (a + x)) xs)"
    using Cons.prems by (intro Cons.IH) (auto simp: flt.rnd_idem intro!: flt.rnd_nonneg)
  ultimately show ?case by (auto intro: order_trans)
qed simp

lemma book_ok_le_total: "book_ok w \<Longrightarrow> dict_get w s 0 \<le> book_total w"
proof (cases "map_of w s")
  case None
  assume "book_ok w"
  with None book_total_nonneg show ?thesis by (simp add: dict_get_def)
next
  case (Some x)
  assume "book_ok w"
  with Some sum_seq_ge [of "map snd w" 0] show ?thesis
    by (force simp: dict_get_def book_total_def book_ok_def dest: map_of_SomeD)
qed

lemma constrained_book_ok:
  assumes w: "book_ok w1" and pol: "risk_policy_ok policy"
  shows "book_ok (final_weights p policy sectors w1)"
proof -
  let ?w2 = "clip_weights (position_cap policy) w1"
  let ?w3 = "fst (sector_step (sector_cap policy) (by_sector sectors ?w2) ?w2)"
  let ?w4 = "fst (reserve_step (pf_nlv p) (investable_cash p policy) ?w3)"
  have cap: "0 \<le> position_cap policy" "fl (position_cap policy) = position_cap policy"
    "0 \<le> sector_cap policy" "0 \<le> investable_cash p policy"
    using pol by (auto simp: position_cap_def sector_cap_def risk_policy_ok_def flt.rnd_idem
        investable_cash_def intro!: flt.rnd_nonneg)
  have d: "dict_ok w" if "book_ok w" for w using that by (simp add: book_ok_def)
  have 2: "book_ok ?w2" by (rule shrinks_book_ok [OF clip_shrinks d]) (use w cap in auto)
  have 3: "book_ok ?w3" by (rule shrinks_book_ok [OF sector_step_shrinks d]) (use 2 cap in auto)
  have "book_ok ?w4" by (rule shrinks_book_ok [OF reserve_step_shrinks d]) (use 3 cap in auto)
  then show ?thesis by (auto simp: final_weights_def Let_def drop_dust_def book_ok_def)
qed

lemma staged_buy_bound:
  assumes "stage mac gk a = Inr so" and "upper (sa_side a) = ''BUY''"
    and "dict_ok (sa_current_weights a)"
    and "\<forall>x \<in> set (map snd (sa_current_weights a)). fl x = x"
    and "0 \<le> dict_get (sa_current_weights a) (sa_symbol a) 0"
    and "risk_policy_ok (gk_risk gk)"
    and "small_enough (sa_portfolio a) (gk_risk gk) (Suc (length (sa_current_weights a)))"
  shows "of_notional (so_fields so)
      \<le> (1 + 1 / 2 ^ 53) ^ 2 * fl (investable_cash (sa_portfolio a) (gk_risk gk) + eps6)
    \<and> of_notional (so_fields so)
      \<le> (1 + 1 / 2 ^ 53) ^ 2 * fl (max 0 (fl (position_cap (gk_risk gk)
            - dict_get (sa_current_weights a) (sa_symbol a) 0)) * pf_nlv (sa_portfolio a))"
proof -
  define p where "p = sa_portfolio a"
  define cur where "cur = dict_get (sa_current_weights a) (sa_symbol a) 0"
  define w1 where "w1 = names_kept (Some (gk_capability gk)) [(sa_symbol a, sa_asset_class a)] (gk_live gk)
                          (positive_targets (buy_target a))"
  define w5 where "w5 = final_weights p (gk_risk gk) (sa_sectors a) w1"
  have tgt: "dict_ok (buy_target a)" "\<forall>x \<in> set (map snd (buy_target a)). fl x = x"
    using assms(3,4) by (auto simp: buy_target_def Let_def flt.rnd_idem dest!: update_mem)
  have "length (buy_target a) \<le> Suc (length (sa_current_weights a))"
    by (simp add: buy_target_def Let_def length_update_le)
  then have sm: "small_enough p (gk_risk gk) (length (buy_target a))"
    using small_enough_mono assms(7) by (simp add: p_def)
  note ok = risk_constrain_ok [OF tgt assms(6) sm w1_def]
  note props = final_weights_props [OF ok(1) assms(6) ok(2) w5_def [symmetric]]
  from assms(1) obtain sz p2 where sz: "stage_size gk a p2 = Inr sz" "of_notional (so_fields so) = sz_notional sz"
    using assms(2) by (cases rule: stage_okE) (auto simp: stage_finish_ok stage_fields_def)
  with assms(2) have "stage_buy gk a p2 = Inr sz" by (simp add: stage_size_def)
  then obtain r price where r: "stage_risk gk a (buy_target a) = Inr r" and price: "sa_price a = Some price"
    and aq: "eps9 < (if price \<noteq> 0 then fl (fl (max 0 (fl (dict_get (cr_weights r) (sa_symbol a) 0 - cur)) * pf_nlv p) / price) else 0)"
    and nt: "sz_notional sz = fl ((if price \<noteq> 0 then fl (fl (max 0 (fl (dict_get (cr_weights r) (sa_symbol a) 0 - cur)) * pf_nlv p) / price) else 0) * price)"
    by (auto simp: stage_buy_def result_simps Let_def cur_def p_def split: option.splits if_splits)
  have w5: "cr_weights r = w5"
    using r ok(3) [of "sa_sectors a"] by (auto simp: stage_risk_def w5_def p_def)
  define aw where "aw = dict_get w5 (sa_symbol a) 0"
  define X where "X = fl (max 0 (fl (aw - cur)) * pf_nlv p)"
  have nlv: "0 \<le> pf_nlv p" using sm by (simp add: small_enough_def)
  have X0: "0 \<le> X" unfolding X_def using nlv by (intro flt.rnd_nonneg) simp
  have pr: "0 < price"
  proof (rule ccontr)
    assume "\<not> 0 < price"
    then have "fl (X / price) \<le> 0" using X0 by (intro flt.rnd_nonpos) (simp add: divide_nonneg_nonpos)
    with aq eps_values show False by (auto simp: w5 X_def aw_def split: if_splits)
  qed
  have "sz_notional sz = fl (fl (X / price) * price)" using nt pr by (simp add: w5 X_def aw_def)
  also have "\<dots> \<le> (1 + 1 / 2 ^ 53) * (fl (X / price) * price)"
    using X0 pr by (intro flt.rnd_upper mult_nonneg_nonneg flt.rnd_nonneg) simp_all
  also have "\<dots> \<le> (1 + 1 / 2 ^ 53) * ((1 + 1 / 2 ^ 53) * (X / price) * price)"
    using X0 pr flt.rnd_upper [of "X / price"] by (intro mult_left_mono mult_right_mono) simp_all
  also have "\<dots> = (1 + 1 / 2 ^ 53) ^ 2 * X" using pr by (simp add: power2_eq_square)
  finally have notional: "of_notional (so_fields so) \<le> (1 + 1 / 2 ^ 53) ^ 2 * X" using sz by simp
  have bk: "book_ok w5" unfolding w5_def by (rule constrained_book_ok [OF ok(1) assms(6)])
  have aw: "0 \<le> aw" "fl aw = aw" using book_ok_get [OF bk] by (simp_all add: aw_def)
  have "max 0 (fl (aw - cur)) \<le> aw"
    using aw assms(5) by (auto simp: cur_def intro!: flt.rnd_le_fixed)
  also have "aw \<le> book_total w5" unfolding aw_def by (rule book_ok_le_total [OF bk])
  finally have "X \<le> fl (book_total w5 * pf_nlv p)"
    unfolding X_def using nlv by (intro flt.rnd_mono mult_right_mono)
  then have X1: "X \<le> fl (investable_cash p (gk_risk gk) + eps6)" using props(2) by linarith
  have "aw \<le> position_cap (gk_risk gk)"
  proof (cases "map_of w5 (sa_symbol a)")
    case None
    then show ?thesis using assms(6)
      by (auto simp: aw_def dict_get_def position_cap_def risk_policy_ok_def intro!: flt.rnd_nonneg)
  next
    case (Some x)
    with props(1) show ?thesis by (auto simp: aw_def dict_get_def dest: map_of_SomeD)
  qed
  then have "max 0 (fl (aw - cur)) \<le> max 0 (fl (position_cap (gk_risk gk) - cur))"
    by (intro max.mono order_refl flt.rnd_mono) simp
  then have X2: "X \<le> fl (max 0 (fl (position_cap (gk_risk gk) - cur)) * pf_nlv p)"
    unfolding X_def using nlv by (intro flt.rnd_mono mult_right_mono)
  have "(1 + 1 / 2 ^ 53) ^ 2 * X \<le> (1 + 1 / 2 ^ 53) ^ 2 * B" if "X \<le> B" for B :: rat
    using that by (rule mult_left_mono) simp
  from order_trans [OF notional this [OF X1]] order_trans [OF notional this [OF X2]]
  show ?thesis by (simp add: p_def cur_def)
qed

text \<open>
C11: A staged BUY spends settled cash only: its notional is at most the investable settled cash
  (settled minus pending buys, fees and reserve) plus the 1e-6 slack, and at most the position
  cap's share of the account value, each up to two float roundings. The book and the policy are
  as for the constrainer; unsettled cash appears nowhere.
\<close>
theorem stage_buy_within_settled_cash:
  assumes "stage mac gk a = Inr so" and "upper (sa_side a) = ''BUY''"
    and "dict_ok (sa_current_weights a)"
    and "\<forall>x \<in> set (map snd (sa_current_weights a)). fl x = x"
    and "0 \<le> dict_get (sa_current_weights a) (sa_symbol a) 0"
    and "risk_policy_ok (gk_risk gk)"
    and "small_enough (sa_portfolio a) (gk_risk gk) (Suc (length (sa_current_weights a)))"
  shows "of_notional (so_fields so)
      \<le> (1 + 1 / 2 ^ 53) ^ 2 * fl (investable_cash (sa_portfolio a) (gk_risk gk) + eps6)
    \<and> of_notional (so_fields so)
      \<le> (1 + 1 / 2 ^ 53) ^ 2 * fl (max 0 (fl (position_cap (gk_risk gk)
            - dict_get (sa_current_weights a) (sa_symbol a) 0)) * pf_nlv (sa_portfolio a))"
  by (rule staged_buy_bound [OF assms])

text \<open>
  A CLOSE closes the whole reconciled position: when one is staged, the quantity requested is
  the broker's own, and the quantity authorised differs from it by at most four float roundings; the risk
  constrainer can fail the close but never shrink it.
\<close>
theorem stage_close_whole_position:
  assumes "stage mac gk a = Inr so" and "upper (sa_side a) = ''CLOSE''"
    and "dict_ok (sa_current_weights a)" and "0 \<le> pf_nlv (sa_portfolio a)"
    and "sa_price a = Some price" and "0 < price"
    and "sa_broker_position_qty a = Some position" and "0 \<le> position"
  shows "of_requested_qty (so_fields so) = Some position
    \<and> (\<exists>q. of_authorized_qty (so_fields so) = Some q
         \<and> (1 - 1 / 2 ^ 53) ^ 4 * position \<le> q \<and> q \<le> (1 + 1 / 2 ^ 53) ^ 4 * position)"
proof -
  define nlv where "nlv = pf_nlv (sa_portfolio a)"
  define tgt where "tgt = AList.update (sa_symbol a) 0 (sa_current_weights a)"
  obtain sz p2 where sz: "stage_size gk a p2 = Inr sz"
    "of_requested_qty (so_fields so) = sz_requested_qty sz"
    "of_authorized_qty (so_fields so) = sz_authorized_qty sz"
    using assms(1,2) by (cases rule: stage_okE) (auto simp: stage_finish_ok stage_fields_def)
  then have "stage_close gk a position p2 = Inr sz" using assms(2,7) by (simp add: stage_size_def)
  then obtain r where r: "stage_risk gk a tgt = Inr r"
    and sz2: "sz_requested_qty sz = Some position"
      "sz_authorized_qty sz = Some (fl (fl (max 0 (fl ((if nlv \<noteq> 0 then fl (fl (position * price) / nlv) else 0)
          - dict_get (cr_weights r) (sa_symbol a) 0)) * nlv) / price))"
      "eps9 < fl (fl (max 0 (fl ((if nlv \<noteq> 0 then fl (fl (position * price) / nlv) else 0)
          - dict_get (cr_weights r) (sa_symbol a) 0)) * nlv) / price)"
    using assms(5,6)
    by (auto simp: stage_close_def result_simps Let_def nlv_def tgt_def split: if_splits)
  have "sa_symbol a \<notin> set (map fst (positive_targets tgt))"
  proof
    assume "sa_symbol a \<in> set (map fst (positive_targets tgt))"
    then obtain x where "(sa_symbol a, x) \<in> set tgt" "0 < x" by (auto simp: positive_targets_def)
    moreover have "dict_ok tgt" using assms(3) by (simp add: tgt_def)
    ultimately show False by (simp add: dict_mem tgt_def)
  qed
  then have aw: "dict_get (cr_weights r) (sa_symbol a) 0 = 0"
    using r risk_constrain_names unfolding stage_risk_def by (intro dict_get_absent) blast
  have nlv: "0 < nlv"
    using sz2(3) aw eps_values assms(4) by (cases "nlv = 0") (auto simp: nlv_def)
  define v where "v = fl (position * price)"
  have v: "0 \<le> v" "fl v = v" using assms by (auto simp: v_def flt.rnd_idem intro!: flt.rnd_nonneg)
  define c where "c = fl (v / nlv)"
  have c: "0 \<le> c" "fl c = c" using v nlv by (auto simp: c_def flt.rnd_idem intro!: flt.rnd_nonneg)
  define g where "g = fl (c * nlv)"
  define q where "q = fl (g / price)"
  have q: "sz_authorized_qty sz = Some q" using sz2(2) nlv c by (simp add: aw q_def g_def c_def v_def)
  let ?u = "1 / 2 ^ 53 :: rat"
  have pp: "0 \<le> position * price" and cn: "0 \<le> c * nlv" using assms c nlv by simp_all
  have g0: "0 \<le> g" unfolding g_def by (rule flt.rnd_nonneg [OF cn])
  have vn: "0 \<le> v / nlv" and gp: "0 \<le> g / price" using v nlv g0 assms by simp_all
  have up: "q \<le> (1 + ?u) ^ 4 * position"
  proof -
    have "q * price \<le> (1 + ?u) * g" using flt.rnd_upper [OF gp] assms(6) by (simp add: q_def pos_le_divide_eq)
    also have "\<dots> \<le> (1 + ?u) * ((1 + ?u) * (c * nlv))"
      using flt.rnd_upper [OF cn] by (intro mult_left_mono) (simp_all add: g_def)
    also have "\<dots> \<le> (1 + ?u) * ((1 + ?u) * ((1 + ?u) * v))"
      using flt.rnd_upper [OF vn] nlv by (intro mult_left_mono) (simp_all add: c_def pos_le_divide_eq)
    also have "\<dots> \<le> (1 + ?u) * ((1 + ?u) * ((1 + ?u) * ((1 + ?u) * (position * price))))"
      using flt.rnd_upper [OF pp] by (intro mult_left_mono) (simp_all add: v_def)
    also have "\<dots> = (1 + ?u) ^ 4 * position * price" by (simp add: power_numeral_reduce)
    finally show ?thesis using assms(6) by (simp only: mult_le_cancel_right_pos)
  qed
  have "(1 - ?u) ^ 4 * position * price = (1 - ?u) * ((1 - ?u) * ((1 - ?u) * ((1 - ?u) * (position * price))))"
    by (simp add: power_numeral_reduce)
  also have "\<dots> \<le> (1 - ?u) * ((1 - ?u) * ((1 - ?u) * v))"
    using flt.rnd_lower [OF pp] by (intro mult_left_mono) (simp_all add: v_def)
  also have "\<dots> \<le> (1 - ?u) * ((1 - ?u) * (c * nlv))"
    using flt.rnd_lower [OF vn] nlv by (intro mult_left_mono) (simp_all add: c_def pos_divide_le_eq)
  also have "\<dots> \<le> (1 - ?u) * g"
    using flt.rnd_lower [OF cn] by (intro mult_left_mono) (simp_all add: g_def)
  also have "\<dots> \<le> q * price" using flt.rnd_lower [OF gp] assms(6) by (simp add: q_def pos_divide_le_eq)
  finally have "(1 - ?u) ^ 4 * position \<le> q" using assms(6) by (simp only: mult_le_cancel_right_pos)
  with up q sz sz2 show ?thesis by simp
qed

text \<open>
  A BUY staged without a price dies with Python's own TypeError, not with a Rejected that names
  its gate: the multiplication \<open>authorized_qty * price\<close> is reached before the zero-quantity check,
  for every book the risk constrainer accepts.
\<close>
theorem stage_buy_without_price:
  assumes "upper (sa_side a) = ''BUY''" and "sa_price a = None" and "sa_lot_id a = None"
    and "\<not> sa_opens_day_trade a" and "pf_account (sa_portfolio a) = gk_account gk"
    and "policy_check (gk_capability gk) UNIVERSE (gk_live gk) (Some (sa_symbol a)) (order_dims a) = Inr ()"
    and "is_ok (stage_risk gk a (buy_target a))"
  shows "stage mac gk a = Inl TypeError"
  using assms
  by (auto simp: stage_def stage_capability_cases stage_lot_id_def stage_holding_def stage_day_trade_def
      stage_size_def stage_buy_def is_ok_iff)

subsection \<open>Concrete orders\<close>

definition ex_gk :: "nat gatekeeper" where
  "ex_gk = \<lparr> gk_account = ''A1'', gk_account_type = ROTH_IRA, gk_capability = initial_policy ''v1'',
     gk_risk = ex_policy, gk_guard = guard_ex, gk_live = True, gk_key = 7 \<rparr>"

definition ex_mac :: "nat mac" where
  "ex_mac k f = ''sig'' @ of_client_order_id f"

definition ex_args :: "string \<Rightarrow> pyfloat \<Rightarrow> pyfloat option \<Rightarrow> stage_args" where
  "ex_args side nlv price =
     \<lparr> sa_client_order_id = ''o1'', sa_symbol = ''SPY'', sa_side = side, sa_order_type = ''LIMIT'',
       sa_time_in_force = ''DAY'', sa_portfolio = ex_state\<lparr>pf_account := ''A1'', pf_nlv := nlv\<rparr>,
       sa_now = 60, sa_posture = ''CASH'', sa_qty = Some 250, sa_price = price,
       sa_limit_price = price, sa_asset_class = ''ETF'', sa_funding = ''SETTLED_CASH'',
       sa_session = ''REGULAR'', sa_lots = [], sa_opens_day_trade = False, sa_sectors = [],
       sa_current_weights = [], sa_broker_position_qty = None, sa_lot_id = None \<rparr>"

lemma ex_literals [simp]: "upper ''ETF'' = ''ETF''" "upper ''spy'' = ''SPY''"
  by code_simp+

lemma ex_capability:
  assumes "side \<in> {''BUY'', ''SELL'', ''CANCEL'', ''CLOSE''}"
    and "sa_symbol a = ''SPY''" "sa_side a = side" "sa_order_type a = ''LIMIT''" "sa_time_in_force a = ''DAY''"
      "sa_asset_class a = ''ETF''" "sa_funding a = ''SETTLED_CASH''" "sa_session a = ''REGULAR''"
  shows "policy_check (gk_capability ex_gk) g (gk_live ex_gk) (Some (sa_symbol a)) (order_dims a) = Inr ()"
proof -
  have up: "upper side = side" using assms(1) by auto
  have "policy_check (initial_policy ''v1'') g True (Some ''SPY'')
     [(''asset_class'', ''ETF''), (''side'', side), (''funding'', ''SETTLED_CASH''), (''order_type'', ''LIMIT''),
      (''session'', ''REGULAR''), (''time_in_force'', ''DAY'')] = Inr ()"
    using assms(1) by (auto simp: policy_check_ok symbol_ok_def dimension_ok_def policy_table_def
        initial_policy_def Let_def dict_get_def policy_required_def less_eq_capability_status_def)
  with assms up show ?thesis by (simp add: ex_gk_def order_dims_def)
qed

text \<open>A cancel, staged whatever the books say.\<close>

definition ex_cancel :: staged_order where
  "ex_cancel = sign_staged_order ex_mac
     \<lparr> of_account = ''A1'', of_client_order_id = ''o1'', of_symbol = ''SPY'', of_side = ''CANCEL'',
       of_requested_qty = Some 0, of_authorized_qty = Some 0, of_order_type = ''LIMIT'',
       of_time_in_force = ''DAY'', of_limit_price = None, of_asset_class = ''ETF'',
       of_funding = ''SETTLED_CASH'', of_session = ''REGULAR'', of_requested_notional = 0,
       of_notional = 0, of_gates_passed = [''capability:universe'', ''capability:pre_submit''],
       of_binding = [], of_lot_id = None \<rparr> 7"

lemma ex_gk_simps [simp]:
  "gk_account ex_gk = ''A1''" "gk_key ex_gk = 7" "gk_risk ex_gk = ex_policy" "gk_live ex_gk = True"
  by (simp_all add: ex_gk_def)

lemma ex_args_simps [simp]:
  "sa_client_order_id (ex_args side nlv price) = ''o1''"
  "sa_symbol (ex_args side nlv price) = ''SPY''" "sa_side (ex_args side nlv price) = side"
  "sa_order_type (ex_args side nlv price) = ''LIMIT''" "sa_time_in_force (ex_args side nlv price) = ''DAY''"
  "sa_portfolio (ex_args side nlv price) = ex_state\<lparr>pf_account := ''A1'', pf_nlv := nlv\<rparr>"
  "sa_now (ex_args side nlv price) = 60" "sa_qty (ex_args side nlv price) = Some 250"
  "sa_price (ex_args side nlv price) = price" "sa_limit_price (ex_args side nlv price) = price"
  "sa_asset_class (ex_args side nlv price) = ''ETF''" "sa_funding (ex_args side nlv price) = ''SETTLED_CASH''"
  "sa_session (ex_args side nlv price) = ''REGULAR''" "sa_lots (ex_args side nlv price) = []"
  "\<not> sa_opens_day_trade (ex_args side nlv price)" "sa_sectors (ex_args side nlv price) = []"
  "sa_current_weights (ex_args side nlv price) = []" "sa_broker_position_qty (ex_args side nlv price) = None"
  "sa_lot_id (ex_args side nlv price) = None"
  by (simp_all add: ex_args_def)

lemma ex_args_capability [simp]:
  "side \<in> {''BUY'', ''SELL'', ''CANCEL'', ''CLOSE''} \<Longrightarrow>
   policy_check (gk_capability ex_gk) g True (Some ''SPY'') (order_dims (ex_args side nlv price)) = Inr ()"
  using ex_capability [of side "ex_args side nlv price" g] by simp

theorem stage_cancel_needs_only_capability_witness:
  "stage ex_mac ex_gk (ex_args ''CANCEL'' 0 None) = Inr ex_cancel"
  using stage_cancel_needs_only_capability [of "ex_args ''CANCEL'' 0 None" ex_gk ex_mac]
  by (simp add: ex_cancel_def)


text \<open>A sell of the two lots that are past their hold at time 60.\<close>

definition ex_lots :: "lot list" where
  "ex_lots = [lot_ex ''L3'' 1 3 50, lot_ex ''L2'' 4 20 100, lot_ex ''L1'' (5/2) 0 10]"

definition ex_sell :: stage_args where
  "ex_sell = (ex_args ''SELL'' 1000 (Some 1))\<lparr> sa_qty := Some (7/2), sa_lots := ex_lots, sa_lot_id := Some ''L3'' \<rparr>"

lemma ex_open: "open_lots ex_lots ''A1'' (Some ''SPY'') = ex_lots"
  by (simp add: ex_lots_def open_lots_def is_open_def lot_ex_def)

lemma ex_sellable: "sellable_qty ALPACA_DEFAULT_POLICY ex_lots ''A1'' ''SPY'' 60 = Inr (7/2)"
proof -
  have srt: "sort_key fifo_key ex_lots = [lot_ex ''L1'' (5/2) 0 10, lot_ex ''L3'' 1 3 50, lot_ex ''L2'' 4 20 100]"
    by (simp add: ex_lots_def)
  have d: "dec (5/2) = 5/2" "dec (7/2) = 7/2"
    using dec_grid [of 25 1] dec_grid [of 35 1] by simp_all
  show ?thesis
    by (simp add: sellable_qty_def ex_open srt)
       (simp add: lot_ex_def is_hold_eligible_def earliest_normal_exit_at_def is_settled_def d)
qed

lemma ex_sell_stages: "\<exists>so. stage ex_mac ex_gk ex_sell = Inr so"
proof -
  have f: "fl (7/2) = 7/2" using fl_dyadic [of 7 1] by simp
  have "7 / 2 \<le> fl (7 / 2 + eps9)" using eps_values by (intro flt.rnd_ge_fixed) (simp_all add: f)
  then have "\<not> 7 / 2 > fl (7 / 2 + eps9)" by simp
  moreover have "policy_check (gk_capability ex_gk) g True (Some ''SPY'') (order_dims ex_sell) = Inr ()" for g
    using ex_capability [of "''SELL''" ex_sell g] by (simp add: ex_sell_def)
  moreover have "\<exists>l \<in> set ex_lots. lot_id l = ''L3'' \<and> lot_account l = ''A1'' \<and> lot_symbol l = ''SPY'' \<and> is_open l"
    by (simp add: ex_lots_def lot_ex_def is_open_def)
  ultimately show ?thesis
    by (simp add: stage_def stage_capability_cases stage_lot_id_def stage_holding_def stage_day_trade_def
        stage_size_def stage_finish_def ex_sell_def ex_sellable f)
qed

theorem stage_sell_respects_hold_witness:
  "\<exists>so q s lid. stage ex_mac ex_gk ex_sell = Inr so \<and> of_authorized_qty (so_fields so) = Some q
     \<and> of_lot_id (so_fields so) = Some lid \<and> q \<le> (1 + 1 / 2 ^ 53) ^ 2 * s + 2 / 10 ^ 9"
proof -
  obtain so where so: "stage ex_mac ex_gk ex_sell = Inr so" using ex_sell_stages by blast
  have "exact_qtys 1 ex_lots" by (simp add: exact_qtys_def on_grid_def ex_lots_def lot_ex_def)
  then have "exact_qtys 1 (open_lots (sa_lots ex_sell) (gk_account ex_gk) (Some (sa_symbol ex_sell)))"
    by (simp add: ex_sell_def ex_open)
  from stage_sell_respects_hold [OF so _ this] so show ?thesis by (auto simp: ex_sell_def)
qed

text \<open>A buy of 250 at 1 in an account of 1000: a weight of exactly a quarter.\<close>

lemma ex_buy_target: "buy_target (ex_args ''BUY'' 1000 (Some 1)) = [(''SPY'', 1 / 4)]"
  by (simp add: buy_target_def requested_notional_def or_zero_def dict_get_def num_simps fl_quarters)

lemma ex_kept_buy:
  "c \<in> {''ETF'', ''US_EQUITY''} \<Longrightarrow> 0 < x \<Longrightarrow>
   names_kept (Some (gk_capability ex_gk)) [(''SPY'', c)] True (positive_targets [(''SPY'', x)]) = [(''SPY'', x)]"
  by (elim insertE emptyE)
     (simp add: names_kept_def positive_targets_def gate_dimensions_def dict_get_def ex_gk_def, code_simp)+

text \<open>A single small weight passes the constrainer unchanged.\<close>

lemma ex_state_values:
  "pf_nlv (ex_state\<lparr>pf_account := ''A1'', pf_nlv := 1000\<rparr>) = 1000"
  "investable_cash (ex_state\<lparr>pf_account := ''A1'', pf_nlv := 1000\<rparr>) ex_policy = 800"
  by (simp_all add: investable_cash_def required_reserve_def ex_policy_def ex_state_def num_simps)

lemma ex_small: "small_enough (ex_state\<lparr>pf_account := ''A1'', pf_nlv := 1000\<rparr>) ex_policy (Suc 0)"
  by (simp add: small_enough_def ex_state_values)

lemma ex_final_single:
  assumes x: "fl x = x" "1 / 10 ^ 8 \<le> x" "x \<le> 1 / 2"
  shows "final_weights (ex_state\<lparr>pf_account := ''A1'', pf_nlv := 1000\<rparr>) ex_policy [] [(''SPY'', x)] = [(''SPY'', x)]"
proof -
  have "fl (x * 1000) \<le> 800" using x by (intro flt.rnd_le_fixed) (simp_all add: num_simps)
  moreover have "eps9 < x" using flt.rnd_upper [of "1 / 10 ^ 9"] x by (simp add: eps9_def)
  ultimately show ?thesis using x
    by (simp add: final_weights_def ex_values ex_state_values clip_weights_def by_sector_def names_total_def
        Let_def reserve_step_def book_total_def drop_dust_def dict_get_def)
qed

lemma ex_constrain_single:
  assumes x: "fl x = x" "1 / 10 ^ 8 \<le> x" "x \<le> 1 / 2" and c: "c \<in> {''ETF'', ''US_EQUITY''}"
  shows "\<exists>r. risk_constrain [(''SPY'', x)] (ex_state\<lparr>pf_account := ''A1'', pf_nlv := 1000\<rparr>) ex_policy []
      (Some (gk_capability ex_gk)) [(''SPY'', c)] True = Inr r \<and> cr_weights r = [(''SPY'', x)]"
proof -
  have "0 < x" using x(2) by (rule less_le_trans [rotated]) simp
  note kept = ex_kept_buy [OF c this]
  from risk_constrain_ok(3) [of "[(''SPY'', x)]" ex_policy "ex_state\<lparr>pf_account := ''A1'', pf_nlv := 1000\<rparr>" _
      "Some (gk_capability ex_gk)" "[(''SPY'', c)]" True "[]"] ex_ok(1) ex_small ex_final_single [OF x] x(1)
  show ?thesis by (simp add: dict_ok_def kept)
qed

lemma ex_buy_stages:
  "\<exists>so. stage ex_mac ex_gk (ex_args ''BUY'' 1000 (Some 1)) = Inr so \<and> of_notional (so_fields so) = 250"
proof -
  obtain r where "risk_constrain [(''SPY'', 1 / 4)] (ex_state\<lparr>pf_account := ''A1'', pf_nlv := 1000\<rparr>) ex_policy []
      (Some (gk_capability ex_gk)) [(''SPY'', ''ETF'')] True = Inr r" "cr_weights r = [(''SPY'', 1 / 4)]"
    using ex_constrain_single [of "1 / 4"] fl_quarters by auto
  moreover have "\<not> 250 \<le> eps9" using ex_values(4) by simp
  ultimately show ?thesis
    by (simp add: stage_def stage_capability_cases stage_lot_id_def stage_holding_def stage_day_trade_def
        stage_size_def stage_buy_def ex_buy_target stage_risk_def dict_get_def fl_quarters num_simps
        ex_state_values stage_finish_def stage_fields_def)
qed

theorem stage_buy_within_settled_cash_witness:
  "\<exists>so. stage ex_mac ex_gk (ex_args ''BUY'' 1000 (Some 1)) = Inr so
     \<and> of_notional (so_fields so) = 250
     \<and> of_notional (so_fields so) \<le> (1 + 1 / 2 ^ 53) ^ 2 * fl (800 + eps6)
     \<and> of_notional (so_fields so) \<le> (1 + 1 / 2 ^ 53) ^ 2 * 500"
proof -
  obtain so where so: "stage ex_mac ex_gk (ex_args ''BUY'' 1000 (Some 1)) = Inr so" "of_notional (so_fields so) = 250"
    using ex_buy_stages by blast
  from stage_buy_within_settled_cash [OF so(1)] ex_ok(1) ex_small so
  show ?thesis by (simp add: dict_ok_def dict_get_def ex_values ex_state_values fl_quarters num_simps)
qed

text \<open>The same buy with no price.\<close>

theorem stage_buy_without_price_witness:
  "stage ex_mac ex_gk (ex_args ''BUY'' 1000 None) = Inl TypeError"
proof -
  have t: "buy_target (ex_args ''BUY'' 1000 None) = [(''SPY'', 0)]"
    by (simp add: buy_target_def requested_notional_def or_zero_def dict_get_def)
  have "risk_policy_ok ex_policy" by (rule ex_ok(1))
  with risk_constrain_ok(3) [of "[(''SPY'', 0)]" ex_policy "ex_state\<lparr>pf_account := ''A1'', pf_nlv := 1000\<rparr>" _
      "Some (gk_capability ex_gk)" "[(''SPY'', ''ETF'')]" True "[]"] ex_small
  have "is_ok (stage_risk ex_gk (ex_args ''BUY'' 1000 None) (buy_target (ex_args ''BUY'' 1000 None)))"
    by (auto simp: stage_risk_def t dict_ok_def is_ok_iff)
  from stage_buy_without_price [OF _ _ _ _ _ _ this] show ?thesis by simp
qed

text \<open>A buy of one share at 1 on top of a weight of an eighth.\<close>

definition ex_buy_on_top :: stage_args where
  "ex_buy_on_top = (ex_args ''BUY'' 1000 (Some 1))\<lparr> sa_qty := Some 1, sa_current_weights := [(''SPY'', 1 / 8)] \<rparr>"

text \<open>
  The risk gate can authorise more than was requested. The authorised quantity is recomputed from
  the difference of two rounded weights and is not capped at the requested one, so staging a BUY of
  exactly one share in an account of 1000 that already holds 12.5 percent of the symbol authorises
  1 + 2^-50 shares: a resize upwards, where resizing is documented as downwards only.
\<close>
theorem stage_buy_can_exceed_request:
  "\<exists>so. stage ex_mac ex_gk ex_buy_on_top = Inr so
     \<and> of_requested_qty (so_fields so) = Some 1
     \<and> of_authorized_qty (so_fields so) = Some (1 + 1 / 2 ^ 50)"
proof -
  define t :: rat where "t = 4539628424389460 / 2 ^ 55"
  define d :: rat where "d = 4611686018427392 / 2 ^ 62"
  define q :: rat where "q = 1 + 1 / 2 ^ 50"
  have e: "fl (1 / 1000) = 4611686018427388 / 2 ^ 62" "fl (1 / 8) = 1 / 8"
    "fl (1 / 8 + 4611686018427388 / 2 ^ 62) = t"
    using fl_eqI [of "1 / 1000" 62 4611686018427388] fl_dyadic [of 1 3]
      fl_eqI [of "1 / 8 + 4611686018427388 / 2 ^ 62" 55 4539628424389460]
    by (simp_all add: t_def)
  have e3: "fl (1 / 8 + fl (1 / 1000)) = t" by (simp only: e(1) e(3))
  have "fl (t - 1 / 8) = d" using fl_eqI [of "t - 1 / 8" 62 4611686018427392] by (simp add: t_def d_def)
  then have d: "max 0 (fl (t - 1 / 8)) = d" by (simp add: d_def)
  have q: "fl (d * 1000) = q" "fl q = q"
    using fl_eqI [of "d * 1000" 52 4503599627370500] fl_eqI [of q 52 4503599627370500]
    by (simp_all add: d_def q_def)
  have qe: "\<not> q \<le> eps9" using ex_values(4) by (simp add: q_def)
  have bt: "buy_target ex_buy_on_top = [(''SPY'', t)]"
    using e3 by (simp add: buy_target_def requested_notional_def or_zero_def dict_get_def ex_buy_on_top_def)
  have ft: "fl t = t" using e(3) flt.rnd_idem by metis
  obtain r where r: "risk_constrain [(''SPY'', t)] (ex_state\<lparr>pf_account := ''A1'', pf_nlv := 1000\<rparr>) ex_policy []
      (Some (gk_capability ex_gk)) [(''SPY'', ''ETF'')] True = Inr r" "cr_weights r = [(''SPY'', t)]"
    using ex_constrain_single [OF ft] by (auto simp: t_def)
  have cap: "policy_check (gk_capability ex_gk) g True (Some ''SPY'') (order_dims ex_buy_on_top) = Inr ()" for g
    using ex_capability [of "''BUY''" ex_buy_on_top g] by (simp add: ex_buy_on_top_def)
  have a: "sa_side ex_buy_on_top = ''BUY''" "sa_price ex_buy_on_top = Some 1" "sa_qty ex_buy_on_top = Some 1"
    "sa_symbol ex_buy_on_top = ''SPY''" "sa_asset_class ex_buy_on_top = ''ETF''" "sa_sectors ex_buy_on_top = []"
    "sa_portfolio ex_buy_on_top = ex_state\<lparr>pf_account := ''A1'', pf_nlv := 1000\<rparr>"
    "\<not> sa_opens_day_trade ex_buy_on_top" "sa_lot_id ex_buy_on_top = None"
    "dict_get (sa_current_weights ex_buy_on_top) ''SPY'' 0 = 1 / 8"
    by (simp_all add: ex_buy_on_top_def dict_get_def)
  have "\<exists>sz. stage_buy ex_gk ex_buy_on_top p = Inr sz \<and> sz_requested_qty sz = Some 1 \<and> sz_authorized_qty sz = Some q" for p
    using r by (simp add: stage_buy_def bt stage_risk_def a ex_state_values d q qe dict_get_def [of "[_]"])
  then obtain sz where "stage_buy ex_gk ex_buy_on_top [''capability:universe''] = Inr sz"
    "sz_requested_qty sz = Some 1" "sz_authorized_qty sz = Some q" by blast
  then show ?thesis
    by (simp add: stage_def stage_capability_cases stage_lot_id_def stage_holding_def stage_day_trade_def
        stage_size_def stage_finish_def stage_fields_def a cap q_def)
qed

text \<open>A close of seven shares at 1 in an account of 100.\<close>

definition ex_close :: stage_args where
  "ex_close = (ex_args ''CLOSE'' 100 (Some 1))\<lparr> sa_broker_position_qty := Some 7,
     sa_lots := [lot_ex ''L1'' 7 0 10] \<rparr>"

lemma ex_close_stages:
  "\<exists>so. stage ex_mac ex_gk ex_close = Inr so \<and> of_authorized_qty (so_fields so) = Some (7 + 1 / 2 ^ 50)"
proof -
  define w :: rat where "w = 5044031582654956 / 2 ^ 56"
  define q :: rat where "q = 7 + 1 / 2 ^ 50"
  have e: "fl (7 / 100) = w" "fl w = w" "fl (w * 100) = q" "fl q = q"
    using fl_eqI [of "7 / 100" 56 5044031582654956] fl_eqI [of w 56 5044031582654956]
      fl_eqI [of "w * 100" 50 7881299347898369] fl_eqI [of q 50 7881299347898369]
    by (simp_all add: w_def q_def)
  have w: "max 0 w = w" and qe: "\<not> q \<le> eps9" using ex_values(4) by (simp_all add: w_def q_def)
  have f7: "fl 7 = 7" by (simp add: num_simps)
  have a: "sa_side ex_close = ''CLOSE''" "sa_price ex_close = Some 1" "sa_symbol ex_close = ''SPY''"
    "sa_asset_class ex_close = ''ETF''" "sa_sectors ex_close = []" "sa_now ex_close = 60"
    "sa_portfolio ex_close = ex_state\<lparr>pf_account := ''A1'', pf_nlv := 100\<rparr>"
    "\<not> sa_opens_day_trade ex_close" "sa_lot_id ex_close = None" "sa_current_weights ex_close = []"
    "sa_broker_position_qty ex_close = Some 7" "sa_lots ex_close = [lot_ex ''L1'' 7 0 10]"
    by (simp_all add: ex_close_def)
  have cap: "policy_check (gk_capability ex_gk) g True (Some ''SPY'') (order_dims ex_close) = Inr ()" for g
    using ex_capability [of "''CLOSE''" ex_close g] by (simp add: ex_close_def)
  have i: "investable_cash (ex_state\<lparr>pf_account := ''A1'', pf_nlv := 100\<rparr>) ex_policy = 890"
    by (simp add: investable_cash_def required_reserve_def ex_policy_def ex_state_def num_simps)
  have sm: "small_enough (ex_state\<lparr>pf_account := ''A1'', pf_nlv := 100\<rparr>) ex_policy (Suc 0)"
    by (simp add: small_enough_def i)
  from risk_constrain_ok(3) [of "[(''SPY'', 0)]" ex_policy "ex_state\<lparr>pf_account := ''A1'', pf_nlv := 100\<rparr>" _
      "Some (gk_capability ex_gk)" "[(''SPY'', ''ETF'')]" True "[]"] ex_ok(1) sm
  obtain r where r: "stage_risk ex_gk ex_close [(''SPY'', 0)] = Inr r"
    by (auto simp: stage_risk_def dict_ok_def a)
  have "set (map fst (cr_weights r)) \<subseteq> {}"
    using risk_constrain_names [OF r [unfolded stage_risk_def]] by (simp add: positive_targets_def)
  then have r0: "cr_weights r = []" by simp
  have sz: "\<exists>sz. stage_close ex_gk ex_close 7 p = Inr sz \<and> sz_authorized_qty sz = Some q" for p
    using r by (simp add: stage_close_def a ex_state_def f7 e w qe r0 dict_get_def)
  have "sellable_qty ALPACA_DEFAULT_POLICY [lot_ex ''L1'' 7 0 10] ''A1'' ''SPY'' 60 = Inr 7"
    using dec_grid [of 7 0]
    by (simp add: sellable_qty_def open_lots_def is_open_def is_hold_eligible_def earliest_normal_exit_at_def is_settled_def)
       (simp add: lot_ex_def)
  moreover have "\<not> 7 > fl (7 + eps9)"
    using eps_values f7 flt.rnd_ge_fixed [of 7 "7 + eps9"] by simp
  ultimately have "stage_holding ex_gk ex_close p = Inr (p @ [''holding''])" for p
    by (simp add: stage_holding_def a f7)
  moreover obtain sz where "stage_close ex_gk ex_close 7 [''capability:universe'', ''holding''] = Inr sz"
    "sz_authorized_qty sz = Some q" using sz by blast
  ultimately show ?thesis
    by (simp add: stage_def stage_capability_cases stage_lot_id_def stage_day_trade_def
        stage_size_def stage_finish_def stage_fields_def a cap q_def)
qed

theorem stage_close_whole_position_witness:
  "\<exists>so q. stage ex_mac ex_gk ex_close = Inr so \<and> of_requested_qty (so_fields so) = Some 7
     \<and> of_authorized_qty (so_fields so) = Some q \<and> q \<le> (1 + 1 / 2 ^ 53) ^ 4 * 7"
proof -
  obtain so where "stage ex_mac ex_gk ex_close = Inr so" using ex_close_stages by blast
  with stage_close_whole_position [OF this, of 1 7] show ?thesis
    by (auto simp: ex_close_def ex_state_def)
qed

text \<open>
  A staged CLOSE can ask for more than the position: the float round trip through the weight is
  not exact, so closing a reconciled position of exactly 7 shares at a price of 1 in an account
  of 100 authorises 7 + 2^-50 shares, more than the broker holds.
\<close>
theorem stage_close_can_exceed_position:
  "\<exists>so. stage ex_mac ex_gk ex_close = Inr so \<and> sa_broker_position_qty ex_close = Some 7
     \<and> of_authorized_qty (so_fields so) = Some (7 + 1 / 2 ^ 50)"
  using ex_close_stages by (auto simp: ex_close_def)

end
