(* ===== verification/Approval.thy ===== *)
theory Approval
  imports Pipeline
begin

text \<open>
  agent/approval.py: single-use approval tokens and the service that mints them.

  A token is a record; \<open>consume\<close> returns the token as the source leaves it. The dict
  \<open>_tokens\<close> is \<open>as_tokens\<close>, keyed by token id, in issuance order. Instants and durations are
  microseconds. The SHA-256 of a fingerprint body is the parameter \<open>sha\<close>. The audit record that
  \<open>approve\<close> writes when the stored and the recomputed price band disagree is part of its result.

  The step relation \<open>token_step\<close> interleaves minting, spending and the startup sweep in any order; its
  runs are what the single-use property is about.
\<close>

subsection \<open>Fingerprints\<close>

record fingerprint_body =
  fb_symbol :: string
  fb_side :: string
  fb_qty :: pyfloat
  fb_order_type :: string
  fb_time_in_force :: string
  fb_limit_price :: "pyfloat option"
  fb_lot_id :: "string option"

definition fingerprint_body_of ::
  "string \<Rightarrow> string \<Rightarrow> pyfloat \<Rightarrow> string \<Rightarrow> string \<Rightarrow> pyfloat option \<Rightarrow> string option \<Rightarrow> fingerprint_body" where
  "fingerprint_body_of sy side qty ot tif lp lid =
     \<lparr> fb_symbol = upper sy, fb_side = upper side, fb_qty = py_round qty 6,
       fb_order_type = upper ot, fb_time_in_force = upper tif,
       fb_limit_price = map_option (\<lambda>p. py_round p 4) lp, fb_lot_id = lid \<rparr>"

definition order_fingerprint ::
  "(fingerprint_body \<Rightarrow> string) \<Rightarrow> string \<Rightarrow> string \<Rightarrow> pyfloat \<Rightarrow> string \<Rightarrow> string \<Rightarrow> pyfloat option
   \<Rightarrow> string option \<Rightarrow> string" where
  "order_fingerprint sha sy side qty ot tif lp lid =
     take 32 (sha (fingerprint_body_of sy side qty ot tif lp lid))"

subsection \<open>Tokens\<close>

record approval_token =
  at_token_id :: string
  at_request_id :: string
  at_fingerprint :: string
  at_band_low :: pyfloat
  at_band_high :: pyfloat
  at_expires_at :: instant
  at_decided_at :: instant
  at_elapsed_ms :: int
  at_symbol :: string
  at_side :: string
  at_qty :: pyfloat
  at_order_type :: string
  at_time_in_force :: string
  at_limit_price :: "pyfloat option"
  at_lot_id :: "string option"
  at_shown_at :: "instant option"
  at_min_display :: "timedelta option"
  at_consumed_at :: "instant option"
  at_swept_at :: "instant option"

definition consume :: "approval_token \<Rightarrow> string \<Rightarrow> pyfloat \<Rightarrow> instant \<Rightarrow> approval_token result" where
  "consume tok fingerprint price now =
     (if at_consumed_at tok \<noteq> None then Inl TokenConsumed
      else if at_swept_at tok \<noteq> None \<or> now \<ge> at_expires_at tok then Inl TokenExpired
      else if fingerprint \<noteq> at_fingerprint tok then Inl OrderMismatch
      else if \<not> (at_band_low tok \<le> price \<and> price \<le> at_band_high tok) then Inl PriceOutOfBand
      else Inr (tok\<lparr>at_consumed_at := Some now\<rparr>))"

definition verify_minimum_display_time :: "approval_token \<Rightarrow> instant \<Rightarrow> unit result" where
  "verify_minimum_display_time tok now =
     (case (at_shown_at tok, at_min_display tok) of
        (Some shown, Some least) \<Rightarrow> if now - shown < least then Inl ApprovalError else Inr ()
      | _ \<Rightarrow> Inr ())"

text \<open>\<open>qty\<close> is the staged order's, which may be \<open>None\<close>; comparing it then raises \<open>TypeError\<close>.\<close>

definition verify_modification_within_bounds ::
  "approval_token \<Rightarrow> string \<Rightarrow> string \<Rightarrow> pyfloat option \<Rightarrow> string \<Rightarrow> string \<Rightarrow> pyfloat option
   \<Rightarrow> string option \<Rightarrow> unit result" where
  "verify_modification_within_bounds tok sy side qty ot tif lp lid =
     (if upper sy \<noteq> upper (at_symbol tok) \<or> upper side \<noteq> upper (at_side tok)
         \<or> upper ot \<noteq> upper (at_order_type tok) \<or> upper tif \<noteq> upper (at_time_in_force tok)
         \<or> lid \<noteq> at_lot_id tok
      then Inl OrderMismatch
      else case qty of None \<Rightarrow> Inl TypeError | Some q \<Rightarrow>
        if q > fl (at_qty tok + eps9) then Inl OrderMismatch
        else case (lp, at_limit_price tok) of
            (Some l, Some l0) \<Rightarrow>
              if upper side = ''BUY''
              then (if l > fl (l0 + eps9) then Inl OrderMismatch else Inr ())
              else (if l < fl (l0 - eps9) then Inl OrderMismatch else Inr ())
          | (None, None) \<Rightarrow> Inr ()
          | _ \<Rightarrow> Inl OrderMismatch)"

subsection \<open>The service\<close>

record approval_service =
  as_expiration :: timedelta
  as_min_display :: timedelta
  as_max_per_day :: int
  as_price_band_pct :: pyfloat
  as_tokens :: "approval_token dict"

text \<open>\<open>store.count_decided_on(day)\<close> is the argument \<open>decided_on_day\<close>.\<close>

definition can_request :: "approval_service \<Rightarrow> int \<Rightarrow> bool \<Rightarrow> bool" where
  "can_request svc decided_on_day is_stop_loss \<longleftrightarrow>
     is_stop_loss \<or> decided_on_day < as_max_per_day svc"

record approve_args =
  aa_token_id :: string
  aa_request_id :: string
  aa_fingerprint :: string
  aa_price_at_analysis :: pyfloat
  aa_shown_at :: instant
  aa_now :: instant
  aa_symbol :: string
  aa_side :: string
  aa_qty :: pyfloat
  aa_order_type :: string
  aa_time_in_force :: string
  aa_limit_price :: "pyfloat option"
  aa_lot_id :: "string option"
  aa_decision_elapsed_ms :: "int option"
  aa_price_band_low :: "pyfloat option"
  aa_price_band_high :: "pyfloat option"

text \<open>\<open>int(elapsed.total_seconds() * 1000)\<close> on a duration of \<open>us\<close> microseconds; \<open>int\<close> truncates.\<close>

definition trunc :: "pyfloat \<Rightarrow> int" where
  "trunc x = (if x < 0 then - \<lfloor>- x\<rfloor> else \<lfloor>x\<rfloor>)"

definition elapsed_ms :: "timedelta \<Rightarrow> int" where
  "elapsed_ms us = trunc (fl (fl (of_int us / 10 ^ 6) * 1000))"

definition computed_band :: "approval_service \<Rightarrow> pyfloat \<Rightarrow> pyfloat \<times> pyfloat" where
  "computed_band svc price =
     (fl (price * fl (1 - fl (as_price_band_pct svc / 100))),
      fl (price * fl (1 + fl (as_price_band_pct svc / 100))))"

text \<open>The audit row \<open>approval_token_price_band_drift\<close>: stored and recomputed band.\<close>

type_synonym band_drift = "(pyfloat \<times> pyfloat) \<times> (pyfloat \<times> pyfloat)"

definition approve_band ::
  "approval_service \<Rightarrow> approve_args \<Rightarrow> (pyfloat \<times> pyfloat) \<times> band_drift option" where
  "approve_band svc a =
     (let computed = computed_band svc (aa_price_at_analysis a)
      in case (aa_price_band_low a, aa_price_band_high a) of
           (Some lo, Some hi) \<Rightarrow>
             ((lo, hi),
              if \<bar>fl (lo - fst computed)\<bar> > eps6 \<or> \<bar>fl (hi - snd computed)\<bar> > eps6
              then Some ((lo, hi), computed) else None)
         | _ \<Rightarrow> (computed, None))"

definition approve ::
  "approval_service \<Rightarrow> approve_args \<Rightarrow> (approval_service \<times> approval_token \<times> band_drift option) result" where
  "approve svc a =
     (if map_of (as_tokens svc) (aa_token_id a) \<noteq> None then Inl TokenReissued
      else let elapsed = aa_now a - aa_shown_at a in
        if elapsed < as_min_display svc then Inl ApprovalError
        else
          let (band, drift) = approve_band svc a;
              tok = \<lparr> at_token_id = aa_token_id a, at_request_id = aa_request_id a,
                      at_fingerprint = aa_fingerprint a,
                      at_band_low = fst band, at_band_high = snd band,
                      at_expires_at = aa_now a + as_expiration svc, at_decided_at = aa_now a,
                      at_elapsed_ms = (case aa_decision_elapsed_ms a of Some ms \<Rightarrow> ms
                                       | None \<Rightarrow> elapsed_ms elapsed),
                      at_symbol = aa_symbol a, at_side = aa_side a, at_qty = aa_qty a,
                      at_order_type = aa_order_type a, at_time_in_force = aa_time_in_force a,
                      at_limit_price = aa_limit_price a, at_lot_id = aa_lot_id a,
                      at_shown_at = Some (aa_shown_at a), at_min_display = Some (as_min_display svc),
                      at_consumed_at = None, at_swept_at = None \<rparr>
          in Inr (svc\<lparr>as_tokens := AList.update (aa_token_id a) tok (as_tokens svc)\<rparr>, tok, drift))"

definition token_for_request :: "approval_service \<Rightarrow> string \<Rightarrow> approval_token option" where
  "token_for_request svc rid = List.find (\<lambda>t. at_request_id t = rid) (map snd (as_tokens svc))"

definition is_stale :: "instant \<Rightarrow> approval_token \<Rightarrow> bool" where
  "is_stale now t \<longleftrightarrow> at_consumed_at t = None \<and> at_swept_at t = None \<and> now \<ge> at_expires_at t"

definition sweep_expired :: "approval_service \<Rightarrow> instant \<Rightarrow> approval_service \<times> approval_token list" where
  "sweep_expired svc now =
     (let mark = (\<lambda>t. t\<lparr>at_swept_at := Some now\<rparr>)
      in (svc\<lparr>as_tokens := map (\<lambda>(k, t). (k, if is_stale now t then mark t else t)) (as_tokens svc)\<rparr>,
          map mark (filter (is_stale now) (map snd (as_tokens svc)))))"

definition rubber_stamp_risk :: "approval_token list \<Rightarrow> bool" where
  "rubber_stamp_risk decisions =
     (if length decisions < 5 then False
      else let times = sort (map at_elapsed_ms decisions)
           in times ! (length times div 2) < 20000)"

subsection \<open>Spending a token\<close>

lemma consume_ok:
  "consume tok fp price now = Inr tok' \<longleftrightarrow>
   at_consumed_at tok = None \<and> at_swept_at tok = None \<and> now < at_expires_at tok \<and>
   fp = at_fingerprint tok \<and> at_band_low tok \<le> price \<and> price \<le> at_band_high tok \<and>
   tok' = tok\<lparr>at_consumed_at := Some now\<rparr>"
  by (auto simp: consume_def)

definition same_order ::
  "approval_token \<Rightarrow> string \<Rightarrow> string \<Rightarrow> string \<Rightarrow> string \<Rightarrow> string option \<Rightarrow> bool" where
  "same_order tok sy side ot tif lid \<longleftrightarrow>
     upper sy = upper (at_symbol tok) \<and> upper side = upper (at_side tok)
     \<and> upper ot = upper (at_order_type tok) \<and> upper tif = upper (at_time_in_force tok)
     \<and> lid = at_lot_id tok"

lemma verify_modification_eq:
  "verify_modification_within_bounds tok sy side (Some q) ot tif lp lid = Inr () \<longleftrightarrow>
   same_order tok sy side ot tif lid \<and> q \<le> fl (at_qty tok + eps9)
   \<and> (case (lp, at_limit_price tok) of
        (Some l, Some l0) \<Rightarrow> if upper side = ''BUY'' then l \<le> fl (l0 + eps9) else fl (l0 - eps9) \<le> l
      | (None, None) \<Rightarrow> True
      | _ \<Rightarrow> False)"
proof (cases "same_order tok sy side ot tif lid \<and> q \<le> fl (at_qty tok + eps9)")
  case True
  then show ?thesis
    by (cases lp; cases "at_limit_price tok")
       (simp_all add: same_order_def verify_modification_within_bounds_def not_less)
next
  case False
  then show ?thesis
    by (auto simp: same_order_def verify_modification_within_bounds_def)
qed

text \<open>The steps of a service's tokens: minting, spending one by id, the startup sweep.\<close>

datatype token_event = Minted string | Spent string instant | Swept instant

inductive token_step :: "approval_service \<Rightarrow> token_event \<Rightarrow> approval_service \<Rightarrow> bool" where
  mint: "approve svc a = Inr (svc', tok, drift) \<Longrightarrow> token_step svc (Minted (aa_token_id a)) svc'"
| spend: "map_of (as_tokens svc) tid = Some tok \<Longrightarrow> consume tok fp price now = Inr tok' \<Longrightarrow>
    token_step svc (Spent tid now) (svc\<lparr>as_tokens := AList.update tid tok' (as_tokens svc)\<rparr>)"
| sweep: "token_step svc (Swept now) (fst (sweep_expired svc now))"

inductive_cases mint_cases: "token_step svc (Minted tid) svc'"
inductive_cases spend_cases: "token_step svc (Spent tid now) svc'"
inductive_cases sweep_cases: "token_step svc (Swept now) svc'"

inductive token_run :: "approval_service \<Rightarrow> token_event list \<Rightarrow> approval_service \<Rightarrow> bool" where
  run_nil: "token_run svc [] svc"
| run_snoc: "token_run svc es svc1 \<Longrightarrow> token_step svc1 e svc2 \<Longrightarrow> token_run svc (es @ [e]) svc2"

definition spends :: "string \<Rightarrow> token_event list \<Rightarrow> token_event list" where
  "spends tid es = filter (\<lambda>e. case e of Spent t _ \<Rightarrow> t = tid | _ \<Rightarrow> False) es"

definition mints :: "string \<Rightarrow> token_event list \<Rightarrow> token_event list" where
  "mints tid es = filter (\<lambda>e. e = Minted tid) es"

lemma map_of_sweep:
  "map_of (as_tokens (fst (sweep_expired svc now))) tid =
   map_option (\<lambda>t. if is_stale now t then t\<lparr>at_swept_at := Some now\<rparr> else t) (map_of (as_tokens svc) tid)"
  by (simp add: sweep_expired_def Let_def map_of_map)

lemma approve_ok:
  assumes "approve svc a = Inr (svc', tok, drift)"
  shows "map_of (as_tokens svc) (aa_token_id a) = None"
    and "as_tokens svc' = AList.update (aa_token_id a) tok (as_tokens svc)"
    and "at_consumed_at tok = None" and "at_swept_at tok = None"
    and "at_expires_at tok = aa_now a + as_expiration svc" and "at_shown_at tok = Some (aa_shown_at a)"
    and "at_min_display tok = Some (as_min_display svc)" and "as_min_display svc \<le> aa_now a - aa_shown_at a"
    and "at_request_id tok = aa_request_id a" and "at_token_id tok = aa_token_id a"
  using assms by (auto simp: approve_def Let_def split: if_splits prod.splits)

text \<open>What a run leaves of one token id.\<close>

lemma token_run_invariant:
  assumes "token_run svc es svc'" and "map_of (as_tokens svc) tid = None"
  shows "(case map_of (as_tokens svc') tid of
            None \<Rightarrow> mints tid es = [] \<and> spends tid es = []
          | Some tok \<Rightarrow> mints tid es = [Minted tid] \<and>
              (case at_consumed_at tok of None \<Rightarrow> spends tid es = []
               | Some t \<Rightarrow> spends tid es = [Spent tid t] \<and> t < at_expires_at tok \<and> at_swept_at tok = None))"
  using assms
proof (induction rule: token_run.induct)
  case (run_nil svc)
  then show ?case by (simp add: mints_def spends_def)
next
  case (run_snoc svc es svc1 e svc2)
  note IH = run_snoc.IH [OF run_snoc.prems]
  from run_snoc.hyps(2) show ?case
  proof cases
    case (mint a tok drift)
    then show ?thesis using IH approve_ok(1-3) [OF mint(2)]
      by (auto simp: mints_def spends_def split: option.splits if_splits)
  next
    case (spend t tok fp price now tok')
    then show ?thesis using IH
      by (auto simp: mints_def spends_def consume_ok split: option.splits if_splits)
  next
    case (sweep now)
    then show ?thesis using IH
      by (auto simp: mints_def spends_def map_of_sweep is_stale_def split: option.splits if_splits)
  qed
qed

subsection \<open>Properties\<close>

text \<open>
C5: An approval is good for one order: in any interleaving of mints, spends and startup sweeps
  that starts from an empty service, a token id is minted at most once and spent at most once, it is
  never spent without having been minted, and a spend happens strictly before the token's expiry and never on a
  token that was swept.
\<close>
theorem token_spent_at_most_once:
  assumes "token_run svc es svc'" and "as_tokens svc = []"
  shows "length (mints tid es) \<le> 1 \<and> length (spends tid es) \<le> length (mints tid es)
    \<and> (spends tid es \<noteq> [] \<longrightarrow> (\<exists>tok t. map_of (as_tokens svc') tid = Some tok
          \<and> spends tid es = [Spent tid t] \<and> at_consumed_at tok = Some t
          \<and> t < at_expires_at tok \<and> at_swept_at tok = None))"
  using token_run_invariant [OF assms(1), of tid] assms(2) by (auto split: option.splits)

definition ex_approve :: approve_args where
  "ex_approve = \<lparr> aa_token_id = ''tok-1'', aa_request_id = ''apr-1'', aa_fingerprint = ''f'',
     aa_price_at_analysis = 10, aa_shown_at = 0, aa_now = 20, aa_symbol = ''SPY'', aa_side = ''BUY'',
     aa_qty = 2, aa_order_type = ''LIMIT'', aa_time_in_force = ''DAY'', aa_limit_price = Some 10,
     aa_lot_id = None, aa_decision_elapsed_ms = Some 20000, aa_price_band_low = Some 9,
     aa_price_band_high = Some 11 \<rparr>"

definition ex_service :: approval_service where
  "ex_service = \<lparr> as_expiration = 100, as_min_display = 5, as_max_per_day = 3,
     as_price_band_pct = 1, as_tokens = [] \<rparr>"

lemma ex_approve_ok:
  "\<exists>tok drift. approve ex_service ex_approve
     = Inr (ex_service\<lparr>as_tokens := [(''tok-1'', tok)]\<rparr>, tok, drift)
     \<and> at_consumed_at tok = None \<and> at_swept_at tok = None \<and> at_expires_at tok = 120
     \<and> at_fingerprint tok = ''f'' \<and> at_band_low tok = 9 \<and> at_band_high tok = 11"
  by (simp add: approve_def ex_service_def ex_approve_def approve_band_def Let_def)

theorem token_spent_at_most_once_witness:
  "\<exists>svc'. token_run ex_service [Minted ''tok-1'', Spent ''tok-1'' 50] svc'
     \<and> length (spends ''tok-1'' [Minted ''tok-1'', Spent ''tok-1'' 50]) \<le> 1"
proof -
  obtain tok drift where ap: "approve ex_service ex_approve
     = Inr (ex_service\<lparr>as_tokens := [(''tok-1'', tok)]\<rparr>, tok, drift)"
    and tok: "at_consumed_at tok = None" "at_swept_at tok = None" "at_expires_at tok = 120"
      "at_fingerprint tok = ''f''" "at_band_low tok = 9" "at_band_high tok = 11"
    using ex_approve_ok by blast
  let ?s1 = "ex_service\<lparr>as_tokens := [(''tok-1'', tok)]\<rparr>"
  have m: "token_step ex_service (Minted ''tok-1'') ?s1"
    using token_step.mint [OF ap] by (simp add: ex_approve_def)
  have c: "consume tok ''f'' 10 50 = Inr (tok\<lparr>at_consumed_at := Some 50\<rparr>)"
    using tok by (simp add: consume_ok)
  have "token_step ?s1 (Spent ''tok-1'' 50)
      (?s1\<lparr>as_tokens := AList.update ''tok-1'' (tok\<lparr>at_consumed_at := Some 50\<rparr>) (as_tokens ?s1)\<rparr>)"
    by (rule token_step.spend [OF _ c]) simp
  from run_snoc [OF run_snoc [OF run_nil m] this]
  obtain svc' where "token_run ex_service [Minted ''tok-1'', Spent ''tok-1'' 50] svc'" by auto
  with token_spent_at_most_once [OF this, of "''tok-1''"] show ?thesis
    by (auto simp: ex_service_def intro: order_trans)
qed

text \<open>
  A freshly minted token can be spent exactly while it should be: from the decision on, at any
  instant before its expiry, for the fingerprint it was minted for and a price within its band the
  display-time re-check passes and \<open>consume\<close> succeeds; outside any of these limits \<open>consume\<close> refuses.
\<close>
theorem minted_token_spendable_iff:
  assumes "approve svc a = Inr (svc', tok, drift)" and "aa_now a \<le> now"
  shows "verify_minimum_display_time tok now = Inr () \<and>
    (consume tok fp price now = Inr (tok\<lparr>at_consumed_at := Some now\<rparr>) \<longleftrightarrow>
       now < aa_now a + as_expiration svc \<and> fp = aa_fingerprint a
       \<and> at_band_low tok \<le> price \<and> price \<le> at_band_high tok)"
proof -
  note ok = approve_ok [OF assms(1)]
  have "at_fingerprint tok = aa_fingerprint a"
    using assms(1) by (auto simp: approve_def Let_def split: if_splits prod.splits)
  with ok assms(2) show ?thesis
    by (auto simp: verify_minimum_display_time_def consume_ok)
qed

theorem minted_token_spendable_iff_witness:
  "\<exists>svc' tok drift. approve ex_service ex_approve = Inr (svc', tok, drift)
     \<and> verify_minimum_display_time tok 119 = Inr ()
     \<and> consume tok ''f'' 10 119 = Inr (tok\<lparr>at_consumed_at := Some 119\<rparr>)
     \<and> consume tok ''f'' 10 120 \<noteq> Inr (tok\<lparr>at_consumed_at := Some 120\<rparr>)"
proof -
  obtain svc' tok drift where ap: "approve ex_service ex_approve = Inr (svc', tok, drift)"
    "at_band_low tok = 9" "at_band_high tok = 11" using ex_approve_ok by blast
  from minted_token_spendable_iff [OF ap(1), of 119 "''f''" 10]
    minted_token_spendable_iff [OF ap(1), of 120 "''f''" 10] ap
  show ?thesis by (auto simp: ex_approve_def ex_service_def)
qed

text \<open>
  Modify-within-bounds is one-sided: an order that keeps symbol, side, type, time in force and lot
  of the approval (up to letter case), does not raise the quantity and moves the limit only
  against the trade always passes; and whatever passes has a quantity at most the approved one and,
  for a BUY, a limit at most the approved one, up to the 1e-9 slack, with no limit added or removed.
\<close>
theorem modification_one_sided:
  assumes "fl (at_qty tok) = at_qty tok" and "at_limit_price tok = Some l0" and "fl l0 = l0"
  shows "(same_order tok sy side ot tif lid \<and> q \<le> at_qty tok
        \<and> (if upper side = ''BUY'' then l \<le> l0 else l0 \<le> l)
      \<longrightarrow> verify_modification_within_bounds tok sy side (Some q) ot tif (Some l) lid = Inr ())
    \<and> (verify_modification_within_bounds tok sy side (Some q) ot tif lp lid = Inr ()
      \<longrightarrow> same_order tok sy side ot tif lid \<and> q \<le> fl (at_qty tok + eps9)
        \<and> (\<exists>l. lp = Some l \<and> (if upper side = ''BUY'' then l \<le> fl (l0 + eps9) else fl (l0 - eps9) \<le> l)))"
proof -
  have e: "0 \<le> eps9" using eps_values(2) by (rule order_trans [rotated]) simp
  have "at_qty tok \<le> fl (at_qty tok + eps9)" "l0 \<le> fl (l0 + eps9)" "fl (l0 - eps9) \<le> l0"
    using assms e by (auto intro!: flt.rnd_ge_fixed flt.rnd_le_fixed)
  then show ?thesis
    unfolding verify_modification_eq assms(2)
    by (cases lp) (auto split: if_splits)
qed

theorem modification_one_sided_witness:
  "\<exists>tok. at_limit_price tok = Some 10 \<and> at_qty tok = 2
     \<and> verify_modification_within_bounds tok ''spy'' ''buy'' (Some 1) ''LIMIT'' ''DAY'' (Some 9) None = Inr ()"
proof -
  obtain svc' tok drift where ap: "approve ex_service ex_approve = Inr (svc', tok, drift)"
    using ex_approve_ok by blast
  then have t: "at_limit_price tok = Some 10" "at_qty tok = 2" "at_symbol tok = ''SPY''" "at_side tok = ''BUY''"
    "at_order_type tok = ''LIMIT''" "at_time_in_force tok = ''DAY''" "at_lot_id tok = None"
    by (auto simp: approve_def ex_service_def ex_approve_def approve_band_def Let_def)
  with modification_one_sided [of tok 10 "''spy''" "''buy''" "''LIMIT''" "''DAY''" None 1 9] show ?thesis
    by (auto simp: num_simps same_order_def)
qed

end
