(* ===== verification/RequestStore.thy ===== *)
theory RequestStore
  imports Approval
begin

text \<open>
  agent/approval_request_store.py: the durable store of approval requests, and \<open>ApprovalRequest\<close>
  of agent/entities.py.

  The append-only file is the list of events \<open>rs_log\<close>; an event holds the request itself, since
  \<open>_decode\<close> inverts \<open>_encode\<close> field by field. \<open>rs_load\<close> is \<open>_load_into\<close>. The opaque JSON values (the
  proposal and risk snapshots, the token snapshot) have the type \<open>'j\<close>. \<open>store_op\<close> lists the
  mutating calls, \<open>rs_exec\<close> runs a sequence of them, a refused call leaving the store as it was.
\<close>

record 'j approval_request =
  rq_request_id :: string
  rq_run_id :: string
  rq_proposal_snapshot :: 'j
  rq_risk_result :: 'j
  rq_price_at_analysis :: pyfloat
  rq_price_band_low :: pyfloat
  rq_price_band_high :: pyfloat
  rq_earmark :: pyfloat
  rq_shown_at :: instant
  rq_expires_at :: instant
  rq_decision :: "string option"
  rq_decided_by :: "string option"
  rq_decided_at :: "instant option"
  rq_elapsed_ms :: "int option"
  rq_invalidated :: "string option"
  rq_token_snapshot :: "'j option"

datatype event_kind = Created | Decided | TokenMinted | ConsumptionRecorded | Invalidated

record 'j store_event =
  ev_kind :: event_kind
  ev_account :: string
  ev_request :: "'j approval_request"

record 'j request_store =
  rs_current :: "'j approval_request dict"
  rs_account_of :: "string dict"
  rs_decided_dates :: "date list"
  rs_log :: "'j store_event list"

definition empty_store :: "'j request_store" where
  "empty_store = \<lparr> rs_current = [], rs_account_of = [], rs_decided_dates = [], rs_log = [] \<rparr>"

definition append_event ::
  "bool \<Rightarrow> event_kind \<Rightarrow> string \<Rightarrow> 'j approval_request \<Rightarrow> 'j request_store \<Rightarrow> 'j request_store" where
  "append_event persist k acct r st =
     (if persist then st\<lparr>rs_log := rs_log st @ [\<lparr> ev_kind = k, ev_account = acct, ev_request = r \<rparr>]\<rparr>
      else st)"

definition rs_require :: "'j request_store \<Rightarrow> string \<Rightarrow> 'j approval_request result" where
  "rs_require st rid =
     (case map_of (rs_current st) rid of None \<Rightarrow> Inl ApprovalRequestStoreError | Some r \<Rightarrow> Inr r)"

text \<open>\<open>self._account_of[request_id]\<close>.\<close>

definition rs_account :: "'j request_store \<Rightarrow> string \<Rightarrow> string result" where
  "rs_account st rid = (case map_of (rs_account_of st) rid of None \<Rightarrow> Inl (KeyError rid) | Some a \<Rightarrow> Inr a)"

text \<open>\<open>request_id or f"apr-{secrets.token_hex(12)}"\<close>: the generated id is \<open>fresh\<close>.\<close>

record 'j create_args =
  ca_account :: string
  ca_run_id :: string
  ca_proposal :: 'j
  ca_risk_result :: 'j
  ca_price :: pyfloat
  ca_band_low :: pyfloat
  ca_band_high :: pyfloat
  ca_now :: instant
  ca_expiration :: timedelta
  ca_earmark :: pyfloat
  ca_request_id :: "string option"
  ca_fresh :: string

definition new_request_id :: "'j create_args \<Rightarrow> string" where
  "new_request_id a =
     (case ca_request_id a of None \<Rightarrow> ca_fresh a | Some r \<Rightarrow> if r = [] then ca_fresh a else r)"

definition new_request :: "'j create_args \<Rightarrow> 'j approval_request" where
  "new_request a =
     \<lparr> rq_request_id = new_request_id a, rq_run_id = ca_run_id a,
       rq_proposal_snapshot = ca_proposal a, rq_risk_result = ca_risk_result a,
       rq_price_at_analysis = ca_price a, rq_price_band_low = ca_band_low a,
       rq_price_band_high = ca_band_high a, rq_earmark = ca_earmark a,
       rq_shown_at = ca_now a, rq_expires_at = ca_now a + ca_expiration a,
       rq_decision = None, rq_decided_by = None, rq_decided_at = None,
       rq_elapsed_ms = None, rq_invalidated = None, rq_token_snapshot = None \<rparr>"

definition rs_create :: "bool \<Rightarrow> 'j create_args \<Rightarrow> 'j request_store \<Rightarrow> 'j request_store result" where
  "rs_create persist a st =
     (let rid = new_request_id a
      in if map_of (rs_current st) rid \<noteq> None then Inl ApprovalRequestStoreError
         else Inr (append_event persist Created (ca_account a) (new_request a)
                (st\<lparr>rs_current := AList.update rid (new_request a) (rs_current st),
                    rs_account_of := AList.update rid (ca_account a) (rs_account_of st)\<rparr>)))"

definition rs_put :: "'j request_store \<Rightarrow> string \<Rightarrow> 'j approval_request \<Rightarrow> 'j request_store" where
  "rs_put st rid r = st\<lparr>rs_current := AList.update rid r (rs_current st)\<rparr>"

definition rs_decide ::
  "bool \<Rightarrow> string \<Rightarrow> string \<Rightarrow> instant \<Rightarrow> string \<Rightarrow> 'j request_store \<Rightarrow> 'j request_store result" where
  "rs_decide persist rid decision now decided_by st =
     (if decision \<notin> {''APPROVED'', ''REJECTED''} then Inl ApprovalRequestStoreError
      else bindE (rs_require st rid) (\<lambda>cur.
        if rq_decision cur \<noteq> None then Inl ApprovalRequestStoreError
        else if rq_invalidated cur \<noteq> None then Inl ApprovalRequestStoreError
        else
          let updated = cur\<lparr>rq_decision := Some decision, rq_decided_by := Some decided_by,
                            rq_decided_at := Some now,
                            rq_elapsed_ms := Some (elapsed_ms (now - rq_shown_at cur))\<rparr>
          in bindE (session_for_instant (Aware now)) (\<lambda>day.
             bindE (rs_account st rid) (\<lambda>acct.
               Inr (append_event persist Decided acct updated
                 ((rs_put st rid updated)\<lparr>rs_decided_dates := rs_decided_dates st @ [day]\<rparr>))))))"

definition rs_token_minted ::
  "bool \<Rightarrow> string \<Rightarrow> 'j \<Rightarrow> 'j request_store \<Rightarrow> 'j request_store result" where
  "rs_token_minted persist rid snapshot st =
     bindE (rs_require st rid) (\<lambda>cur.
       if rq_decision cur \<noteq> Some ''APPROVED'' then Inl ApprovalRequestStoreError
       else if rq_token_snapshot cur \<noteq> None then Inl ApprovalRequestStoreError
       else let updated = cur\<lparr>rq_token_snapshot := Some snapshot\<rparr>
            in bindE (rs_account st rid) (\<lambda>acct.
                 Inr (append_event persist TokenMinted acct updated (rs_put st rid updated))))"

definition rs_token_consumed ::
  "bool \<Rightarrow> string \<Rightarrow> 'j \<Rightarrow> 'j request_store \<Rightarrow> 'j request_store result" where
  "rs_token_consumed persist rid snapshot st =
     bindE (rs_require st rid) (\<lambda>cur.
       if rq_token_snapshot cur = None then Inl ApprovalRequestStoreError
       else let updated = cur\<lparr>rq_token_snapshot := Some snapshot\<rparr>
            in bindE (rs_account st rid) (\<lambda>acct.
                 Inr (append_event persist ConsumptionRecorded acct updated (rs_put st rid updated))))"

definition rs_invalidate ::
  "bool \<Rightarrow> string \<Rightarrow> string \<Rightarrow> 'j request_store \<Rightarrow> 'j request_store result" where
  "rs_invalidate persist rid reason st =
     bindE (rs_require st rid) (\<lambda>cur.
       if rq_decision cur \<noteq> None then Inl ApprovalRequestStoreError
       else if rq_invalidated cur \<noteq> None then Inr st
       else let updated = cur\<lparr>rq_invalidated := Some reason\<rparr>
            in bindE (rs_account st rid) (\<lambda>acct.
                 Inr (append_event persist Invalidated acct updated (rs_put st rid updated))))"

subsection \<open>Reads\<close>

definition rs_get :: "'j request_store \<Rightarrow> string \<Rightarrow> 'j approval_request option" where
  "rs_get st rid = map_of (rs_current st) rid"

definition rs_all :: "'j request_store \<Rightarrow> 'j approval_request list" where
  "rs_all st = map snd (rs_current st)"

definition is_pending ::
  "'j request_store \<Rightarrow> string option \<Rightarrow> instant option \<Rightarrow> string \<times> 'j approval_request \<Rightarrow> bool" where
  "is_pending st acct now = (\<lambda>(rid, req).
     rq_decision req = None \<and> rq_invalidated req = None
     \<and> (case now of None \<Rightarrow> True | Some t \<Rightarrow> \<not> t \<ge> rq_expires_at req)
     \<and> (case acct of None \<Rightarrow> True | Some a \<Rightarrow> map_of (rs_account_of st) rid = Some a))"

definition rs_pending ::
  "'j request_store \<Rightarrow> string option \<Rightarrow> instant option \<Rightarrow> 'j approval_request list" where
  "rs_pending st acct now = map snd (filter (is_pending st acct now) (rs_current st))"

definition count_decided_on :: "'j request_store \<Rightarrow> date \<Rightarrow> int" where
  "count_decided_on st day = int (length (filter (\<lambda>d. d = day) (rs_decided_dates st)))"

text \<open>The earmark handoff: an approved request whose token is neither consumed, swept nor expired.\<close>

definition holds_earmark ::
  "'j request_store \<Rightarrow> approval_service \<Rightarrow> string \<Rightarrow> instant \<Rightarrow> string \<times> 'j approval_request \<Rightarrow> bool" where
  "holds_earmark st svc acct now = (\<lambda>(rid, req).
     map_of (rs_account_of st) rid = Some acct \<and> rq_decision req = Some ''APPROVED''
     \<and> (case token_for_request svc rid of
          None \<Rightarrow> False
        | Some tok \<Rightarrow> at_consumed_at tok = None \<and> at_swept_at tok = None \<and> \<not> now \<ge> at_expires_at tok))"

definition earmark_terms ::
  "'j request_store \<Rightarrow> string \<Rightarrow> instant \<Rightarrow> approval_service option \<Rightarrow> pyfloat list" where
  "earmark_terms st acct now service =
     map rq_earmark (rs_pending st (Some acct) (Some now))
     @ (case service of None \<Rightarrow> []
        | Some svc \<Rightarrow> map (rq_earmark \<circ> snd) (filter (holds_earmark st svc acct now) (rs_current st)))"

definition outstanding_earmarks ::
  "'j request_store \<Rightarrow> string \<Rightarrow> instant \<Rightarrow> approval_service option \<Rightarrow> pyfloat" where
  "outstanding_earmarks st acct now service = sum_seq fl 0 (earmark_terms st acct now service)"

subsection \<open>Replay\<close>

definition rs_load_event :: "'j request_store \<Rightarrow> 'j store_event \<Rightarrow> 'j request_store result" where
  "rs_load_event st ev =
     (let req = ev_request ev; rid = rq_request_id req;
          st1 = st\<lparr>rs_current := AList.update rid req (rs_current st)\<rparr>
      in if ev_kind ev = Created
         then Inr (st1\<lparr>rs_account_of := AList.update rid (ev_account ev) (rs_account_of st)\<rparr>)
         else
           let st2 = (case map_of (rs_account_of st) rid of
                        None \<Rightarrow> st1\<lparr>rs_account_of := AList.update rid (ev_account ev) (rs_account_of st)\<rparr>
                      | Some _ \<Rightarrow> st1)
           in case rq_decided_at req of
                Some t \<Rightarrow> if ev_kind ev = Decided
                          then bindE (session_for_instant (Aware t)) (\<lambda>day.
                                 Inr (st2\<lparr>rs_decided_dates := rs_decided_dates st2 @ [day]\<rparr>))
                          else Inr st2
              | None \<Rightarrow> Inr st2)"

definition rs_load :: "'j store_event list \<Rightarrow> 'j request_store result" where
  "rs_load evs = bindE (foldE rs_load_event empty_store evs) (\<lambda>st. Inr (st\<lparr>rs_log := evs\<rparr>))"

subsection \<open>Sequences of operations\<close>

datatype 'j store_op =
    OpCreate "'j create_args"
  | OpDecide string string instant string
  | OpMint string 'j
  | OpConsume string 'j
  | OpInvalidate string string

fun rs_apply :: "'j store_op \<Rightarrow> 'j request_store \<Rightarrow> 'j request_store result" where
  "rs_apply (OpCreate a) st = rs_create True a st"
| "rs_apply (OpDecide rid d now who) st = rs_decide True rid d now who st"
| "rs_apply (OpMint rid s) st = rs_token_minted True rid s st"
| "rs_apply (OpConsume rid s) st = rs_token_consumed True rid s st"
| "rs_apply (OpInvalidate rid reason) st = rs_invalidate True rid reason st"

definition rs_step :: "'j store_op \<Rightarrow> 'j request_store \<Rightarrow> 'j request_store" where
  "rs_step op st = (case rs_apply op st of Inr st' \<Rightarrow> st' | Inl _ \<Rightarrow> st)"

definition rs_exec :: "'j store_op list \<Rightarrow> 'j request_store \<Rightarrow> 'j request_store" where
  "rs_exec ops st = fold rs_step ops st"

subsection \<open>The invariant of the store\<close>

text \<open>The life of one request: open, decided or invalidated; a token only after approval.\<close>

definition request_ok :: "'j approval_request \<Rightarrow> bool" where
  "request_ok r \<longleftrightarrow>
     (case rq_decision r of
        None \<Rightarrow> rq_decided_at r = None \<and> rq_token_snapshot r = None
      | Some d \<Rightarrow> d \<in> {''APPROVED'', ''REJECTED''} \<and> rq_decided_at r \<noteq> None
                  \<and> rq_invalidated r = None \<and> (rq_token_snapshot r \<noteq> None \<longrightarrow> d = ''APPROVED''))"

definition session :: "instant \<Rightarrow> date" where
  "session t = (t + eastern_offset t) div day_us"

definition decided_sessions :: "'j approval_request dict \<Rightarrow> date list" where
  "decided_sessions d = map session (List.map_filter (rq_decided_at \<circ> snd) d)"

definition store_ok :: "'j request_store \<Rightarrow> bool" where
  "store_ok st \<longleftrightarrow> dict_ok (rs_current st)
     \<and> (\<forall>(rid, r) \<in> set (rs_current st). rq_request_id r = rid \<and> request_ok r
          \<and> map_of (rs_account_of st) rid \<noteq> None)
     \<and> mset (rs_decided_dates st) = mset (decided_sessions (rs_current st))
     \<and> rs_load (rs_log st) = Inr st"

lemma session_eq: "session_for_instant (Aware t) = Inr (session t)"
  by (simp add: session_def)

lemma update_mem_iff:
  "dict_ok d \<Longrightarrow> (k', x) \<in> set (AList.update k v d) \<longleftrightarrow> (if k' = k then x = v else (k', x) \<in> set d)"
  by (auto simp: dict_mem)

lemma map_filter_update_same:
  "dict_ok d \<Longrightarrow> map_of d k = Some old \<Longrightarrow> f new = f old \<Longrightarrow>
   List.map_filter (f \<circ> snd) (AList.update k new d) = List.map_filter (f \<circ> snd) d"
  by (induction d) (auto simp: map_filter_simps dict_ok_def split: option.splits)

lemma map_filter_update_new:
  "dict_ok d \<Longrightarrow> map_of d k = Some old \<Longrightarrow> f old = None \<Longrightarrow> f new = Some t \<Longrightarrow>
   mset (List.map_filter (f \<circ> snd) (AList.update k new d)) = add_mset t (mset (List.map_filter (f \<circ> snd) d))"
  by (induction d) (auto simp: map_filter_simps dict_ok_def split: option.splits)

lemma decided_sessions_same:
  "dict_ok d \<Longrightarrow> map_of d k = Some old \<Longrightarrow> rq_decided_at new = rq_decided_at old \<Longrightarrow>
   decided_sessions (AList.update k new d) = decided_sessions d"
  by (simp add: decided_sessions_def map_filter_update_same)

lemma decided_sessions_new:
  "dict_ok d \<Longrightarrow> map_of d k = Some old \<Longrightarrow> rq_decided_at old = None \<Longrightarrow> rq_decided_at new = Some t \<Longrightarrow>
   mset (decided_sessions (AList.update k new d)) = add_mset (session t) (mset (decided_sessions d))"
  by (simp add: decided_sessions_def map_filter_update_new)

lemma decided_sessions_absent:
  "map_of d k = None \<Longrightarrow> rq_decided_at new = None \<Longrightarrow>
   decided_sessions (AList.update k new d) = decided_sessions d"
  by (simp add: decided_sessions_def update_absent List.map_filter_def)

text \<open>An event recorded for a store is replayed as the change it recorded.\<close>

lemma rs_load_snoc:
  "rs_load evs = Inr st \<Longrightarrow> rs_load_event (st\<lparr>rs_log := []\<rparr>) ev = Inr st' \<Longrightarrow>
   rs_load (evs @ [ev]) = Inr (st'\<lparr>rs_log := evs @ [ev]\<rparr>)"
proof -
  have l0: "rs_log st = []" if "foldE rs_load_event empty_store evs = Inr st" for st :: "'a request_store"
    using that
    by (rule foldE_invariant [where P = "\<lambda>s. rs_log s = []"])
       (auto simp: empty_store_def rs_load_event_def Let_def result_simps split: if_splits option.splits)
  assume a: "rs_load evs = Inr st" "rs_load_event (st\<lparr>rs_log := []\<rparr>) ev = Inr st'"
  then obtain s where s: "foldE rs_load_event empty_store evs = Inr s" "st = s\<lparr>rs_log := evs\<rparr>"
    by (auto simp: rs_load_def result_simps)
  with l0 [OF s(1)] have "st\<lparr>rs_log := []\<rparr> = s" by simp
  with a s show ?thesis by (simp add: rs_load_def foldE_append)
qed

lemma store_ok_empty: "store_ok empty_store"
  by (simp add: store_ok_def empty_store_def rs_load_def decided_sessions_def map_filter_simps)

lemma store_ok_get:
  assumes "store_ok st" and "map_of (rs_current st) rid = Some r"
  shows "rq_request_id r = rid" and "request_ok r" and "\<exists>acct. map_of (rs_account_of st) rid = Some acct"
  using assms by (auto simp: store_ok_def dest!: map_of_SomeD)

lemma rs_create_ok:
  assumes st: "store_ok st" and c: "rs_create True a st = Inr st'"
  shows "store_ok st'"
proof -
  define rid where "rid = new_request_id a"
  have n: "map_of (rs_current st) rid = None" using c by (auto simp: rs_create_def rid_def Let_def split: if_splits)
  define req where "req = new_request a"
  have req: "rq_request_id req = rid" "request_ok req" "rq_decided_at req = None"
    by (simp_all add: req_def new_request_def rid_def request_ok_def)
  have st': "st' = append_event True Created (ca_account a) req
       (st\<lparr>rs_current := AList.update rid req (rs_current st),
           rs_account_of := AList.update rid (ca_account a) (rs_account_of st)\<rparr>)"
    using c n by (simp add: rs_create_def rid_def [symmetric] req_def [symmetric])
  have "rs_load (rs_log st') = Inr st'"
    using rs_load_snoc [of "rs_log st" st "\<lparr> ev_kind = Created, ev_account = ca_account a, ev_request = req \<rparr>"] st req
    by (simp add: st' append_event_def store_ok_def rs_load_event_def Let_def)
  moreover have "decided_sessions (rs_current st') = decided_sessions (rs_current st)"
    using decided_sessions_absent [OF n req(3)] by (simp add: st' append_event_def)
  ultimately show ?thesis using st req
    by (auto simp: store_ok_def st' append_event_def update_mem_iff split: if_splits)
qed

lemma rs_load_event_replace:
  "map_of (rs_account_of st) (rq_request_id r) = Some a \<Longrightarrow> k \<noteq> Created \<Longrightarrow>
   rs_load_event st \<lparr> ev_kind = k, ev_account = acct, ev_request = r \<rparr> =
     Inr (st\<lparr>rs_current := AList.update (rq_request_id r) r (rs_current st),
             rs_decided_dates := rs_decided_dates st @
               (case rq_decided_at r of Some t \<Rightarrow> if k = Decided then [session t] else [] | None \<Rightarrow> [])\<rparr>)"
  unfolding rs_load_event_def Let_def
  by (cases "rq_decided_at r") (simp_all add: session_eq del: session_for_instant.simps)

text \<open>Every other operation replaces one request and records the replacement.\<close>

lemma store_ok_replace:
  assumes st: "store_ok st" and cur: "map_of (rs_current st) rid = Some cur"
    and upd: "rq_request_id upd = rid" "request_ok upd"
    and acct: "map_of (rs_account_of st) rid = Some acct" and k: "k \<noteq> Created"
    and dates: "(if k = Decided then rq_decided_at cur = None \<and> (\<exists>t. rq_decided_at upd = Some t \<and> days = [session t])
                 else rq_decided_at upd = rq_decided_at cur \<and> days = [])"
    and st': "st' = append_event True k acct upd ((rs_put st rid upd)\<lparr>rs_decided_dates := rs_decided_dates st @ days\<rparr>)"
  shows "store_ok st'"
proof -
  have d: "dict_ok (rs_current st)" using st by (simp add: store_ok_def)
  let ?ev = "\<lparr> ev_kind = k, ev_account = acct, ev_request = upd \<rparr>"
  have "rs_load_event (st\<lparr>rs_log := []\<rparr>) ?ev
      = Inr ((rs_put st rid upd)\<lparr>rs_decided_dates := rs_decided_dates st @ days, rs_log := []\<rparr>)"
    using k dates rs_load_event_replace [of "st\<lparr>rs_log := []\<rparr>" upd acct k acct] acct upd(1)
    by (auto simp: rs_put_def split: if_splits option.splits)
  from rs_load_snoc [OF _ this, of "rs_log st"] st have "rs_load (rs_log st') = Inr st'"
    by (simp add: st' append_event_def rs_put_def store_ok_def)
  moreover have "mset (rs_decided_dates st') = mset (decided_sessions (rs_current st'))"
    using dates decided_sessions_same [OF d cur] decided_sessions_new [OF d cur] st
    by (auto simp: st' append_event_def rs_put_def store_ok_def split: if_splits)
  ultimately show ?thesis using st upd acct
    by (auto simp: store_ok_def st' append_event_def rs_put_def update_mem_iff split: if_splits)
qed

lemma rs_apply_ok:
  assumes st: "store_ok st" and a: "rs_apply op st = Inr st'"
  shows "store_ok st'"
proof (cases op)
  case (OpCreate c)
  with a show ?thesis by (auto intro: rs_create_ok [OF st])
next
  case (OpDecide rid dc now who)
  with a obtain cur acct where *: "map_of (rs_current st) rid = Some cur" "rq_decision cur = None"
      "rq_invalidated cur = None" "dc \<in> {''APPROVED'', ''REJECTED''}" "map_of (rs_account_of st) rid = Some acct"
      "st' = append_event True Decided acct (cur\<lparr>rq_decision := Some dc, rq_decided_by := Some who,
         rq_decided_at := Some now, rq_elapsed_ms := Some (elapsed_ms (now - rq_shown_at cur))\<rparr>)
         ((rs_put st rid (cur\<lparr>rq_decision := Some dc, rq_decided_by := Some who,
         rq_decided_at := Some now, rq_elapsed_ms := Some (elapsed_ms (now - rq_shown_at cur))\<rparr>))
         \<lparr>rs_decided_dates := rs_decided_dates st @ [session now]\<rparr>)"
    by (auto simp: rs_decide_def result_simps Let_def session_eq rs_require_def rs_account_def
        simp del: session_for_instant.simps split: if_splits option.splits)
  show ?thesis
    by (rule store_ok_replace [OF st *(1) _ _ *(5) _ _ *(6)])
       (use store_ok_get [OF st *(1)] *(2-4) in \<open>auto simp: request_ok_def\<close>)
next
  case (OpMint rid s)
  with a obtain cur acct where *: "map_of (rs_current st) rid = Some cur" "rq_decision cur = Some ''APPROVED''"
      "map_of (rs_account_of st) rid = Some acct"
      "st' = append_event True TokenMinted acct (cur\<lparr>rq_token_snapshot := Some s\<rparr>) 
         ((rs_put st rid (cur\<lparr>rq_token_snapshot := Some s\<rparr>))\<lparr>rs_decided_dates := rs_decided_dates st @ []\<rparr>)"
    by (auto simp: rs_token_minted_def result_simps Let_def rs_require_def rs_account_def rs_put_def
        split: if_splits option.splits)
  show ?thesis
    by (rule store_ok_replace [OF st *(1) _ _ *(3) _ _ *(4)])
       (use store_ok_get [OF st *(1)] *(2) in \<open>auto simp: request_ok_def\<close>)
next
  case (OpConsume rid s)
  with a obtain cur acct where *: "map_of (rs_current st) rid = Some cur" "rq_token_snapshot cur \<noteq> None"
      "map_of (rs_account_of st) rid = Some acct"
      "st' = append_event True ConsumptionRecorded acct (cur\<lparr>rq_token_snapshot := Some s\<rparr>)
         ((rs_put st rid (cur\<lparr>rq_token_snapshot := Some s\<rparr>))\<lparr>rs_decided_dates := rs_decided_dates st @ []\<rparr>)"
    by (auto simp: rs_token_consumed_def result_simps Let_def rs_require_def rs_account_def rs_put_def
        split: if_splits option.splits)
  show ?thesis
    by (rule store_ok_replace [OF st *(1) _ _ *(3) _ _ *(4)])
       (use store_ok_get [OF st *(1)] *(2) in \<open>auto simp: request_ok_def split: option.splits\<close>)
next
  case (OpInvalidate rid reason)
  show ?thesis
  proof (cases "st' = st")
    case False
    with OpInvalidate a obtain cur acct where *: "map_of (rs_current st) rid = Some cur" "rq_decision cur = None"
        "map_of (rs_account_of st) rid = Some acct"
        "st' = append_event True Invalidated acct (cur\<lparr>rq_invalidated := Some reason\<rparr>)
           ((rs_put st rid (cur\<lparr>rq_invalidated := Some reason\<rparr>))\<lparr>rs_decided_dates := rs_decided_dates st @ []\<rparr>)"
      by (auto simp: rs_invalidate_def result_simps Let_def rs_require_def rs_account_def rs_put_def
          split: if_splits option.splits)
    show ?thesis
      by (rule store_ok_replace [OF st *(1) _ _ *(3) _ _ *(4)])
         (use store_ok_get [OF st *(1)] *(2) in \<open>auto simp: request_ok_def\<close>)
  qed (use st in simp)
qed

lemma rs_exec_ok: "store_ok st \<Longrightarrow> store_ok (rs_exec ops st)"
  unfolding rs_exec_def
  by (induction ops arbitrary: st) (auto simp: rs_step_def rs_apply_ok split: sum.splits)

subsection \<open>A decision is final\<close>

definition decided_as :: "'j approval_request \<Rightarrow> 'j approval_request \<Rightarrow> bool" where
  "decided_as r' r \<longleftrightarrow> rq_decision r' = rq_decision r \<and> rq_decided_by r' = rq_decided_by r
     \<and> rq_decided_at r' = rq_decided_at r \<and> rq_elapsed_ms r' = rq_elapsed_ms r
     \<and> rq_earmark r' = rq_earmark r \<and> rq_proposal_snapshot r' = rq_proposal_snapshot r"

lemma rs_step_keeps_decision:
  assumes "map_of (rs_current st) rid = Some r" and "rq_decision r = Some d"
  shows "\<exists>r'. map_of (rs_current (rs_step op st)) rid = Some r' \<and> decided_as r' r"
  using assms
  by (cases op)
     (auto simp: rs_step_def rs_create_def rs_decide_def rs_token_minted_def rs_token_consumed_def
       rs_invalidate_def rs_require_def rs_account_def append_event_def rs_put_def Let_def decided_as_def
       session_eq bindE_def
       simp del: session_for_instant.simps split: if_splits option.splits sum.splits)

lemma rs_exec_keeps_decision:
  "map_of (rs_current st) rid = Some r \<Longrightarrow> rq_decision r = Some d \<Longrightarrow>
   \<exists>r'. map_of (rs_current (rs_exec ops st)) rid = Some r' \<and> decided_as r' r"
  unfolding rs_exec_def
proof (induction ops arbitrary: st r)
  case (Cons op ops)
  obtain r1 where r1: "map_of (rs_current (rs_step op st)) rid = Some r1" "decided_as r1 r"
    using rs_step_keeps_decision [OF Cons.prems] by blast
  with Cons.IH [OF r1(1)] Cons.prems(2) show ?case by (fastforce simp: decided_as_def)
qed (auto simp: decided_as_def)

subsection \<open>The earmark handoff\<close>

lemma update_split:
  "dict_ok (xs @ (k, v) # ys) \<Longrightarrow> AList.update k w (xs @ (k, v) # ys) = xs @ (k, w) # ys"
  by (induction xs) (auto simp: dict_ok_def)

lemma token_for_request_mint:
  assumes "approve svc a = Inr (svc', tok, drift)" and "token_for_request svc (aa_request_id a) = None"
  shows "token_for_request svc' rid = (if rid = aa_request_id a then Some tok else token_for_request svc rid)"
proof -
  note ok = approve_ok [OF assms(1)]
  have t: "map snd (as_tokens svc') = map snd (as_tokens svc) @ [tok]"
    using ok(1,2) by (simp add: update_absent)
  have f: "List.find P (xs @ [x]) = (case List.find P xs of None \<Rightarrow> if P x then Some x else None | Some y \<Rightarrow> Some y)"
    for P and x :: "'a" and xs by (induction xs) auto
  show ?thesis using assms(2) ok(9)
    by (auto simp: token_for_request_def t f split: option.splits)
qed

lemma rs_decide_eq:
  assumes "store_ok st" and "map_of (rs_current st) rid = Some cur"
    and "rq_decision cur = None" and "rq_invalidated cur = None" and "d \<in> {''APPROVED'', ''REJECTED''}"
  shows "\<exists>upd. rq_decision upd = Some d \<and> rq_earmark upd = rq_earmark cur
     \<and> rq_expires_at upd = rq_expires_at cur \<and> rq_invalidated upd = None
     \<and> rs_current (rs_step (OpDecide rid d t who) st) = AList.update rid upd (rs_current st)
     \<and> rs_account_of (rs_step (OpDecide rid d t who) st) = rs_account_of st"
proof -
  obtain acct where "map_of (rs_account_of st) rid = Some acct" using store_ok_get(3) [OF assms(1,2)] by blast
  with assms(2-5) show ?thesis
    by (auto simp: rs_step_def rs_decide_def rs_require_def rs_account_def Let_def session_eq
        append_event_def rs_put_def
        simp del: session_for_instant.simps
        intro!: exI [of _ "cur\<lparr>rq_decision := Some d, rq_decided_by := Some who,
                            rq_decided_at := Some t,
                            rq_elapsed_ms := Some (elapsed_ms (t - rq_shown_at cur))\<rparr>"])
qed

subsection \<open>Properties\<close>


text \<open>
  The daily cap counts decisions, each exactly once: after any sequence of calls
  \<open>count_decided_on\<close> is the number of requests in the store whose decision fell on that session,
  approved or rejected; requests that were only created, expired or invalidated count nothing.
\<close>
theorem count_decided_counts_decisions:
  "count_decided_on (rs_exec ops empty_store) day =
   int (length (filter (\<lambda>(_, r). \<exists>t. rq_decided_at r = Some t \<and> session_for_instant (Aware t) = Inr day)
     (rs_current (rs_exec ops empty_store))))"
proof -
  let ?st = "rs_exec ops empty_store"
  have "mset (rs_decided_dates ?st) = mset (decided_sessions (rs_current ?st))"
    using rs_exec_ok [OF store_ok_empty, of ops] unfolding store_ok_def by blast
  then have "size (filter_mset (\<lambda>d. d = day) (mset (rs_decided_dates ?st)))
      = size (filter_mset (\<lambda>d. d = day) (mset (decided_sessions (rs_current ?st))))" by simp
  then have "length (filter (\<lambda>d. d = day) (rs_decided_dates ?st))
      = length (filter (\<lambda>d. d = day) (decided_sessions (rs_current ?st)))"
    by (simp flip: mset_filter)
  moreover have "length (filter (\<lambda>d. d = day) (decided_sessions c)) =
      length (filter (\<lambda>(_, r). \<exists>t. rq_decided_at r = Some t \<and> session_for_instant (Aware t) = Inr day) c)" for c
    unfolding session_eq by (induction c) (auto simp: decided_sessions_def map_filter_simps split: option.splits)
  ultimately show ?thesis by (simp add: count_decided_on_def)
qed

text \<open>
C26: A decision is final: once a request of a store reached by any sequence of calls has been decided,
  no further sequence of calls changes the decision, who made it, when, its elapsed time, its earmark or
  the proposal it was about; and a decided request is never also an invalidated one.
\<close>
theorem decision_final:
  assumes "map_of (rs_current (rs_exec ops empty_store)) rid = Some r" and "rq_decision r = Some d"
  shows "\<exists>r'. map_of (rs_current (rs_exec ops' (rs_exec ops empty_store))) rid = Some r'
    \<and> rq_decision r' = Some d \<and> rq_decided_by r' = rq_decided_by r \<and> rq_decided_at r' = rq_decided_at r
    \<and> rq_elapsed_ms r' = rq_elapsed_ms r \<and> rq_earmark r' = rq_earmark r
    \<and> rq_proposal_snapshot r' = rq_proposal_snapshot r \<and> rq_invalidated r' = None"
proof -
  obtain r' where r': "map_of (rs_current (rs_exec ops' (rs_exec ops empty_store))) rid = Some r'" "decided_as r' r"
    using rs_exec_keeps_decision [OF assms] by blast
  have "request_ok r'"
    by (rule store_ok_get(2) [OF rs_exec_ok [OF rs_exec_ok [OF store_ok_empty]] r'(1)])
  with r' assms(2) show ?thesis by (auto simp: decided_as_def request_ok_def)
qed

definition ex_create :: "string create_args" where
  "ex_create = \<lparr> ca_account = ''A1'', ca_run_id = ''run'', ca_proposal = ''p'', ca_risk_result = ''r'',
     ca_price = 10, ca_band_low = 9, ca_band_high = 11, ca_now = 0, ca_expiration = 1000,
     ca_earmark = 20, ca_request_id = Some ''apr-1'', ca_fresh = ''apr-x'' \<rparr>"

definition ex_store :: "string request_store" where
  "ex_store = rs_exec [OpCreate ex_create] empty_store"

lemma ex_store_eq: "rs_current ex_store = [(''apr-1'', new_request ex_create)]"
    "rs_account_of ex_store = [(''apr-1'', ''A1'')]" "store_ok ex_store"
  using rs_exec_ok [OF store_ok_empty, of "[OpCreate ex_create]"]
  by (simp_all add: ex_store_def rs_exec_def rs_step_def rs_create_def empty_store_def append_event_def Let_def
      ex_create_def new_request_id_def new_request_def)

theorem decision_final_witness:
  "\<exists>r'. map_of (rs_current (rs_exec [OpInvalidate ''apr-1'' ''late'', OpDecide ''apr-1'' ''REJECTED'' 30 ''bob'']
       (rs_exec [OpCreate ex_create, OpDecide ''apr-1'' ''APPROVED'' 20 ''al''] empty_store))) ''apr-1'' = Some r'
     \<and> rq_decision r' = Some ''APPROVED'' \<and> rq_invalidated r' = None"
proof -
  have st: "rs_exec [OpCreate ex_create, OpDecide ''apr-1'' ''APPROVED'' 20 ''al''] empty_store
      = rs_step (OpDecide ''apr-1'' ''APPROVED'' 20 ''al'') ex_store"
    by (simp add: ex_store_def rs_exec_def)
  obtain upd where "rq_decision upd = Some ''APPROVED''"
    "rs_current (rs_step (OpDecide ''apr-1'' ''APPROVED'' 20 ''al'') ex_store) = AList.update ''apr-1'' upd (rs_current ex_store)"
    using rs_decide_eq [OF ex_store_eq(3), of "''apr-1''" "new_request ex_create" "''APPROVED''"]
    by (auto simp: ex_store_eq new_request_def)
  then have "map_of (rs_current (rs_exec [OpCreate ex_create, OpDecide ''apr-1'' ''APPROVED'' 20 ''al''] empty_store))
      ''apr-1'' = Some upd" by (simp add: st)
  from decision_final [OF this \<open>rq_decision upd = Some ''APPROVED''\<close>] show ?thesis by blast
qed

text \<open>
  Approving a request never frees its cash: when a pending request is approved and its token is minted,
  the earmarks that count against the account's cash are the same ones before and after (the pending one
  is replaced by the one its live token holds), at any instant before both expiries.
\<close>
theorem earmark_handoff:
  assumes "store_ok st" and "map_of (rs_current st) rid = Some cur"
    and "rq_decision cur = None" and "rq_invalidated cur = None"
    and "approve svc a = Inr (svc', tok, drift)" and "aa_request_id a = rid"
    and "token_for_request svc rid = None"
    and "now < rq_expires_at cur" and "now < aa_now a + as_expiration svc"
  shows "mset (earmark_terms (rs_step (OpDecide rid ''APPROVED'' t who) st) acct now (Some svc'))
       = mset (earmark_terms st acct now (Some svc))"
proof -
  obtain upd where u: "rq_decision upd = Some ''APPROVED''" "rq_earmark upd = rq_earmark cur"
    "rs_current (rs_step (OpDecide rid ''APPROVED'' t who) st) = AList.update rid upd (rs_current st)"
    "rs_account_of (rs_step (OpDecide rid ''APPROVED'' t who) st) = rs_account_of st"
    using rs_decide_eq [OF assms(1-4), of "''APPROVED''"] by blast
  obtain xs ys where d: "rs_current st = xs @ (rid, cur) # ys"
    using assms(2) by (meson map_of_SomeD split_list)
  have ok: "dict_ok (xs @ (rid, cur) # ys)" using assms(1) by (simp add: store_ok_def d)
  define st' where "st' = rs_step (OpDecide rid ''APPROVED'' t who) st"
  have d': "rs_current st' = xs @ (rid, upd) # ys" "rs_account_of st' = rs_account_of st"
    using u by (simp_all add: st'_def d update_split [OF ok])
  note tok = approve_ok [OF assms(5)] 
  have t0: "token_for_request svc (aa_request_id a) = None" unfolding assms(6) by (rule assms(7))
  have mint': "token_for_request svc' k = (if k = rid then Some tok else token_for_request svc k)" for k
    using token_for_request_mint [OF assms(5) t0] unfolding assms(6) .
  have ne: "k \<noteq> rid" if "(k, r) \<in> set xs \<union> set ys" for k r
  proof -
    have "rid \<notin> fst ` (set xs \<union> set ys)" using ok by (simp add: dict_ok_def image_Un)
    moreover have "k \<in> fst ` (set xs \<union> set ys)" using that by (rule rev_image_eqI) simp
    ultimately show ?thesis by metis
  qed
  have p: "filter (is_pending st' (Some acct) (Some now)) zs = filter (is_pending st (Some acct) (Some now)) zs" for zs
    by (simp add: is_pending_def d'(2))
  have h: "filter (holds_earmark st' svc' acct now) zs = filter (holds_earmark st svc acct now) zs"
    if "set zs \<subseteq> set xs \<union> set ys" for zs
  proof (rule filter_cong [OF refl])
    fix p assume "p \<in> set zs"
    moreover obtain k r where "p = (k, r)" by force
    ultimately show "holds_earmark st' svc' acct now p = holds_earmark st svc acct now p"
      using that ne [of k r] by (auto simp: holds_earmark_def d'(2) mint')
  qed
  have "is_pending st' (Some acct) (Some now) (rid, upd) = False" by (simp add: is_pending_def u)
  moreover have "holds_earmark st svc acct now (rid, cur) = False" by (simp add: holds_earmark_def assms(3))
  moreover have "holds_earmark st' svc' acct now (rid, upd) \<longleftrightarrow> is_pending st (Some acct) (Some now) (rid, cur)"
    using assms(3,4,8,9) u tok by (auto simp: holds_earmark_def is_pending_def mint' d'(2))
  ultimately show ?thesis
    unfolding st'_def [symmetric] earmark_terms_def rs_pending_def d d'
    by (simp add: p h u(2))
qed

theorem earmark_handoff_witness:
  "\<exists>svc' tok drift. approve ex_service ex_approve = Inr (svc', tok, drift)
     \<and> mset (earmark_terms (rs_step (OpDecide ''apr-1'' ''APPROVED'' 20 ''al'') ex_store) ''A1'' 50 (Some svc')) = {#20#}"
proof -
  obtain svc' tok drift where ap: "approve ex_service ex_approve = Inr (svc', tok, drift)"
    using ex_approve_ok by blast
  have "earmark_terms ex_store ''A1'' 50 (Some ex_service) = [20]"
    by (simp add: earmark_terms_def rs_pending_def is_pending_def holds_earmark_def ex_store_eq new_request_def ex_create_def)
  moreover have "mset (earmark_terms (rs_step (OpDecide ''apr-1'' ''APPROVED'' 20 ''al'') ex_store) ''A1'' 50 (Some svc'))
      = mset (earmark_terms ex_store ''A1'' 50 (Some ex_service))"
    by (rule earmark_handoff [OF ex_store_eq(3) _ _ _ ap, where cur = "new_request ex_create"])
       (simp_all add: ex_store_eq new_request_def ex_approve_def token_for_request_def ex_service_def ex_create_def)
  ultimately show ?thesis using ap by (metis add_mset_add_single mset.simps empty_neutral(1))
qed

end
