(* ===== verification/Broker.thy ===== *)
theory Broker
  imports RequestStore
begin

text \<open>
  agent/broker/base.py: the adapter every order passes through.

  A concrete adapter is the parameter \<open>impl\<close> of \<open>submit\<close> and \<open>cancel\<close>: \<open>_submit_impl\<close> and
  \<open>_cancel_impl\<close>, on a broker state \<open>'b\<close>, returning the state they leave even when they raise. The
  caller's clock, the identity hook and the durable-consumption sink are arguments too. What a call
  leaves behind is the record \<open>submit_outcome\<close>: the order or the exception, the token object as mutated,
  the tokens the sink accepted, and whether the concrete adapter was reached at all. That a value
  is a \<open>StagedOrder\<close> is a matter of types here.
\<close>

datatype account_posture = CASH | MARGIN_UNDER_25K | MARGIN_OVER_25K | UNKNOWN

definition PDT_EQUITY_THRESHOLD :: decimal where "PDT_EQUITY_THRESHOLD = 25000"

record account_snapshot =
  ac_account :: string
  ac_equity :: decimal
  ac_cash :: decimal
  ac_settled_cash :: decimal
  ac_unsettled_cash :: decimal
  ac_buying_power :: decimal
  ac_multiplier :: decimal
  ac_pattern_day_trader :: "bool option"
  ac_day_trade_count :: "int option"
  ac_fetched_at :: instant

record position =
  po_account :: string
  po_symbol :: string
  po_qty :: decimal
  po_avg_price :: decimal
  po_market_value :: decimal

record execution =
  xe_execution_id :: string
  xe_account :: string
  xe_client_order_id :: string
  xe_symbol :: string
  xe_side :: string
  xe_qty :: decimal
  xe_price :: decimal
  xe_cum_qty :: decimal
  xe_filled_at :: instant

record account_activity =
  av_activity_id :: string
  av_account :: string
  av_activity_type :: string
  av_activity_sub_type :: "string option"
  av_net_amount :: decimal
  av_date :: date
  av_created_at :: "instant option"
  av_symbol :: "string option"
  av_description :: string

record broker_order =
  bo_account :: string
  bo_client_order_id :: string
  bo_broker_order_id :: "string option"
  bo_symbol :: string
  bo_side :: string
  bo_qty :: decimal
  bo_order_type :: string
  bo_time_in_force :: string
  bo_limit_price :: "decimal option"
  bo_status :: string
  bo_filled_qty :: decimal
  bo_avg_fill_price :: "decimal option"
  bo_submitted_at :: "instant option"
  bo_filled_at :: "instant option"

definition TERMINAL_ORDER_STATUSES :: "string list" where
  "TERMINAL_ORDER_STATUSES = [''filled'', ''canceled'', ''rejected'']"

definition detect_posture :: "account_snapshot \<Rightarrow> account_posture" where
  "detect_posture acct =
     (if ac_multiplier acct \<le> 1 then CASH
      else if ac_equity acct \<ge> PDT_EQUITY_THRESHOLD then MARGIN_OVER_25K else MARGIN_UNDER_25K)"

subsection \<open>The surface a subclass may have\<close>

text \<open>\<open>__init_subclass__\<close> on the class dict: an attribute is a callable, a property or a plain value.\<close>

datatype attr_kind = CallableAttr | PropertyAttr | ValueAttr

definition known_public_surface :: "string list" where
  "known_public_surface =
     [''account'', ''positions'', ''open_orders'', ''get_by_client_id'', ''sessions'',
      ''submit'', ''cancel'', ''clock'', ''posture'', ''supported_matrix'', ''fills'',
      ''non_fill_activities'', ''attach_capability_policy'', ''attach_staging_key'',
      ''attach_token_consumption_sink'']"

definition is_private :: "string \<Rightarrow> bool" where
  "is_private name \<longleftrightarrow> name \<noteq> [] \<and> hd name = CHR ''_''"

definition init_subclass :: "attr_kind dict \<Rightarrow> string list \<Rightarrow> unit result" where
  "init_subclass cls extra =
     (if map_of cls ''submit'' \<noteq> None then Inl TypeError
      else if map_of cls ''cancel'' \<noteq> None then Inl TypeError
      else if \<exists>(name, kind) \<in> set cls. \<not> is_private name \<and> name \<notin> set known_public_surface
                \<and> name \<notin> set extra \<and> kind = CallableAttr
      then Inl TypeError else Inr ())"

subsection \<open>The adapter\<close>

record 'k adapter =
  ad_account :: string
  ad_credentials :: "broker_credentials option"
  ad_policy :: "capability_policy option"
  ad_key :: "'k option"
  ad_is_live :: bool

definition make_adapter ::
  "string \<Rightarrow> broker_credentials option \<Rightarrow> capability_policy option \<Rightarrow> 'k option \<Rightarrow> bool
   \<Rightarrow> 'k adapter result" where
  "make_adapter acct cred cp key live =
     (case cred of
        Some c \<Rightarrow> if bc_account c \<noteq> acct then Inl (CrossAccountError acct (bc_account c))
                  else Inr \<lparr> ad_account = acct, ad_credentials = cred, ad_policy = cp, ad_key = key,
                             ad_is_live = live \<rparr>
      | None \<Rightarrow> Inr \<lparr> ad_account = acct, ad_credentials = cred, ad_policy = cp, ad_key = key,
                      ad_is_live = live \<rparr>)"

definition adapter_policy :: "'k adapter \<Rightarrow> capability_policy result" where
  "adapter_policy ad = (case ad_policy ad of None \<Rightarrow> Inl CapabilityPolicyUnset | Some p \<Rightarrow> Inr p)"

definition attach_capability_policy :: "capability_policy \<Rightarrow> 'k adapter \<Rightarrow> 'k adapter" where
  "attach_capability_policy p ad = ad\<lparr>ad_policy := Some p\<rparr>"

definition attach_staging_key :: "'k \<Rightarrow> 'k adapter \<Rightarrow> 'k adapter" where
  "attach_staging_key k ad = ad\<lparr>ad_key := Some k\<rparr>"

definition verify_staged :: "'k mac \<Rightarrow> 'k adapter \<Rightarrow> staged_order \<Rightarrow> unit result" where
  "verify_staged mac ad so =
     (case ad_key ad of
        None \<Rightarrow> Inl StagingKeyUnset
      | Some key \<Rightarrow>
          if \<not> so_verify mac key so then Inl StagingForged
          else if of_account (so_fields so) \<noteq> ad_account ad
          then Inl (CrossAccountError (ad_account ad) (of_account (so_fields so)))
          else Inr ())"

definition staged_dims :: "order_fields \<Rightarrow> dimensions" where
  "staged_dims f =
     [(''asset_class'', of_asset_class f), (''side'', of_side f), (''funding'', of_funding f),
      (''order_type'', of_order_type f), (''session'', of_session f),
      (''time_in_force'', of_time_in_force f)]"

definition gate4 :: "'k adapter \<Rightarrow> staged_order \<Rightarrow> unit result" where
  "gate4 ad so =
     bindE (adapter_policy ad) (\<lambda>p.
       policy_check p ADAPTER (ad_is_live ad) (Some (of_symbol (so_fields so))) (staged_dims (so_fields so)))"

type_synonym 'b impl = "staged_order \<Rightarrow> 'b \<Rightarrow> 'b \<times> broker_order result"

record 'b submit_outcome =
  sb_result :: "broker_order result"
  sb_token :: "approval_token option"
  sb_recorded :: "approval_token list"
  sb_reached :: bool
  sb_broker :: 'b

definition stopped :: "exn \<Rightarrow> approval_token option \<Rightarrow> 'b \<Rightarrow> 'b submit_outcome" where
  "stopped e tok b =
     \<lparr> sb_result = Inl e, sb_token = tok, sb_recorded = [], sb_reached = False, sb_broker = b \<rparr>"

text \<open>Everything \<open>submit\<close> checks before it touches the token.\<close>

definition submit_checks ::
  "'k mac \<Rightarrow> unit result \<Rightarrow> 'k adapter \<Rightarrow> staged_order \<Rightarrow> unit result" where
  "submit_checks mac identity ad so =
     bindE identity (\<lambda>_.
       if of_side (so_fields so) = ''CANCEL'' then Inl AdapterError
       else bindE (verify_staged mac ad so) (\<lambda>_. gate4 ad so))"

text \<open>The checks on the token, then its consumption; the fingerprint passed is the token's own.\<close>

definition spend_token ::
  "approval_token option \<Rightarrow> pyfloat option \<Rightarrow> instant \<Rightarrow> staged_order \<Rightarrow> approval_token result" where
  "spend_token token reference_price now so =
     (case token of
        None \<Rightarrow> Inl MissingApproval
      | Some tok \<Rightarrow>
          (case (if reference_price \<noteq> None then reference_price else of_limit_price (so_fields so)) of
             None \<Rightarrow> Inl MissingApproval
           | Some price \<Rightarrow>
               let f = so_fields so in
               bindE (verify_modification_within_bounds tok (of_symbol f) (of_side f) (of_authorized_qty f)
                        (of_order_type f) (of_time_in_force f) (of_limit_price f) (of_lot_id f)) (\<lambda>_.
               bindE (verify_minimum_display_time tok now) (\<lambda>_.
                 consume tok (at_fingerprint tok) price now))))"

text \<open>\<open>sink\<close> is the attached callback, if any; its exception propagates before the broker is called.\<close>

definition submit ::
  "'k mac \<Rightarrow> unit result \<Rightarrow> 'k adapter \<Rightarrow> instant \<Rightarrow> (approval_token \<Rightarrow> unit result) option \<Rightarrow> 'b impl
   \<Rightarrow> staged_order \<Rightarrow> approval_token option \<Rightarrow> pyfloat option \<Rightarrow> 'b \<Rightarrow> 'b submit_outcome" where
  "submit mac identity ad now sink impl so token reference_price b =
     (case submit_checks mac identity ad so of
        Inl e \<Rightarrow> stopped e token b
      | Inr _ \<Rightarrow>
          (case spend_token token reference_price now so of
             Inl e \<Rightarrow> stopped e token b
           | Inr tok \<Rightarrow>
               (case (case sink of None \<Rightarrow> Inr () | Some s \<Rightarrow> s tok) of
                  Inl e \<Rightarrow> stopped e (Some tok) b
                | Inr _ \<Rightarrow>
                    let (b', r) = impl so b
                    in \<lparr> sb_result = r, sb_token = Some tok,
                         sb_recorded = (case sink of None \<Rightarrow> [] | Some _ \<Rightarrow> [tok]),
                         sb_reached = True, sb_broker = b' \<rparr>)))"

definition cancel ::
  "'k mac \<Rightarrow> unit result \<Rightarrow> 'k adapter \<Rightarrow> (staged_order \<Rightarrow> 'b \<Rightarrow> 'b \<times> broker_order option result)
   \<Rightarrow> staged_order \<Rightarrow> 'b \<Rightarrow> 'b \<times> broker_order option result" where
  "cancel mac identity ad impl so b =
     (case bindE identity (\<lambda>_.
             if of_side (so_fields so) \<noteq> ''CANCEL'' then Inl AdapterError
             else bindE (verify_staged mac ad so) (\<lambda>_. gate4 ad so)) of
        Inl e \<Rightarrow> (b, Inl e)
      | Inr _ \<Rightarrow> impl so b)"

subsection \<open>What passing the checks means\<close>

lemma verify_staged_ok:
  "verify_staged mac ad so = Inr () \<longleftrightarrow>
   (\<exists>key. ad_key ad = Some key \<and> so_verify mac key so) \<and> of_account (so_fields so) = ad_account ad"
  by (auto simp: verify_staged_def split: option.splits)

lemma gate4_ok:
  "gate4 ad so = Inr () \<longleftrightarrow>
   (\<exists>p. ad_policy ad = Some p \<and> policy_check p ADAPTER (ad_is_live ad) (Some (of_symbol (so_fields so)))
          (staged_dims (so_fields so)) = Inr ())"
  by (auto simp: gate4_def adapter_policy_def split: option.splits)

lemma submit_checks_ok:
  "submit_checks mac identity ad so = Inr () \<longleftrightarrow>
   identity = Inr () \<and> of_side (so_fields so) \<noteq> ''CANCEL'' \<and> verify_staged mac ad so = Inr () \<and> gate4 ad so = Inr ()"
  by (auto simp: submit_checks_def result_simps)

text \<open>When \<open>spend_token\<close> consumes: the token is live, in band, for this order and shown long enough.\<close>

definition spendable :: "approval_token \<Rightarrow> pyfloat \<Rightarrow> instant \<Rightarrow> order_fields \<Rightarrow> bool" where
  "spendable tok price now f \<longleftrightarrow>
     at_consumed_at tok = None \<and> at_swept_at tok = None \<and> now < at_expires_at tok
     \<and> at_band_low tok \<le> price \<and> price \<le> at_band_high tok
     \<and> verify_modification_within_bounds tok (of_symbol f) (of_side f) (of_authorized_qty f)
         (of_order_type f) (of_time_in_force f) (of_limit_price f) (of_lot_id f) = Inr ()
     \<and> verify_minimum_display_time tok now = Inr ()"

lemma spend_token_ok:
  "spend_token token ref now so = Inr tok' \<longleftrightarrow>
   (\<exists>tok price. token = Some tok \<and> (if ref \<noteq> None then ref else of_limit_price (so_fields so)) = Some price
      \<and> spendable tok price now (so_fields so) \<and> tok' = tok\<lparr>at_consumed_at := Some now\<rparr>)"
  by (auto simp: spend_token_def Let_def result_simps consume_ok spendable_def split: option.splits)

lemma submit_reached:
  "sb_reached (submit mac identity ad now sink impl so token ref b) \<longleftrightarrow>
   submit_checks mac identity ad so = Inr () \<and>
   (\<exists>tok. spend_token token ref now so = Inr tok \<and> (case sink of None \<Rightarrow> True | Some s \<Rightarrow> s tok = Inr ()))"
  by (auto simp: submit_def stopped_def split: sum.splits option.splits prod.splits)

lemma submit_reached_token:
  "sb_reached (submit mac identity ad now sink impl so token ref b) \<Longrightarrow>
   \<exists>tok. spend_token token ref now so = Inr tok
     \<and> sb_token (submit mac identity ad now sink impl so token ref b) = Some tok
     \<and> sb_recorded (submit mac identity ad now sink impl so token ref b) = (case sink of None \<Rightarrow> [] | Some _ \<Rightarrow> [tok])"
  by (auto simp: submit_def stopped_def split: sum.splits option.splits prod.splits)

lemma submit_not_reached:
  "\<not> sb_reached (submit mac identity ad now sink impl so token ref b) \<Longrightarrow>
   sb_broker (submit mac identity ad now sink impl so token ref b) = b
   \<and> (\<exists>e. sb_result (submit mac identity ad now sink impl so token ref b) = Inl e)"
  by (auto simp: submit_def stopped_def split: sum.splits option.splits prod.splits)

subsection \<open>The contract of a concrete adapter\<close>

text \<open>
  \<open>_submit_impl\<close> must be idempotent on the client order id: a known id returns the stored order and
  changes nothing, and a call that returns an order has stored it.
\<close>

locale idempotent_impl =
  fixes impl :: "'b impl" and order_of :: "'b \<Rightarrow> string \<Rightarrow> broker_order option" and accepts :: "staged_order \<Rightarrow> 'b \<Rightarrow> bool"
  assumes known: "accepts so b \<Longrightarrow> order_of b (of_client_order_id (so_fields so)) = Some ord \<Longrightarrow> impl so b = (b, Inr ord)"
    and stores: "impl so b = (b', Inr ord) \<Longrightarrow> order_of b' (of_client_order_id (so_fields so)) = Some ord"
    and keeps: "impl so b = (b', Inr ord) \<Longrightarrow> accepts so' b \<Longrightarrow> accepts so' b'"
begin

text \<open>A retry under the same client order id, of whatever order, returns the first order.\<close>

lemma retry:
  "impl so b = (b', Inr ord) \<Longrightarrow> accepts so' b \<Longrightarrow>
   of_client_order_id (so_fields so') = of_client_order_id (so_fields so) \<Longrightarrow> impl so' b' = (b', Inr ord)"
  using known [of so' b' ord] stores [of so b b' ord] keeps [of so b b' ord so'] by simp

end

subsection \<open>Properties\<close>


text \<open>
  An approval token buys one broker call: if a submission reached the broker, the token it leaves is
  consumed at that instant and, when a sink is attached, is what the sink durably recorded; submitting
  anything with that token again, through any adapter, at any time, never reaches a broker and leaves
  the broker's state as it was.
\<close>
theorem submit_spends_token_once:
  assumes "sb_reached (submit mac identity ad now sink impl so token ref b)"
  shows "\<exists>tok. sb_token (submit mac identity ad now sink impl so token ref b) = Some tok
     \<and> at_consumed_at tok = Some now
     \<and> sb_recorded (submit mac identity ad now sink impl so token ref b) = (case sink of None \<Rightarrow> [] | Some _ \<Rightarrow> [tok])
     \<and> \<not> sb_reached (submit mac' identity' ad' now' sink' impl' so' (Some tok) ref' b')
     \<and> sb_broker (submit mac' identity' ad' now' sink' impl' so' (Some tok) ref' b') = b'"
proof -
  obtain tok where tok: "spend_token token ref now so = Inr tok"
    "sb_token (submit mac identity ad now sink impl so token ref b) = Some tok"
    "sb_recorded (submit mac identity ad now sink impl so token ref b) = (case sink of None \<Rightarrow> [] | Some _ \<Rightarrow> [tok])"
    using submit_reached_token [OF assms] by blast
  have c: "at_consumed_at tok = Some now" using tok(1) by (auto simp: spend_token_ok)
  then have "\<not> sb_reached (submit mac' identity' ad' now' sink' impl' so' (Some tok) ref' b')"
    by (auto simp: submit_reached spend_token_ok spendable_def)
  with tok c submit_not_reached [OF this] show ?thesis by auto
qed

text \<open>
C9: The gates agree end to end: an order the gatekeeper staged passes every check of an adapter that has
  the gatekeeper's account, key, policy and mode, so gate 4 never contradicts gate 1, a CANCEL reaches the
  concrete adapter without any token, and any other order is only short of an approval; whereas the same signature
  on changed fields verifies only if the HMAC collides on them.
\<close>
theorem staged_orders_pass_adapter:
  assumes "stage mac gk a = Inr so" and "mac (gk_key gk) (so_fields so) \<noteq> []"
    and "ad_account ad = gk_account gk" and "ad_key ad = Some (gk_key gk)"
    and "ad_policy ad = Some (gk_capability gk)" and "ad_is_live ad = gk_live gk"
  shows "(if of_side (so_fields so) = ''CANCEL'' then cancel mac (Inr ()) ad cimpl so b = cimpl so b
          else submit_checks mac (Inr ()) ad so = Inr ())
    \<and> (verify_staged mac ad (so\<lparr>so_fields := f\<rparr>) = Inr () \<longrightarrow>
        mac (gk_key gk) f = mac (gk_key gk) (so_fields so) \<and> of_account f = gk_account gk)"
proof -
  obtain sz lid where so: "so = sign_staged_order mac (stage_fields gk a sz lid) (gk_key gk)"
    using stage_ok_shape [OF assms(1)] by blast
  have v: "verify_staged mac ad so = Inr ()"
    using assms(2-4) by (auto simp: verify_staged_ok so so_verify_def stage_fields_def)
  have "policy_check (gk_capability gk) ADAPTER (gk_live gk) (Some (sa_symbol a)) (order_dims a) = Inr ()"
    by (rule policy.recheck [OF stage_ok_guards(3) [OF assms(1)]])
  then have g: "gate4 ad so = Inr ()"
    using assms(5,6) by (simp add: gate4_ok so stage_fields_def staged_dims_def order_dims_def)
  have "mac (gk_key gk) f = mac (gk_key gk) (so_fields so) \<and> of_account f = gk_account gk"
    if "verify_staged mac ad (so\<lparr>so_fields := f\<rparr>) = Inr ()"
    using that assms(2-4) by (auto simp: verify_staged_ok so so_verify_def split: if_splits)
  with v g show ?thesis by (auto simp: submit_checks_ok cancel_def)
qed

subsection \<open>A concrete submission\<close>

definition ex_adapter :: "nat adapter" where
  "ex_adapter = \<lparr> ad_account = ''A1'', ad_credentials = None, ad_policy = Some (initial_policy ''v1''),
     ad_key = Some 7, ad_is_live = True \<rparr>"

theorem staged_orders_pass_adapter_witness:
  "cancel ex_mac (Inr ()) ex_adapter (\<lambda>_ b. (b + 1, Inr None)) ex_cancel (0::nat) = (1, Inr None)"
proof -
  have st: "stage ex_mac ex_gk (ex_args ''CANCEL'' 0 None) = Inr ex_cancel"
    by (simp add: stage_def stage_capability_cases stage_lot_id_def stage_cancel_def
        stage_finish_def stage_fields_def ex_cancel_def)
  show ?thesis
    using staged_orders_pass_adapter [OF st, of ex_adapter "\<lambda>_ b. (b + 1, Inr None)" "0::nat"]
    by (simp add: ex_adapter_def ex_gk_def ex_mac_def ex_cancel_def)
qed

definition ex_order :: staged_order where
  "ex_order = sign_staged_order ex_mac
     \<lparr> of_account = ''A1'', of_client_order_id = ''o1'', of_symbol = ''SPY'', of_side = ''BUY'',
       of_requested_qty = Some 2, of_authorized_qty = Some 2, of_order_type = ''LIMIT'',
       of_time_in_force = ''DAY'', of_limit_price = Some 10, of_asset_class = ''ETF'',
       of_funding = ''SETTLED_CASH'', of_session = ''REGULAR'', of_requested_notional = 20,
       of_notional = 20, of_gates_passed = [], of_binding = [], of_lot_id = None \<rparr> 7"

lemma ex_order_simps [simp]:
  "of_account (so_fields ex_order) = ''A1''" "of_client_order_id (so_fields ex_order) = ''o1''"
  "of_symbol (so_fields ex_order) = ''SPY''" "of_side (so_fields ex_order) = ''BUY''"
  "of_authorized_qty (so_fields ex_order) = Some 2" "of_limit_price (so_fields ex_order) = Some 10"
  "so_verify ex_mac 7 ex_order"
  by (simp_all add: ex_order_def so_verify_def ex_mac_def)

definition ex_token :: approval_token where
  "ex_token = \<lparr> at_token_id = ''tok-1'', at_request_id = ''apr-1'', at_fingerprint = ''f'',
     at_band_low = 9, at_band_high = 11, at_expires_at = 120, at_decided_at = 20, at_elapsed_ms = 20,
     at_symbol = ''SPY'', at_side = ''BUY'', at_qty = 2, at_order_type = ''LIMIT'',
     at_time_in_force = ''DAY'', at_limit_price = Some 10, at_lot_id = None, at_shown_at = Some 0,
     at_min_display = Some 5, at_consumed_at = None, at_swept_at = None \<rparr>"

lemma ex_spendable: "spendable ex_token 10 50 (so_fields ex_order)"
proof -
  have "2 \<le> fl (2 + eps9)" "10 \<le> fl (10 + eps9)"
    using eps_values(2) flt.rnd_ge_fixed [of 2 "2 + eps9"] flt.rnd_ge_fixed [of 10 "10 + eps9"]
    by (simp_all add: num_simps)
  then show ?thesis
    by (simp add: spendable_def ex_token_def ex_order_def verify_modification_eq same_order_def
        verify_minimum_display_time_def)
qed

theorem submit_spends_token_once_witness:
  "\<exists>tok. sb_token (submit ex_mac (Inr ()) ex_adapter 50 None (\<lambda>_ n. (n + 1, Inl AdapterError)) ex_order (Some ex_token) None (0::nat)) = Some tok
     \<and> at_consumed_at tok = Some 50
     \<and> sb_broker (submit ex_mac (Inr ()) ex_adapter 60 None (\<lambda>_ n. (n + 1, Inl AdapterError)) ex_order (Some tok) None (1::nat)) = 1"
proof -
  have p: "policy_check (initial_policy ''v1'') ADAPTER True (Some ''SPY'') (staged_dims (so_fields ex_order)) = Inr ()"
    using ex_args_capability [of "''BUY''" ADAPTER 0 None]
    by (simp add: staged_dims_def order_dims_def ex_order_def ex_gk_def)
  have "of_limit_price (so_fields ex_order) = Some 10" by (simp add: ex_order_def)
  then have sp: "spend_token (Some ex_token) None 50 ex_order = Inr (ex_token\<lparr>at_consumed_at := Some 50\<rparr>)"
    using ex_spendable by (simp add: spend_token_ok)
  have ad: "ad_account ex_adapter = ''A1''" "ad_key ex_adapter = Some 7" "ad_is_live ex_adapter"
    "ad_policy ex_adapter = Some (initial_policy ''v1'')" by (simp_all add: ex_adapter_def)
  have r: "sb_reached (submit ex_mac (Inr ()) ex_adapter 50 None (\<lambda>_ n. (n + 1, Inl AdapterError)) ex_order (Some ex_token) None (0::nat))"
    unfolding submit_reached submit_checks_ok verify_staged_ok gate4_ok
    by (simp add: ad sp p)
  obtain tok where "sb_token (submit ex_mac (Inr ()) ex_adapter 50 None (\<lambda>_ n. (n + 1, Inl AdapterError)) ex_order (Some ex_token) None (0::nat)) = Some tok"
    "at_consumed_at tok = Some 50"
    "sb_broker (submit ex_mac (Inr ()) ex_adapter 60 None (\<lambda>_ n. (n + 1, Inl AdapterError)) ex_order (Some tok) None (1::nat)) = 1"
    using submit_spends_token_once [OF r, where mac' = ex_mac and identity' = "Inr ()" and ad' = ex_adapter
        and now' = 60 and sink' = None and impl' = "\<lambda>_ n. (n + 1, Inl AdapterError)" and so' = ex_order
        and ref' = None and b' = "1::nat"] by blast
  then show ?thesis by blast
qed

end
