(* ===== verification/Simulator.thy ===== *)
theory Simulator
  imports Broker
begin

text \<open>
  agent/broker/simulator.py: the paper broker. Quantities and money are Decimals, so every arithmetic
  operation rounds to 28 digits (\<open>dec\<close>); the floats of a staged order enter through \<open>to_decimal_float\<close>.
  \<open>sim_submit_impl\<close> returns the state the call leaves even when it raises part-way.
\<close>

record 'k sim =
  si_account :: string
  si_key :: "'k option"
  si_cash :: decimal
  si_settled :: decimal
  si_unsettled :: decimal
  si_posture :: account_posture
  si_positions :: "(decimal \<times> decimal) dict"
  si_orders :: "broker_order dict"
  si_prices :: "decimal dict"
  si_now :: instant
  si_settlements :: "(instant \<times> decimal) list"
  si_day_trades :: int

definition make_sim ::
  "string \<Rightarrow> decimal \<Rightarrow> account_posture \<Rightarrow> instant \<Rightarrow> broker_credentials option \<Rightarrow> 'k option \<Rightarrow> 'k sim result" where
  "make_sim acct cash posture now cred key =
     bindE (make_adapter acct cred None key False) (\<lambda>_.
       Inr \<lparr> si_account = acct, si_key = key, si_cash = cash, si_settled = cash, si_unsettled = 0,
             si_posture = posture, si_positions = [], si_orders = [], si_prices = [], si_now = now,
             si_settlements = [], si_day_trades = 0 \<rparr>)"

definition sim_set_price :: "string \<Rightarrow> decimal \<Rightarrow> 'k sim \<Rightarrow> 'k sim" where
  "sim_set_price sy price s = s\<lparr>si_prices := AList.update (upper sy) price (si_prices s)\<rparr>"

text \<open>The loop of \<open>advance\<close> over the settlements due.\<close>

definition settle_one :: "'k sim \<Rightarrow> instant \<times> decimal \<Rightarrow> 'k sim" where
  "settle_one s ta =
     s\<lparr>si_settled := dec (si_settled s + snd ta), si_unsettled := dec (si_unsettled s - snd ta),
       si_settlements := remove1 ta (si_settlements s)\<rparr>"

definition sim_advance :: "timedelta \<Rightarrow> 'k sim \<Rightarrow> 'k sim" where
  "sim_advance delta s =
     (let s1 = s\<lparr>si_now := si_now s + delta\<rparr>;
          due = filter (\<lambda>(t, _). t \<le> si_now s1) (si_settlements s1)
      in foldl settle_one s1 due)"

definition price_of :: "'k sim \<Rightarrow> string \<Rightarrow> decimal \<Rightarrow> decimal" where
  "price_of s sy p = dict_get (si_prices s) sy p"

definition sim_account :: "'k sim \<Rightarrow> account_snapshot" where
  "sim_account s =
     (let mv = sum_seq dec 0 (map (\<lambda>(sy, (q, p)). dec (q * price_of s sy p)) (si_positions s))
      in \<lparr> ac_account = si_account s, ac_equity = dec (si_cash s + mv), ac_cash = si_cash s,
           ac_settled_cash = si_settled s, ac_unsettled_cash = si_unsettled s,
           ac_buying_power = si_settled s,
           ac_multiplier = (if si_posture s = CASH then 1 else 2),
           ac_pattern_day_trader = Some False, ac_day_trade_count = Some (si_day_trades s),
           ac_fetched_at = si_now s \<rparr>)"

definition sim_positions :: "'k sim \<Rightarrow> position list" where
  "sim_positions s =
     map (\<lambda>(sy, (q, p)). \<lparr> po_account = si_account s, po_symbol = sy, po_qty = q, po_avg_price = p,
                            po_market_value = dec (q * price_of s sy p) \<rparr>)
         (filter (\<lambda>(_, (q, _)). q > 0) (si_positions s))"

definition is_open_status :: "string \<Rightarrow> bool" where
  "is_open_status st \<longleftrightarrow> st \<in> {''new'', ''partially_filled''}"

definition sim_open_orders :: "'k sim \<Rightarrow> broker_order list" where
  "sim_open_orders s = filter (\<lambda>o'. is_open_status (bo_status o')) (map snd (si_orders s))"

definition sim_get :: "'k sim \<Rightarrow> string \<Rightarrow> broker_order option" where
  "sim_get s cid = map_of (si_orders s) cid"

definition sim_sessions :: "date \<Rightarrow> int \<Rightarrow> date list result" where
  "sim_sessions through n = trailing_sessions through n"

text \<open>\<open>_verify_staged_or_raise\<close>, on the simulator's own account and key.\<close>

definition sim_verify :: "'k mac \<Rightarrow> 'k sim \<Rightarrow> staged_order \<Rightarrow> unit result" where
  "sim_verify mac s so =
     verify_staged mac \<lparr> ad_account = si_account s, ad_credentials = None, ad_policy = None,
                         ad_key = si_key s, ad_is_live = False \<rparr> so"

definition sim_order ::
  "'k sim \<Rightarrow> order_fields \<Rightarrow> decimal \<Rightarrow> decimal option \<Rightarrow> broker_order" where
  "sim_order s f qty lp =
     \<lparr> bo_account = si_account s, bo_client_order_id = of_client_order_id f, bo_broker_order_id = None,
       bo_symbol = upper (of_symbol f), bo_side = upper (of_side f), bo_qty = qty,
       bo_order_type = upper (of_order_type f), bo_time_in_force = upper (of_time_in_force f),
       bo_limit_price = lp, bo_status = ''rejected'', bo_filled_qty = 0, bo_avg_fill_price = None,
       bo_submitted_at = Some (si_now s), bo_filled_at = None \<rparr>"

definition put_order :: "'k sim \<Rightarrow> broker_order \<Rightarrow> 'k sim" where
  "put_order s ord = s\<lparr>si_orders := AList.update (bo_client_order_id ord) ord (si_orders s)\<rparr>"

definition sim_reject :: "'k sim \<Rightarrow> order_fields \<Rightarrow> decimal \<Rightarrow> decimal option \<Rightarrow> 'k sim \<times> broker_order result" where
  "sim_reject s f qty lp = (put_order s (sim_order s f qty lp), Inr (sim_order s f qty lp))"

definition held_of :: "'k sim \<Rightarrow> string \<Rightarrow> decimal \<times> decimal" where
  "held_of s sy = dict_get (si_positions s) sy (0, 0)"

text \<open>The id \<open>f"sim-{n}"\<close>, \<open>n\<close> in decimal.\<close>

fun digits :: "nat \<Rightarrow> string" where
  "digits n = (if n < 10 then [char_of (48 + n)] else digits (n div 10) @ [char_of (48 + n mod 10)])"

declare digits.simps [simp del]

definition sim_fill :: "'k sim \<Rightarrow> order_fields \<Rightarrow> decimal \<Rightarrow> decimal option \<Rightarrow> decimal \<Rightarrow> 'k sim \<times> broker_order result" where
  "sim_fill s f qty lp price =
     (let ord = (sim_order s f qty lp)\<lparr>bo_broker_order_id := Some (''sim-'' @ digits (length (si_orders s) + 1)),
                   bo_status := ''filled'', bo_filled_qty := qty, bo_avg_fill_price := Some price,
                   bo_filled_at := Some (si_now s)\<rparr>
      in (put_order s ord, Inr ord))"

definition sim_buy :: "'k sim \<Rightarrow> string \<Rightarrow> decimal \<Rightarrow> decimal \<Rightarrow> 'k sim" where
  "sim_buy s sy qty notional =
     (let (held, avg) = held_of s sy;
          new_qty = dec (held + qty)
      in s\<lparr>si_settled := dec (si_settled s - notional), si_cash := dec (si_cash s - notional),
           si_positions := AList.update sy
             (new_qty, if new_qty \<noteq> 0 then dec (dec (dec (held * avg) + notional) / new_qty) else 0)
             (si_positions s)\<rparr>)"

text \<open>A sale credits the proceeds before the settlement instant is computed, which may raise.\<close>

definition sim_sell :: "'k sim \<Rightarrow> string \<Rightarrow> decimal \<Rightarrow> decimal \<Rightarrow> 'k sim" where
  "sim_sell s sy qty notional =
     (let (held, avg) = held_of s sy
      in s\<lparr>si_positions := AList.update sy (dec (held - qty), avg) (si_positions s),
           si_cash := dec (si_cash s + notional), si_unsettled := dec (si_unsettled s + notional)\<rparr>)"

definition sim_execute ::
  "'k sim \<Rightarrow> order_fields \<Rightarrow> decimal \<Rightarrow> decimal option \<Rightarrow> decimal \<Rightarrow> 'k sim \<times> broker_order result" where
  "sim_execute s f qty lp price =
     (let sy = upper (of_symbol f); side = upper (of_side f); notional = dec (qty * price)
      in if side = ''BUY'' \<and> notional > si_settled s then sim_reject s f qty lp
         else if side \<in> {''SELL'', ''CLOSE''} \<and> qty > fst (held_of s sy) then sim_reject s f qty lp
         else if side = ''BUY'' then sim_fill (sim_buy s sy qty notional) f qty lp price
         else
           let s1 = sim_sell s sy qty notional
           in case settlement_instant (Aware (si_now s)) 1 of
                Inl e \<Rightarrow> (s1, Inl e)
              | Inr t \<Rightarrow> sim_fill (s1\<lparr>si_settlements := si_settlements s1 @ [(t, notional)]\<rparr>) f qty lp price)"

text \<open>\<open>limit_price or self._prices.get(symbol)\<close>: a limit of zero is falsy too.\<close>

definition sim_price :: "'k sim \<Rightarrow> string \<Rightarrow> decimal option \<Rightarrow> decimal option" where
  "sim_price s sy lp =
     (case lp of Some l \<Rightarrow> if l \<noteq> 0 then Some l else map_of (si_prices s) sy
      | None \<Rightarrow> map_of (si_prices s) sy)"

definition sim_submit_impl :: "'k mac \<Rightarrow> staged_order \<Rightarrow> 'k sim \<Rightarrow> 'k sim \<times> broker_order result" where
  "sim_submit_impl mac so s =
     (let f = so_fields so in
      case sim_verify mac s so of
        Inl e \<Rightarrow> (s, Inl e)
      | Inr _ \<Rightarrow>
          (case map_of (si_orders s) (of_client_order_id f) of
             Some ord \<Rightarrow> (s, Inr ord)
           | None \<Rightarrow>
               (case of_authorized_qty f of
                  None \<Rightarrow> (s, Inl TypeError)
                | Some q \<Rightarrow>
                    let qty = to_decimal_float q;
                        lp = map_option to_decimal_float (of_limit_price f)
                    in case sim_price s (upper (of_symbol f)) lp of
                         None \<Rightarrow> sim_reject s f qty lp
                       | Some price \<Rightarrow> sim_execute s f qty lp price)))"

definition sim_cancel_impl ::
  "'k mac \<Rightarrow> staged_order \<Rightarrow> 'k sim \<Rightarrow> 'k sim \<times> broker_order option result" where
  "sim_cancel_impl mac so s =
     (case sim_verify mac s so of
        Inl e \<Rightarrow> (s, Inl e)
      | Inr _ \<Rightarrow>
          (case map_of (si_orders s) (of_client_order_id (so_fields so)) of
             None \<Rightarrow> (s, Inr None)
           | Some ord \<Rightarrow>
               if is_open_status (bo_status ord)
               then (s\<lparr>si_orders := AList.update (of_client_order_id (so_fields so))
                        (ord\<lparr>bo_status := ''canceled''\<rparr>) (si_orders s)\<rparr>,
                     Inr (Some (ord\<lparr>bo_status := ''canceled''\<rparr>)))
               else (s, Inr (Some ord))))"

text \<open>One execution per filled order; \<open>filled_at\<close> is set on every filled order.\<close>

definition sim_fills :: "'k sim \<Rightarrow> execution list" where
  "sim_fills s =
     map (\<lambda>ord. \<lparr> xe_execution_id = ''sim::'' @ bo_client_order_id ord, xe_account = si_account s,
                   xe_client_order_id = bo_client_order_id ord, xe_symbol = bo_symbol ord,
                   xe_side = bo_side ord, xe_qty = bo_filled_qty ord,
                   xe_price = (case bo_avg_fill_price ord of None \<Rightarrow> 0 | Some p \<Rightarrow> p),
                   xe_cum_qty = bo_filled_qty ord,
                   xe_filled_at = (case bo_filled_at ord of None \<Rightarrow> 0 | Some t \<Rightarrow> t) \<rparr>)
         (filter (\<lambda>ord. bo_status ord = ''filled'' \<and> bo_filled_qty ord > 0) (map snd (si_orders s)))"

subsection \<open>Idempotence\<close>

lemma sim_verify_cong:
  "si_account s' = si_account s \<Longrightarrow> si_key s' = si_key s \<Longrightarrow> sim_verify mac s' so = sim_verify mac s so"
  by (simp add: sim_verify_def)

lemma sim_fill_get:
  "sim_fill s f qty lp price = (s', Inr ord) \<Longrightarrow>
   map_of (si_orders s') (of_client_order_id f) = Some ord \<and> si_account s' = si_account s \<and> si_key s' = si_key s"
  by (auto simp: sim_fill_def Let_def put_order_def sim_order_def)

lemma sim_reject_get:
  "sim_reject s f qty lp = (s', Inr ord) \<Longrightarrow>
   map_of (si_orders s') (of_client_order_id f) = Some ord \<and> si_account s' = si_account s \<and> si_key s' = si_key s"
  by (auto simp: sim_reject_def put_order_def sim_order_def)

lemma sim_buy_frame [simp]:
  "si_account (sim_buy s sy q n) = si_account s" "si_key (sim_buy s sy q n) = si_key s"
  and sim_sell_frame [simp]:
  "si_account (sim_sell s sy q n) = si_account s" "si_key (sim_sell s sy q n) = si_key s"
  by (simp_all add: sim_buy_def sim_sell_def case_prod_unfold Let_def)

text \<open>The ways an accepted order can go.\<close>

lemma sim_execute_cases:
  obtains (reject) "sim_execute s f qty lp price = sim_reject s f qty lp"
  | (buy) "upper (of_side f) = ''BUY''" "dec (qty * price) \<le> si_settled s"
      "sim_execute s f qty lp price = sim_fill (sim_buy s (upper (of_symbol f)) qty (dec (qty * price))) f qty lp price"
  | (raised) e where "upper (of_side f) \<noteq> ''BUY''"
      "upper (of_side f) \<in> {''SELL'', ''CLOSE''} \<longrightarrow> qty \<le> fst (held_of s (upper (of_symbol f)))"
      "settlement_instant (Aware (si_now s)) 1 = Inl e"
      "sim_execute s f qty lp price = (sim_sell s (upper (of_symbol f)) qty (dec (qty * price)), Inl e)"
  | (sell) t s1 where "upper (of_side f) \<noteq> ''BUY''"
      "upper (of_side f) \<in> {''SELL'', ''CLOSE''} \<longrightarrow> qty \<le> fst (held_of s (upper (of_symbol f)))"
      "settlement_instant (Aware (si_now s)) 1 = Inr t"
      "s1 = sim_sell s (upper (of_symbol f)) qty (dec (qty * price))"
      "sim_execute s f qty lp price
       = sim_fill (s1\<lparr>si_settlements := si_settlements s1 @ [(t, dec (qty * price))]\<rparr>) f qty lp price"
proof -
  define n where "n = dec (qty * price)"
  show ?thesis
  proof (cases "upper (of_side f) = ''BUY''")
    case True
    then show ?thesis using reject buy by (cases "n > si_settled s") (auto simp: sim_execute_def Let_def n_def)
  next
    case False
    show ?thesis
    proof (cases "upper (of_side f) \<in> {''SELL'', ''CLOSE''} \<and> qty > fst (held_of s (upper (of_symbol f)))")
      case True
      with False have "sim_execute s f qty lp price = sim_reject s f qty lp"
        unfolding sim_execute_def Let_def by simp
      then show ?thesis by (rule reject)
    next
      case ok: False
      show ?thesis
      proof (cases "settlement_instant (Aware (si_now s)) 1")
        case (Inl e)
        from raised [OF False _ Inl] show ?thesis using False ok Inl unfolding sim_execute_def Let_def by force
      next
        case (Inr t)
        from sell [OF False _ Inr refl] show ?thesis using False ok Inr unfolding sim_execute_def Let_def by force
      qed
    qed
  qed
qed

lemma sim_execute_get:
  assumes "sim_execute s f qty lp price = (s', Inr ord)"
  shows "map_of (si_orders s') (of_client_order_id f) = Some ord \<and> si_account s' = si_account s \<and> si_key s' = si_key s"
proof (rule sim_execute_cases [of s f qty lp price], goal_cases)
  case 1
  with assms have "sim_reject s f qty lp = (s', Inr ord)" by simp
  then show ?case by (rule sim_reject_get)
next
  case 2
  with assms have "sim_fill (sim_buy s (upper (of_symbol f)) qty (dec (qty * price))) f qty lp price = (s', Inr ord)" by simp
  from sim_fill_get [OF this] show ?case by simp
next
  case (3 e)
  with assms show ?case by simp
next
  case (4 t s1)
  with assms have "sim_fill (s1\<lparr>si_settlements := si_settlements s1 @ [(t, dec (qty * price))]\<rparr>) f qty lp price = (s', Inr ord)" by simp
  from sim_fill_get [OF this] 4(4) show ?case by simp
qed

lemma sim_submit_get:
  assumes "sim_submit_impl mac so s = (s', Inr ord)"
  shows "map_of (si_orders s') (of_client_order_id (so_fields so)) = Some ord
     \<and> si_account s' = si_account s \<and> si_key s' = si_key s"
proof (cases "map_of (si_orders s) (of_client_order_id (so_fields so))")
  case None
  then obtain q where q: "of_authorized_qty (so_fields so) = Some q"
    using assms by (cases "of_authorized_qty (so_fields so)") (auto simp: sim_submit_impl_def Let_def split: sum.splits)
  let ?lp = "map_option to_decimal_float (of_limit_price (so_fields so))"
  show ?thesis
  proof (cases "sim_price s (upper (of_symbol (so_fields so))) ?lp")
    case pn: None
    then have "sim_reject s (so_fields so) (to_decimal_float q) ?lp = (s', Inr ord)"
      using assms None q by (simp add: sim_submit_impl_def Let_def split: sum.splits)
    then show ?thesis by (rule sim_reject_get)
  next
    case (Some p)
    then have "sim_execute s (so_fields so) (to_decimal_float q) ?lp p = (s', Inr ord)"
      using assms None q by (simp add: sim_submit_impl_def Let_def split: sum.splits)
    then show ?thesis by (rule sim_execute_get)
  qed
next
  case (Some ord')
  then show ?thesis using assms by (auto simp: sim_submit_impl_def Let_def split: sum.splits)
qed

interpretation sim: idempotent_impl "sim_submit_impl mac" sim_get "\<lambda>so s. sim_verify mac s so = Inr ()" for mac :: "'k mac"
proof unfold_locales
  fix so so' :: staged_order and b b' :: "'k sim" and ord
  show "sim_verify mac b so = Inr () \<Longrightarrow> sim_get b (of_client_order_id (so_fields so)) = Some ord \<Longrightarrow>
      sim_submit_impl mac so b = (b, Inr ord)"
    by (simp add: sim_submit_impl_def sim_get_def Let_def)
  assume "sim_submit_impl mac so b = (b', Inr ord)"
  note g = sim_submit_get [OF this]
  then show "sim_get b' (of_client_order_id (so_fields so)) = Some ord" by (simp add: sim_get_def)
  show "sim_verify mac b' so' = Inr ()" if "sim_verify mac b so' = Inr ()"
    using sim_verify_cong [of b' b mac so'] g that by simp
qed

subsection \<open>Solvency\<close>

text \<open>No negative settled cash, no negative position, no negative proceeds in flight.\<close>

definition solvent :: "'k sim \<Rightarrow> bool" where
  "solvent s \<longleftrightarrow> 0 \<le> si_settled s \<and> (\<forall>sy. 0 \<le> fst (held_of s sy))
     \<and> (\<forall>(t, a) \<in> set (si_settlements s). 0 \<le> a) \<and> (\<forall>(sy, p) \<in> set (si_prices s). 0 \<le> p)"

definition order_sane :: "order_fields \<Rightarrow> bool" where
  "order_sane f \<longleftrightarrow> upper (of_side f) \<in> {''BUY'', ''SELL'', ''CLOSE''}
     \<and> (\<forall>q. of_authorized_qty f = Some q \<longrightarrow> 0 \<le> q \<and> fl q = q)
     \<and> (\<forall>l. of_limit_price f = Some l \<longrightarrow> 0 \<le> l \<and> fl l = l)"

lemma solvent_put_order [simp]: "solvent (put_order s ord) = solvent s"
  by (simp add: solvent_def put_order_def held_of_def)

lemma solvent_buy:
  assumes "solvent s" and "0 \<le> qty" and "notional \<le> si_settled s"
  shows "solvent (sim_buy s sy qty notional)"
  using assms
  by (auto simp: solvent_def sim_buy_def Let_def held_of_def split: prod.splits intro!: dcm.rnd_nonneg add_nonneg_nonneg)
     (metis fst_conv)+

lemma solvent_sell:
  assumes "solvent s" and "qty \<le> fst (held_of s sy)"
  shows "solvent (sim_sell s sy qty notional)"
  using assms
  by (auto simp: solvent_def sim_sell_def Let_def held_of_def split: prod.splits intro!: dcm.rnd_nonneg)

lemma solvent_execute:
  assumes "solvent s" and "0 \<le> qty" and "0 \<le> price" and "upper (of_side f) \<in> {''BUY'', ''SELL'', ''CLOSE''}"
  shows "solvent (fst (sim_execute s f qty lp price))"
proof -
  have n: "0 \<le> dec (qty * price)" using assms by (intro dcm.rnd_nonneg) simp
  have add: "solvent s' \<Longrightarrow> solvent (s'\<lparr>si_settlements := si_settlements s' @ [(t, dec (qty * price))]\<rparr>)" for s' :: "'a sim" and t
    using n by (auto simp: solvent_def held_of_def)
  have fill: "solvent s' \<Longrightarrow> solvent (fst (sim_fill s' f qty lp price))" for s' :: "'a sim"
    by (simp add: sim_fill_def Let_def)
  show ?thesis
  proof (rule sim_execute_cases [of s f qty lp price], goal_cases)
    case 1
    then show ?case using assms(1) by (simp add: sim_reject_def)
  next
    case 2
    then show ?case using fill solvent_buy [OF assms(1,2)] by simp
  next
    case (3 e)
    then show ?case using solvent_sell [OF assms(1)] assms(4) by auto
  next
    case (4 t s1)
    then have "solvent s1" using solvent_sell [OF assms(1)] assms(4) by auto
    then show ?case using 4(5) fill [OF add] by simp
  qed
qed

lemma sim_price_nonneg:
  assumes "solvent s" and "\<forall>l. lp = Some l \<longrightarrow> 0 \<le> l" and "sim_price s sy lp = Some p"
  shows "0 \<le> p"
  using assms by (auto simp: sim_price_def solvent_def split: option.splits if_splits dest!: map_of_SomeD)

lemma solvent_submit:
  assumes "solvent s" and "order_sane (so_fields so)"
  shows "solvent (fst (sim_submit_impl mac so s))"
proof -
  have *: "solvent (fst (sim_execute s (so_fields so) (to_decimal_float q) (map_option to_decimal_float lp) p))"
    if "of_authorized_qty (so_fields so) = Some q" "of_limit_price (so_fields so) = lp"
      "sim_price s (upper (of_symbol (so_fields so))) (map_option to_decimal_float lp) = Some p" for q lp p
    using that assms
    by (intro solvent_execute sim_price_nonneg [OF assms(1) _ that(3)])
       (auto simp: order_sane_def intro!: to_decimal_nonneg)
  show ?thesis using assms(1) *
    by (auto simp: sim_submit_impl_def Let_def sim_reject_def split: sum.splits option.splits)
qed

lemma solvent_settle: "solvent s \<Longrightarrow> 0 \<le> snd ta \<Longrightarrow> solvent (settle_one s ta)"
proof -
  assume s: "solvent s" and ta: "0 \<le> snd ta"
  have "set (remove1 ta (si_settlements s)) \<subseteq> set (si_settlements s)" by (rule set_remove1_subset)
  moreover have "0 \<le> dec (si_settled s + snd ta)"
    using s ta by (intro dcm.rnd_nonneg) (simp add: solvent_def)
  ultimately show ?thesis using s unfolding solvent_def settle_one_def held_of_def by auto
qed

lemma solvent_settle_all:
  "solvent s \<Longrightarrow> \<forall>ta \<in> set due. 0 \<le> snd ta \<Longrightarrow> solvent (foldl settle_one s due)"
  by (induction due arbitrary: s) (simp_all add: solvent_settle)

lemma solvent_advance: "solvent s \<Longrightarrow> solvent (sim_advance d s)"
proof -
  assume s: "solvent s"
  have "\<forall>ta \<in> set (si_settlements s). 0 \<le> snd ta" using s unfolding solvent_def by force
  moreover have "solvent (s\<lparr>si_now := si_now s + d\<rparr>)" using s by (simp add: solvent_def held_of_def)
  ultimately show ?thesis
    unfolding sim_advance_def Let_def by (intro solvent_settle_all) simp_all
qed

subsection \<open>Reachable states\<close>

inductive sim_step :: "'k mac \<Rightarrow> 'k sim \<Rightarrow> 'k sim \<Rightarrow> bool" for mac where
  step_submit: "order_sane (so_fields so) \<Longrightarrow> sim_step mac s (fst (sim_submit_impl mac so s))"
| step_cancel: "sim_step mac s (fst (sim_cancel_impl mac so s))"
| step_price: "0 \<le> p \<Longrightarrow> sim_step mac s (sim_set_price sy p s)"
| step_advance: "sim_step mac s (sim_advance d s)"

inductive sim_reaches :: "'k mac \<Rightarrow> 'k sim \<Rightarrow> 'k sim \<Rightarrow> bool" for mac where
  reaches_refl: "sim_reaches mac s s"
| reaches_step: "sim_reaches mac s s1 \<Longrightarrow> sim_step mac s1 s2 \<Longrightarrow> sim_reaches mac s s2"

inductive_cases sim_step_cases: "sim_step mac s s'"

lemma cancel_frame:
  "held_of (fst (sim_cancel_impl mac so s)) sy = held_of s sy"
  "si_settled (fst (sim_cancel_impl mac so s)) = si_settled s"
  "si_settlements (fst (sim_cancel_impl mac so s)) = si_settlements s"
  "si_prices (fst (sim_cancel_impl mac so s)) = si_prices s"
  by (simp_all add: sim_cancel_impl_def held_of_def split: sum.split option.split)

lemma solvent_price: "solvent s \<Longrightarrow> 0 \<le> p \<Longrightarrow> solvent (sim_set_price sy p s)"
  unfolding solvent_def sim_set_price_def held_of_def by (auto dest!: update_mem)

lemma sim_step_solvent: "sim_step mac s s' \<Longrightarrow> solvent s \<Longrightarrow> solvent s'"
proof (induction rule: sim_step.induct)
  case (step_cancel s so)
  then show ?case unfolding solvent_def by (simp add: cancel_frame)
qed (auto intro: solvent_submit solvent_price solvent_advance)

lemma sim_reaches_solvent: "sim_reaches mac s s' \<Longrightarrow> solvent s \<Longrightarrow> solvent s'"
  by (induction rule: sim_reaches.induct) (auto intro: sim_step_solvent)

subsection \<open>Properties\<close>

text \<open>
C13: The paper broker never goes short of anything: from a simulator opened with non-negative cash, no
  sequence of submissions (of BUY, SELL or CLOSE with non-negative representable quantities and limits),
  cancels, price changes and clock advances, including submissions that raise part-way, makes settled
  cash or any position negative: a BUY never spends unsettled proceeds, a sale never sells shares not held.
\<close>
theorem simulator_stays_solvent:
  assumes "make_sim acct cash posture now cred key = Inr s" and "0 \<le> cash" and "sim_reaches mac s s'"
  shows "0 \<le> si_settled s' \<and> 0 \<le> fst (held_of s' sy) \<and> (\<forall>(t, a) \<in> set (si_settlements s'). 0 \<le> a)"
proof -
  have "solvent s" using assms(1,2) by (auto simp: make_sim_def solvent_def held_of_def dict_get_def result_simps)
  from sim_reaches_solvent [OF assms(3) this] show ?thesis by (auto simp: solvent_def)
qed

definition ex_sim :: "nat sim" where
  "ex_sim = \<lparr> si_account = ''A1'', si_key = Some 7, si_cash = 100, si_settled = 100, si_unsettled = 0,
     si_posture = CASH, si_positions = [], si_orders = [], si_prices = [], si_now = 0,
     si_settlements = [], si_day_trades = 0 \<rparr>"

lemma ex_sim_made: "make_sim ''A1'' 100 CASH 0 None (Some 7) = Inr ex_sim"
  by (simp add: make_sim_def make_adapter_def ex_sim_def)

theorem simulator_stays_solvent_witness:
  "0 \<le> si_settled (fst (sim_submit_impl ex_mac ex_order (sim_set_price ''SPY'' 12 ex_sim)))"
proof -
  have sane: "order_sane (so_fields ex_order)" by (simp add: order_sane_def num_simps)
  have "sim_reaches ex_mac ex_sim (fst (sim_submit_impl ex_mac ex_order (sim_set_price ''SPY'' 12 ex_sim)))"
    by (rule reaches_step [OF reaches_step [OF reaches_refl step_price] step_submit [OF sane]]) simp
  from simulator_stays_solvent [OF ex_sim_made _ this] show ?thesis by simp
qed

text \<open>
  Submitting is idempotent on the client order id: after a submission returned an order, filled or rejected,
  submitting any verified order under the same client order id returns that same order and changes nothing, so a
  retry after an ambiguous acknowledgement never trades twice.
\<close>
theorem simulator_retry_is_harmless:
  assumes "sim_submit_impl mac so s = (s', Inr ord)" and "sim_verify mac s so' = Inr ()"
    and "of_client_order_id (so_fields so') = of_client_order_id (so_fields so)"
  shows "sim_submit_impl mac so' s' = (s', Inr ord)"
  by (rule sim.retry [OF assms])

lemma ex_order_verified: "sim_verify ex_mac ex_sim ex_order = Inr ()"
  unfolding sim_verify_def verify_staged_ok
  by (simp add: ex_sim_def ex_order_def so_verify_def ex_mac_def)

lemma ex_order_rejected:
  "\<exists>s' ord. sim_submit_impl ex_mac ex_order (ex_sim\<lparr>si_settled := 0\<rparr>) = (s', Inr ord) \<and> bo_status ord = ''rejected''"
proof -
  let ?s = "ex_sim\<lparr>si_settled := 0\<rparr>" and ?q = "to_decimal_float 2" and ?p = "to_decimal_float 10"
  have p: "0 < ?p" "0 < ?q"
    using to_decimal_less [of 0 10] to_decimal_less [of 0 2] to_decimal_nonneg [of 0] by (simp_all add: num_simps)
  then have n: "0 < dec (?q * ?p)" by (simp add: dcm.rnd_pos_iff)
  have v: "sim_verify ex_mac ?s ex_order = Inr ()"
    using ex_order_verified sim_verify_cong [of ?s ex_sim] by simp
  have "sim_execute ?s (so_fields ex_order) ?q (Some ?p) ?p = sim_reject ?s (so_fields ex_order) ?q (Some ?p)"
    using n by (simp add: sim_execute_def Let_def)
  moreover have "map_of (si_orders ?s) ''o1'' = None" by (simp add: ex_sim_def)
  ultimately have "sim_submit_impl ex_mac ex_order ?s = sim_reject ?s (so_fields ex_order) ?q (Some ?p)"
    using v p by (simp add: sim_submit_impl_def Let_def sim_price_def)
  then show ?thesis by (simp add: sim_reject_def sim_order_def)
qed

theorem simulator_retry_is_harmless_witness:
  "\<exists>s' ord. sim_submit_impl ex_mac ex_order (ex_sim\<lparr>si_settled := 0\<rparr>) = (s', Inr ord)
     \<and> sim_submit_impl ex_mac ex_order s' = (s', Inr ord)"
proof -
  obtain s' ord where s': "sim_submit_impl ex_mac ex_order (ex_sim\<lparr>si_settled := 0\<rparr>) = (s', Inr ord)"
    using ex_order_rejected by blast
  have "sim_verify ex_mac (ex_sim\<lparr>si_settled := 0\<rparr>) ex_order = Inr ()"
    using ex_order_verified sim_verify_cong [of "ex_sim\<lparr>si_settled := 0\<rparr>" ex_sim] by simp
  from simulator_retry_is_harmless [OF s' this refl] s' show ?thesis by blast
qed

text \<open>
  A sale outside the calendar's coverage is half applied: the simulator has already moved the shares and
  booked the proceeds when the settlement instant raises, so the caller sees an exception while the position
  is gone, no order is recorded under the client order id and no settlement is pending for the proceeds.
\<close>
theorem simulator_sale_not_atomic:
  assumes "sim_verify mac s so = Inr ()" and "map_of (si_orders s) (of_client_order_id (so_fields so)) = None"
    and "of_side (so_fields so) = ''SELL''" and "of_authorized_qty (so_fields so) = Some q"
    and "sim_price s (upper (of_symbol (so_fields so))) (map_option to_decimal_float (of_limit_price (so_fields so))) = Some price"
    and "held_of s (upper (of_symbol (so_fields so))) = (held, avg)" and "to_decimal_float q \<le> held"
    and "settlement_instant (Aware (si_now s)) 1 = Inl e"
  shows "\<exists>s'. sim_submit_impl mac so s = (s', Inl e)
    \<and> held_of s' (upper (of_symbol (so_fields so))) = (dec (held - to_decimal_float q), avg)
    \<and> si_unsettled s' = dec (si_unsettled s + dec (to_decimal_float q * price))
    \<and> si_settlements s' = si_settlements s \<and> sim_get s' (of_client_order_id (so_fields so)) = None"
proof -
  define lp where "lp = map_option to_decimal_float (of_limit_price (so_fields so))"
  have "sim_execute s (so_fields so) (to_decimal_float q) lp price
      = (sim_sell s (upper (of_symbol (so_fields so))) (to_decimal_float q) (dec (to_decimal_float q * price)), Inl e)"
    unfolding sim_execute_def Let_def using assms by simp
  then have "sim_submit_impl mac so s
      = (sim_sell s (upper (of_symbol (so_fields so))) (to_decimal_float q) (dec (to_decimal_float q * price)), Inl e)"
    using assms by (simp add: sim_submit_impl_def Let_def lp_def)
  then show ?thesis using assms(2,6) by (simp add: sim_sell_def held_of_def sim_get_def)
qed

definition ex_late_sell :: staged_order where
  "ex_late_sell = sign_staged_order ex_mac
     ((so_fields ex_order)\<lparr>of_side := ''SELL'', of_authorized_qty := Some 2, of_lot_id := Some ''L1''\<rparr>) 7"

definition ex_late_sim :: "nat sim" where
  "ex_late_sim = ex_sim\<lparr>si_now := 80 * 366 * day_us, si_positions := [(''SPY'', (5, 10))]\<rparr>"

theorem simulator_sale_not_atomic_witness:
  "\<exists>s' e. sim_submit_impl ex_mac ex_late_sell ex_late_sim = (s', Inl e)
     \<and> si_settlements s' = [] \<and> sim_get s' ''o1'' = None"
proof -
  have v: "sim_verify ex_mac ex_late_sim ex_late_sell = Inr ()"
    unfolding sim_verify_def verify_staged_ok
    by (simp add: ex_sim_def ex_order_def ex_late_sim_def ex_late_sell_def so_verify_def ex_mac_def)
  have "\<not> is_ok (settlement_instant (Aware (80 * 366 * day_us)) 1)" by code_simp
  then obtain e where e: "settlement_instant (Aware (si_now ex_late_sim)) 1 = Inl e"
    by (cases "settlement_instant (Aware (80 * 366 * day_us)) 1") (auto simp: ex_late_sim_def is_ok_def)
  have p: "0 < to_decimal_float 10"
    using to_decimal_less [of 0 10] to_decimal_nonneg [of 0] by (simp add: num_simps)
  have "fl 2 = 2" by (simp add: num_simps)
  have q: "to_decimal_float 2 \<le> 5"
  proof (rule ccontr)
    assume "\<not> to_decimal_float 2 \<le> 5"
    then have "fl 5 \<le> fl (to_decimal_float 2)" by (intro flt.rnd_mono) simp
    then show False by (simp add: to_decimal_reads_back num_simps)
  qed
  from simulator_sale_not_atomic [OF v _ _ _ _ _ q e, of "to_decimal_float 10" 10] p
  show ?thesis
    by (auto simp: ex_late_sell_def ex_late_sim_def ex_sim_def ex_order_def sim_price_def held_of_def dict_get_def)
qed

end
