(* ===== verification/Ledger.thy ===== *)
theory Ledger
  imports Lots Accounts
begin

text \<open>
  agent/ledger.py: the append-only ledger of one account, and everything derived from it.

  Each of the four records has the same replay discipline, the locale \<open>append_only\<close>: an
  identical record is a no-op, another record under the same id is refused, anything else is
  appended. It is interpreted for fills, cash adjustments and opening-balance corrections.
  Money and quantities are Decimals; a derived value that depends on settlement may raise, since
  settlement is a calendar computation.
\<close>

subsection \<open>Records\<close>

record fill =
  fi_fill_id :: string
  fi_account :: string
  fi_symbol :: string
  fi_side :: string
  fi_qty :: decimal
  fi_price :: decimal
  fi_filled_at :: instant
  fi_lot_id :: string
  fi_policy_version :: "string option"

record cash_adjustment =
  cj_adjustment_id :: string
  cj_account :: string
  cj_amount :: decimal
  cj_activity_type :: string
  cj_description :: string
  cj_effective_date :: date
  cj_symbol :: "string option"

record balance_correction =
  bc_correction_id :: string
  bcn_account :: string
  bc_amount :: decimal
  bc_reason :: string
  bc_corrects_at :: instant
  bc_recorded_at :: instant

record disposal_record =
  dr_fill_id :: string
  dr_account :: string
  dr_symbol :: string
  dr_intended_lot_id :: string
  dr_broker_lot_id :: string
  dr_at :: instant

record closed_lot =
  cl_lot_id :: string
  cl_account :: string
  cl_symbol :: string
  cl_qty :: decimal
  cl_cost_basis :: decimal
  cl_proceeds :: decimal
  cl_opened_at :: instant
  cl_closed_at :: instant

definition realized_pnl :: "closed_lot \<Rightarrow> decimal" where
  "realized_pnl c = dec (cl_proceeds c - cl_cost_basis c)"

record order_record =
  or_client_order_id :: string
  or_account :: string
  or_status :: string
  or_at :: instant
  or_lot_id :: "string option"
  or_policy_version :: "string option"

record ledger =
  le_account :: string
  le_opening_cash :: decimal
  le_opening_positions :: "decimal dict"
  le_registry :: hp_registry
  le_t_plus :: int
  le_policy :: lot_selection_policy
  le_fills :: "fill list"
  le_order_records :: "order_record list"
  le_fill_ids :: "fill dict"
  le_adjustments :: "cash_adjustment list"
  le_adjustment_ids :: "cash_adjustment dict"
  le_corrections :: "balance_correction list"
  le_correction_ids :: "balance_correction dict"

definition cash_notional :: "decimal \<Rightarrow> decimal \<Rightarrow> decimal result" where
  "cash_notional qty price = quantize_cent (dec (qty * price))"

definition make_ledger ::
  "string \<Rightarrow> decimal \<Rightarrow> hp_registry \<Rightarrow> int \<Rightarrow> lot_selection_policy \<Rightarrow> decimal dict \<Rightarrow> ledger result" where
  "make_ledger acct opening reg t_plus policy opening_positions =
     (if opening < 0 then Inl LedgerError
      else Inr \<lparr> le_account = acct, le_opening_cash = opening, le_opening_positions = opening_positions,
                 le_registry = reg, le_t_plus = t_plus, le_policy = policy, le_fills = [],
                 le_order_records = [], le_fill_ids = [], le_adjustments = [], le_adjustment_ids = [],
                 le_corrections = [], le_correction_ids = [] \<rparr>)"

subsection \<open>Writes\<close>

text \<open>The replay check of one id: \<open>True\<close> to append, \<open>False\<close> for an identical replay.\<close>

definition replay_check :: "'r dict \<Rightarrow> string \<Rightarrow> 'r \<Rightarrow> exn \<Rightarrow> bool result" where
  "replay_check ids k r e =
     (case map_of ids k of
        Some existing \<Rightarrow> if existing \<noteq> r then Inl e else Inr False
      | None \<Rightarrow> Inr True)"

definition record_cash_adjustment :: "ledger \<Rightarrow> cash_adjustment \<Rightarrow> ledger result" where
  "record_cash_adjustment l a =
     (if cj_account a \<noteq> le_account l then Inl (CrossAccountError (le_account l) (cj_account a))
      else bindE (replay_check (le_adjustment_ids l) (cj_adjustment_id a) a DuplicateCashAdjustmentError)
        (\<lambda>new. Inr (if new then
           l\<lparr>le_adjustments := le_adjustments l @ [a],
             le_adjustment_ids := AList.update (cj_adjustment_id a) a (le_adjustment_ids l)\<rparr> else l)))"

definition record_balance_correction :: "ledger \<Rightarrow> balance_correction \<Rightarrow> ledger result" where
  "record_balance_correction l c =
     (if bcn_account c \<noteq> le_account l then Inl (CrossAccountError (le_account l) (bcn_account c))
      else bindE (replay_check (le_correction_ids l) (bc_correction_id c) c DuplicateOpeningBalanceCorrectionError)
        (\<lambda>new. Inr (if new then
           l\<lparr>le_corrections := le_corrections l @ [c],
             le_correction_ids := AList.update (bc_correction_id c) c (le_correction_ids l)\<rparr> else l)))"

definition is_buy :: "fill \<Rightarrow> bool" where "is_buy f \<longleftrightarrow> upper (fi_side f) = ''BUY''"
definition is_sell :: "fill \<Rightarrow> bool" where "is_sell f \<longleftrightarrow> upper (fi_side f) = ''SELL''"

definition already_sold :: "fill list \<Rightarrow> string \<Rightarrow> decimal" where
  "already_sold fs lid =
     sum_seq dec 0 (map fi_qty (filter (\<lambda>f. fi_lot_id f = lid \<and> is_sell f) fs))"

definition check_buy :: "hp_registry \<Rightarrow> fill list \<Rightarrow> fill \<Rightarrow> unit result" where
  "check_buy reg fs f =
     (case fi_policy_version f of
        None \<Rightarrow> Inl LedgerError
      | Some v \<Rightarrow>
          if \<exists>g \<in> set fs. fi_lot_id g = fi_lot_id f \<and> is_buy g then Inl LedgerError
          else bindE (hp_get reg v) (\<lambda>_. Inr ()))"

definition check_sell :: "fill list \<Rightarrow> fill \<Rightarrow> unit result" where
  "check_sell fs f =
     (case List.find (\<lambda>g. fi_lot_id g = fi_lot_id f \<and> is_buy g) fs of
        None \<Rightarrow> Inl UnknownLotError
      | Some buy \<Rightarrow>
          if fi_symbol buy \<noteq> fi_symbol f then Inl LedgerError
          else if dec (already_sold fs (fi_lot_id f) + fi_qty f) > fi_qty buy then Inl LotOverdrawnError
          else Inr ())"

definition record_fill :: "ledger \<Rightarrow> fill \<Rightarrow> ledger result" where
  "record_fill l f =
     (if fi_account f \<noteq> le_account l then Inl (CrossAccountError (le_account l) (fi_account f))
      else if \<not> is_buy f \<and> \<not> is_sell f then Inl LedgerError
      else if fi_qty f \<le> 0 then Inl LedgerError
      else bindE (replay_check (le_fill_ids l) (fi_fill_id f) f DuplicateFillError) (\<lambda>new.
        if \<not> new then Inr l
        else bindE (if is_buy f then check_buy (le_registry l) (le_fills l) f else check_sell (le_fills l) f)
          (\<lambda>_. Inr (l\<lparr>le_fills := le_fills l @ [f],
                      le_fill_ids := AList.update (fi_fill_id f) f (le_fill_ids l)\<rparr>))))"

definition record_order_status :: "ledger \<Rightarrow> order_record \<Rightarrow> ledger result" where
  "record_order_status l r =
     (if or_account r \<noteq> le_account l then Inl (CrossAccountError (le_account l) (or_account r))
      else if or_status r \<notin> {''OPEN'', ''CLOSED''} then Inl LedgerError
      else Inr (l\<lparr>le_order_records := le_order_records l @ [r]\<rparr>))"

definition from_records ::
  "string \<Rightarrow> decimal \<Rightarrow> hp_registry \<Rightarrow> int \<Rightarrow> lot_selection_policy \<Rightarrow> fill list \<Rightarrow> order_record list
   \<Rightarrow> cash_adjustment list \<Rightarrow> balance_correction list \<Rightarrow> decimal dict \<Rightarrow> ledger result" where
  "from_records acct opening reg t_plus policy fills orders adjustments corrections opening_positions =
     bindE (make_ledger acct opening reg t_plus policy opening_positions) (\<lambda>l0.
     bindE (foldE record_fill l0 fills) (\<lambda>l1.
     bindE (foldE record_order_status l1 orders) (\<lambda>l2.
     bindE (foldE record_cash_adjustment l2 adjustments) (\<lambda>l3.
       foldE record_balance_correction l3 corrections))))"

subsection \<open>Derived state\<close>

definition fill_settles_at :: "ledger \<Rightarrow> fill \<Rightarrow> instant result" where
  "fill_settles_at l f = settlement_instant (Aware (fi_filled_at f)) (le_t_plus l)"

text \<open>The three dicts the derivations build from the fills, in one pass each.\<close>

definition buys_of :: "fill list \<Rightarrow> fill dict" where
  "buys_of fs = foldl (\<lambda>d f. if is_buy f then AList.update (fi_lot_id f) f d else d) [] fs"

definition sold_of :: "fill list \<Rightarrow> decimal dict" where
  "sold_of fs = foldl (\<lambda>d f. if is_buy f then d
     else AList.update (fi_lot_id f) (dec (dict_get d (fi_lot_id f) 0 + fi_qty f)) d) [] fs"

definition last_sell_of :: "fill list \<Rightarrow> instant dict" where
  "last_sell_of fs = foldl (\<lambda>d f. if is_buy f then d
     else AList.update (fi_lot_id f) (fi_filled_at f) d) [] fs"

definition proceeds_of :: "fill list \<Rightarrow> decimal dict result" where
  "proceeds_of fs = foldE (\<lambda>d f. if is_buy f then Inr d
     else bindE (cash_notional (fi_qty f) (fi_price f)) (\<lambda>n.
       Inr (AList.update (fi_lot_id f) (dec (dict_get d (fi_lot_id f) 0 + n)) d))) [] fs"

text \<open>\<open>mapE\<close>: a list comprehension whose body may raise.\<close>

fun mapE :: "('a \<Rightarrow> 'b result) \<Rightarrow> 'a list \<Rightarrow> 'b list result" where
  "mapE f [] = Inr []"
| "mapE f (x # xs) = bindE (f x) (\<lambda>y. bindE (mapE f xs) (\<lambda>ys. Inr (y # ys)))"

definition lot_of_buy :: "ledger \<Rightarrow> string \<times> fill \<Rightarrow> lot result" where
  "lot_of_buy l = (\<lambda>(lid, buy).
     bindE (fill_settles_at l buy) (\<lambda>settles.
     bindE (case fi_policy_version buy of None \<Rightarrow> Inl HoldingViolation
            | Some v \<Rightarrow> make_lot (le_registry l) lid (le_account l) (fi_symbol buy) (fi_qty buy)
                (dec (fi_qty buy * fi_price buy)) (fi_filled_at buy) v (Some settles)) (\<lambda>base.
       let sold = dict_get (sold_of (le_fills l)) lid 0;
           remaining = max (dec (lot_qty base - sold)) 0;
           fraction = (if lot_qty base \<noteq> 0 then dec (remaining / lot_qty base) else 0)
       in Inr (base\<lparr>lot_qty := remaining, lot_cost_basis := dec (lot_cost_basis base * fraction),
                    lot_closed_at := (if remaining \<le> 0 then map_of (last_sell_of (le_fills l)) lid
                                      else None)\<rparr>))))"

definition lots :: "ledger \<Rightarrow> lot list result" where
  "lots l = mapE (lot_of_buy l) (buys_of (le_fills l))"

definition closed_lots :: "ledger \<Rightarrow> closed_lot list result" where
  "closed_lots l =
     bindE (proceeds_of (le_fills l)) (\<lambda>proceeds.
       mapE (\<lambda>(lid, buy).
          case (map_of proceeds lid, map_of (last_sell_of (le_fills l)) lid) of
            (Some pr, Some closed_at) \<Rightarrow>
              Inr \<lparr> cl_lot_id = lid, cl_account = fi_account buy, cl_symbol = fi_symbol buy,
                    cl_qty = fi_qty buy, cl_cost_basis = dec (fi_qty buy * fi_price buy),
                    cl_proceeds = pr, cl_opened_at = fi_filled_at buy, cl_closed_at = closed_at \<rparr>
          | _ \<Rightarrow> Inl (KeyError lid))
        (filter (\<lambda>(lid, buy). \<not> dict_get (sold_of (le_fills l)) lid 0 < fi_qty buy)
           (buys_of (le_fills l))))"

text \<open>The forward replay of \<open>disposal_records\<close>: what is open just before each sell.\<close>

record disposal_state =
  ds_remaining :: "decimal dict"
  ds_opened_at :: "instant dict"
  ds_symbol_of :: "string dict"
  ds_out :: "disposal_record list"

definition open_refs :: "disposal_state \<Rightarrow> string \<Rightarrow> (string \<times> instant) list" where
  "open_refs d sy =
     map (\<lambda>(lid, _). (lid, dict_get (ds_opened_at d) lid 0))
       (filter (\<lambda>(lid, q). q > 0 \<and> map_of (ds_symbol_of d) lid = Some sy) (ds_remaining d))"

definition ref_key :: "string \<times> instant \<Rightarrow> instant \<times> string" where
  "ref_key r = (snd r, fst r)"

definition disposal_step :: "lot_selection_policy \<Rightarrow> disposal_state \<Rightarrow> fill \<Rightarrow> disposal_state result" where
  "disposal_step policy d f =
     (let lid = fi_lot_id f; rem = dict_get (ds_remaining d) lid 0 in
      if is_buy f then
        Inr (d\<lparr>ds_remaining := AList.update lid (dec (rem + fi_qty f)) (ds_remaining d),
               ds_opened_at := (case map_of (ds_opened_at d) lid of
                                  None \<Rightarrow> AList.update lid (fi_filled_at f) (ds_opened_at d)
                                | Some _ \<Rightarrow> ds_opened_at d),
               ds_symbol_of := AList.update lid (fi_symbol f) (ds_symbol_of d)\<rparr>)
      else
        bindE (disposal_order policy ref_key (open_refs d (fi_symbol f))) (\<lambda>ordered.
          Inr (d\<lparr>ds_out := ds_out d @
                   [\<lparr> dr_fill_id = fi_fill_id f, dr_account = fi_account f, dr_symbol = fi_symbol f,
                      dr_intended_lot_id = lid,
                      dr_broker_lot_id = (case ordered of [] \<Rightarrow> lid | r # _ \<Rightarrow> fst r),
                      dr_at = fi_filled_at f \<rparr>],
                 ds_remaining := AList.update lid (dec (rem - fi_qty f)) (ds_remaining d)\<rparr>)))"

definition disposal_records :: "ledger \<Rightarrow> disposal_record list result" where
  "disposal_records l =
     bindE (foldE (disposal_step (le_policy l))
        \<lparr> ds_remaining = [], ds_opened_at = [], ds_symbol_of = [], ds_out = [] \<rparr> (le_fills l))
       (\<lambda>d. Inr (ds_out d))"

definition positions :: "ledger \<Rightarrow> decimal dict result" where
  "positions l =
     bindE (lots l) (\<lambda>ls.
       Inr (foldl (\<lambda>d lt. if is_open lt \<and> lot_account lt = le_account l
                     then AList.update (lot_symbol lt) (dec (dict_get d (lot_symbol lt) 0 + lot_qty lt)) d
                     else d) (le_opening_positions l) ls))"

definition settle_fill :: "ledger \<Rightarrow> instant \<Rightarrow> decimal \<Rightarrow> fill \<Rightarrow> decimal result" where
  "settle_fill l now tot f =
     bindE (cash_notional (fi_qty f) (fi_price f)) (\<lambda>n.
       if is_buy f then Inr (dec (tot - n))
       else bindE (fill_settles_at l f) (\<lambda>t. Inr (if now \<ge> t then dec (tot + n) else tot)))"

definition settled_cash :: "ledger \<Rightarrow> instant \<Rightarrow> decimal result" where
  "settled_cash l now =
     bindE (foldE (settle_fill l now) (le_opening_cash l) (le_fills l)) (\<lambda>tot.
       Inr (sum_seq dec (sum_seq dec tot (map cj_amount (le_adjustments l)))
              (map bc_amount (le_corrections l))))"

definition unsettle_fill :: "ledger \<Rightarrow> instant \<Rightarrow> decimal \<Rightarrow> fill \<Rightarrow> decimal result" where
  "unsettle_fill l now tot f =
     (if is_sell f then
        bindE (fill_settles_at l f) (\<lambda>t.
          if now < t then bindE (cash_notional (fi_qty f) (fi_price f)) (\<lambda>n. Inr (dec (tot + n)))
          else Inr tot)
      else Inr tot)"

definition unsettled_cash :: "ledger \<Rightarrow> instant \<Rightarrow> decimal result" where
  "unsettled_cash l now = foldE (unsettle_fill l now) 0 (le_fills l)"

definition latest_status :: "order_record list \<Rightarrow> string dict" where
  "latest_status rs = foldl (\<lambda>d r. AList.update (or_client_order_id r) (or_status r) d) [] rs"

definition open_order_ids :: "ledger \<Rightarrow> string list" where
  "open_order_ids l =
     map fst (filter (\<lambda>(_, st). st = ''OPEN'') (latest_status (le_order_records l)))"

definition latest_order_record :: "ledger \<Rightarrow> string \<Rightarrow> order_record option" where
  "latest_order_record l cid =
     foldl (\<lambda>latest r. if or_client_order_id r = cid then Some r else latest) None (le_order_records l)"

subsection \<open>Append-only records\<close>

locale append_only =
  fixes ok :: "'s \<Rightarrow> bool" and entries :: "'s \<Rightarrow> 'r list" and key :: "'r \<Rightarrow> string"
    and put :: "'s \<Rightarrow> 'r \<Rightarrow> 's result"
  assumes step: "ok s \<Longrightarrow> put s r = Inr s' \<Longrightarrow> ok s' \<and>
            (if r \<in> set (entries s) then s' = s else key r \<notin> key ` set (entries s) \<and> entries s' = entries s @ [r])"
    and replay: "ok s \<Longrightarrow> r \<in> set (entries s) \<Longrightarrow> put s r = Inr s"
    and conflict: "ok s \<Longrightarrow> q \<in> set (entries s) \<Longrightarrow> key r = key q \<Longrightarrow> r \<noteq> q \<Longrightarrow> \<exists>e. put s r = Inl e"
begin

lemma record_all_ok: "ok s \<Longrightarrow> foldE put s rs = Inr s' \<Longrightarrow> ok s'"
  by (rule foldE_invariant [where P = ok]) (auto dest: step)

text \<open>A whole record is appended in order, old entries keep their place, and nothing is lost.\<close>

lemma record_all_grows:
  "ok s \<Longrightarrow> foldE put s rs = Inr s' \<Longrightarrow>
   (\<exists>new. entries s' = entries s @ new) \<and> set (entries s') = set (entries s) \<union> set rs"
proof (induction rs arbitrary: s)
  case (Cons r rs)
  then obtain t where t: "put s r = Inr t" "foldE put t rs = Inr s'" by (auto simp: result_simps)
  note st = step [OF Cons.prems(1) t(1)]
  from Cons.IH [OF conjunct1 [OF st] t(2)] st show ?case by (auto split: if_splits)
qed simp

text \<open>Delivering the same records again changes nothing.\<close>

lemma replay_all: "ok s \<Longrightarrow> set rs \<subseteq> set (entries s) \<Longrightarrow> foldE put s rs = Inr s"
  by (induction rs) (auto simp: replay)

lemma deliver_twice: "ok s \<Longrightarrow> foldE put s rs = Inr s' \<Longrightarrow> foldE put s' rs = Inr s'"
  using record_all_grows record_all_ok by (blast intro: replay_all)

end

text \<open>The id dict that goes with a list of records.\<close>

definition index_by :: "('r \<Rightarrow> string) \<Rightarrow> 'r list \<Rightarrow> 'r dict" where
  "index_by k rs = map (\<lambda>r. (k r, r)) rs"

lemma map_of_index:
  "distinct (map k rs) \<Longrightarrow> map_of (index_by k rs) x = Some r \<longleftrightarrow> r \<in> set rs \<and> k r = x"
  unfolding index_by_def by (induction rs) (auto simp: image_iff)

lemma map_of_index_None: "map_of (index_by k rs) x = None \<longleftrightarrow> x \<notin> k ` set rs"
  unfolding index_by_def by (induction rs) auto

lemma index_by_snoc:
  "k r \<notin> k ` set rs \<Longrightarrow> AList.update (k r) r (index_by k rs) = index_by k (rs @ [r])"
  using map_of_index_None [of k rs "k r"] by (simp add: update_absent) (simp add: index_by_def)

lemma replay_check_index:
  "distinct (map k rs) \<Longrightarrow> replay_check (index_by k rs) (k r) r e =
     (if r \<in> set rs then Inr False else if k r \<in> k ` set rs then Inl e else Inr True)"
  using map_of_index [of k rs "k r"] map_of_index_None [of k rs "k r"]
  by (cases "map_of (index_by k rs) (k r)") (auto simp: replay_check_def)

definition fill_ok :: "ledger \<Rightarrow> fill \<Rightarrow> bool" where
  "fill_ok l f \<longleftrightarrow> fi_account f = le_account l \<and> (is_buy f \<or> is_sell f) \<and> 0 < fi_qty f"

definition ledger_ok :: "ledger \<Rightarrow> bool" where
  "ledger_ok l \<longleftrightarrow>
     le_fill_ids l = index_by fi_fill_id (le_fills l) \<and> distinct (map fi_fill_id (le_fills l))
     \<and> (\<forall>f \<in> set (le_fills l). fill_ok l f)
     \<and> le_adjustment_ids l = index_by cj_adjustment_id (le_adjustments l)
     \<and> distinct (map cj_adjustment_id (le_adjustments l))
     \<and> (\<forall>a \<in> set (le_adjustments l). cj_account a = le_account l)
     \<and> le_correction_ids l = index_by bc_correction_id (le_corrections l)
     \<and> distinct (map bc_correction_id (le_corrections l))
     \<and> (\<forall>c \<in> set (le_corrections l). bcn_account c = le_account l)"

lemma is_buy_not_sell [simp]: "is_buy f \<Longrightarrow> \<not> is_sell f"
  by (simp add: is_buy_def is_sell_def)

text \<open>What one call to \<open>record_fill\<close> does.\<close>

definition fill_check :: "ledger \<Rightarrow> fill \<Rightarrow> unit result" where
  "fill_check l f = (if is_buy f then check_buy (le_registry l) (le_fills l) f else check_sell (le_fills l) f)"

lemma record_fill_eq:
  assumes "ledger_ok l"
  shows "record_fill l f =
    (if fi_account f \<noteq> le_account l then Inl (CrossAccountError (le_account l) (fi_account f))
     else if \<not> fill_ok l f then Inl LedgerError
     else if f \<in> set (le_fills l) then Inr l
     else if fi_fill_id f \<in> fi_fill_id ` set (le_fills l) then Inl DuplicateFillError
     else bindE (fill_check l f) (\<lambda>_. Inr (l\<lparr>le_fills := le_fills l @ [f],
            le_fill_ids := index_by fi_fill_id (le_fills l @ [f])\<rparr>)))"
  using assms index_by_snoc [of fi_fill_id f "le_fills l"]
  by (auto simp: record_fill_def ledger_ok_def replay_check_index fill_ok_def fill_check_def)

lemma record_adjustment_eq:
  assumes "ledger_ok l"
  shows "record_cash_adjustment l a =
    (if cj_account a \<noteq> le_account l then Inl (CrossAccountError (le_account l) (cj_account a))
     else if a \<in> set (le_adjustments l) then Inr l
     else if cj_adjustment_id a \<in> cj_adjustment_id ` set (le_adjustments l) then Inl DuplicateCashAdjustmentError
     else Inr (l\<lparr>le_adjustments := le_adjustments l @ [a],
            le_adjustment_ids := index_by cj_adjustment_id (le_adjustments l @ [a])\<rparr>))"
  using assms index_by_snoc [of cj_adjustment_id a "le_adjustments l"]
  by (auto simp: record_cash_adjustment_def ledger_ok_def replay_check_index)

lemma record_correction_eq:
  assumes "ledger_ok l"
  shows "record_balance_correction l c =
    (if bcn_account c \<noteq> le_account l then Inl (CrossAccountError (le_account l) (bcn_account c))
     else if c \<in> set (le_corrections l) then Inr l
     else if bc_correction_id c \<in> bc_correction_id ` set (le_corrections l)
     then Inl DuplicateOpeningBalanceCorrectionError
     else Inr (l\<lparr>le_corrections := le_corrections l @ [c],
            le_correction_ids := index_by bc_correction_id (le_corrections l @ [c])\<rparr>))"
  using assms index_by_snoc [of bc_correction_id c "le_corrections l"]
  by (auto simp: record_balance_correction_def ledger_ok_def replay_check_index)

interpretation fills: append_only ledger_ok le_fills fi_fill_id record_fill
proof unfold_locales
  fix l l' :: ledger and f q :: fill
  assume ok: "ledger_ok l"
  show "record_fill l f = Inr l' \<Longrightarrow> ledger_ok l' \<and> (if f \<in> set (le_fills l) then l' = l
      else fi_fill_id f \<notin> fi_fill_id ` set (le_fills l) \<and> le_fills l' = le_fills l @ [f])"
    using ok unfolding record_fill_eq [OF ok]
    by (auto simp: result_simps ledger_ok_def fill_ok_def split: if_splits)
  show "f \<in> set (le_fills l) \<Longrightarrow> record_fill l f = Inr l"
    using ok unfolding record_fill_eq [OF ok] by (auto simp: ledger_ok_def fill_ok_def)
  show "q \<in> set (le_fills l) \<Longrightarrow> fi_fill_id f = fi_fill_id q \<Longrightarrow> f \<noteq> q \<Longrightarrow> \<exists>e. record_fill l f = Inl e"
  proof -
    assume a: "q \<in> set (le_fills l)" "fi_fill_id f = fi_fill_id q" "f \<noteq> q"
    have "f \<notin> set (le_fills l)" using a ok by (auto simp: ledger_ok_def distinct_map inj_on_def)
    moreover have "fi_fill_id f \<in> fi_fill_id ` set (le_fills l)" using a by auto
    ultimately show ?thesis unfolding record_fill_eq [OF ok] by auto
  qed
qed

interpretation adjustments: append_only ledger_ok le_adjustments cj_adjustment_id record_cash_adjustment
proof unfold_locales
  fix l l' :: ledger and a q :: cash_adjustment
  assume ok: "ledger_ok l"
  show "record_cash_adjustment l a = Inr l' \<Longrightarrow> ledger_ok l' \<and> (if a \<in> set (le_adjustments l) then l' = l
      else cj_adjustment_id a \<notin> cj_adjustment_id ` set (le_adjustments l) \<and> le_adjustments l' = le_adjustments l @ [a])"
    using ok unfolding record_adjustment_eq [OF ok]
    by (auto simp: ledger_ok_def fill_ok_def split: if_splits)
  show "a \<in> set (le_adjustments l) \<Longrightarrow> record_cash_adjustment l a = Inr l"
    using ok unfolding record_adjustment_eq [OF ok] by (auto simp: ledger_ok_def)
  show "q \<in> set (le_adjustments l) \<Longrightarrow> cj_adjustment_id a = cj_adjustment_id q \<Longrightarrow> a \<noteq> q \<Longrightarrow>
      \<exists>e. record_cash_adjustment l a = Inl e"
  proof -
    assume h: "q \<in> set (le_adjustments l)" "cj_adjustment_id a = cj_adjustment_id q" "a \<noteq> q"
    have "a \<notin> set (le_adjustments l)" using h ok by (auto simp: ledger_ok_def distinct_map inj_on_def)
    moreover have "cj_adjustment_id a \<in> cj_adjustment_id ` set (le_adjustments l)" using h by auto
    ultimately show ?thesis unfolding record_adjustment_eq [OF ok] by auto
  qed
qed

interpretation corrections: append_only ledger_ok le_corrections bc_correction_id record_balance_correction
proof unfold_locales
  fix l l' :: ledger and c q :: balance_correction
  assume ok: "ledger_ok l"
  show "record_balance_correction l c = Inr l' \<Longrightarrow> ledger_ok l' \<and> (if c \<in> set (le_corrections l) then l' = l
      else bc_correction_id c \<notin> bc_correction_id ` set (le_corrections l) \<and> le_corrections l' = le_corrections l @ [c])"
    using ok unfolding record_correction_eq [OF ok]
    by (auto simp: ledger_ok_def fill_ok_def split: if_splits)
  show "c \<in> set (le_corrections l) \<Longrightarrow> record_balance_correction l c = Inr l"
    using ok unfolding record_correction_eq [OF ok] by (auto simp: ledger_ok_def)
  show "q \<in> set (le_corrections l) \<Longrightarrow> bc_correction_id c = bc_correction_id q \<Longrightarrow> c \<noteq> q \<Longrightarrow>
      \<exists>e. record_balance_correction l c = Inl e"
  proof -
    assume h: "q \<in> set (le_corrections l)" "bc_correction_id c = bc_correction_id q" "c \<noteq> q"
    have "c \<notin> set (le_corrections l)" using h ok by (auto simp: ledger_ok_def distinct_map inj_on_def)
    moreover have "bc_correction_id c \<in> bc_correction_id ` set (le_corrections l)" using h by auto
    ultimately show ?thesis unfolding record_correction_eq [OF ok] by auto
  qed
qed

end
