(* ===== verification/LedgerRecord.thy ===== *)
theory LedgerRecord
  imports Ledger
begin

text \<open>
  What the ledger of agent/ledger.py promises about its record: it is rebuilt exactly from its own
  record (\<open>Ledger.from_records\<close>), and redelivering records changes nothing. A ledger's history is a
  list of \<open>ledger_op\<close>s, run by \<open>ledger_exec\<close>; a refused call leaves the ledger as it was.
\<close>

datatype ledger_op =
    RecordFill fill
  | RecordStatus order_record
  | RecordAdjustment cash_adjustment
  | RecordCorrection balance_correction

fun ledger_apply :: "ledger_op \<Rightarrow> ledger \<Rightarrow> ledger result" where
  "ledger_apply (RecordFill f) l = record_fill l f"
| "ledger_apply (RecordStatus r) l = record_order_status l r"
| "ledger_apply (RecordAdjustment a) l = record_cash_adjustment l a"
| "ledger_apply (RecordCorrection c) l = record_balance_correction l c"

definition ledger_step :: "ledger \<Rightarrow> ledger_op \<Rightarrow> ledger" where
  "ledger_step l p = (case ledger_apply p l of Inl _ \<Rightarrow> l | Inr l' \<Rightarrow> l')"

definition ledger_exec :: "ledger_op list \<Rightarrow> ledger \<Rightarrow> ledger" where
  "ledger_exec ops l = foldl ledger_step l ops"

lemma ledger_exec_invariant:
  assumes "P l" and "\<And>p l l'. P l \<Longrightarrow> ledger_apply p l = Inr l' \<Longrightarrow> P l'"
  shows "P (ledger_exec ops l)"
  using assms(1) unfolding ledger_exec_def
  by (induction ops arbitrary: l) (auto simp: ledger_step_def assms(2) split: sum.splits)

subsection \<open>The invariant of a recorded ledger\<close>

definition order_record_ok :: "ledger \<Rightarrow> order_record \<Rightarrow> bool" where
  "order_record_ok l r \<longleftrightarrow> or_account r = le_account l \<and> or_status r \<in> {''OPEN'', ''CLOSED''}"

definition blank :: "ledger \<Rightarrow> ledger" where
  "blank l = l\<lparr>le_fills := [], le_fill_ids := [], le_order_records := [], le_adjustments := [],
     le_adjustment_ids := [], le_corrections := [], le_correction_ids := []\<rparr>"

text \<open>The fills of a recorded ledger are the result of recording them, in their order, from scratch.\<close>

definition fills_recorded :: "ledger \<Rightarrow> bool" where
  "fills_recorded l \<longleftrightarrow> foldE record_fill (blank l) (le_fills l) =
     Inr ((blank l)\<lparr>le_fills := le_fills l, le_fill_ids := le_fill_ids l\<rparr>)"

definition recorded :: "ledger \<Rightarrow> bool" where
  "recorded l \<longleftrightarrow> ledger_ok l \<and> 0 \<le> le_opening_cash l \<and> fills_recorded l
     \<and> (\<forall>r \<in> set (le_order_records l). order_record_ok l r)"

lemma make_ledger_recorded: "make_ledger acct opening reg t pol ps = Inr l \<Longrightarrow> recorded l"
  by (auto simp: make_ledger_def recorded_def ledger_ok_def index_by_def fills_recorded_def blank_def
      split: if_splits)

lemma record_fill_cases:
  assumes "record_fill l f = Inr l'"
  obtains "l' = l" | "l' = l\<lparr>le_fills := le_fills l @ [f],
                      le_fill_ids := AList.update (fi_fill_id f) f (le_fill_ids l)\<rparr>"
  using assms unfolding record_fill_def by (fastforce simp: bindE_eq_Inr split: if_split_asm)

text \<open>\<open>record_fill\<close> reads the account, the registry and the fills, and writes the fills only.\<close>

lemma record_fill_frame:
  assumes "le_account m = le_account l" and "le_registry m = le_registry l"
    and "le_fills m = le_fills l" and "le_fill_ids m = le_fill_ids l"
    and "record_fill l f = Inr l'"
  shows "record_fill m f = Inr (m\<lparr>le_fills := le_fills l', le_fill_ids := le_fill_ids l'\<rparr>)"
proof -
  have "record_fill m f = (case record_fill l f of Inl e \<Rightarrow> Inl e
     | Inr k \<Rightarrow> Inr (m\<lparr>le_fills := le_fills k, le_fill_ids := le_fill_ids k\<rparr>))"
    unfolding record_fill_def assms(1-4) bindE_def
    by (simp split: sum.split add: assms(1-4) [symmetric])
  with assms(5) show ?thesis by simp
qed

lemma record_fill_recorded:
  assumes "recorded l" and "record_fill l f = Inr l'"
  shows "recorded l'"
  using assms(2)
proof (cases rule: record_fill_cases)
  case 1
  with assms(1) show ?thesis by simp
next
  case 2
  have ok: "ledger_ok l'" using fills.step [OF _ assms(2)] assms(1) by (simp add: recorded_def)
  have bl: "blank l' = blank l" by (simp add: 2 blank_def)
  let ?m = "(blank l)\<lparr>le_fills := le_fills l, le_fill_ids := le_fill_ids l\<rparr>"
  have "record_fill ?m f = Inr (?m\<lparr>le_fills := le_fills l', le_fill_ids := le_fill_ids l'\<rparr>)"
    by (rule record_fill_frame [OF _ _ _ _ assms(2)]) (simp_all add: blank_def)
  moreover have "le_fills l' = le_fills l @ [f]" by (simp add: 2)
  ultimately have "fills_recorded l'"
    using assms(1) unfolding recorded_def fills_recorded_def bl by (simp add: foldE_append)
  with ok assms(1) show ?thesis by (simp add: recorded_def 2 order_record_ok_def)
qed

lemma ledger_apply_recorded:
  assumes "recorded l" and "ledger_apply p l = Inr l'"
  shows "recorded l'"
proof (cases p)
  case (RecordFill f)
  with assms show ?thesis by (auto intro: record_fill_recorded)
next
  case (RecordStatus r)
  with assms show ?thesis
    by (auto simp: record_order_status_def recorded_def ledger_ok_def fill_ok_def fills_recorded_def
        blank_def order_record_ok_def split: if_splits)
next
  case (RecordAdjustment a)
  with assms(2) have h: "record_cash_adjustment l a = Inr l'" by simp
  have "ledger_ok l'" using adjustments.step [OF _ h] assms(1) by (simp add: recorded_def)
  with h assms(1) show ?thesis
    by (auto simp: record_cash_adjustment_def recorded_def fills_recorded_def blank_def
        order_record_ok_def result_simps split: if_splits)
next
  case (RecordCorrection c)
  with assms(2) have h: "record_balance_correction l c = Inr l'" by simp
  have "ledger_ok l'" using corrections.step [OF _ h] assms(1) by (simp add: recorded_def)
  with h assms(1) show ?thesis
    by (auto simp: record_balance_correction_def recorded_def fills_recorded_def blank_def
        order_record_ok_def result_simps split: if_splits)
qed

lemma exec_recorded:
  "make_ledger acct opening reg t pol ps = Inr l0 \<Longrightarrow> recorded (ledger_exec ops l0)"
  by (rule ledger_exec_invariant) (auto intro: make_ledger_recorded ledger_apply_recorded)

subsection \<open>Rebuilding\<close>

lemma record_all_statuses:
  "\<forall>r \<in> set rs. order_record_ok l r \<Longrightarrow>
   foldE record_order_status l rs = Inr (l\<lparr>le_order_records := le_order_records l @ rs\<rparr>)"
  by (induction rs arbitrary: l) (auto simp: record_order_status_def order_record_ok_def)

lemma record_all_adjustments:
  assumes "le_adjustment_ids l = index_by cj_adjustment_id (le_adjustments l)"
    and "distinct (map cj_adjustment_id (le_adjustments l @ as))"
    and "\<forall>a \<in> set as. cj_account a = le_account l"
  shows "foldE record_cash_adjustment l as =
    Inr (l\<lparr>le_adjustments := le_adjustments l @ as,
           le_adjustment_ids := index_by cj_adjustment_id (le_adjustments l @ as)\<rparr>)"
  using assms
proof (induction as arbitrary: l)
  case (Cons a as)
  let ?l = "l\<lparr>le_adjustments := le_adjustments l @ [a],
              le_adjustment_ids := index_by cj_adjustment_id (le_adjustments l @ [a])\<rparr>"
  have "record_cash_adjustment l a = Inr ?l"
    using Cons.prems index_by_snoc [of cj_adjustment_id a "le_adjustments l"]
    by (auto simp: record_cash_adjustment_def replay_check_index)
  with Cons.IH [of ?l] Cons.prems show ?case by simp
qed simp

lemma record_all_corrections:
  assumes "le_correction_ids l = index_by bc_correction_id (le_corrections l)"
    and "distinct (map bc_correction_id (le_corrections l @ cs))"
    and "\<forall>c \<in> set cs. bcn_account c = le_account l"
  shows "foldE record_balance_correction l cs =
    Inr (l\<lparr>le_corrections := le_corrections l @ cs,
           le_correction_ids := index_by bc_correction_id (le_corrections l @ cs)\<rparr>)"
  using assms
proof (induction cs arbitrary: l)
  case (Cons c cs)
  let ?l = "l\<lparr>le_corrections := le_corrections l @ [c],
              le_correction_ids := index_by bc_correction_id (le_corrections l @ [c])\<rparr>"
  have "record_balance_correction l c = Inr ?l"
    using Cons.prems index_by_snoc [of bc_correction_id c "le_corrections l"]
    by (auto simp: record_balance_correction_def replay_check_index)
  with Cons.IH [of ?l] Cons.prems show ?case by simp
qed simp

definition rebuild :: "ledger \<Rightarrow> ledger result" where
  "rebuild l = from_records (le_account l) (le_opening_cash l) (le_registry l) (le_t_plus l) (le_policy l)
     (le_fills l) (le_order_records l) (le_adjustments l) (le_corrections l) (le_opening_positions l)"

lemma recorded_rebuild:
  assumes "recorded l"
  shows "rebuild l = Inr l"
proof -
  have ok: "ledger_ok l" and op: "0 \<le> le_opening_cash l"
    and fr: "foldE record_fill (blank l) (le_fills l) =
       Inr ((blank l)\<lparr>le_fills := le_fills l, le_fill_ids := le_fill_ids l\<rparr>)"
    and ors: "\<forall>r \<in> set (le_order_records l). order_record_ok l r"
    using assms by (auto simp: recorded_def fills_recorded_def)
  have mk: "make_ledger (le_account l) (le_opening_cash l) (le_registry l) (le_t_plus l) (le_policy l)
      (le_opening_positions l) = Inr (blank l)"
    using op by (simp add: make_ledger_def blank_def)
  show ?thesis unfolding rebuild_def from_records_def mk bindE_Inr fr
    using ok ors
    by (simp add: record_all_statuses order_record_ok_def blank_def record_all_adjustments
        record_all_corrections ledger_ok_def index_by_def)
qed

subsection \<open>Properties\<close>

text \<open>
  The ledger is exactly its record: after any sequence of recording calls on a fresh ledger,
  accepted or refused, rebuilding a ledger from its own fills, order records, cash adjustments,
  corrections and opening state succeeds and reproduces it, id indexes included.
\<close>
theorem ledger_rebuilt_from_record:
  assumes "make_ledger acct opening reg t_plus policy ps = Inr l0" and "l = ledger_exec ops l0"
  shows "from_records (le_account l) (le_opening_cash l) (le_registry l) (le_t_plus l) (le_policy l)
     (le_fills l) (le_order_records l) (le_adjustments l) (le_corrections l) (le_opening_positions l) = Inr l"
  using recorded_rebuild exec_recorded [OF assms(1)] assms(2) by (simp add: rebuild_def)

text \<open>
  Redelivery is harmless and tampering is refused: on a ledger with any history, delivering again
  any of its fills, adjustments or corrections, in any order and any number of times, leaves it
  unchanged, while a fill that reuses a known fill id with any field changed is refused.
\<close>
theorem ledger_redelivery_harmless:
  assumes "make_ledger acct opening reg t_plus policy ps = Inr l0" and "l = ledger_exec ops l0"
    and "set fs \<subseteq> set (le_fills l)" and "set as \<subseteq> set (le_adjustments l)" and "set cs \<subseteq> set (le_corrections l)"
    and "q \<in> set (le_fills l)" and "fi_fill_id f = fi_fill_id q" and "f \<noteq> q"
  shows "foldE record_fill l fs = Inr l \<and> foldE record_cash_adjustment l as = Inr l
    \<and> foldE record_balance_correction l cs = Inr l \<and> \<not> is_ok (record_fill l f)"
proof -
  have ok: "ledger_ok l" using exec_recorded [OF assms(1)] assms(2) by (simp add: recorded_def)
  show ?thesis
    using fills.replay_all [OF ok assms(3)] adjustments.replay_all [OF ok assms(4)]
      corrections.replay_all [OF ok assms(5)] fills.conflict [OF ok assms(6,7,8)]
    by (auto simp: is_ok_def)
qed

subsection \<open>A ledger\<close>

definition ex_at :: "int \<Rightarrow> instant" where
  "ex_at d = mk_date 2026 1 d * day_us + 15 * hour_us"

definition ex_registry :: hp_registry where
  "ex_registry = [(''v1'', hp_ex ''v1'' day_us)]"

definition ex_fill :: "string \<Rightarrow> string \<Rightarrow> string \<Rightarrow> decimal \<Rightarrow> decimal \<Rightarrow> int \<Rightarrow> fill" where
  "ex_fill fid lid side q p d = \<lparr> fi_fill_id = fid, fi_account = ''a'', fi_symbol = ''SPY'', fi_side = side,
     fi_qty = q, fi_price = p, fi_filled_at = ex_at d, fi_lot_id = lid,
     fi_policy_version = (if side = ''BUY'' then Some ''v1'' else None) \<rparr>"

definition ex_ledger0 :: ledger where
  "ex_ledger0 = \<lparr> le_account = ''a'', le_opening_cash = 100, le_opening_positions = [],
     le_registry = ex_registry, le_t_plus = 1, le_policy = ALPACA_DEFAULT_POLICY, le_fills = [],
     le_order_records = [], le_fill_ids = [], le_adjustments = [], le_adjustment_ids = [],
     le_corrections = [], le_correction_ids = [] \<rparr>"

definition ex_ops :: "ledger_op list" where
  "ex_ops = [RecordFill (ex_fill ''f1'' ''L1'' ''BUY'' 3 1 5), RecordFill (ex_fill ''f2'' ''L1'' ''SELL'' 2 1 6),
     RecordFill (ex_fill ''f3'' ''L1'' ''SELL'' 2 1 7)]"

definition ex_ledger :: ledger where
  "ex_ledger = ex_ledger0\<lparr>le_fills := [ex_fill ''f1'' ''L1'' ''BUY'' 3 1 5, ex_fill ''f2'' ''L1'' ''SELL'' 2 1 6],
     le_fill_ids := [(''f1'', ex_fill ''f1'' ''L1'' ''BUY'' 3 1 5), (''f2'', ex_fill ''f2'' ''L1'' ''SELL'' 2 1 6)]\<rparr>"

lemma ex_made: "make_ledger ''a'' 100 ex_registry 1 ALPACA_DEFAULT_POLICY [] = Inr ex_ledger0"
  by (simp add: make_ledger_def ex_ledger0_def)

lemma on_grid_numeral [simp]: "on_grid k (numeral n)"
  by (simp add: on_grid_def)

lemma dec_numeral: "(numeral n :: int) \<le> 10 ^ 28 \<Longrightarrow> dec (numeral n) = numeral n"
  using dec_grid [of "numeral n" 0] by simp

lemma dec_one: "dec 1 = 1"
  using dec_grid [of 1 0] by simp

lemma ex_sides: "is_buy (ex_fill a b ''BUY'' q p d)" "is_sell (ex_fill a b ''SELL'' q p d)"
  "\<not> is_buy (ex_fill a b ''SELL'' q p d)" "\<not> is_sell (ex_fill a b ''BUY'' q p d)"
  by (simp_all add: is_buy_def is_sell_def ex_fill_def)

lemma ex_fill_fields: "fi_qty (ex_fill a b s q p d) = q" "fi_price (ex_fill a b s q p d) = p"
  "fi_filled_at (ex_fill a b s q p d) = ex_at d" "fi_lot_id (ex_fill a b s q p d) = b"
  "fi_symbol (ex_fill a b s q p d) = ''SPY''" "fi_fill_id (ex_fill a b s q p d) = a"
  "fi_account (ex_fill a b s q p d) = ''a''"
  "fi_policy_version (ex_fill a b ''BUY'' q p d) = Some ''v1''"
  by (simp_all add: ex_fill_def)

lemmas ex_record_simps = record_fill_def replay_check_def check_buy_def check_sell_def already_sold_def
  ex_sides ex_fill_fields dec_numeral dec_one hp_get_def ex_registry_def

text \<open>The third fill overdraws the lot and is refused.\<close>

lemma ex_run: "ledger_exec ex_ops ex_ledger0 = ex_ledger"
  by (simp add: ex_ops_def ex_ledger_def ex_ledger0_def ledger_exec_def ledger_step_def ex_record_simps)

theorem ledger_rebuilt_from_record_witness:
  "rebuild ex_ledger = Inr ex_ledger \<and> le_fills ex_ledger \<noteq> []"
  using ledger_rebuilt_from_record [OF ex_made ex_run [symmetric]]
  by (simp add: rebuild_def ex_ledger_def ex_ledger0_def)

theorem ledger_redelivery_harmless_witness:
  "foldE record_fill ex_ledger (rev (le_fills ex_ledger) @ le_fills ex_ledger) = Inr ex_ledger
   \<and> \<not> is_ok (record_fill ex_ledger (ex_fill ''f1'' ''L1'' ''BUY'' 4 1 5))"
proof -
  let ?q = "ex_fill ''f1'' ''L1'' ''BUY'' 3 1 5"
  have "set (rev (le_fills ex_ledger) @ le_fills ex_ledger) \<subseteq> set (le_fills ex_ledger)"
    and "?q \<in> set (le_fills ex_ledger)"
    and "fi_fill_id (ex_fill ''f1'' ''L1'' ''BUY'' 4 1 5) = fi_fill_id ?q"
    and "ex_fill ''f1'' ''L1'' ''BUY'' 4 1 5 \<noteq> ?q"
    and "set [] \<subseteq> set (le_adjustments ex_ledger)" and "set [] \<subseteq> set (le_corrections ex_ledger)"
    by (simp_all add: ex_ledger_def ex_ledger0_def ex_fill_def)
  with ledger_redelivery_harmless [OF ex_made ex_run [symmetric]] show ?thesis by blast
qed

end
