(* ===== verification/LedgerCash.thy ===== *)
theory LedgerCash
  imports LedgerRecord
begin

text \<open>
  The balances a ledger derives, against exact arithmetic: cash is the opening balance plus the
  signed value of every fill, adjustment and correction, and the open orders are those whose last
  recorded status is OPEN. The Decimal context rounds at 28 digits; \<open>cash_exact\<close> bounds the amounts
  so that it never does.
\<close>

lemma scaled_le: "x \<le> y \<Longrightarrow> y * 10 ^ k \<le> b \<Longrightarrow> x * 10 ^ k \<le> (b :: rat)"
  by (erule order_trans [OF mult_right_mono]) auto

lemma on_grid_abs_bound:
  assumes "on_grid k a" and "\<forall>x \<in> set xs. on_grid k x"
    and "(\<bar>a\<bar> + sum_list (map abs xs)) * 10 ^ k \<le> 10 ^ 28"
  shows "sum_seq dec a xs = a + sum_list xs"
  using assms
proof (induction xs arbitrary: a)
  case (Cons x xs)
  have ab: "\<bar>a + x\<bar> \<le> \<bar>a\<bar> + \<bar>x\<bar>" by (rule abs_triangle_ineq)
  have nn: "0 \<le> sum_list (map abs xs)" by (rule sum_list_nonneg) auto
  have gr: "on_grid k (a + x)" using Cons.prems by (intro on_grid_add) auto
  have "\<bar>a + x\<bar> * 10 ^ k \<le> 10 ^ 28" by (rule scaled_le [OF _ Cons.prems(3)]) (use ab nn in simp)
  then have d: "dec (a + x) = a + x" by (rule dec_on_grid [OF gr])
  have "(\<bar>a + x\<bar> + sum_list (map abs xs)) * 10 ^ k \<le> 10 ^ 28"
    by (rule scaled_le [OF _ Cons.prems(3)]) (use ab in simp)
  then show ?case using Cons.IH [OF gr] Cons.prems(2) by (simp add: d)
qed simp

subsection \<open>Cash\<close>

text \<open>What a fill is worth, in whole cents, and its sign.\<close>

definition cash_value :: "fill \<Rightarrow> decimal" where
  "cash_value f = (case cash_notional (fi_qty f) (fi_price f) of Inl _ \<Rightarrow> 0 | Inr n \<Rightarrow> n)"

definition cash_effect :: "fill \<Rightarrow> decimal" where
  "cash_effect f = (if is_buy f then - cash_value f else cash_value f)"

definition cash_total :: "ledger \<Rightarrow> decimal" where
  "cash_total l = le_opening_cash l + sum_list (map cash_effect (le_fills l))
     + sum_list (map cj_amount (le_adjustments l)) + sum_list (map bc_amount (le_corrections l))"

text \<open>The movement a fill makes in the settled and the unsettled balance at one instant.\<close>

definition has_settled :: "ledger \<Rightarrow> instant \<Rightarrow> fill \<Rightarrow> bool" where
  "has_settled l now f \<longleftrightarrow> (case fill_settles_at l f of Inl _ \<Rightarrow> False | Inr t \<Rightarrow> t \<le> now)"

definition settled_effect :: "ledger \<Rightarrow> instant \<Rightarrow> fill \<Rightarrow> decimal" where
  "settled_effect l now f =
     (if is_buy f then - cash_value f else if has_settled l now f then cash_value f else 0)"

definition unsettled_effect :: "ledger \<Rightarrow> instant \<Rightarrow> fill \<Rightarrow> decimal" where
  "unsettled_effect l now f = (if is_sell f \<and> \<not> has_settled l now f then cash_value f else 0)"

lemma cash_notional_exact:
  assumes "on_grid 2 (q * p)" and "\<bar>q * p\<bar> < 10 ^ 26"
  shows "cash_notional q p = Inr (q * p)"
proof -
  have "dec (q * p) = q * p" by (rule dec_on_grid [OF assms(1)]) (use assms(2) in simp)
  with quantize_cent_exact [OF assms] show ?thesis by (simp add: cash_notional_def)
qed

lemma cash_value_grid: "on_grid 2 (cash_value f)"
  by (auto simp: cash_value_def cash_notional_def quantize_cent_grid split: sum.split)

lemma effects_grid: "on_grid 2 (settled_effect l now f)" "on_grid 2 (unsettled_effect l now f)"
  by (auto simp: settled_effect_def unsettled_effect_def cash_value_grid)

lemma effects_abs:
  "\<bar>settled_effect l now f\<bar> \<le> \<bar>cash_value f\<bar>" "\<bar>unsettled_effect l now f\<bar> \<le> \<bar>cash_value f\<bar>"
  by (auto simp: settled_effect_def unsettled_effect_def)

lemma effects_add: "is_buy f \<or> is_sell f \<Longrightarrow>
  settled_effect l now f + unsettled_effect l now f = cash_effect f"
  by (auto simp: settled_effect_def unsettled_effect_def cash_effect_def)

lemma settle_fill_eq:
  "settle_fill l now tot f = Inr r \<Longrightarrow> r = dec (tot + settled_effect l now f) \<or> r = tot \<and> settled_effect l now f = 0"
  by (auto simp: settle_fill_def settled_effect_def cash_value_def has_settled_def result_simps split: if_splits)

lemma unsettle_fill_eq:
  "unsettle_fill l now tot f = Inr r \<Longrightarrow> r = dec (tot + unsettled_effect l now f) \<or> r = tot \<and> unsettled_effect l now f = 0"
  by (auto simp: unsettle_fill_def unsettled_effect_def cash_value_def has_settled_def result_simps split: if_splits)

text \<open>A fold whose steps add a grid value each, exactly as long as the total stays in 28 digits.\<close>

lemma foldE_adds:
  assumes "foldE f a xs = Inr r"
    and step: "\<And>tot x r. x \<in> set xs \<Longrightarrow> f tot x = Inr r \<Longrightarrow> r = dec (tot + g x) \<or> r = tot \<and> g x = 0"
    and "on_grid k a" and grid: "\<And>x. on_grid k (g x)" and le: "\<And>x. \<bar>g x\<bar> \<le> \<bar>h x\<bar>"
    and "(\<bar>a\<bar> + sum_list (map (\<lambda>x. \<bar>h x\<bar>) xs)) * 10 ^ k \<le> 10 ^ 28"
  shows "r = a + sum_list (map g xs)"
  using assms(1,2,3,6)
proof (induction xs arbitrary: a)
  case (Cons x xs)
  from Cons.prems(1) obtain b where b: "f a x = Inr b" "foldE f b xs = Inr r" by (auto simp: bindE_eq_Inr)
  have ab: "\<bar>a + g x\<bar> \<le> \<bar>a\<bar> + \<bar>h x\<bar>" using abs_triangle_ineq [of a "g x"] le [of x] by linarith
  have nn: "0 \<le> sum_list (map (\<lambda>x. \<bar>h x\<bar>) xs)" by (rule sum_list_nonneg) auto
  have bound: "\<bar>a + g x\<bar> * 10 ^ k \<le> 10 ^ 28"
    by (rule scaled_le [OF _ Cons.prems(4)]) (use ab nn in simp)
  have gr: "on_grid k (a + g x)" using Cons.prems(3) grid by (rule on_grid_add)
  have beq: "b = a + g x"
    using Cons.prems(2) [OF _ b(1)] dec_on_grid [OF gr bound] by auto
  have bound': "(\<bar>b\<bar> + sum_list (map (\<lambda>x. \<bar>h x\<bar>) xs)) * 10 ^ k \<le> 10 ^ 28"
    by (rule scaled_le [OF _ Cons.prems(4)]) (use ab beq in simp)
  have "r = b + sum_list (map g xs)"
    by (rule Cons.IH [OF b(2) _ _ bound']) (use Cons.prems(2) gr beq in auto)
  then show ?case by (simp add: beq)
qed simp

text \<open>Every amount is in whole cents, and together they stay below 26 integer digits.\<close>

definition cash_exact :: "ledger \<Rightarrow> bool" where
  "cash_exact l \<longleftrightarrow> on_grid 2 (le_opening_cash l)
     \<and> (\<forall>a \<in> set (le_adjustments l). on_grid 2 (cj_amount a))
     \<and> (\<forall>c \<in> set (le_corrections l). on_grid 2 (bc_amount c))
     \<and> \<bar>le_opening_cash l\<bar> + sum_list (map (\<lambda>f. \<bar>cash_value f\<bar>) (le_fills l))
       + sum_list (map (\<lambda>a. \<bar>cj_amount a\<bar>) (le_adjustments l))
       + sum_list (map (\<lambda>c. \<bar>bc_amount c\<bar>) (le_corrections l)) \<le> 10 ^ 26"

lemma abs_sum_list: "\<bar>sum_list (map g xs)\<bar> \<le> sum_list (map (\<lambda>x. \<bar>g x :: rat\<bar>) xs)"
  by (induction xs) (auto intro: order_trans [OF abs_triangle_ineq])

lemma sum_list_abs_nonneg: "0 \<le> sum_list (map (\<lambda>x. \<bar>g x :: rat\<bar>) xs)"
  by (rule sum_list_nonneg) auto

lemma settled_cash_exact:
  assumes "settled_cash l now = Inr s" and ex: "cash_exact l"
  shows "s = le_opening_cash l + sum_list (map (settled_effect l now) (le_fills l))
     + sum_list (map cj_amount (le_adjustments l)) + sum_list (map bc_amount (le_corrections l))"
proof -
  let ?F = "sum_list (map (\<lambda>f. \<bar>cash_value f\<bar>) (le_fills l))"
  let ?A = "sum_list (map (\<lambda>a. \<bar>cj_amount a\<bar>) (le_adjustments l))"
  let ?C = "sum_list (map (\<lambda>c. \<bar>bc_amount c\<bar>) (le_corrections l))"
  let ?S = "sum_list (map (settled_effect l now) (le_fills l))"
  have nn: "0 \<le> ?F" "0 \<le> ?A" "0 \<le> ?C" by (rule sum_list_abs_nonneg)+
  have b: "\<bar>le_opening_cash l\<bar> + ?F + ?A + ?C \<le> 10 ^ 26" and g0: "on_grid 2 (le_opening_cash l)"
    using ex by (auto simp: cash_exact_def)
  obtain t where t: "foldE (settle_fill l now) (le_opening_cash l) (le_fills l) = Inr t"
    and s: "s = sum_seq dec (sum_seq dec t (map cj_amount (le_adjustments l))) (map bc_amount (le_corrections l))"
    using assms(1) by (auto simp: settled_cash_def bindE_eq_Inr)
  have te: "t = le_opening_cash l + ?S"
    by (rule foldE_adds [OF t settle_fill_eq g0 effects_grid(1) effects_abs(1)]) (use b nn in auto)
  have "\<bar>?S\<bar> \<le> ?F"
    using abs_sum_list [of "settled_effect l now" "le_fills l"]
      sum_list_mono [of "le_fills l" "\<lambda>f. \<bar>settled_effect l now f\<bar>" "\<lambda>f. \<bar>cash_value f\<bar>"] effects_abs(1)
    by (smt (verit) order_trans)
  then have ta: "\<bar>t\<bar> \<le> \<bar>le_opening_cash l\<bar> + ?F" using te by linarith
  have tg: "on_grid 2 t" unfolding te using g0 effects_grid by (intro on_grid_add on_grid_sum_list) auto
  have s1: "sum_seq dec t (map cj_amount (le_adjustments l)) = t + sum_list (map cj_amount (le_adjustments l))"
    by (rule on_grid_abs_bound [OF tg]) (use ex ta b nn in \<open>auto simp: cash_exact_def comp_def\<close>)
  have ua: "\<bar>t + sum_list (map cj_amount (le_adjustments l))\<bar> \<le> \<bar>le_opening_cash l\<bar> + ?F + ?A"
    using abs_sum_list [of cj_amount "le_adjustments l"] ta by linarith
  have ug: "on_grid 2 (t + sum_list (map cj_amount (le_adjustments l)))"
    using ex by (intro on_grid_add tg on_grid_sum_list) (auto simp: cash_exact_def)
  have "s = t + sum_list (map cj_amount (le_adjustments l)) + sum_list (map bc_amount (le_corrections l))"
    unfolding s s1 by (rule on_grid_abs_bound [OF ug]) (use ex ua b nn in \<open>auto simp: cash_exact_def comp_def\<close>)
  then show ?thesis using te by simp
qed

lemma unsettled_cash_exact:
  assumes "unsettled_cash l now = Inr u" and ex: "cash_exact l"
  shows "u = sum_list (map (unsettled_effect l now) (le_fills l))"
proof -
  have "0 \<le> sum_list (map (\<lambda>a. \<bar>cj_amount a\<bar>) (le_adjustments l))"
    "0 \<le> sum_list (map (\<lambda>c. \<bar>bc_amount c\<bar>) (le_corrections l))" by (rule sum_list_abs_nonneg)+
  then have "u = 0 + sum_list (map (unsettled_effect l now) (le_fills l))"
    by (intro foldE_adds [OF assms(1) [unfolded unsettled_cash_def] unsettle_fill_eq _ effects_grid(2) effects_abs(2)])
       (use ex in \<open>auto simp: cash_exact_def\<close>)
  then show ?thesis by simp
qed

lemma cash_conserved:
  assumes "settled_cash l now = Inr s" and "unsettled_cash l now = Inr u" and "cash_exact l"
    and "\<forall>f \<in> set (le_fills l). is_buy f \<or> is_sell f"
  shows "s + u = cash_total l"
proof -
  have "map cash_effect (le_fills l) = map (\<lambda>f. settled_effect l now f + unsettled_effect l now f) (le_fills l)"
    using assms(4) effects_add by (intro map_cong) auto
  then have "sum_list (map cash_effect (le_fills l))
    = sum_list (map (settled_effect l now) (le_fills l)) + sum_list (map (unsettled_effect l now) (le_fills l))"
    by (simp only: sum_list_addf)
  with settled_cash_exact [OF assms(1,3)] unsettled_cash_exact [OF assms(2,3)] show ?thesis
    by (simp add: cash_total_def)
qed

subsection \<open>Order status\<close>

lemma latest_status_snoc:
  "latest_status (rs @ [r]) = AList.update (or_client_order_id r) (or_status r) (latest_status rs)"
  by (simp add: latest_status_def)

lemma latest_status_keys: "dict_ok (latest_status rs)"
  by (induction rs rule: rev_induct) (simp_all add: latest_status_snoc, simp add: latest_status_def)

lemma latest_record_snoc:
  "latest_order_record (l\<lparr>le_order_records := rs @ [r]\<rparr>) cid =
   (if or_client_order_id r = cid then Some r else latest_order_record (l\<lparr>le_order_records := rs\<rparr>) cid)"
  by (simp add: latest_order_record_def)

lemma latest_status_lookup:
  "map_of (latest_status rs) cid = map_option or_status (latest_order_record (l\<lparr>le_order_records := rs\<rparr>) cid)"
  by (induction rs rule: rev_induct)
     (simp_all add: latest_status_snoc latest_record_snoc, simp add: latest_status_def latest_order_record_def)

subsection \<open>Properties\<close>

text \<open>
C28: Cash is conserved: at any instant, settled plus unsettled cash of a ledger with any history is
  the opening balance, minus the cent-rounded notional of every buy, plus that of every sell, plus every
  adjustment and correction. Settlement only moves proceeds from one balance to the other.
  The amounts are in cents and below 26 integer digits.
\<close>
theorem ledger_cash_conserved:
  assumes "make_ledger acct opening reg t_plus policy ps = Inr l0" and "l = ledger_exec ops l0"
    and "settled_cash l now = Inr s" and "unsettled_cash l now = Inr u" and "cash_exact l"
  shows "s + u = le_opening_cash l + sum_list (map cash_effect (le_fills l))
     + sum_list (map cj_amount (le_adjustments l)) + sum_list (map bc_amount (le_corrections l))"
proof -
  have "\<forall>f \<in> set (le_fills l). is_buy f \<or> is_sell f"
    using exec_recorded [OF assms(1)] assms(2) by (auto simp: recorded_def ledger_ok_def fill_ok_def)
  from cash_conserved [OF assms(3-5) this] show ?thesis by (simp add: cash_total_def)
qed

text \<open>
  An order is open exactly when its last recorded status is OPEN: the set \<open>open_order_ids\<close> lists a
  client order id, once, if and only if the latest record of that id, in insertion order, says so,
  whatever its earlier records said.
\<close>
theorem open_orders_by_latest_record:
  "cid \<in> set (open_order_ids l) \<longleftrightarrow>
   (\<exists>r. latest_order_record l cid = Some r \<and> or_status r = ''OPEN'')"
proof -
  have "cid \<in> set (open_order_ids l) \<longleftrightarrow> map_of (latest_status (le_order_records l)) cid = Some ''OPEN''"
    using dict_mem [OF latest_status_keys, of cid "''OPEN''" "le_order_records l"]
    by (force simp: open_order_ids_def)
  with latest_status_lookup [of "le_order_records l" cid l] show ?thesis by auto
qed

lemma ex_value: "on_grid 2 (q :: rat) \<Longrightarrow> \<bar>q\<bar> < 10 ^ 26 \<Longrightarrow> cash_notional q 1 = Inr q"
  using cash_notional_exact [of q 1] by simp

lemma ex_settles: "settlement_instant (Aware (ex_at 6)) 1 = Inr (mk_date 2026 1 7 * day_us + 14 * hour_us + hour_us div 2)"
  by code_simp

lemma ex_before: "ex_at 6 < mk_date 2026 1 7 * day_us + 14 * hour_us + hour_us div 2"
  by code_simp

lemmas ex_cash_eval = ex_ledger_def ex_ledger0_def ex_value dec_numeral
  fill_settles_at_def ex_settles ex_before ex_sides

lemma ex_cash: "settled_cash ex_ledger (ex_at 6) = Inr 97" "unsettled_cash ex_ledger (ex_at 6) = Inr 2"
  using ex_before
  by (simp_all add: settled_cash_def unsettled_cash_def settle_fill_def unsettle_fill_def ex_cash_eval ex_fill_fields)

lemma ex_cash_values: "cash_exact ex_ledger" "map cash_effect (le_fills ex_ledger) = [-3, 2]"
  by (simp_all add: cash_exact_def cash_effect_def cash_value_def ex_cash_eval ex_fill_fields)

theorem ledger_cash_conserved_witness:
  "settled_cash ex_ledger (ex_at 6) = Inr 97 \<and> unsettled_cash ex_ledger (ex_at 6) = Inr 2
   \<and> (97 :: decimal) + 2 = 100 + (-3 + 2)"
  using ledger_cash_conserved [OF ex_made ex_run [symmetric] ex_cash ex_cash_values(1)] ex_cash ex_cash_values(2)
  by (simp add: ex_ledger_def ex_ledger0_def)

end
