(* ===== verification/LedgerPositions.thy ===== *)
theory LedgerPositions
  imports LedgerCash
begin

text \<open>
  Holdings a ledger derives, against the signed sum of its fills: what is left of each lot, the
  positions per symbol, and the lot the broker's first-in-first-out disposal consumes. \<open>qty_exact\<close>
  bounds the quantities so that the 28-digit Decimal context never rounds.
\<close>

definition qty_exact :: "nat \<Rightarrow> fill list \<Rightarrow> bool" where
  "qty_exact k fs \<longleftrightarrow> (\<forall>f \<in> set fs. 0 < fi_qty f \<and> on_grid k (fi_qty f))
     \<and> sum_list (map fi_qty fs) * 10 ^ k \<le> 10 ^ 28"

definition sold :: "fill list \<Rightarrow> string \<Rightarrow> decimal" where
  "sold fs lid = sum_list (map fi_qty (filter (\<lambda>f. fi_lot_id f = lid \<and> is_sell f) fs))"

text \<open>What is left of the lot a buy opened, and the sign of a fill.\<close>

definition left :: "fill list \<Rightarrow> fill \<Rightarrow> decimal" where
  "left fs b = fi_qty b - sold fs (fi_lot_id b)"

definition signed_qty :: "fill \<Rightarrow> decimal" where
  "signed_qty f = (if is_buy f then fi_qty f else - fi_qty f)"

text \<open>Lots are opened once, sells refer to an open lot of their symbol and never overdraw it.\<close>

definition lots_wf :: "hp_registry \<Rightarrow> fill list \<Rightarrow> bool" where
  "lots_wf reg fs \<longleftrightarrow> (\<forall>f \<in> set fs. is_buy f \<or> is_sell f)
     \<and> distinct (map fi_lot_id (filter is_buy fs))
     \<and> (\<forall>f \<in> set fs. is_sell f \<longrightarrow> (\<exists>b \<in> set fs. is_buy b \<and> fi_lot_id b = fi_lot_id f \<and> fi_symbol b = fi_symbol f))
     \<and> (\<forall>b \<in> set fs. is_buy b \<longrightarrow> 0 \<le> left fs b
          \<and> (\<exists>v. fi_policy_version b = Some v \<and> is_ok (hp_get reg v)))"

lemma sold_snoc: "sold (fs @ [f]) lid = sold fs lid + (if fi_lot_id f = lid \<and> is_sell f then fi_qty f else 0)"
  by (simp add: sold_def)

lemma left_snoc: "left (fs @ [f]) b = left fs b - (if fi_lot_id f = fi_lot_id b \<and> is_sell f then fi_qty f else 0)"
  by (simp add: left_def sold_snoc)

lemma qty_exact_snocD:
  assumes "qty_exact k (fs @ [f])"
  shows "qty_exact k fs"
proof -
  have "sum_list (map fi_qty fs) * 10 ^ k \<le> 10 ^ 28"
    by (rule scaled_le [of _ "sum_list (map fi_qty (fs @ [f]))"]) (use assms in \<open>auto simp: qty_exact_def\<close>)
  then show ?thesis using assms by (simp add: qty_exact_def)
qed

lemma sum_filter_le:
  "\<forall>f \<in> set fs. 0 \<le> g f \<Longrightarrow> sum_list (map g (filter P fs)) \<le> sum_list (map (g :: 'a \<Rightarrow> rat) fs)"
  by (induction fs) auto

lemma sold_le: "qty_exact k fs \<Longrightarrow> sold fs lid \<le> sum_list (map fi_qty fs)"
  unfolding sold_def by (rule sum_filter_le) (auto simp: qty_exact_def less_imp_le)

lemma sold_nonneg: "qty_exact k fs \<Longrightarrow> 0 \<le> sold fs lid"
  unfolding sold_def by (rule sum_list_nonneg) (auto simp: qty_exact_def less_imp_le)

lemma sold_grid: "qty_exact k fs \<Longrightarrow> on_grid k (sold fs lid)"
  unfolding sold_def by (rule on_grid_sum_list) (auto simp: qty_exact_def)

lemma already_sold_exact:
  assumes "qty_exact k fs"
  shows "already_sold fs lid = sold fs lid"
proof -
  let ?xs = "map fi_qty (filter (\<lambda>f. fi_lot_id f = lid \<and> is_sell f) fs)"
  have ab: "map abs ?xs = ?xs" using assms by (auto simp: qty_exact_def intro!: map_idI)
  have "(\<bar>0\<bar> + sum_list (map abs ?xs)) * 10 ^ k \<le> 10 ^ 28"
    unfolding ab using scaled_le [OF sold_le [OF assms]] assms by (simp add: sold_def qty_exact_def)
  then have "sum_seq dec 0 ?xs = 0 + sum_list ?xs"
    by (intro on_grid_abs_bound [of k]) (use assms in \<open>auto simp: qty_exact_def\<close>)
  then show ?thesis by (simp add: already_sold_def sold_def)
qed

text \<open>One more accepted fill.\<close>

lemma find_buy:
  "List.find (\<lambda>g. fi_lot_id g = lid \<and> is_buy g) fs = Some b \<Longrightarrow> b \<in> set fs \<and> is_buy b \<and> fi_lot_id b = lid"
  by (auto simp: find_Some_iff)

lemma lot_buy_unique:
  "lots_wf reg fs \<Longrightarrow> b \<in> set fs \<Longrightarrow> b' \<in> set fs \<Longrightarrow> is_buy b \<Longrightarrow> is_buy b' \<Longrightarrow>
   fi_lot_id b = fi_lot_id b' \<Longrightarrow> b = b'"
  by (auto simp: lots_wf_def distinct_map inj_on_def)

lemma lots_wf_snoc:
  assumes wf: "lots_wf reg fs" and ex: "qty_exact k (fs @ [f])" and side: "is_buy f \<or> is_sell f"
    and ok: "(if is_buy f then check_buy reg fs f else check_sell fs f) = Inr u"
  shows "lots_wf reg (fs @ [f])"
proof (cases "is_buy f")
  case True
  with ok obtain v p where v: "fi_policy_version f = Some v" "hp_get reg v = Inr p"
    and new: "\<forall>g \<in> set fs. fi_lot_id g = fi_lot_id f \<longrightarrow> \<not> is_buy g"
    by (auto simp: check_buy_def bindE_eq_Inr split: option.splits if_splits)
  have "filter (\<lambda>g. fi_lot_id g = fi_lot_id f \<and> is_sell g) fs = []"
    using wf new unfolding lots_wf_def filter_empty_conv by metis
  then have "sold fs (fi_lot_id f) = 0" by (simp add: sold_def)
  then have "left (fs @ [f]) f = fi_qty f" using True by (simp add: left_def sold_snoc)
  with wf new v True ex show ?thesis
    by (auto simp: lots_wf_def left_snoc qty_exact_def is_ok_def less_imp_le)
next
  case False
  have ex': "qty_exact k fs" by (rule qty_exact_snocD [OF ex])
  from False ok obtain b where fb: "List.find (\<lambda>g. fi_lot_id g = fi_lot_id f \<and> is_buy g) fs = Some b"
    and sy: "fi_symbol b = fi_symbol f" and le: "dec (already_sold fs (fi_lot_id f) + fi_qty f) \<le> fi_qty b"
    by (auto simp: check_sell_def split: option.splits if_splits)
  note b = find_buy [OF fb]
  have f: "0 < fi_qty f" "on_grid k (fi_qty f)" using ex by (auto simp: qty_exact_def)
  have "(sold fs (fi_lot_id f) + fi_qty f) * 10 ^ k \<le> 10 ^ 28"
    by (rule scaled_le [of _ "sum_list (map fi_qty (fs @ [f]))"])
       (use sold_le [OF ex'] ex in \<open>auto simp: qty_exact_def\<close>)
  then have "dec (sold fs (fi_lot_id f) + fi_qty f) = sold fs (fi_lot_id f) + fi_qty f"
    using f sold_grid [OF ex'] sold_nonneg [OF ex', of "fi_lot_id f"] by (intro dec_on_grid [of k] on_grid_add) auto
  with le have "sold fs (fi_lot_id f) + fi_qty f \<le> fi_qty b" by (simp add: already_sold_exact [OF ex'])
  then have "0 \<le> left (fs @ [f]) b" using b False side by (simp add: left_def sold_snoc)
  moreover have "left (fs @ [f]) b' = left fs b'" if "b' \<in> set fs" "is_buy b'" "b' \<noteq> b" for b'
    using that b lot_buy_unique [OF wf, of b' b] by (auto simp: left_snoc)
  ultimately have "\<forall>b' \<in> set fs. is_buy b' \<longrightarrow> 0 \<le> left (fs @ [f]) b'"
    using wf unfolding lots_wf_def by metis
  with wf False side b sy show ?thesis unfolding lots_wf_def by auto
qed

lemma recorded_fills_step:
  assumes "ledger_apply p l = Inr l'"
  shows "le_registry l' = le_registry l \<and> (le_fills l' = le_fills l \<or>
    (\<exists>f u. le_fills l' = le_fills l @ [f] \<and> (is_buy f \<or> is_sell f)
      \<and> (if is_buy f then check_buy (le_registry l) (le_fills l) f else check_sell (le_fills l) f) = Inr u))"
  using assms
  by (cases p) (auto simp: record_fill_def record_order_status_def record_cash_adjustment_def
      record_balance_correction_def bindE_eq_Inr split: if_split_asm)

text \<open>Every prefix of the fills of a ledger with any history is well formed.\<close>

definition prefixes_wf :: "nat \<Rightarrow> ledger \<Rightarrow> bool" where
  "prefixes_wf k l \<longleftrightarrow> (\<forall>pre suf. le_fills l = pre @ suf \<longrightarrow> qty_exact k pre \<longrightarrow> lots_wf (le_registry l) pre)"

lemma prefixes_wf_step:
  assumes "prefixes_wf k m" and "ledger_apply p m = Inr m'"
  shows "prefixes_wf k m'"
proof -
  have reg: "le_registry m' = le_registry m" using recorded_fills_step [OF assms(2)] by simp
  consider "le_fills m' = le_fills m"
    | f u where "le_fills m' = le_fills m @ [f]" "is_buy f \<or> is_sell f"
        "(if is_buy f then check_buy (le_registry m) (le_fills m) f else check_sell (le_fills m) f) = Inr u"
    using recorded_fills_step [OF assms(2)] by blast
  then show ?thesis
  proof cases
    case 1
    with assms(1) reg show ?thesis by (simp add: prefixes_wf_def)
  next
    case 2
    show ?thesis unfolding prefixes_wf_def reg 2(1)
    proof (intro allI impI)
      fix pre suf assume h: "le_fills m @ [f] = pre @ suf" "qty_exact k pre"
      show "lots_wf (le_registry m) pre"
      proof (cases suf rule: rev_cases)
        case Nil
        then have pre: "pre = le_fills m @ [f]" using h(1) by simp
        have "qty_exact k (le_fills m)" using h(2) pre qty_exact_snocD by blast
        with assms(1) have "lots_wf (le_registry m) (le_fills m)" by (auto simp: prefixes_wf_def)
        from lots_wf_snoc [OF this h(2) [unfolded pre] 2(2,3)] show ?thesis by (simp add: pre)
      next
        case (snoc suf' x)
        then have "le_fills m = pre @ suf'" using h(1) by simp
        with assms(1) h(2) show ?thesis by (auto simp: prefixes_wf_def)
      qed
    qed
  qed
qed

lemma exec_prefixes_wf:
  assumes "make_ledger acct opening reg t pol ps = Inr l0"
  shows "prefixes_wf k (ledger_exec ops l0)"
proof (rule ledger_exec_invariant [OF _ prefixes_wf_step])
  show "prefixes_wf k l0"
    using assms by (auto simp: make_ledger_def prefixes_wf_def lots_wf_def split: if_splits)
qed

lemma exec_lots_wf:
  assumes "make_ledger acct opening reg t pol ps = Inr l0" and "l = ledger_exec ops l0" and "qty_exact k (le_fills l)"
  shows "lots_wf (le_registry l) (le_fills l)"
  using exec_prefixes_wf [OF assms(1), of k ops] assms(2,3) unfolding prefixes_wf_def by blast

subsection \<open>The dicts of one pass\<close>

lemma buys_of_snoc:
  "buys_of (fs @ [f]) = (if is_buy f then AList.update (fi_lot_id f) f (buys_of fs) else buys_of fs)"
  by (simp add: buys_of_def)

lemma map_of_lots: "map_of (map (\<lambda>b. (fi_lot_id b, g b)) bs) x = None \<longleftrightarrow> x \<notin> fi_lot_id ` set bs"
  by (induction bs) auto

lemma buys_of_eq:
  "distinct (map fi_lot_id (filter is_buy fs)) \<Longrightarrow> buys_of fs = map (\<lambda>b. (fi_lot_id b, b)) (filter is_buy fs)"
proof (induction fs rule: rev_induct)
  case Nil
  show ?case by (simp add: buys_of_def)
next
  case (snoc f fs)
  then show ?case
    using update_absent [of "map (\<lambda>b. (fi_lot_id b, b)) (filter is_buy fs)" "fi_lot_id f" f]
    by (auto simp: buys_of_snoc map_of_lots)
qed

lemma sold_of_snoc: "sold_of (fs @ [f]) = (if is_buy f then sold_of fs
   else AList.update (fi_lot_id f) (dec (dict_get (sold_of fs) (fi_lot_id f) 0 + fi_qty f)) (sold_of fs))"
  by (simp add: sold_of_def)

lemma sold_of_eq:
  "qty_exact k fs \<Longrightarrow> \<forall>f \<in> set fs. is_buy f \<or> is_sell f \<Longrightarrow> dict_get (sold_of fs) lid 0 = sold fs lid"
proof (induction fs arbitrary: lid rule: rev_induct)
  case Nil
  show ?case by (simp add: sold_of_def sold_def dict_get_def)
next
  case (snoc f fs)
  note ex = qty_exact_snocD [OF snoc.prems(1)]
  have IH: "dict_get (sold_of fs) lid 0 = sold fs lid" for lid using snoc.IH [OF ex] snoc.prems(2) by simp
  have f: "0 < fi_qty f" "on_grid k (fi_qty f)" using snoc.prems(1) by (auto simp: qty_exact_def)
  have "(sold fs (fi_lot_id f) + fi_qty f) * 10 ^ k \<le> 10 ^ 28"
    by (rule scaled_le [of _ "sum_list (map fi_qty (fs @ [f]))"])
       (use sold_le [OF ex] snoc.prems(1) in \<open>auto simp: qty_exact_def\<close>)
  then have "dec (sold fs (fi_lot_id f) + fi_qty f) = sold fs (fi_lot_id f) + fi_qty f"
    using f sold_grid [OF ex] sold_nonneg [OF ex, of "fi_lot_id f"] by (intro dec_on_grid [of k] on_grid_add) auto
  then show ?case using IH snoc.prems(2) by (auto simp: sold_of_snoc sold_snoc)
qed

subsection \<open>Lots\<close>

lemma mapE_all2: "mapE f xs = Inr ys \<Longrightarrow> list_all2 (\<lambda>x y. f x = Inr y) xs ys"
  by (induction xs arbitrary: ys) (auto simp: bindE_eq_Inr)

lemma mapE_is_ok: "is_ok (mapE f xs) \<longleftrightarrow> (\<forall>x \<in> set xs. is_ok (f x))"
  by (induction xs) (auto simp: is_ok_iff bindE_eq_Inr)

lemma qty_le: "qty_exact k fs \<Longrightarrow> b \<in> set fs \<Longrightarrow> fi_qty b \<le> sum_list (map fi_qty fs)"
  by (rule member_le_sum_list) (auto simp: qty_exact_def less_imp_le)

lemma max_left:
  assumes "qty_exact k fs" and "b \<in> set fs" and "0 \<le> left fs b"
  shows "max (dec (fi_qty b - sold fs (fi_lot_id b))) 0 = left fs b"
proof -
  have "\<bar>left fs b\<bar> * 10 ^ k \<le> 10 ^ 28"
    by (rule scaled_le [of _ "sum_list (map fi_qty fs)"])
       (use assms(1,3) sold_nonneg [OF assms(1), of "fi_lot_id b"] qty_le [OF assms(1,2)]
        in \<open>auto simp: qty_exact_def left_def\<close>)
  then have "dec (left fs b) = left fs b"
    using assms(1,2) sold_grid [OF assms(1)] by (intro dec_on_grid [of k]) (auto simp: left_def qty_exact_def)
  with assms(3) show ?thesis by (simp add: left_def)
qed

lemma lot_of_buy_exact:
  assumes "lot_of_buy l (fi_lot_id b, b) = Inr lt" and "qty_exact k (le_fills l)"
    and "lots_wf (le_registry l) (le_fills l)" and "b \<in> set (le_fills l)" and "is_buy b"
  shows "lot_symbol lt = fi_symbol b \<and> lot_account lt = le_account l \<and> lot_qty lt = left (le_fills l) b
     \<and> lot_id lt = fi_lot_id b \<and> (\<not> is_open lt \<longrightarrow> left (le_fills l) b = 0)"
proof -
  have "0 \<le> left (le_fills l) b" and sd: "dict_get (sold_of (le_fills l)) (fi_lot_id b) 0 = sold (le_fills l) (fi_lot_id b)"
    using assms by (auto simp: lots_wf_def intro: sold_of_eq)
  with max_left [OF assms(2,4)] assms(1) show ?thesis
    by (auto simp: lot_of_buy_def Let_def bindE_eq_Inr make_lot_def is_open_def split: option.splits if_splits)
qed

subsection \<open>Positions\<close>

definition counted :: "ledger \<Rightarrow> string \<Rightarrow> lot \<Rightarrow> bool" where
  "counted l sy lt \<longleftrightarrow> is_open lt \<and> lot_account lt = le_account l \<and> lot_symbol lt = sy"

lemma positions_fold:
  "dict_get (foldl (\<lambda>d lt. if is_open lt \<and> lot_account lt = le_account l
      then AList.update (lot_symbol lt) (dec (dict_get d (lot_symbol lt) 0 + lot_qty lt)) d else d) d ls) sy 0
   = sum_seq dec (dict_get d sy 0) (map lot_qty (filter (counted l sy) ls))"
  by (induction ls arbitrary: d) (auto simp: counted_def)

definition buys_in :: "string \<Rightarrow> fill list \<Rightarrow> fill list" where
  "buys_in sy fs = filter (\<lambda>f. is_buy f \<and> fi_symbol f = sy) fs"

lemma counted_sum:
  assumes "list_all2 (\<lambda>b lt. lot_symbol lt = fi_symbol b \<and> lot_account lt = le_account l
      \<and> lot_qty lt = left fs b \<and> (\<not> is_open lt \<longrightarrow> left fs b = 0)) bs ls"
  shows "sum_list (map lot_qty (filter (counted l sy) ls))
      = sum_list (map (left fs) (filter (\<lambda>b. fi_symbol b = sy) bs))"
    and "\<forall>q \<in> set (map lot_qty (filter (counted l sy) ls)). \<exists>b \<in> set bs. q = left fs b"
  using assms by (induction bs ls rule: list_all2_induct) (auto simp: counted_def)

lemma sum_at_unique:
  "distinct (map k bs) \<Longrightarrow> sum_list (map (\<lambda>b. if x = k b then c else 0) bs) = (if x \<in> k ` set bs then c else (0 :: rat))"
  by (induction bs) auto

lemma sold_total:
  assumes "\<forall>f \<in> set gs. is_sell f \<longrightarrow> (\<exists>b \<in> set fs. is_buy b \<and> fi_lot_id b = fi_lot_id f \<and> fi_symbol b = fi_symbol f)"
    and d: "distinct (map fi_lot_id (filter is_buy fs))"
  shows "sum_list (map (\<lambda>b. sold gs (fi_lot_id b)) (buys_in sy fs))
     = sum_list (map fi_qty (filter (\<lambda>f. is_sell f \<and> fi_symbol f = sy) gs))"
  using assms(1)
proof (induction gs rule: rev_induct)
  case Nil
  show ?case by (simp add: sold_def)
next
  case (snoc g gs)
  have db: "distinct (map fi_lot_id (buys_in sy fs))"
    using d unfolding buys_in_def by (metis distinct_map_filter filter_filter)
  have "fi_lot_id g \<in> fi_lot_id ` set (buys_in sy fs) \<longleftrightarrow> fi_symbol g = sy" if sell: "is_sell g"
  proof -
    obtain b where b: "b \<in> set fs" "is_buy b" "fi_lot_id b = fi_lot_id g" "fi_symbol b = fi_symbol g"
      using snoc.prems sell by auto
    have uniq: "b' = b" if "b' \<in> set fs" "is_buy b'" "fi_lot_id b' = fi_lot_id g" for b'
      using inj_onD [of fi_lot_id "set (filter is_buy fs)" b' b] d that b by (simp add: distinct_map)
    show ?thesis
    proof
      assume "fi_lot_id g \<in> fi_lot_id ` set (buys_in sy fs)"
      then obtain b' where "b' \<in> set fs" "is_buy b'" "fi_symbol b' = sy" "fi_lot_id b' = fi_lot_id g"
        by (auto simp: buys_in_def)
      with uniq [of b'] b(4) show "fi_symbol g = sy" by simp
    next
      assume "fi_symbol g = sy"
      with b have "b \<in> set (buys_in sy fs)" by (simp add: buys_in_def)
      with b(3) show "fi_lot_id g \<in> fi_lot_id ` set (buys_in sy fs)" by (metis image_eqI)
    qed
  qed
  then have "sum_list (map (\<lambda>b. if fi_lot_id g = fi_lot_id b then (if is_sell g then fi_qty g else 0) else 0) (buys_in sy fs))
     = (if is_sell g \<and> fi_symbol g = sy then fi_qty g else 0)"
    unfolding sum_at_unique [OF db] by simp
  moreover have "sold (gs @ [g]) lid = sold gs lid + (if fi_lot_id g = lid then if is_sell g then fi_qty g else 0 else 0)" for lid
    by (simp add: sold_snoc)
  ultimately show ?case using snoc by (simp add: sum_list_addf)
qed

lemma left_total:
  assumes "lots_wf reg fs"
  shows "sum_list (map (left fs) (buys_in sy fs)) = sum_list (map signed_qty (filter (\<lambda>f. fi_symbol f = sy) fs))"
proof -
  have sides: "\<forall>f \<in> set fs. is_buy f \<or> is_sell f" using assms by (simp add: lots_wf_def)
  have split: "sum_list (map signed_qty (filter (\<lambda>f. fi_symbol f = sy) gs)) = sum_list (map fi_qty (buys_in sy gs))
      - sum_list (map fi_qty (filter (\<lambda>f. is_sell f \<and> fi_symbol f = sy) gs))"
    if "\<forall>f \<in> set gs. is_buy f \<or> is_sell f" for gs
    using that by (induction gs) (auto simp: signed_qty_def buys_in_def)
  have "sum_list (map (left fs) (buys_in sy fs)) = sum_list (map fi_qty (buys_in sy fs))
      - sum_list (map (\<lambda>b. sold fs (fi_lot_id b)) (buys_in sy fs))"
    unfolding sum_list_subtractf [symmetric] by (rule arg_cong [where f = sum_list]) (simp add: left_def)
  also have "\<dots> = sum_list (map signed_qty (filter (\<lambda>f. fi_symbol f = sy) fs))"
    using sold_total [of fs fs sy] assms by (simp add: split [OF sides] lots_wf_def)
  finally show ?thesis .
qed

lemma sum_left_abs:
  assumes "qty_exact k fs" and "lots_wf reg fs"
  shows "sum_list (map (left fs) (buys_in sy fs)) \<le> sum_list (map fi_qty fs)"
proof -
  have "sum_list (map (left fs) (buys_in sy fs)) \<le> sum_list (map fi_qty (buys_in sy fs))"
    by (rule sum_list_mono) (use sold_nonneg [OF assms(1)] in \<open>simp add: left_def\<close>)
  also have "\<dots> \<le> sum_list (map fi_qty fs)"
    unfolding buys_in_def by (rule sum_filter_le) (use assms(1) in \<open>auto simp: qty_exact_def less_imp_le\<close>)
  finally show ?thesis .
qed

lemma lots_exact:
  assumes "lots l = Inr ls" and "qty_exact k (le_fills l)" and "lots_wf (le_registry l) (le_fills l)"
  shows "list_all2 (\<lambda>b lt. lot_symbol lt = fi_symbol b \<and> lot_account lt = le_account l
      \<and> lot_qty lt = left (le_fills l) b \<and> (\<not> is_open lt \<longrightarrow> left (le_fills l) b = 0))
    (filter is_buy (le_fills l)) ls"
proof -
  have "buys_of (le_fills l) = map (\<lambda>b. (fi_lot_id b, b)) (filter is_buy (le_fills l))"
    using assms(3) by (intro buys_of_eq) (simp add: lots_wf_def)
  with mapE_all2 [OF assms(1) [unfolded lots_def]]
  have "list_all2 (\<lambda>b lt. lot_of_buy l (fi_lot_id b, b) = Inr lt) (filter is_buy (le_fills l)) ls"
    by (simp add: list_all2_map1)
  then show ?thesis
    by (rule list.rel_mono_strong) (use lot_of_buy_exact assms(2,3) in auto)
qed

text \<open>The positions are the opening ones plus the signed quantities, and are never oversold.\<close>

lemma positions_exact:
  assumes "positions l = Inr d" and ex: "qty_exact k (le_fills l)"
    and wf: "lots_wf (le_registry l) (le_fills l)"
    and g: "on_grid k (dict_get (le_opening_positions l) sy 0)"
    and b: "(\<bar>dict_get (le_opening_positions l) sy 0\<bar> + sum_list (map fi_qty (le_fills l))) * 10 ^ k \<le> 10 ^ 28"
  shows "dict_get d sy 0 = dict_get (le_opening_positions l) sy 0
      + sum_list (map signed_qty (filter (\<lambda>f. fi_symbol f = sy) (le_fills l)))
    \<and> dict_get (le_opening_positions l) sy 0 \<le> dict_get d sy 0"
proof -
  let ?o = "dict_get (le_opening_positions l) sy 0"
  obtain ls where ls: "lots l = Inr ls"
    and d: "dict_get d sy 0 = sum_seq dec ?o (map lot_qty (filter (counted l sy) ls))"
    using assms(1) by (auto simp: positions_def bindE_eq_Inr positions_fold)
  let ?qs = "map lot_qty (filter (counted l sy) ls)"
  note cs = counted_sum [OF lots_exact [OF ls ex wf], of sy]
  have bf: "filter (\<lambda>b. fi_symbol b = sy) (filter is_buy (le_fills l)) = buys_in sy (le_fills l)"
    by (simp add: buys_in_def conj_commute)
  have q: "0 \<le> q \<and> on_grid k q" if qin: "q \<in> set ?qs" for q
  proof -
    obtain bb where "bb \<in> set (le_fills l)" "is_buy bb" "q = left (le_fills l) bb"
      using bspec [OF cs(2) qin] by auto
    with wf ex sold_grid [OF ex] show ?thesis by (auto simp: lots_wf_def left_def qty_exact_def)
  qed
  then have ab: "map abs ?qs = ?qs" by (intro map_idI) auto
  have sm: "sum_list ?qs = sum_list (map (left (le_fills l)) (buys_in sy (le_fills l)))" using cs(1) unfolding bf .
  have "(\<bar>?o\<bar> + sum_list (map abs ?qs)) * 10 ^ k \<le> 10 ^ 28"
    unfolding ab by (rule scaled_le [OF _ b]) (use sm sum_left_abs [OF ex wf] in simp)
  then have "dict_get d sy 0 = ?o + sum_list ?qs"
    unfolding d by (intro on_grid_abs_bound [OF g]) (use q in auto)
  moreover have "0 \<le> sum_list ?qs" by (rule sum_list_nonneg) (use q in auto)
  ultimately show ?thesis using sm left_total [OF wf] by simp
qed

text \<open>Positions are defined as long as the calendar covers the settlement of every buy.\<close>

lemma positions_defined:
  assumes "lots_wf (le_registry l) (le_fills l)"
  shows "is_ok (positions l) \<longleftrightarrow> (\<forall>b \<in> set (le_fills l). is_buy b \<longrightarrow> is_ok (fill_settles_at l b))"
proof -
  have "buys_of (le_fills l) = map (\<lambda>b. (fi_lot_id b, b)) (filter is_buy (le_fills l))"
    using assms by (intro buys_of_eq) (simp add: lots_wf_def)
  moreover have "is_ok (lot_of_buy l (fi_lot_id b, b)) \<longleftrightarrow> is_ok (fill_settles_at l b)"
    if "b \<in> set (le_fills l)" "is_buy b" for b
  proof -
    have "\<exists>v. fi_policy_version b = Some v \<and> is_ok (hp_get (le_registry l) v)"
      using assms that by (simp add: lots_wf_def)
    then obtain v p where "fi_policy_version b = Some v" "hp_get (le_registry l) v = Inr p"
      unfolding is_ok_iff by blast
    then show ?thesis
      by (cases "fill_settles_at l b")
         (simp_all only: lot_of_buy_def make_lot_def is_ok_def Let_def bindE_Inl bindE_Inr prod.case
            option.case sum.case)
  qed
  ultimately have "is_ok (lots l) \<longleftrightarrow> (\<forall>b \<in> set (filter is_buy (le_fills l)). is_ok (fill_settles_at l b))"
    unfolding lots_def mapE_is_ok by simp
  moreover have "is_ok (positions l) = is_ok (lots l)"
    by (cases "lots l") (simp_all add: positions_def is_ok_def)
  ultimately show ?thesis by auto
qed

subsection \<open>Disposal records\<close>

text \<open>A dict with one entry per buy, and what updating it does.\<close>

lemma update_lots:
  "distinct (map fi_lot_id bs) \<Longrightarrow> b \<in> set bs \<Longrightarrow>
   AList.update (fi_lot_id b) v (map (\<lambda>x. (fi_lot_id x, g x)) bs)
   = map (\<lambda>x. (fi_lot_id x, if fi_lot_id x = fi_lot_id b then v else g x)) bs"
  by (induction bs) (auto simp: image_iff intro!: map_cong)

lemma lookup_lots:
  "distinct (map fi_lot_id bs) \<Longrightarrow> b \<in> set bs \<Longrightarrow> map_of (map (\<lambda>x. (fi_lot_id x, g x)) bs) (fi_lot_id b) = Some (g b)"
  by (induction bs) (auto simp: image_iff)

definition still_open :: "fill list \<Rightarrow> string \<Rightarrow> fill list" where
  "still_open fs sy = filter (\<lambda>b. is_buy b \<and> fi_symbol b = sy \<and> 0 < left fs b) fs"

text \<open>The broker's choice for a sell after the fills \<open>fs\<close>: an open lot of the symbol that is first in
  the order of opening time and lot id.\<close>

definition fifo_first :: "fill list \<Rightarrow> fill \<Rightarrow> string \<Rightarrow> bool" where
  "fifo_first fs f lid \<longleftrightarrow> (\<exists>b \<in> set (still_open fs (fi_symbol f)). fi_lot_id b = lid
     \<and> (\<forall>b' \<in> set (still_open fs (fi_symbol f)). (fi_filled_at b, fi_lot_id b) \<le> (fi_filled_at b', fi_lot_id b')))"

definition disposal_inv :: "fill list \<Rightarrow> disposal_state \<Rightarrow> bool" where
  "disposal_inv fs d \<longleftrightarrow>
     ds_remaining d = map (\<lambda>b. (fi_lot_id b, left fs b)) (filter is_buy fs)
     \<and> ds_opened_at d = map (\<lambda>b. (fi_lot_id b, fi_filled_at b)) (filter is_buy fs)
     \<and> ds_symbol_of d = map (\<lambda>b. (fi_lot_id b, fi_symbol b)) (filter is_buy fs)
     \<and> map dr_fill_id (ds_out d) = map fi_fill_id (filter is_sell fs)
     \<and> (\<forall>r \<in> set (ds_out d). \<exists>i f. i < length fs \<and> fs ! i = f \<and> is_sell f
          \<and> dr_fill_id r = fi_fill_id f \<and> dr_intended_lot_id r = fi_lot_id f
          \<and> fifo_first (take i fs) f (dr_broker_lot_id r))"

lemma open_refs_eq:
  assumes "disposal_inv fs d" and "distinct (map fi_lot_id (filter is_buy fs))"
  shows "open_refs d sy = map (\<lambda>b. (fi_lot_id b, fi_filled_at b)) (still_open fs sy)"
proof -
  let ?bs = "filter is_buy fs"
  have "open_refs d sy = map (\<lambda>b. (fi_lot_id b, dict_get (ds_opened_at d) (fi_lot_id b) 0))
      (filter (\<lambda>b. left fs b > 0 \<and> map_of (ds_symbol_of d) (fi_lot_id b) = Some sy) ?bs)"
    using assms(1) by (simp add: open_refs_def disposal_inv_def filter_map comp_def)
  also have "\<dots> = map (\<lambda>b. (fi_lot_id b, fi_filled_at b)) (filter (\<lambda>b. left fs b > 0 \<and> fi_symbol b = sy) ?bs)"
    using assms(1)
    by (intro map_cong filter_cong) (auto simp: disposal_inv_def dict_get_def lookup_lots [OF assms(2)])
  finally show ?thesis by (simp add: still_open_def conj_ac)
qed

lemma sorted_head_least:
  fixes key :: "'a \<Rightarrow> 'k :: linorder"
  assumes "sort_key key xs = r # rest"
  shows "r \<in> set xs" and "\<forall>x \<in> set xs. key r \<le> key x"
proof -
  have "set (r # rest) = set xs" using assms by (metis set_sort)
  moreover have "sorted (map key (r # rest))" using assms by (metis sorted_sort_key)
  ultimately show "r \<in> set xs" "\<forall>x \<in> set xs. key r \<le> key x" by auto
qed

lemma disposal_step_sell:
  assumes "\<not> is_buy f" and "disposal_step policy d f = Inr d'"
  obtains ordered where "disposal_order policy ref_key (open_refs d (fi_symbol f)) = Inr ordered"
    and "ds_out d' = ds_out d @ [\<lparr> dr_fill_id = fi_fill_id f, dr_account = fi_account f,
         dr_symbol = fi_symbol f, dr_intended_lot_id = fi_lot_id f,
         dr_broker_lot_id = (case ordered of [] \<Rightarrow> fi_lot_id f | r # _ \<Rightarrow> fst r), dr_at = fi_filled_at f \<rparr>]"
    and "ds_remaining d' = AList.update (fi_lot_id f) (dec (dict_get (ds_remaining d) (fi_lot_id f) 0 - fi_qty f)) (ds_remaining d)"
    and "ds_opened_at d' = ds_opened_at d" and "ds_symbol_of d' = ds_symbol_of d"
  using assms(2) unfolding disposal_step_def Let_def if_not_P [OF assms(1)] bindE_eq_Inr
  by (elim exE conjE, simp only: sum.inject, hypsubst) simp

lemma disposal_sell:
  assumes inv: "disposal_inv fs d" and wf: "lots_wf reg (fs @ [f])" and ex: "qty_exact k (fs @ [f])"
    and sell: "is_sell f" and st: "disposal_step policy d f = Inr d'"
  shows "disposal_inv (fs @ [f]) d'"
proof -
  have nb: "\<not> is_buy f" using sell by (auto simp: is_buy_def is_sell_def)
  have db: "distinct (map fi_lot_id (filter is_buy fs))" using wf nb by (simp add: lots_wf_def)
  obtain b where b: "b \<in> set fs" "is_buy b" "fi_lot_id b = fi_lot_id f" "fi_symbol b = fi_symbol f"
    using wf sell nb by (auto simp: lots_wf_def)
  have pos: "0 < fi_qty f" "0 \<le> left (fs @ [f]) b" using ex wf b by (auto simp: qty_exact_def lots_wf_def)
  then have bo: "b \<in> set (still_open fs (fi_symbol f))"
    using b sell by (auto simp: still_open_def left_snoc)
  let ?refs = "map (\<lambda>b. (fi_lot_id b, fi_filled_at b)) (still_open fs (fi_symbol f))"
  obtain ordered where o: "disposal_order policy ref_key (open_refs d (fi_symbol f)) = Inr ordered"
    and out: "ds_out d' = ds_out d @ [\<lparr> dr_fill_id = fi_fill_id f, dr_account = fi_account f,
         dr_symbol = fi_symbol f, dr_intended_lot_id = fi_lot_id f,
         dr_broker_lot_id = (case ordered of [] \<Rightarrow> fi_lot_id f | r # _ \<Rightarrow> fst r), dr_at = fi_filled_at f \<rparr>]"
    and rm: "ds_remaining d' = AList.update (fi_lot_id f) (dec (dict_get (ds_remaining d) (fi_lot_id f) 0 - fi_qty f)) (ds_remaining d)"
    and same: "ds_opened_at d' = ds_opened_at d" "ds_symbol_of d' = ds_symbol_of d"
    by (rule disposal_step_sell [OF nb st])
  have ord: "ordered = sort_key ref_key ?refs"
    using o by (simp add: disposal_order_eq_Inr open_refs_eq [OF inv db])
  have "set ordered = set ?refs" by (simp add: ord)
  with bo have "ordered \<noteq> []" by auto
  then obtain r rest where r: "ordered = r # rest" by (cases ordered) auto
  note least = sorted_head_least [OF ord [symmetric, unfolded r]]
  have fifo: "fifo_first fs f (fst r)" using least by (fastforce simp: fifo_first_def ref_key_def)
  have rem: "dict_get (ds_remaining d) (fi_lot_id f) 0 = left fs b"
    using inv lookup_lots [OF db, of b "left fs"] b by (simp add: disposal_inv_def dict_get_def)
  have "\<bar>left (fs @ [f]) b\<bar> * 10 ^ k \<le> 10 ^ 28"
    by (rule scaled_le [of _ "sum_list (map fi_qty (fs @ [f]))"])
       (use pos(2) ex qty_le [OF ex, of b] sold_nonneg [OF ex, of "fi_lot_id b"] b in \<open>auto simp: left_def qty_exact_def\<close>)
  moreover have "on_grid k (left (fs @ [f]) b)"
    using ex b sold_grid [OF ex] by (auto simp: left_def qty_exact_def)
  ultimately have dq: "dec (left fs b - fi_qty f) = left (fs @ [f]) b"
    using dec_on_grid b(3) sell by (simp add: left_snoc)
  have "ds_remaining d' = map (\<lambda>x. (fi_lot_id x, left (fs @ [f]) x)) (filter is_buy fs)"
  proof -
    have "ds_remaining d' = map (\<lambda>x. (fi_lot_id x, if fi_lot_id x = fi_lot_id b then left (fs @ [f]) b else left fs x)) (filter is_buy fs)"
    proof -
      have e: "ds_remaining d = map (\<lambda>x. (fi_lot_id x, left fs x)) (filter is_buy fs)"
        using inv by (simp add: disposal_inv_def)
      show ?thesis unfolding rm rem dq unfolding b(3) [symmetric] e
        by (rule update_lots [OF db]) (use b(1,2) in simp)
    qed
    also have "\<dots> = map (\<lambda>x. (fi_lot_id x, left (fs @ [f]) x)) (filter is_buy fs)"
    proof (rule map_cong [OF refl])
      fix x assume x: "x \<in> set (filter is_buy fs)"
      then have "fi_lot_id x = fi_lot_id b \<Longrightarrow> x = b"
        using inj_onD [of fi_lot_id "set (filter is_buy fs)" x b] db b by (simp add: distinct_map)
      moreover have "fi_lot_id x \<noteq> fi_lot_id b \<Longrightarrow> left (fs @ [f]) x = left fs x"
        using b(3) by (auto simp: left_snoc)
      ultimately show "(fi_lot_id x, if fi_lot_id x = fi_lot_id b then left (fs @ [f]) b else left fs x)
          = (fi_lot_id x, left (fs @ [f]) x)" by (cases "fi_lot_id x = fi_lot_id b") simp_all
    qed
    finally show ?thesis .
  qed
  moreover have "\<exists>i g. i < length (fs @ [f]) \<and> (fs @ [f]) ! i = g \<and> is_sell g \<and> dr_fill_id q = fi_fill_id g
      \<and> dr_intended_lot_id q = fi_lot_id g \<and> fifo_first (take i (fs @ [f])) g (dr_broker_lot_id q)"
    if q: "q \<in> set (ds_out d)" for q
  proof -
    obtain i where i: "i < length fs" "is_sell (fs ! i)" "dr_fill_id q = fi_fill_id (fs ! i)"
      "dr_intended_lot_id q = fi_lot_id (fs ! i)" "fifo_first (take i fs) (fs ! i) (dr_broker_lot_id q)"
      using inv q by (auto simp: disposal_inv_def)
    then show ?thesis by (intro exI [of _ i] exI [of _ "fs ! i"]) (simp add: nth_append)
  qed
  ultimately show ?thesis
    using inv nb sell fifo r unfolding disposal_inv_def out same by (auto intro!: exI [of _ "length fs"])
qed

lemma disposal_buy:
  assumes inv: "disposal_inv fs d" and wf: "lots_wf reg fs" and wf': "lots_wf reg (fs @ [f])"
    and ex: "qty_exact k (fs @ [f])" and buy: "is_buy f" and st: "disposal_step policy d f = Inr d'"
  shows "disposal_inv (fs @ [f]) d'"
proof -
  have new: "fi_lot_id f \<notin> fi_lot_id ` set (filter is_buy fs)" using wf' buy by (simp add: lots_wf_def)
  then have "filter (\<lambda>g. fi_lot_id g = fi_lot_id f \<and> is_sell g) fs = []"
    using wf unfolding lots_wf_def filter_empty_conv by (metis (mono_tags, lifting) filter_set image_eqI mem_Collect_eq set_filter)
  then have z: "sold fs (fi_lot_id f) = 0" by (simp add: sold_def)
  have lf: "left (fs @ [f]) b = left fs b" for b using buy by (auto simp: left_snoc)
  have none: "map_of (map (\<lambda>b. (fi_lot_id b, g b)) (filter is_buy fs)) (fi_lot_id f) = None" for g :: "fill \<Rightarrow> 'c"
    using new by (simp add: map_of_lots)
  have "dec (fi_qty f) = fi_qty f"
    by (rule dec_on_grid [of k], use ex in \<open>simp add: qty_exact_def\<close>, rule scaled_le [of _ "sum_list (map fi_qty (fs @ [f]))"])
       (use ex qty_le [OF ex, of f] in \<open>auto simp: qty_exact_def\<close>)
  then have d': "d' = d\<lparr>ds_remaining := ds_remaining d @ [(fi_lot_id f, fi_qty f)],
       ds_opened_at := ds_opened_at d @ [(fi_lot_id f, fi_filled_at f)],
       ds_symbol_of := ds_symbol_of d @ [(fi_lot_id f, fi_symbol f)]\<rparr>"
    using st buy inv by (simp add: disposal_step_def Let_def disposal_inv_def dict_get_def update_absent none)
  have "left fs f = fi_qty f" by (simp add: left_def z)
  moreover have "\<not> is_sell f" using buy by simp
  moreover have "\<exists>i g. i < length (fs @ [f]) \<and> (fs @ [f]) ! i = g \<and> is_sell g \<and> dr_fill_id q = fi_fill_id g
      \<and> dr_intended_lot_id q = fi_lot_id g \<and> fifo_first (take i (fs @ [f])) g (dr_broker_lot_id q)"
    if q: "q \<in> set (ds_out d)" for q
  proof -
    obtain i where i: "i < length fs" "is_sell (fs ! i)" "dr_fill_id q = fi_fill_id (fs ! i)"
      "dr_intended_lot_id q = fi_lot_id (fs ! i)" "fifo_first (take i fs) (fs ! i) (dr_broker_lot_id q)"
      using inv q by (auto simp: disposal_inv_def)
    then show ?thesis by (intro exI [of _ i] exI [of _ "fs ! i"]) (simp add: nth_append)
  qed
  ultimately show ?thesis using inv buy by (simp add: d' disposal_inv_def lf)
qed

lemma disposal_fold:
  assumes "foldE (disposal_step policy) \<lparr> ds_remaining = [], ds_opened_at = [], ds_symbol_of = [], ds_out = [] \<rparr> fs = Inr d"
    and "qty_exact k fs" and "\<And>pre suf. fs = pre @ suf \<Longrightarrow> lots_wf reg pre"
  shows "disposal_inv fs d"
  using assms
proof (induction fs arbitrary: d rule: rev_induct)
  case Nil
  then show ?case by (auto simp: disposal_inv_def)
next
  case (snoc f fs)
  from snoc.prems(1) obtain e where e: "foldE (disposal_step policy) \<lparr> ds_remaining = [], ds_opened_at = [], ds_symbol_of = [], ds_out = [] \<rparr> fs = Inr e"
    and st: "disposal_step policy e f = Inr d" by (auto simp: foldE_append bindE_eq_Inr)
  have wf': "lots_wf reg (fs @ [f])" and wf: "lots_wf reg fs" using snoc.prems(3) by auto
  have inv: "disposal_inv fs e"
    by (rule snoc.IH [OF e qty_exact_snocD [OF snoc.prems(2)]]) (use snoc.prems(3) in auto)
  have "is_buy f \<or> is_sell f" using wf' by (simp add: lots_wf_def)
  then show ?case using disposal_buy [OF inv wf wf' snoc.prems(2) _ st] disposal_sell [OF inv wf' snoc.prems(2) _ st] by blast
qed

subsection \<open>Properties\<close>

text \<open>
C29: Holdings are conserved: for a ledger with any history, the derived positions answer exactly when
  the calendar covers the settlement of every buy, and the position of a symbol is then its opening
  position plus the quantities bought minus the quantities sold, never below the opening position,
  so no sequence of fills the ledger accepted can oversell. Quantities have \<open>k\<close> decimal places and add
  up below \<open>10 ^ (28 - k)\<close>.
\<close>
theorem ledger_positions_conserved:
  assumes "make_ledger acct opening reg t_plus policy ps = Inr l0" and "l = ledger_exec ops l0"
    and "qty_exact k (le_fills l)" and "on_grid k (dict_get (le_opening_positions l) sy 0)"
    and "(\<bar>dict_get (le_opening_positions l) sy 0\<bar> + sum_list (map fi_qty (le_fills l))) * 10 ^ k \<le> 10 ^ 28"
    and "\<forall>b \<in> set (le_fills l). is_buy b \<longrightarrow> is_ok (fill_settles_at l b)"
  shows "\<exists>d. positions l = Inr d
    \<and> dict_get d sy 0 = dict_get (le_opening_positions l) sy 0
        + sum_list (map signed_qty (filter (\<lambda>f. fi_symbol f = sy) (le_fills l)))
    \<and> dict_get (le_opening_positions l) sy 0 \<le> dict_get d sy 0"
proof -
  note wf = exec_lots_wf [OF assms(1-3)]
  obtain d where d: "positions l = Inr d" using positions_defined [OF wf] assms(6) by (auto simp: is_ok_iff)
  from positions_exact [OF d assms(3) wf assms(4,5)] d show ?thesis by blast
qed

text \<open>
  Disposal records tell what the broker did: for a ledger with any history under the broker's
  first-in-first-out policy there is one record per sell, in order, and each names, beside the lot the sell
  intended, the open lot of the symbol that came first by opening time and lot id among all lots
  with shares left just before that sell.
\<close>
theorem disposal_records_fifo:
  assumes "make_ledger acct opening reg t_plus policy ps = Inr l0" and "l = ledger_exec ops l0"
    and "qty_exact k (le_fills l)" and "disposal_records l = Inr ds"
  shows "map dr_fill_id ds = map fi_fill_id (filter is_sell (le_fills l))
    \<and> (\<forall>r \<in> set ds. \<exists>i f. i < length (le_fills l) \<and> le_fills l ! i = f \<and> is_sell f
         \<and> dr_fill_id r = fi_fill_id f \<and> dr_intended_lot_id r = fi_lot_id f
         \<and> fifo_first (take i (le_fills l)) f (dr_broker_lot_id r))"
proof -
  obtain d where d: "foldE (disposal_step (le_policy l)) \<lparr> ds_remaining = [], ds_opened_at = [], ds_symbol_of = [], ds_out = [] \<rparr>
      (le_fills l) = Inr d" and ds: "ds = ds_out d"
    using assms(4) by (auto simp: disposal_records_def bindE_eq_Inr)
  have "lots_wf (le_registry l) pre" if "le_fills l = pre @ suf" for pre suf
  proof -
    have "qty_exact k pre" using assms(3) unfolding that by (induction suf rule: rev_induct)
      (simp, metis append.assoc qty_exact_snocD)
    with that exec_prefixes_wf [OF assms(1), of k ops] assms(2) show ?thesis by (auto simp: prefixes_wf_def)
  qed
  from disposal_fold [OF d assms(3) this] show ?thesis by (simp add: disposal_inv_def ds)
qed

lemma ex_exact: "qty_exact 0 (le_fills ex_ledger)"
  by (simp add: qty_exact_def ex_cash_eval ex_fill_fields)

lemma ex_buy_settles: "is_ok (settlement_instant (Aware (ex_at 5)) 1)"
  by code_simp

theorem ledger_positions_conserved_witness:
  "\<exists>d. positions ex_ledger = Inr d \<and> dict_get d ''SPY'' 0 = 1"
proof -
  have g: "on_grid 0 (dict_get (le_opening_positions ex_ledger) ''SPY'' 0)"
    and b: "(\<bar>dict_get (le_opening_positions ex_ledger) ''SPY'' 0\<bar>
      + sum_list (map fi_qty (le_fills ex_ledger))) * 10 ^ 0 \<le> 10 ^ 28"
    and s: "\<forall>b \<in> set (le_fills ex_ledger). is_buy b \<longrightarrow> is_ok (fill_settles_at ex_ledger b)"
    by (simp_all add: ex_cash_eval ex_fill_fields dict_get_def ex_buy_settles)
  have "dict_get (le_opening_positions ex_ledger) ''SPY'' 0
      + sum_list (map signed_qty (filter (\<lambda>f. fi_symbol f = ''SPY'') (le_fills ex_ledger))) = 1"
    by (simp add: ex_cash_eval ex_fill_fields dict_get_def signed_qty_def)
  with ledger_positions_conserved [OF ex_made ex_run [symmetric] ex_exact g b s] show ?thesis by auto
qed

text \<open>The strategy sells the younger lot; the broker consumes the older one.\<close>

definition ex_two_fills :: "fill list" where
  "ex_two_fills = [ex_fill ''L1'' ''L1'' ''BUY'' 1 1 5, ex_fill ''L2'' ''L2'' ''BUY'' 1 1 6, ex_fill ''s'' ''L2'' ''SELL'' 1 1 7]"

definition ex_two :: ledger where
  "ex_two = ledger_exec (map RecordFill ex_two_fills) ex_ledger0"

lemma ex_two_run: "le_fills ex_two = ex_two_fills" "le_policy ex_two = ALPACA_DEFAULT_POLICY"
  by (simp_all add: ex_two_def ex_two_fills_def ex_ledger0_def ledger_exec_def ledger_step_def ex_record_simps)

lemma ex_order: "ex_at 5 < ex_at 6"
  by code_simp

theorem disposal_records_fifo_witness:
  "\<exists>r. disposal_records ex_two = Inr [r] \<and> dr_intended_lot_id r = ''L2'' \<and> dr_broker_lot_id r = ''L1''
     \<and> fifo_first (take 2 ex_two_fills) (ex_two_fills ! 2) ''L1''"
proof -
  have one: "dec 1 = 1" using dec_grid [of 1 0] by simp
  obtain r where r: "disposal_records ex_two = Inr [r]" "dr_fill_id r = ''s''" "dr_intended_lot_id r = ''L2''"
      "dr_broker_lot_id r = ''L1''"
    using ex_order one
    by (simp add: disposal_records_def ex_two_run ex_two_fills_def disposal_step_def ex_sides open_refs_def
        ref_key_def dict_get_def Let_def ex_fill_fields)
  have e: "qty_exact 0 (le_fills ex_two)"
    by (simp add: qty_exact_def ex_two_run ex_two_fills_def ex_fill_fields on_grid_def)
  obtain i where "i < length ex_two_fills" "is_sell (ex_two_fills ! i)" "fifo_first (take i ex_two_fills) (ex_two_fills ! i) ''L1''"
    using disposal_records_fifo [OF ex_made ex_two_def e r(1)] r by (auto simp: ex_two_run)
  moreover from this have "i = 2" by (auto simp: ex_two_fills_def ex_sides less_Suc_eq nth_Cons split: nat.splits)
  ultimately show ?thesis using r by auto
qed

text \<open>
  The cost basis of a partly sold lot is not exact: the remaining fraction is a 28-digit quotient, so
  after buying three shares at 1 and selling two, the share that is left carries a basis of
  0.9999999999999999999999999999, although it is documented as the original price times what is left.
\<close>
theorem partial_sale_basis_inexact:
  "\<exists>lt. lots ex_ledger = Inr [lt] \<and> lot_qty lt = 1 \<and> lot_cost_basis lt = (10 ^ 28 - 1) / 10 ^ 28"
proof -
  obtain t where t: "settlement_instant (Aware (ex_at 5)) 1 = Inr t" using ex_buy_settles by (auto simp: is_ok_iff)
  have third: "dec (1 / 3) = 3333333333333333333333333333 / 10 ^ 28"
    using dec_eqI [of "1 / 3" 28 3333333333333333333333333333] by simp
  have basis: "dec (9999999999999999999999999999 / 10000000000000000000000000000)
      = 9999999999999999999999999999 / 10000000000000000000000000000"
    using dec_grid [of 9999999999999999999999999999 28] by simp
  have one: "dec 1 = 1" "dec 3 = 3" "dec 2 = 2" using dec_grid [of 1 0] by (simp_all add: dec_numeral)
  have le: "le_registry ex_ledger = ex_registry" "le_t_plus ex_ledger = 1"
    by (simp_all add: ex_ledger_def ex_ledger0_def)
  have b: "buys_of (le_fills ex_ledger) = [(''L1'', ex_fill ''f1'' ''L1'' ''BUY'' 3 1 5)]"
    by (simp add: buys_of_def ex_cash_eval) (simp add: ex_fill_def)
  have s: "dict_get (sold_of (le_fills ex_ledger)) ''L1'' 0 = 2"
    by (simp add: sold_of_def ex_cash_eval) (simp add: ex_fill_def dict_get_def one)
  have "\<exists>lt. lot_of_buy ex_ledger (''L1'', ex_fill ''f1'' ''L1'' ''BUY'' 3 1 5) = Inr lt \<and> lot_qty lt = 1
      \<and> lot_cost_basis lt = (10 ^ 28 - 1) / 10 ^ 28"
    by (simp add: lot_of_buy_def s fill_settles_at_def ex_fill_fields t le make_lot_def hp_get_def
        ex_registry_def one third basis Let_def)
  then show ?thesis by (auto simp: lots_def b)
qed

end
