(* ===== verification/Jsonl.thy ===== *)
theory Jsonl
  imports Prelude
begin

text \<open>
  The append-only JSONL files of the stores (agent/audit.py, agent/mode\_store.py, agent/store.py,
  agent/cost.py, agent/ledger\_store.py): a file is its text, \<open>write_row\<close> appends one line, and a load
  splits the text into its non-blank lines and decodes them. The json module and the row codec of a
  store are the parameters \<open>enc\<close> and \<open>dec\<close>; \<open>encodes\<close> is what is documented of them on one row: it reads
  back, is not blank, and (json.dumps escapes control characters) contains no line separator.
\<close>

definition nl :: char where "nl = CHR 0x0A"

text \<open>\<open>str.splitlines\<close> and \<open>str.strip\<close> on code points below 256.\<close>

definition is_sep :: "char \<Rightarrow> bool" where
  "is_sep c \<longleftrightarrow> (of_char c :: nat) \<in> {10, 11, 12, 13, 28, 29, 30, 133}"

definition is_space :: "char \<Rightarrow> bool" where
  "is_space c \<longleftrightarrow> (of_char c :: nat) \<in> {9, 10, 11, 12, 13, 28, 29, 30, 31, 32, 133, 160}"

definition blank_line :: "string \<Rightarrow> bool" where
  "blank_line s \<longleftrightarrow> (\<forall>c \<in> set s. is_space c)"

fun splitlines :: "string \<Rightarrow> string list" where
  "splitlines [] = []"
| "splitlines (c # cs) =
     (if is_sep c then [] # splitlines cs
      else (case splitlines cs of [] \<Rightarrow> [[c]] | l # ls \<Rightarrow> (c # l) # ls))"

definition jsonl_lines :: "string \<Rightarrow> string list" where
  "jsonl_lines text = filter (\<lambda>l. \<not> blank_line l) (splitlines text)"

definition write_row :: "('r \<Rightarrow> string) \<Rightarrow> string \<Rightarrow> 'r \<Rightarrow> string" where
  "write_row enc text r = text @ enc r @ [nl]"

text \<open>
  Replay with the crash-truncated-tail rule: a line that does not decode, by an exception the loader
  catches, is dropped when it is the last one and reported beside the rows; anywhere else it is an
  error of the store.
\<close>

fun load_rows ::
  "(exn \<Rightarrow> bool) \<Rightarrow> exn \<Rightarrow> (string \<Rightarrow> 'r result) \<Rightarrow> string list \<Rightarrow> ('r list \<times> string option) result" where
  "load_rows catches err dec [] = Inr ([], None)"
| "load_rows catches err dec (l # ls) =
     (case dec l of
        Inr r \<Rightarrow> bindE (load_rows catches err dec ls) (\<lambda>(rs, t). Inr (r # rs, t))
      | Inl e \<Rightarrow> if \<not> catches e then Inl e else if ls \<noteq> [] then Inl err else Inr ([], Some l))"

definition encodes :: "('r \<Rightarrow> string) \<Rightarrow> (string \<Rightarrow> 'r result) \<Rightarrow> 'r \<Rightarrow> bool" where
  "encodes enc dec r \<longleftrightarrow> dec (enc r) = Inr r \<and> \<not> blank_line (enc r) \<and> (\<forall>c \<in> set (enc r). \<not> is_sep c)"

lemma is_sep_nl [simp]: "is_sep nl"
  by (simp add: is_sep_def nl_def)

lemma splitlines_line: "\<forall>c \<in> set l. \<not> is_sep c \<Longrightarrow> splitlines (l @ nl # rest) = l # splitlines rest"
  by (induction l) auto

lemma splitlines_tail: "\<forall>c \<in> set l. \<not> is_sep c \<Longrightarrow> l \<noteq> [] \<Longrightarrow> splitlines l = [l]"
proof (induction l)
  case (Cons c l)
  then show ?case by (cases l) auto
qed simp

text \<open>The file after writing the rows \<open>rs\<close>, and its lines.\<close>

definition rows_text :: "('r \<Rightarrow> string) \<Rightarrow> 'r list \<Rightarrow> string" where
  "rows_text enc rs = concat (map (\<lambda>r. enc r @ [nl]) rs)"

lemma write_row_snoc [simp]: "write_row enc (rows_text enc rs) r = rows_text enc (rs @ [r])"
  by (simp add: write_row_def rows_text_def)

lemma splitlines_rows:
  "\<forall>r \<in> set rs. encodes enc dec r \<Longrightarrow> splitlines (rows_text enc rs @ rest) = map enc rs @ splitlines rest"
  by (induction rs) (simp_all add: rows_text_def encodes_def splitlines_line)

lemma jsonl_rows:
  "\<forall>r \<in> set rs. encodes enc dec r \<Longrightarrow> jsonl_lines (rows_text enc rs @ rest) = map enc rs @ jsonl_lines rest"
  unfolding jsonl_lines_def by (subst splitlines_rows, assumption) (simp add: encodes_def)

lemma load_rows_append:
  "\<forall>r \<in> set rs. encodes enc dec r \<Longrightarrow> load_rows catches err dec (map enc rs @ ls) =
   bindE (load_rows catches err dec ls) (\<lambda>(rs', t). Inr (rs @ rs', t))"
proof (induction rs)
  case Nil
  show ?case by (cases "load_rows catches err dec ls") auto
next
  case (Cons r rs)
  then show ?case by (cases "load_rows catches err dec ls") (auto simp: encodes_def)
qed

text \<open>A file that was only written to row by row loads back in full.\<close>

lemma load_rows_text:
  assumes "\<forall>r \<in> set rs. encodes enc dec r"
  shows "load_rows catches err dec (jsonl_lines (rows_text enc rs)) = Inr (rs, None)"
  using jsonl_rows [OF assms, of "[]"] load_rows_append [OF assms, of catches err "[]"]
  by (simp add: jsonl_lines_def)

text \<open>What a crash in the middle of a write leaves: a non-empty piece of a line that does not decode.\<close>

definition torn :: "(exn \<Rightarrow> bool) \<Rightarrow> (string \<Rightarrow> 'r result) \<Rightarrow> string \<Rightarrow> bool" where
  "torn catches dec p \<longleftrightarrow> \<not> blank_line p \<and> (\<forall>c \<in> set p. \<not> is_sep c)
     \<and> (case dec p of Inl e \<Rightarrow> catches e | Inr _ \<Rightarrow> False)"

lemma torn_lines: "torn catches dec p \<Longrightarrow> jsonl_lines p = [p]"
  using splitlines_tail [of p] by (cases "p = []") (auto simp: torn_def jsonl_lines_def blank_line_def)

lemma torn_line_first: "torn catches dec p \<Longrightarrow> jsonl_lines (p @ nl # rest) = p # jsonl_lines rest"
  by (simp add: torn_def jsonl_lines_def splitlines_line)

lemma load_torn:
  assumes "\<forall>r \<in> set rs. encodes enc dec r" and "torn catches dec p"
  shows "load_rows catches err dec (jsonl_lines (rows_text enc rs @ p)) = Inr (rs, Some p)"
  unfolding jsonl_rows [OF assms(1)] torn_lines [OF assms(2)] load_rows_append [OF assms(1)]
  using assms(2) by (auto simp: torn_def split: sum.splits)

text \<open>
  The piece stays in the file, without a line end: the next row is written onto it. That line is
  dropped by the next load, and refused by a load that finds another row after it.
\<close>

lemma load_after_torn:
  assumes "\<forall>r \<in> set rs. encodes enc dec r" and "torn catches dec (p @ enc r)"
  shows "load_rows catches err dec (jsonl_lines (write_row enc (rows_text enc rs @ p) r)) = Inr (rs, Some (p @ enc r))"
  unfolding write_row_def append_assoc jsonl_rows [OF assms(1)]
  using torn_line_first [OF assms(2), of "[]"] assms(2)
  by (auto simp: load_rows_append [OF assms(1)] torn_def jsonl_lines_def split: sum.splits)

lemma load_after_torn_twice:
  assumes "\<forall>r \<in> set rs. encodes enc dec r" and "torn catches dec (p @ enc r)" and "encodes enc dec r'"
  shows "load_rows catches err dec (jsonl_lines (write_row enc (write_row enc (rows_text enc rs @ p) r) r')) = Inl err"
proof -
  have "jsonl_lines (enc r' @ [nl]) = [enc r']"
    using jsonl_rows [of "[r']" enc dec "[]"] assms(3) by (simp add: rows_text_def jsonl_lines_def)
  then show ?thesis
    unfolding write_row_def append_assoc jsonl_rows [OF assms(1)]
    using torn_line_first [OF assms(2), of "enc r' @ [nl]"] assms(2)
    by (auto simp: load_rows_append [OF assms(1)] torn_def split: sum.splits)
qed

end
