(* ===== verification/Store.thy ===== *)
theory Store
  imports Jsonl "HOL-Library.Multiset" Calendar
begin

text \<open>
  agent/store.py: the bitemporal evidence store. A store is the list of facts in append order, the
  series of each entity and field kept sorted by the instant the fact became observable, and the
  text of its JSONL file. The value of a fact is opaque (\<open>'v\<close>). \<open>as_of\<close> gives a view frozen at an instant.
\<close>

record 'v fact =
  fa_entity_id :: string
  fa_field :: string
  fa_value :: 'v
  fa_observed_at :: instant
  fa_effective_at :: instant
  fa_source_id :: string
  fa_doc_hash :: "string option"

definition make_fact ::
  "string \<Rightarrow> string \<Rightarrow> 'v \<Rightarrow> datetime \<Rightarrow> datetime \<Rightarrow> string \<Rightarrow> string option \<Rightarrow> 'v fact result" where
  "make_fact e f v observed effective src dh =
     (case (observed, effective) of
        (Aware ob, Aware ef) \<Rightarrow>
          Inr \<lparr> fa_entity_id = e, fa_field = f, fa_value = v, fa_observed_at = ob, fa_effective_at = ef,
                fa_source_id = src, fa_doc_hash = dh \<rparr>
      | _ \<Rightarrow> Inl StoreError)"

text \<open>\<open>bisect.bisect_right\<close>, the binary search of the standard library.\<close>

function bisect_loop :: "instant list \<Rightarrow> instant \<Rightarrow> nat \<Rightarrow> nat \<Rightarrow> nat" where
  "bisect_loop a x lo hi =
     (if lo < hi then
        let mid = (lo + hi) div 2
        in if x < a ! mid then bisect_loop a x lo mid else bisect_loop a x (mid + 1) hi
      else lo)"
  by pat_completeness auto
termination by (relation "measure (\<lambda>(a, x, lo, hi). hi - lo)") auto

declare bisect_loop.simps [simp del]

definition bisect_right :: "instant list \<Rightarrow> instant \<Rightarrow> nat" where
  "bisect_right a x = bisect_loop a x 0 (length a)"

type_synonym 'v series = "((string \<times> string) \<times> (instant list \<times> 'v fact list)) list"

record 'v fact_store =
  fs_facts :: "'v fact list"
  fs_series :: "'v series"
  fs_file :: "string option"
  fs_truncated :: "string option"

definition series_get :: "'v series \<Rightarrow> string \<times> string \<Rightarrow> instant list \<times> 'v fact list" where
  "series_get s k = (case map_of s k of None \<Rightarrow> ([], []) | Some v \<Rightarrow> v)"

text \<open>\<open>list.insert(i, x)\<close>.\<close>

definition insert_at :: "nat \<Rightarrow> 'a \<Rightarrow> 'a list \<Rightarrow> 'a list" where
  "insert_at i x xs = take i xs @ x # drop i xs"

definition fs_append :: "('v fact \<Rightarrow> string) \<Rightarrow> bool \<Rightarrow> 'v fact \<Rightarrow> 'v fact_store \<Rightarrow> 'v fact_store" where
  "fs_append enc persist fct st =
     (let key = (fa_entity_id fct, fa_field fct);
          (ts, facts) = series_get (fs_series st) key;
          i = bisect_right ts (fa_observed_at fct)
      in st\<lparr>fs_series := AList.update key (insert_at i (fa_observed_at fct) ts, insert_at i fct facts) (fs_series st),
            fs_facts := fs_facts st @ [fct],
            fs_file := (if persist then map_option (\<lambda>text. write_row enc text fct) (fs_file st) else fs_file st)\<rparr>)"

definition fs_extend :: "('v fact \<Rightarrow> string) \<Rightarrow> 'v fact list \<Rightarrow> 'v fact_store \<Rightarrow> 'v fact_store" where
  "fs_extend enc facts st = foldl (\<lambda>s f. fs_append enc True f s) st facts"

text \<open>The constructor: no file, a file not yet there, or the text of an existing one.\<close>

definition fs_load :: "('v fact \<Rightarrow> string) \<Rightarrow> (string \<Rightarrow> 'v fact result) \<Rightarrow> string option \<Rightarrow> 'v fact_store result" where
  "fs_load enc de file =
     (let empty = \<lparr> fs_facts = [], fs_series = [], fs_file = file, fs_truncated = None \<rparr>
      in case file of None \<Rightarrow> Inr empty
         | Some text \<Rightarrow>
             bindE (load_rows (\<lambda>e. e = JSONDecodeError) StoreError de (jsonl_lines text)) (\<lambda>(rows, t).
               Inr ((foldl (\<lambda>s f. fs_append enc False f s) empty rows)\<lparr>fs_truncated := t\<rparr>)))"

definition fs_update :: "'v fact_store \<Rightarrow> 'v fact_store result" where "fs_update st = Inl StoreError"
definition fs_delete :: "'v fact_store \<Rightarrow> 'v fact_store result" where "fs_delete st = Inl StoreError"

subsection \<open>Views\<close>

record 'v as_of_view =
  vw_store :: "'v fact_store"
  vw_t :: instant

definition as_of :: "'v fact_store \<Rightarrow> datetime \<Rightarrow> 'v as_of_view result" where
  "as_of st t = (case t of Naive _ \<Rightarrow> Inl StoreError | Aware i \<Rightarrow> Inr \<lparr> vw_store = st, vw_t = i \<rparr>)"

definition get_fact :: "'v as_of_view \<Rightarrow> string \<Rightarrow> string \<Rightarrow> 'v fact option result" where
  "get_fact v e f =
     (case map_of (fs_series (vw_store v)) (e, f) of
        None \<Rightarrow> Inr None
      | Some (ts, facts) \<Rightarrow>
          let i = bisect_right ts (vw_t v)
          in if i = 0 then Inr None
             else let fct = facts ! (i - 1)
                  in if fa_observed_at fct > vw_t v then Inl StoreError else Inr (Some fct))"

definition get_value :: "'v as_of_view \<Rightarrow> string \<Rightarrow> string \<Rightarrow> 'v option result" where
  "get_value v e f = bindE (get_fact v e f) (\<lambda>r. Inr (map_option fa_value r))"

definition view_history :: "'v as_of_view \<Rightarrow> string \<Rightarrow> string \<Rightarrow> 'v fact list" where
  "view_history v e f =
     (case map_of (fs_series (vw_store v)) (e, f) of
        None \<Rightarrow> [] | Some (ts, facts) \<Rightarrow> take (bisect_right ts (vw_t v)) facts)"

definition view_entities :: "'v as_of_view \<Rightarrow> string set" where
  "view_entities v = set (map (\<lambda>((e, _), _). e)
     (filter (\<lambda>(_, ts, _). ts \<noteq> [] \<and> hd ts \<le> vw_t v) (fs_series (vw_store v))))"

subsection \<open>Binary search\<close>

lemma bisect_loop_sorted:
  assumes "sorted a" and "lo \<le> hi" and "hi \<le> length a"
    and "\<forall>j < lo. a ! j \<le> x" and "\<forall>j. hi \<le> j \<and> j < length a \<longrightarrow> x < a ! j"
  shows "let i = bisect_loop a x lo hi in i \<le> length a \<and> (\<forall>j < i. a ! j \<le> x) \<and> (\<forall>j. i \<le> j \<and> j < length a \<longrightarrow> x < a ! j)"
  using assms
proof (induction a x lo hi rule: bisect_loop.induct)
  case (1 a x lo hi)
  show ?case
  proof (cases "lo < hi")
    case False
    with 1 show ?thesis by (auto simp: bisect_loop.simps [of a x hi hi])
  next
    case True
    define mid where "mid = (lo + hi) div 2"
    have mid: "lo \<le> mid" "mid < hi" using True by (auto simp: mid_def)
    show ?thesis
    proof (cases "x < a ! mid")
      case True
      have "x < a ! j" if "mid \<le> j" "j < length a" for j
        using True sorted_nth_mono [OF \<open>sorted a\<close> that] by simp
      with 1(1) [OF \<open>lo < hi\<close> mid_def] True mid 1(3-) show ?thesis
        by (simp add: bisect_loop.simps [of a x lo hi] \<open>lo < hi\<close> mid_def [symmetric])
    next
      case False
      have "a ! j \<le> x" if "j < mid + 1" for j
      proof -
        have "a ! j \<le> a ! mid" using sorted_nth_mono [OF \<open>sorted a\<close>, of j mid] that mid 1(5) by simp
        with False show ?thesis by simp
      qed
      with 1(2) [OF \<open>lo < hi\<close> mid_def] False mid 1(3-) show ?thesis
        by (simp add: bisect_loop.simps [of a x lo hi] \<open>lo < hi\<close> mid_def [symmetric])
    qed
  qed
qed

lemma bisect_right_takeWhile:
  assumes "sorted a"
  shows "bisect_right a x = length (takeWhile (\<lambda>y. y \<le> x) a)"
proof -
  let ?i = "bisect_right a x"
  have i: "?i \<le> length a" "\<forall>j < ?i. a ! j \<le> x" "\<forall>j. ?i \<le> j \<and> j < length a \<longrightarrow> x < a ! j"
    using bisect_loop_sorted [OF assms, of 0 "length a" x] by (auto simp: bisect_right_def Let_def)
  have "takeWhile (\<lambda>y. y \<le> x) a = take ?i a"
    by (rule takeWhile_eq_take_P_nth) (use i in \<open>auto simp: not_le\<close>)
  with i(1) show ?thesis by simp
qed

subsection \<open>The series of a store are its facts, sorted\<close>

definition about :: "string \<times> string \<Rightarrow> 'v fact \<Rightarrow> bool" where
  "about k x \<longleftrightarrow> (fa_entity_id x, fa_field x) = k"

definition series_of :: "'v fact list \<Rightarrow> string \<times> string \<Rightarrow> 'v fact list" where
  "series_of fs k = sort_key fa_observed_at (filter (about k) fs)"

definition fs_ok :: "'v fact_store \<Rightarrow> bool" where
  "fs_ok st \<longleftrightarrow> distinct (map fst (fs_series st)) \<and>
     (\<forall>k. map_of (fs_series st) k = (let L = series_of (fs_facts st) k
        in if L = [] then None else Some (map fa_observed_at L, L)))"

text \<open>A stable sort with one more element: it goes behind everything that is not greater.\<close>

lemma sort_key_snoc:
  fixes key :: "'a \<Rightarrow> 'k :: linorder"
  shows "sort_key key (xs @ [x]) = takeWhile (\<lambda>y. key y \<le> key x) (sort_key key xs) @ x # dropWhile (\<lambda>y. key y \<le> key x) (sort_key key xs)"
    (is "_ = ?t @ x # ?d")
proof (rule properties_for_sort_key)
  have so: "sorted (map key (sort_key key xs))" by simp
  have td: "?t @ ?d = sort_key key xs" by simp
  have "mset (?t @ x # ?d) = add_mset x (mset (?t @ ?d))" by (simp del: takeWhile_dropWhile_id)
  then show "mset (?t @ x # ?d) = mset (xs @ [x])" unfolding td by simp
  have sot: "sorted (map key ?t @ map key ?d)"
    using so by (simp add: map_append [symmetric] del: map_append)
  have lt: "key x < key y" if "y \<in> set ?d" for y
  proof -
    from that have "?d \<noteq> []" by (metis empty_iff empty_set)
    then obtain z zs where z: "?d = z # zs" by (meson neq_Nil_conv)
    then have "\<not> key z \<le> key x" by (metis hd_dropWhile list.distinct(1) list.sel(1))
    moreover have "key z \<le> key y"
      using sot that z by (auto simp: sorted_append)
    ultimately show ?thesis by simp
  qed
  show "sorted (map key (?t @ x # ?d))"
    using sot lt by (auto simp: sorted_append dest: set_takeWhileD less_imp_le)
  fix k assume "k \<in> set (?t @ x # ?d)"
  have "filter (\<lambda>y. key k = key y) ?d = []" if "key k = key x"
    unfolding filter_empty_conv using lt that by (metis less_irrefl)
  moreover have "filter (\<lambda>y. key k = key y) (sort_key key xs) = filter (\<lambda>y. key k = key y) xs"
    using sort_key_stable [of key "key k" xs] by (simp add: eq_commute)
  ultimately show "filter (\<lambda>y. key k = key y) (?t @ x # ?d) = filter (\<lambda>y. key k = key y) (xs @ [x])"
    unfolding filter_append [of _ ?t] using filter_append [of "\<lambda>y. key k = key y" ?t ?d] by (auto simp: td)
qed

lemma insert_sorted:
  "insert_at (length (takeWhile (\<lambda>y. y \<le> fa_observed_at x) (map fa_observed_at L))) x L =
   takeWhile (\<lambda>y. fa_observed_at y \<le> fa_observed_at x) L @ x # dropWhile (\<lambda>y. fa_observed_at y \<le> fa_observed_at x) L"
proof -
  have n: "length (takeWhile (\<lambda>y. y \<le> fa_observed_at x) (map fa_observed_at L))
    = length (takeWhile (\<lambda>y. fa_observed_at y \<le> fa_observed_at x) L)"
    by (simp add: takeWhile_map comp_def)
  show ?thesis unfolding insert_at_def n by (simp add: takeWhile_eq_take [symmetric] dropWhile_eq_drop [symmetric])
qed

lemma insert_at_map: "map f (insert_at i x xs) = insert_at i (f x) (map f xs)"
  by (simp add: insert_at_def take_map drop_map)

lemma series_get_ok:
  assumes "fs_ok st"
  shows "series_get (fs_series st) k = (map fa_observed_at (series_of (fs_facts st) k), series_of (fs_facts st) k)"
proof -
  have "map_of (fs_series st) k = (let L = series_of (fs_facts st) k
        in if L = [] then None else Some (map fa_observed_at L, L))"
    using assms unfolding fs_ok_def by blast
  then show ?thesis by (cases "series_of (fs_facts st) k = []") (simp_all add: series_get_def Let_def)
qed

lemma append_ok:
  assumes ok: "fs_ok st"
  shows "fs_ok (fs_append enc p x st)"
proof -
  let ?k = "(fa_entity_id x, fa_field x)"
  let ?L = "series_of (fs_facts st) ?k"
  let ?i = "length (takeWhile (\<lambda>y. y \<le> fa_observed_at x) (map fa_observed_at ?L))"
  have so: "sorted (map fa_observed_at ?L)" by (simp add: series_of_def)
  have new: "series_of (fs_facts st @ [x]) ?k = insert_at ?i x ?L"
    unfolding insert_sorted by (simp add: series_of_def about_def sort_key_snoc)
  have old: "series_of (fs_facts st @ [x]) k = series_of (fs_facts st) k" if "k \<noteq> ?k" for k
    using that by (auto simp: series_of_def about_def)
  have ap: "fs_append enc p x st = st\<lparr>fs_series := AList.update ?k
      (map fa_observed_at (series_of (fs_facts st @ [x]) ?k), series_of (fs_facts st @ [x]) ?k) (fs_series st),
      fs_facts := fs_facts st @ [x], fs_file := fs_file (fs_append enc p x st)\<rparr>"
    unfolding fs_append_def Let_def series_get_ok [OF ok] prod.case bisect_right_takeWhile [OF so] new insert_at_map
    by simp
  have ne: "series_of (fs_facts st @ [x]) ?k \<noteq> []" unfolding new by (simp add: insert_at_def)
  show ?thesis
    unfolding fs_ok_def
  proof (intro conjI allI)
    show "distinct (map fst (fs_series (fs_append enc p x st)))"
      by (subst ap) (use ok in \<open>simp add: fs_ok_def distinct_update\<close>)
    fix k
    have "map_of (fs_series st) k = (let L = series_of (fs_facts st) k
        in if L = [] then None else Some (map fa_observed_at L, L))" using ok unfolding fs_ok_def by blast
    moreover have "map_of (fs_series (fs_append enc p x st)) k = (if k = ?k
        then Some (map fa_observed_at (series_of (fs_facts st @ [x]) ?k), series_of (fs_facts st @ [x]) ?k)
        else map_of (fs_series st) k)"
      by (subst ap) (simp add: update_conv')
    moreover have "fs_facts (fs_append enc p x st) = fs_facts st @ [x]" by (subst ap) simp
    ultimately show "map_of (fs_series (fs_append enc p x st)) k =
        (let L = series_of (fs_facts (fs_append enc p x st)) k in if L = [] then None else Some (map fa_observed_at L, L))"
      using ne old [of k] by (cases "k = ?k") (simp_all add: Let_def)
  qed
qed

lemma append_facts [simp]: "fs_facts (fs_append enc p x st) = fs_facts st @ [x]"
  by (simp add: fs_append_def Let_def split: prod.split)

lemma extend_ok: "fs_ok st \<Longrightarrow> fs_ok (foldl (\<lambda>s f. fs_append enc p f s) st xs)"
  by (induction xs arbitrary: st) (simp_all add: append_ok)

lemma extend_facts: "fs_facts (foldl (\<lambda>s f. fs_append enc p f s) st xs) = fs_facts st @ xs"
  by (induction xs arbitrary: st) simp_all

lemma empty_ok: "fs_ok \<lparr> fs_facts = [], fs_series = [], fs_file = file, fs_truncated = t \<rparr>"
  by (simp add: fs_ok_def series_of_def)

lemma fs_ok_truncated [simp]: "fs_ok (st\<lparr>fs_truncated := t\<rparr>) = fs_ok st"
  by (simp add: fs_ok_def)

lemma load_cases:
  assumes "fs_load enc de file = Inr st"
  obtains "file = None" "st = \<lparr> fs_facts = [], fs_series = [], fs_file = None, fs_truncated = None \<rparr>"
  | content rows t where "file = Some content"
      "load_rows (\<lambda>e. e = JSONDecodeError) StoreError de (jsonl_lines content) = Inr (rows, t)"
      "st = (foldl (\<lambda>s f. fs_append enc False f s)
        \<lparr> fs_facts = [], fs_series = [], fs_file = file, fs_truncated = None \<rparr> rows)\<lparr>fs_truncated := t\<rparr>"
  using assms by (cases "file") (auto simp: fs_load_def Let_def bindE_eq_Inr)

lemma load_ok: "fs_load enc de file = Inr st \<Longrightarrow> fs_ok st"
  by (erule load_cases) (simp_all add: extend_ok empty_ok)

subsection \<open>Views of a well-formed store\<close>

definition known_at :: "instant \<Rightarrow> string \<times> string \<Rightarrow> 'v fact list \<Rightarrow> 'v fact list" where
  "known_at t k fs = sort_key fa_observed_at (filter (\<lambda>x. about k x \<and> fa_observed_at x \<le> t) fs)"

lemma takeWhile_sorted_filter:
  "sorted (map f xs) \<Longrightarrow> takeWhile (\<lambda>y. f y \<le> t) xs = filter (\<lambda>y. f y \<le> t) xs"
proof (induction xs)
  case (Cons x xs)
  then have "filter (\<lambda>y. f y \<le> t) xs = []" if "\<not> f x \<le> t"
    using that by (fastforce simp: filter_empty_conv)
  with Cons show ?case by auto
qed simp

lemma take_known:
  "take (bisect_right (map fa_observed_at (series_of fs k)) t) (series_of fs k) = known_at t k fs"
proof -
  have so: "sorted (map fa_observed_at (series_of fs k))" by (simp add: series_of_def)
  have "take (bisect_right (map fa_observed_at (series_of fs k)) t) (series_of fs k)
      = takeWhile (\<lambda>y. fa_observed_at y \<le> t) (series_of fs k)"
    unfolding bisect_right_takeWhile [OF so] by (simp add: takeWhile_map comp_def takeWhile_eq_take [symmetric])
  also have "\<dots> = filter (\<lambda>y. fa_observed_at y \<le> t) (series_of fs k)"
    using so by (rule takeWhile_sorted_filter)
  finally show ?thesis by (simp add: series_of_def known_at_def filter_sort conj_commute)
qed

lemma view_history_eq:
  assumes "fs_ok (vw_store v)"
  shows "view_history v e f = known_at (vw_t v) (e, f) (fs_facts (vw_store v))"
proof -
  have "map_of (fs_series (vw_store v)) (e, f) = (let L = series_of (fs_facts (vw_store v)) (e, f)
        in if L = [] then None else Some (map fa_observed_at L, L))" using assms unfolding fs_ok_def by blast
  then show ?thesis
    using take_known [of "fs_facts (vw_store v)" "(e, f)" "vw_t v"]
    by (cases "series_of (fs_facts (vw_store v)) (e, f) = []") (simp_all add: view_history_def Let_def)
qed

lemma get_fact_eq:
  assumes "fs_ok (vw_store v)"
  shows "get_fact v e f = Inr (let K = known_at (vw_t v) (e, f) (fs_facts (vw_store v))
    in if K = [] then None else Some (last K))"
proof -
  let ?L = "series_of (fs_facts (vw_store v)) (e, f)"
  let ?K = "known_at (vw_t v) (e, f) (fs_facts (vw_store v))"
  let ?i = "bisect_right (map fa_observed_at ?L) (vw_t v)"
  have m: "map_of (fs_series (vw_store v)) (e, f) = (if ?L = [] then None else Some (map fa_observed_at ?L, ?L))"
    using assms unfolding fs_ok_def Let_def by blast
  have K: "?K = take ?i ?L" by (simp add: take_known)
  have "sorted (map fa_observed_at ?L)" by (simp add: series_of_def)
  then have i: "?i \<le> length ?L" by (simp add: bisect_right_takeWhile) (metis length_map length_takeWhile_le)
  show ?thesis
  proof (cases "?K = []")
    case True
    with i K have "?L = [] \<or> ?i = 0" by auto
    with True m show ?thesis by (auto simp: get_fact_def)
  next
    case False
    with K have pos: "?i \<noteq> 0" "?L \<noteq> []" by auto
    have la: "?L ! (?i - 1) = last ?K" unfolding K using pos i by (simp add: last_conv_nth)
    have "last ?K \<in> set ?K" using False by simp
    then have "fa_observed_at (last ?K) \<le> vw_t v" by (simp add: known_at_def)
    then show ?thesis using m pos False la by (simp add: get_fact_def Let_def)
  qed
qed

lemma view_entities_eq:
  assumes "fs_ok (vw_store v)"
  shows "view_entities v = fa_entity_id ` {x \<in> set (fs_facts (vw_store v)). fa_observed_at x \<le> vw_t v}"
proof -
  let ?s = "fs_series (vw_store v)" and ?fs = "fs_facts (vw_store v)"
  have d: "distinct (map fst ?s)" using assms by (simp add: fs_ok_def)
  have m: "map_of ?s k = (let L = series_of ?fs k in if L = [] then None else Some (map fa_observed_at L, L))" for k
    using assms unfolding fs_ok_def by blast
  have hd: "(series_of ?fs k \<noteq> [] \<and> hd (map fa_observed_at (series_of ?fs k)) \<le> vw_t v)
      \<longleftrightarrow> (\<exists>x \<in> set ?fs. about k x \<and> fa_observed_at x \<le> vw_t v)" for k
  proof -
    have so: "sorted (map fa_observed_at (series_of ?fs k))" and
      se: "set (series_of ?fs k) = {x \<in> set ?fs. about k x}" by (simp_all add: series_of_def)
    show ?thesis
    proof (cases "series_of ?fs k")
      case Nil
      with se show ?thesis by auto
    next
      case (Cons y ys)
      then have "\<forall>x \<in> set (series_of ?fs k). fa_observed_at y \<le> fa_observed_at x" using so by auto
      then show ?thesis using Cons se by fastforce
    qed
  qed
  have "e \<in> view_entities v \<longleftrightarrow> (\<exists>f ts L. map_of ?s (e, f) = Some (ts, L) \<and> ts \<noteq> [] \<and> hd ts \<le> vw_t v)" for e
    using d by (force simp: view_entities_def)
  also have "\<dots> e \<longleftrightarrow> (\<exists>f. series_of ?fs (e, f) \<noteq> [] \<and> hd (map fa_observed_at (series_of ?fs (e, f))) \<le> vw_t v)" for e
    by (auto simp: m Let_def split: if_splits)
  finally have "e \<in> view_entities v \<longleftrightarrow> (\<exists>f. \<exists>x \<in> set ?fs. about (e, f) x \<and> fa_observed_at x \<le> vw_t v)" for e
    using hd by simp
  then show ?thesis by (auto simp: about_def)
qed

subsection \<open>Files\<close>

lemma append_same_series:
  "fs_facts st = fs_facts st' \<Longrightarrow> fs_series st = fs_series st' \<Longrightarrow>
   fs_series (fs_append enc p x st) = fs_series (fs_append enc q x st')"
  by (simp add: fs_append_def Let_def split: prod.split)

lemma extend_same_series:
  "fs_facts st = fs_facts st' \<Longrightarrow> fs_series st = fs_series st' \<Longrightarrow>
   fs_series (foldl (\<lambda>s f. fs_append enc p f s) st xs) = fs_series (foldl (\<lambda>s f. fs_append enc q f s) st' xs)"
proof (induction xs arbitrary: st st')
  case (Cons x xs)
  show ?case unfolding foldl_Cons
    by (rule Cons.IH) (use Cons.prems append_same_series [OF Cons.prems] in simp_all)
qed simp

lemma extend_file:
  "fs_file st = Some (rows_text enc ys) \<Longrightarrow> fs_file (fs_extend enc xs st) = Some (rows_text enc (ys @ xs))"
proof (induction xs arbitrary: st ys)
  case (Cons x xs)
  have "fs_file (fs_append enc True x st) = Some (rows_text enc (ys @ [x]))"
    using Cons.prems by (simp add: fs_append_def Let_def split: prod.split)
  from Cons.IH [OF this] show ?case by (simp add: fs_extend_def)
qed (simp add: fs_extend_def)

definition fresh_store :: "'v fact_store" where
  "fresh_store = \<lparr> fs_facts = [], fs_series = [], fs_file = Some [], fs_truncated = None \<rparr>"

lemma extend_fresh:
  "fs_facts (fs_extend enc xs fresh_store) = xs"
  "fs_file (fs_extend enc xs fresh_store) = Some (rows_text enc xs)"
  "fs_ok (fs_extend enc xs fresh_store)"
  using extend_facts [of enc True fresh_store xs] extend_file [of fresh_store enc "[]" xs]
    extend_ok [OF empty_ok, of enc True "Some []" None xs]
  by (simp_all add: fs_extend_def fresh_store_def rows_text_def)

subsection \<open>Properties\<close>

text \<open>
  Look-ahead is impossible: on a store loaded from any file and extended with any facts, what a view
  at \<open>t\<close> answers is unaffected by facts that became observable after \<open>t\<close>, whenever they are appended:
  same fact, same history, same entities. It never raises, and no fact it returns was observed after \<open>t\<close>.
\<close>
theorem as_of_no_lookahead:
  assumes "fs_load enc de file = Inr st0" and "st = fs_extend enc facts st0"
    and "as_of st (Aware t) = Inr v" and "as_of (fs_extend enc future st) (Aware t) = Inr v'"
    and "\<forall>x \<in> set future. t < fa_observed_at x"
  shows "get_fact v' e f = get_fact v e f \<and> view_history v' e f = view_history v e f
    \<and> view_entities v' = view_entities v \<and> is_ok (get_fact v e f)
    \<and> \<not> (\<exists>x \<in> set (view_history v e f). t < fa_observed_at x)"
proof -
  have ok: "fs_ok st" unfolding assms(2) fs_extend_def by (rule extend_ok [OF load_ok [OF assms(1)]])
  have ok': "fs_ok (fs_extend enc future st)" unfolding fs_extend_def by (rule extend_ok [OF ok])
  have fs: "fs_facts (fs_extend enc future st) = fs_facts st @ future" by (simp add: fs_extend_def extend_facts)
  have v: "v = \<lparr> vw_store = st, vw_t = t \<rparr>" "v' = \<lparr> vw_store = fs_extend enc future st, vw_t = t \<rparr>"
    using assms(3,4) by (auto simp: as_of_def)
  have none: "filter (\<lambda>x. about k x \<and> fa_observed_at x \<le> t) future = []" for k
    using assms(5) by (auto simp: filter_empty_conv)
  have K: "known_at t k (fs_facts st @ future) = known_at t k (fs_facts st)" for k
    by (simp add: known_at_def none)
  have E: "fa_entity_id ` {x \<in> set (fs_facts st @ future). fa_observed_at x \<le> t}
    = fa_entity_id ` {x \<in> set (fs_facts st). fa_observed_at x \<le> t}" using assms(5) by force
  show ?thesis
    using ok ok' by (simp add: v get_fact_eq view_history_eq view_entities_eq fs K E [simplified] is_ok_def)
      (auto simp: known_at_def)
qed

text \<open>
C36: A view answers like the definition of what was known: for the facts of a store in append order, the
  history of an entity's field at \<open>t\<close> is the stable sort, by observation time, of those observed by
  then, and the current fact is the last of them, so the latest observation wins and the last one
  appended among equals; the binary search over the sorted series computes exactly this.
\<close>
theorem as_of_latest_known:
  assumes "fs_load enc de file = Inr st0" and "st = fs_extend enc facts st0" and "as_of st (Aware t) = Inr v"
  shows "view_history v e f = sort_key fa_observed_at (filter (\<lambda>x. fa_entity_id x = e \<and> fa_field x = f
       \<and> fa_observed_at x \<le> t) (fs_facts st))
    \<and> get_fact v e f = Inr (if view_history v e f = [] then None else Some (last (view_history v e f)))"
proof -
  have ok: "fs_ok st" unfolding assms(2) fs_extend_def by (rule extend_ok [OF load_ok [OF assms(1)]])
  have v: "v = \<lparr> vw_store = st, vw_t = t \<rparr>" using assms(3) by (simp add: as_of_def)
  show ?thesis using ok by (simp add: v get_fact_eq view_history_eq Let_def) (simp add: known_at_def about_def)
qed

text \<open>
  The evidence survives a restart: the file of a store that appended any facts loads back to the same
  facts and the same series; if a crash left a piece of a row at the end, everything before it still loads
  and the piece is reported, not dropped in silence.
\<close>
theorem fact_store_reload:
  assumes "\<forall>x \<in> set facts. encodes enc de x" and "st = fs_extend enc facts fresh_store"
    and "fs_file st = Some body" and "torn (\<lambda>e. e = JSONDecodeError) de p"
  shows "fs_load enc de (fs_file st) = Inr st
    \<and> fs_load enc de (Some (body @ p)) = Inr (st\<lparr>fs_file := Some (body @ p), fs_truncated := Some p\<rparr>)"
proof -
  have body: "body = rows_text enc facts" using assms(2,3) by (simp add: extend_fresh(2))
  have keep: "fs_file (foldl (\<lambda>s f. fs_append enc False f s) s xs) = fs_file s
      \<and> fs_truncated (foldl (\<lambda>s f. fs_append enc q f s) s xs) = fs_truncated s" for s xs q
    by (induction xs arbitrary: s) (simp_all add: fs_append_def Let_def split: prod.splits)
  have rep: "foldl (\<lambda>s f. fs_append enc False f s) \<lparr> fs_facts = [], fs_series = [], fs_file = g, fs_truncated = None \<rparr> facts
     = st\<lparr>fs_file := g\<rparr>" for g
  proof -
    let ?r = "foldl (\<lambda>s f. fs_append enc False f s) \<lparr> fs_facts = [], fs_series = [], fs_file = g, fs_truncated = None \<rparr> facts"
    have "fs_series ?r = fs_series st"
      unfolding assms(2) fs_extend_def by (rule extend_same_series) (simp_all add: fresh_store_def)
    moreover have "fs_facts ?r = fs_facts st"
      by (simp add: extend_facts assms(2) extend_fresh(1))
    moreover have "fs_truncated st = None" unfolding assms(2) fs_extend_def using keep by (simp add: fresh_store_def)
    ultimately show ?thesis using keep by (intro fact_store.equality) simp_all
  qed
  have tr: "fs_truncated st = None" unfolding assms(2) fs_extend_def using keep by (simp add: fresh_store_def)
  have "fs_load enc de (Some body) = Inr st"
    using load_rows_text [OF assms(1), of "\<lambda>e. e = JSONDecodeError" StoreError] assms(3) tr
    by (simp add: fs_load_def Let_def body rep)
  moreover have "fs_load enc de (Some (body @ p)) = Inr (st\<lparr>fs_file := Some (body @ p), fs_truncated := Some p\<rparr>)"
    using load_torn [OF assms(1,4), of StoreError] by (simp add: fs_load_def Let_def body rep)
  ultimately show ?thesis by (simp add: assms(3))
qed

subsection \<open>A store\<close>

definition ex_fact :: "int \<Rightarrow> instant \<Rightarrow> int fact" where
  "ex_fact x t = \<lparr> fa_entity_id = ''SPY'', fa_field = ''close'', fa_value = x, fa_observed_at = t,
     fa_effective_at = 0, fa_source_id = ''s'', fa_doc_hash = None \<rparr>"

definition ex_enc :: "int fact \<Rightarrow> string" where
  "ex_enc x = (if x = ex_fact 2 20 then ''b'' else ''a'')"

definition ex_dec :: "string \<Rightarrow> int fact result" where
  "ex_dec s = (if s = ''a'' then Inr (ex_fact 1 10) else if s = ''b'' then Inr (ex_fact 2 20) else Inl JSONDecodeError)"

lemma ex_encodes: "encodes ex_enc ex_dec (ex_fact 1 10)" "encodes ex_enc ex_dec (ex_fact 2 20)"
  unfolding encodes_def ex_enc_def ex_dec_def ex_fact_def blank_line_def is_space_def is_sep_def by simp_all

lemma ex_torn: "torn (\<lambda>e. e = JSONDecodeError) ex_dec ''x''"
  unfolding torn_def ex_dec_def blank_line_def is_space_def is_sep_def by simp

lemma ex_load: "fs_load ex_enc ex_dec (Some []) = Inr fresh_store"
  by (simp add: fs_load_def jsonl_lines_def fresh_store_def)

text \<open>The fact observed at 20, appended first or last, does not exist for a view at 15.\<close>

theorem as_of_no_lookahead_witness:
  "let st = fs_extend ex_enc [ex_fact 1 10] fresh_store in
   view_history \<lparr> vw_store = fs_extend ex_enc [ex_fact 2 20] st, vw_t = 15 \<rparr> ''SPY'' ''close''
   = view_history \<lparr> vw_store = st, vw_t = 15 \<rparr> ''SPY'' ''close''"
  using as_of_no_lookahead [OF ex_load refl, of "[ex_fact 1 10]" 15 "\<lparr> vw_store = fs_extend ex_enc [ex_fact 1 10] fresh_store, vw_t = 15 \<rparr>"
     "[ex_fact 2 20]" "\<lparr> vw_store = fs_extend ex_enc [ex_fact 2 20] (fs_extend ex_enc [ex_fact 1 10] fresh_store), vw_t = 15 \<rparr>" "''SPY''" "''close''"]
  by (simp add: as_of_def ex_fact_def Let_def)

theorem as_of_latest_known_witness:
  "view_history \<lparr> vw_store = fs_extend ex_enc [ex_fact 2 20, ex_fact 1 10] fresh_store, vw_t = 25 \<rparr> ''SPY'' ''close''
     = [ex_fact 1 10, ex_fact 2 20]
   \<and> get_fact \<lparr> vw_store = fs_extend ex_enc [ex_fact 2 20, ex_fact 1 10] fresh_store, vw_t = 25 \<rparr> ''SPY'' ''close''
     = Inr (Some (ex_fact 2 20))"
proof -
  let ?st = "fs_extend ex_enc [ex_fact 2 20, ex_fact 1 10] fresh_store"
  have "as_of ?st (Aware 25) = Inr \<lparr> vw_store = ?st, vw_t = 25 \<rparr>" by (simp add: as_of_def)
  from as_of_latest_known [OF ex_load refl this, of "''SPY''" "''close''"]
  show ?thesis by (simp add: extend_fresh(1) ex_fact_def)
qed

theorem fact_store_reload_witness:
  "fs_load ex_enc ex_dec (Some ''a\<newline>b\<newline>x'')
   = Inr ((fs_extend ex_enc [ex_fact 1 10, ex_fact 2 20] fresh_store)\<lparr>fs_file := Some ''a\<newline>b\<newline>x'', fs_truncated := Some ''x''\<rparr>)"
proof -
  have b: "fs_file (fs_extend ex_enc [ex_fact 1 10, ex_fact 2 20] fresh_store) = Some ''a\<newline>b\<newline>''"
    by (simp add: extend_fresh(2) rows_text_def ex_enc_def ex_fact_def nl_def)
  have e: "\<forall>x \<in> set [ex_fact 1 10, ex_fact 2 20]. encodes ex_enc ex_dec x" using ex_encodes by simp
  show ?thesis using fact_store_reload [OF e refl b ex_torn] by simp
qed

end
