(* ===== verification/Effects.thy ===== *)
theory Effects
  imports Prelude
begin

text \<open>
  Code that changes shared objects and may raise half-way: an action takes the state of the objects it
  can reach to their state afterwards, changed or not, and a result or the exception. \<open>wp\<close> is the
  weakest precondition of an action for a postcondition and a postcondition of the exception.
\<close>

named_theorems wp_simps \<open>weakest preconditions of the combinators and of actions\<close>

type_synonym ('w, 'a) action = "'w \<Rightarrow> 'w \<times> 'a result"

definition retW :: "'a \<Rightarrow> ('w, 'a) action" where "retW x = (\<lambda>w. (w, Inr x))"
definition raiseW :: "exn \<Rightarrow> ('w, 'a) action" where "raiseW e = (\<lambda>w. (w, Inl e))"
definition liftW :: "'a result \<Rightarrow> ('w, 'a) action" where "liftW r = (\<lambda>w. (w, r))"
definition getW :: "('w \<Rightarrow> 'a) \<Rightarrow> ('w, 'a) action" where "getW f = (\<lambda>w. (w, Inr (f w)))"
definition modifyW :: "('w \<Rightarrow> 'w) \<Rightarrow> ('w, unit) action" where "modifyW f = (\<lambda>w. (f w, Inr ()))"

definition bindW :: "('w, 'a) action \<Rightarrow> ('a \<Rightarrow> ('w, 'b) action) \<Rightarrow> ('w, 'b) action" where
  "bindW m f = (\<lambda>w. case m w of (w', Inl e) \<Rightarrow> (w', Inl e) | (w', Inr x) \<Rightarrow> f x w')"

definition whenW :: "bool \<Rightarrow> ('w, unit) action \<Rightarrow> ('w, unit) action" where
  "whenW c m = (if c then m else retW ())"

text \<open>\<open>try: m except ...: h; raise\<close>: what the handler raises replaces the exception.\<close>

definition on_error :: "(exn \<Rightarrow> bool) \<Rightarrow> (exn \<Rightarrow> ('w, unit) action) \<Rightarrow> ('w, 'a) action \<Rightarrow> ('w, 'a) action" where
  "on_error catches h m = (\<lambda>w. case m w of
     (w', Inr x) \<Rightarrow> (w', Inr x)
   | (w', Inl e) \<Rightarrow> if catches e then bindW (h e) (\<lambda>_. raiseW e) w' else (w', Inl e))"

text \<open>\<open>for x in xs: f(x)\<close>, collecting what the body yields.\<close>

fun forW :: "('a \<Rightarrow> ('w, 'b) action) \<Rightarrow> 'a list \<Rightarrow> ('w, 'b list) action" where
  "forW f [] = retW []"
| "forW f (x # xs) = bindW (f x) (\<lambda>y. bindW (forW f xs) (\<lambda>ys. retW (y # ys)))"

definition wp :: "('w, 'a) action \<Rightarrow> ('a \<Rightarrow> 'w \<Rightarrow> bool) \<Rightarrow> (exn \<Rightarrow> 'w \<Rightarrow> bool) \<Rightarrow> 'w \<Rightarrow> bool" where
  "wp m Q E w = (case m w of (w', Inr x) \<Rightarrow> Q x w' | (w', Inl e) \<Rightarrow> E e w')"

lemma wp_ret [wp_simps]: "wp (retW x) Q E = Q x"
  by (rule ext) (simp add: wp_def retW_def)
lemma wp_raise [wp_simps]: "wp (raiseW e) Q E = E e"
  by (rule ext) (simp add: wp_def raiseW_def)
lemma wp_get [wp_simps]: "wp (getW f) Q E = (\<lambda>w. Q (f w) w)"
  by (rule ext) (simp add: wp_def getW_def)
lemma wp_modify [wp_simps]: "wp (modifyW f) Q E = (\<lambda>w. Q () (f w))"
  by (rule ext) (simp add: wp_def modifyW_def)
lemma wp_lift [wp_simps]: "wp (liftW r) Q E = (case r of Inl e \<Rightarrow> E e | Inr x \<Rightarrow> Q x)"
  by (rule ext) (simp split: sum.split add: wp_def liftW_def)

lemma wp_bind [wp_simps]: "wp (bindW m f) Q E = wp m (\<lambda>x. wp (f x) Q E) E"
  by (rule ext) (simp add: wp_def bindW_def split: prod.split sum.split)

lemma wp_when [wp_simps]: "wp (whenW c m) Q E = (if c then wp m Q E else Q ())"
  by (simp add: whenW_def wp_ret)

lemma wp_on_error [wp_simps]:
  "wp (on_error catches h m) Q E =
   wp m Q (\<lambda>e. if catches e then wp (h e) (\<lambda>_. E e) E else E e)"
  by (rule ext) (simp add: wp_def on_error_def bindW_def raiseW_def split: prod.split sum.split)

lemma wp_mono:
  assumes "wp m Q E w" and "\<And>x w'. Q x w' \<Longrightarrow> Q' x w'" and "\<And>e w'. E e w' \<Longrightarrow> E' e w'"
  shows "wp m Q' E' w"
  using assms by (auto simp: wp_def split: prod.splits sum.splits)

lemma wp_conj: "wp m Q E w \<Longrightarrow> wp m Q' E' w \<Longrightarrow> wp m (\<lambda>x w'. Q x w' \<and> Q' x w') (\<lambda>e w'. E e w' \<and> E' e w') w"
  by (auto simp: wp_def split: prod.splits sum.splits)

lemma wp_for:
  assumes "I [] w" and "\<And>x ys w. x \<in> set xs \<Longrightarrow> I ys w \<Longrightarrow> wp (f x) (\<lambda>y. I (ys @ [y])) E w"
  shows "wp (forW f xs) I E w"
proof -
  have "wp (forW f xs) (\<lambda>zs. I (ys @ zs)) E w" if "I ys w" for ys
    using assms(2) that
  proof (induction xs arbitrary: ys w)
    case Nil
    then show ?case by (simp add: wp_ret)
  next
    case (Cons x xs)
    have "wp (f x) (\<lambda>y. I (ys @ [y])) E w" using Cons.prems by simp
    moreover have "wp (forW f xs) (\<lambda>zs. I ((ys @ [y]) @ zs)) E w'" if "I (ys @ [y]) w'" for y w'
      using Cons.prems(1) that by (intro Cons.IH) simp_all
    ultimately have "wp (f x) (\<lambda>y. wp (forW f xs) (\<lambda>zs. I ((ys @ [y]) @ zs)) E) E w"
      by (rule wp_mono)
    then show ?case by (simp add: wp_bind wp_ret)
  qed
  from this [of "[]"] assms(1) show ?thesis by simp
qed

lemma wp_resultD: "wp m Q E w \<Longrightarrow> m w = (w', Inr x) \<Longrightarrow> Q x w'"
  and wp_raisedD: "wp m Q E w \<Longrightarrow> m w = (w', Inl e) \<Longrightarrow> E e w'"
  by (simp_all add: wp_def)

text \<open>An action keeps a property of the state, however it ends.\<close>

definition keeps :: "('w \<Rightarrow> bool) \<Rightarrow> ('w, 'a) action \<Rightarrow> bool" where
  "keeps P m \<longleftrightarrow> (\<forall>w. P w \<longrightarrow> wp m (\<lambda>_. P) (\<lambda>_. P) w)"

lemma keepsD: "keeps P m \<Longrightarrow> P w \<Longrightarrow> P (fst (m w))"
  by (cases "m w"; cases "snd (m w)") (auto simp: keeps_def wp_def split: sum.splits)

lemma keeps_iff: "keeps P m \<longleftrightarrow> (\<forall>w. P w \<longrightarrow> P (fst (m w)))"
proof -
  have "wp m (\<lambda>_. P) (\<lambda>_. P) w \<longleftrightarrow> P (fst (m w))" for w
    by (simp add: wp_def split: prod.split sum.split)
  then show ?thesis by (simp add: keeps_def)
qed

lemma keeps_ret [intro]: "keeps P (retW x)"
  by (simp add: keeps_def wp_simps)
lemma keeps_raise [intro]: "keeps P (raiseW e)"
  by (simp add: keeps_def wp_simps)
lemma keeps_get [intro]: "keeps P (getW f)"
  by (simp add: keeps_def wp_simps)
lemma keeps_lift [intro]: "keeps P (liftW r)"
  by (simp add: keeps_def wp_simps split: sum.split)

lemma keeps_bind [intro]: "keeps P m \<Longrightarrow> (\<And>x. keeps P (f x)) \<Longrightarrow> keeps P (bindW m f)"
  unfolding keeps_def wp_bind by (blast intro: wp_mono)

lemma keeps_when [intro]: "keeps P m \<Longrightarrow> keeps P (whenW c m)"
  by (simp add: keeps_def wp_simps)

lemma keeps_on_error [intro]:
  assumes "keeps P m" and "\<And>e. keeps P (h e)"
  shows "keeps P (on_error catches h m)"
  using assms unfolding keeps_def wp_on_error by (auto elim!: wp_mono)

lemma keeps_for [intro]: "(\<And>x. x \<in> set xs \<Longrightarrow> keeps P (f x)) \<Longrightarrow> keeps P (forW f xs)"
  unfolding keeps_def by (blast intro: wp_for)

end
