(* ===== verification/Reconciliation.thy ===== *)
theory Reconciliation
  imports Broker
begin

text \<open>
  agent/reconciliation.py: the three exact comparisons of what the program believes of an account with
  what the broker reports, settled cash, positions and open orders. Each looks at the account ids of the
  broker's rows first. \<open>ReconciliationMismatch\<close> of the code is the constructor of that name.
\<close>

definition dict_eq :: "'v dict \<Rightarrow> 'v dict \<Rightarrow> bool" where
  "dict_eq a b \<longleftrightarrow> (\<forall>k \<in> set (map fst a @ map fst b). map_of a k = map_of b k)"

definition reconcile_settled_cash :: "string \<Rightarrow> decimal \<Rightarrow> account_snapshot \<Rightarrow> unit result" where
  "reconcile_settled_cash acct local_settled_cash broker =
     (if ac_account broker \<noteq> acct then Inl (CrossAccountError acct (ac_account broker))
      else if ac_settled_cash broker \<noteq> local_settled_cash then Inl ReconciliationMismatch
      else Inr ())"

text \<open>The first row of another account, if there is one.\<close>

definition foreign_account :: "string \<Rightarrow> string list \<Rightarrow> unit result" where
  "foreign_account acct ids =
     (case List.find (\<lambda>i. i \<noteq> acct) ids of None \<Rightarrow> Inr () | Some i \<Rightarrow> Inl (CrossAccountError acct i))"

definition broker_by_symbol :: "position list \<Rightarrow> decimal dict" where
  "broker_by_symbol ps = foldl (\<lambda>d p. AList.update (po_symbol p) (po_qty p) d) [] ps"

definition reconcile_positions :: "string \<Rightarrow> decimal dict \<Rightarrow> position list \<Rightarrow> unit result" where
  "reconcile_positions acct local_positions ps =
     bindE (foreign_account acct (map po_account ps)) (\<lambda>_.
       if \<not> dict_eq (broker_by_symbol ps) local_positions then Inl ReconciliationMismatch else Inr ())"

definition reconcile_open_orders :: "string \<Rightarrow> string list \<Rightarrow> broker_order list \<Rightarrow> unit result" where
  "reconcile_open_orders acct local_ids orders =
     bindE (foreign_account acct (map bo_account orders)) (\<lambda>_.
       if set (map bo_client_order_id orders) \<noteq> set local_ids then Inl ReconciliationMismatch else Inr ())"

lemma dict_eq_iff: "dict_eq a b \<longleftrightarrow> map_of a = map_of b"
proof
  assume eq: "dict_eq a b"
  show "map_of a = map_of b"
  proof
    fix k
    show "map_of a k = map_of b k"
    proof (cases "k \<in> set (map fst a @ map fst b)")
      case True
      with eq show ?thesis by (simp only: dict_eq_def)
    next
      case False
      then have "map_of a k = None" "map_of b k = None" by (auto simp: map_of_eq_None_iff)
      then show ?thesis by simp
    qed
  qed
qed (simp add: dict_eq_def)

lemma foreign_account_ok: "foreign_account acct ids = Inr u \<longleftrightarrow> set ids \<subseteq> {acct}"
  by (auto simp: foreign_account_def find_None_iff find_Some_iff split: option.split dest: nth_mem)

lemma foreign_account_error: "foreign_account acct ids = Inl e \<Longrightarrow> \<exists>i. e = CrossAccountError acct i"
  by (auto simp: foreign_account_def split: option.splits)

lemma map_of_broker_by_symbol:
  "map_of (broker_by_symbol ps) = map_of (rev (map (\<lambda>p. (po_symbol p, po_qty p)) ps))"
proof -
  have "map_of (foldl (\<lambda>d p. AList.update (po_symbol p) (po_qty p) d) d ps)
    = map_of d ++ map_of (rev (map (\<lambda>p. (po_symbol p, po_qty p)) ps))" for d
    by (induction ps arbitrary: d) (simp_all add: map_add_def fun_eq_iff split: option.split)
  then show ?thesis by (simp add: broker_by_symbol_def)
qed

text \<open>What each comparison accepts, and that it raises nothing but the two errors of its kind.\<close>

lemma settled_cash_ok: "reconcile_settled_cash acct c b = Inr u \<longleftrightarrow> ac_account b = acct \<and> ac_settled_cash b = c"
  by (auto simp: reconcile_settled_cash_def)

lemma positions_ok:
  "reconcile_positions acct l ps = Inr u \<longleftrightarrow>
   po_account ` set ps \<subseteq> {acct} \<and> map_of (rev (map (\<lambda>p. (po_symbol p, po_qty p)) ps)) = map_of l"
  by (auto simp: reconcile_positions_def bindE_eq_Inr foreign_account_ok dict_eq_iff map_of_broker_by_symbol)

lemma open_orders_ok:
  "reconcile_open_orders acct ids os = Inr u \<longleftrightarrow>
   bo_account ` set os \<subseteq> {acct} \<and> bo_client_order_id ` set os = set ids"
  by (auto simp: reconcile_open_orders_def bindE_eq_Inr foreign_account_ok)

definition reconcile_error :: "exn \<Rightarrow> bool" where
  "reconcile_error e \<longleftrightarrow> e = ReconciliationMismatch \<or> (\<exists>a b. e = CrossAccountError a b)"

lemma settled_cash_error: "reconcile_settled_cash acct c b = Inl e \<Longrightarrow> reconcile_error e"
  by (auto simp: reconcile_error_def reconcile_settled_cash_def split: if_splits)

lemma positions_error: "reconcile_positions acct l ps = Inl e \<Longrightarrow> reconcile_error e"
  by (auto simp: reconcile_error_def reconcile_positions_def bindE_eq_Inl split: if_splits dest: foreign_account_error)

lemma open_orders_error: "reconcile_open_orders acct ids os = Inl e \<Longrightarrow> reconcile_error e"
  by (auto simp: reconcile_error_def reconcile_open_orders_def bindE_eq_Inl split: if_splits dest: foreign_account_error)

end
