(* ===== verification/Mode.thy ===== *)
theory Mode
  imports Jsonl Calendar
begin

text \<open>
  agent/mode.py, the legality of a mode change, and agent/mode\_store.py, the append-only file of the
  modes the system was in. A mode is the string the code uses. The row codec of the store is
  \<open>enc\<close> and \<open>de\<close> (theory Jsonl); a write may stop after a piece of its line.
\<close>

subsection \<open>The mode state machine\<close>

definition CHAIN :: "string list" where
  "CHAIN = [''DISABLED'', ''RESEARCH'', ''PAPER'', ''PRODUCTION_ACTIVE'']"

definition MODES :: "string list" where "MODES = CHAIN @ [''PAUSED'']"

definition IMMEDIATE_TARGETS :: "string list" where "IMMEDIATE_TARGETS = [''DISABLED'', ''PAUSED'']"

definition CONFIRMATION_REQUIRED :: "(string \<times> string) list" where
  "CONFIRMATION_REQUIRED = [(''PAPER'', ''PRODUCTION_ACTIVE''), (''PAUSED'', ''PRODUCTION_ACTIVE'')]"

definition chain_position :: "string \<Rightarrow> int result" where
  "chain_position m = (case map_of (zip CHAIN [0, 1, 2, 3]) m of None \<Rightarrow> Inl (KeyError m) | Some i \<Rightarrow> Inr i)"

definition check_known :: "string \<Rightarrow> unit result" where
  "check_known m = guardE (m \<in> set MODES) ModeTransitionError"

definition normalize_persisted :: "string option \<Rightarrow> string" where
  "normalize_persisted p = (case p of Some m \<Rightarrow> m | None \<Rightarrow> ''DISABLED'')"

definition is_legal_step :: "string \<Rightarrow> string \<Rightarrow> string option \<Rightarrow> bool result" where
  "is_legal_step persisted target paused_from =
     bindE (check_known persisted) (\<lambda>_.
     bindE (check_known target) (\<lambda>_.
     bindE (case paused_from of None \<Rightarrow> Inr () | Some p \<Rightarrow> check_known p) (\<lambda>_.
       if target = persisted then Inr True
       else if target \<in> set IMMEDIATE_TARGETS then Inr True
       else if persisted = ''PAUSED'' then Inr (paused_from \<noteq> None \<and> paused_from = Some target)
       else bindE (chain_position persisted) (\<lambda>i.
            bindE (chain_position target) (\<lambda>j. Inr (\<bar>i - j\<bar> = 1))))))"

definition assert_legal_startup ::
  "string option \<Rightarrow> string \<Rightarrow> bool \<Rightarrow> string option \<Rightarrow> unit result" where
  "assert_legal_startup persisted_mode target confirmed paused_from =
     (let persisted = normalize_persisted persisted_mode
      in bindE (check_known persisted) (\<lambda>_.
         bindE (check_known target) (\<lambda>_.
         bindE (is_legal_step persisted target paused_from) (\<lambda>legal.
           if \<not> legal then Inl IllegalModeTransition
           else if (persisted, target) \<in> set CONFIRMATION_REQUIRED \<and> \<not> confirmed then Inl ConfirmationRequired
           else Inr ()))))"

text \<open>The exceptions that \<open>except ModeTransitionError\<close> catches: the class and its two subclasses.\<close>

definition is_mode_error :: "exn \<Rightarrow> bool" where
  "is_mode_error e \<longleftrightarrow> e \<in> {ModeTransitionError, IllegalModeTransition, ConfirmationRequired}"

subsection \<open>The mode store\<close>

record mode_change =
  mc_seq :: int
  mc_mode :: string
  mc_changed_at :: instant
  mc_reason :: "string option"
  mc_paused_from :: "string option"

record mode_store =
  ms_history :: "mode_change list"
  ms_file :: "string option"
  ms_truncated :: "string option"

text \<open>\<open>broken\<close>: the piece of the line that reached the disk when the write raised, if it did.\<close>

definition ms_write ::
  "(mode_change \<Rightarrow> string) \<Rightarrow> string \<Rightarrow> datetime \<Rightarrow> string option \<Rightarrow> string option \<Rightarrow> string option
   \<Rightarrow> mode_store \<Rightarrow> mode_store \<times> mode_change result" where
  "ms_write enc m changed_at reason paused_from broken st =
     (case changed_at of
        Naive _ \<Rightarrow> (st, Inl ModeStoreError)
      | Aware t \<Rightarrow>
          let change = \<lparr> mc_seq = int (length (ms_history st)) + 1, mc_mode = m, mc_changed_at = t,
                         mc_reason = reason, mc_paused_from = paused_from \<rparr>
          in case (ms_file st, broken) of
               (Some body, Some piece) \<Rightarrow> (st\<lparr>ms_file := Some (body @ piece)\<rparr>, Inl OSError)
             | (Some body, None) \<Rightarrow>
                 (st\<lparr>ms_file := Some (write_row enc body change), ms_history := ms_history st @ [change]\<rparr>, Inr change)
             | (None, _) \<Rightarrow> (st\<lparr>ms_history := ms_history st @ [change]\<rparr>, Inr change))"

definition ms_current :: "mode_store \<Rightarrow> string option" where
  "ms_current st = (if ms_history st \<noteq> [] then Some (mc_mode (last (ms_history st))) else None)"

definition ms_paused_from :: "mode_store \<Rightarrow> string option" where
  "ms_paused_from st = (if ms_history st \<noteq> [] then mc_paused_from (last (ms_history st)) else None)"

definition ms_update :: "mode_store \<Rightarrow> mode_store result" where "ms_update st = Inl ModeStoreError"
definition ms_delete :: "mode_store \<Rightarrow> mode_store result" where "ms_delete st = Inl ModeStoreError"

definition ms_catches :: "exn \<Rightarrow> bool" where
  "ms_catches e \<longleftrightarrow> (case e of JSONDecodeError \<Rightarrow> True | KeyError _ \<Rightarrow> True | ValueError \<Rightarrow> True | _ \<Rightarrow> False)"

definition ms_load :: "(string \<Rightarrow> mode_change result) \<Rightarrow> string option \<Rightarrow> mode_store result" where
  "ms_load de file =
     (case file of
        None \<Rightarrow> Inr \<lparr> ms_history = [], ms_file = None, ms_truncated = None \<rparr>
      | Some body \<Rightarrow>
          bindE (load_rows ms_catches ModeStoreError de (jsonl_lines body)) (\<lambda>(rows, t).
            Inr \<lparr> ms_history = rows, ms_file = Some body, ms_truncated = t \<rparr>))"

subsection \<open>Legality\<close>

text \<open>Adjacent rungs of the ladder.\<close>

definition adjacent :: "string \<Rightarrow> string \<Rightarrow> bool" where
  "adjacent a b \<longleftrightarrow> (a, b) \<in> {(''DISABLED'', ''RESEARCH''), (''RESEARCH'', ''DISABLED''), (''RESEARCH'', ''PAPER''),
     (''PAPER'', ''RESEARCH''), (''PAPER'', ''PRODUCTION_ACTIVE''), (''PRODUCTION_ACTIVE'', ''PAPER'')}"

lemma known_modes:
  "set MODES = {''DISABLED'', ''RESEARCH'', ''PAPER'', ''PRODUCTION_ACTIVE'', ''PAUSED''}"
  by (auto simp: MODES_def CHAIN_def)

lemma check_known_eq_Inr [simp]: "check_known m = Inr u \<longleftrightarrow> m \<in> set MODES"
  by (simp add: check_known_def)

lemma chain_distance:
  assumes "a \<in> set CHAIN" and "b \<in> set CHAIN"
  shows "bindE (chain_position a) (\<lambda>i. bindE (chain_position b) (\<lambda>j. Inr (\<bar>i - j\<bar> = 1))) = Inr (adjacent a b)"
proof -
  have "\<forall>a \<in> set CHAIN. \<forall>b \<in> set CHAIN.
    bindE (chain_position a) (\<lambda>i. bindE (chain_position b) (\<lambda>j. Inr (\<bar>i - j\<bar> = (1::int)))) = Inr (adjacent a b)"
    unfolding CHAIN_def by (simp add: chain_position_def CHAIN_def adjacent_def)
  with assms show ?thesis by blast
qed

lemma is_legal_step_eq:
  assumes "p \<in> set MODES" and "t \<in> set MODES" and "case pf of None \<Rightarrow> True | Some m \<Rightarrow> m \<in> set MODES"
  shows "is_legal_step p t pf = Inr (t = p \<or> t \<in> set IMMEDIATE_TARGETS \<or> p = ''PAUSED'' \<and> pf = Some t \<or> adjacent p t)"
proof -
  have pf: "(case pf of None \<Rightarrow> Inr () | Some m \<Rightarrow> check_known m) = Inr ()"
    using assms(3) by (cases pf) (simp_all add: check_known_def)
  have k: "check_known p = Inr ()" "check_known t = Inr ()" using assms by (simp_all add: check_known_def)
  show ?thesis
  proof (cases "t = p \<or> t \<in> set IMMEDIATE_TARGETS \<or> p = ''PAUSED''")
    case True
    then show ?thesis by (auto simp: is_legal_step_def k pf adjacent_def)
  next
    case False
    then have "p \<in> set CHAIN" "t \<in> set CHAIN"
      using assms(1,2) by (auto simp: MODES_def IMMEDIATE_TARGETS_def)
    with False show ?thesis by (simp add: is_legal_step_def k pf chain_distance)
  qed
qed

lemma is_legal_step_known:
  assumes "is_legal_step p t pf = Inr b"
  shows "{p, t} \<union> set_option pf \<subseteq> set MODES"
proof -
  from assms obtain u v w where "check_known p = Inr u" "check_known t = Inr v"
    "(case pf of None \<Rightarrow> Inr () | Some m \<Rightarrow> check_known m) = Inr w"
    unfolding is_legal_step_def bindE_eq_Inr by blast
  then show ?thesis by (cases pf) simp_all
qed

lemma legal_startup_step:
  assumes "assert_legal_startup p t c pf = Inr ()"
  obtains b where "is_legal_step (normalize_persisted p) t pf = Inr b"
  using assms unfolding assert_legal_startup_def Let_def bindE_eq_Inr by blast

lemma legal_startup_iff:
  "assert_legal_startup persisted target confirmed paused_from = Inr () \<longleftrightarrow>
   {normalize_persisted persisted, target} \<union> set_option paused_from \<subseteq> set MODES
   \<and> (target = normalize_persisted persisted \<or> target \<in> {''DISABLED'', ''PAUSED''}
      \<or> normalize_persisted persisted = ''PAUSED'' \<and> paused_from = Some target
      \<or> adjacent (normalize_persisted persisted) target)
   \<and> \<not> (\<not> confirmed \<and> (normalize_persisted persisted, target) \<in> {''PAPER'', ''PAUSED''} \<times> {''PRODUCTION_ACTIVE''})"
proof -
  define q where "q = normalize_persisted persisted"
  define L where "L \<longleftrightarrow> target = q \<or> target \<in> set IMMEDIATE_TARGETS \<or> q = ''PAUSED'' \<and> paused_from = Some target \<or> adjacent q target"
  define C where "C \<longleftrightarrow> (q, target) \<in> set CONFIRMATION_REQUIRED"
  have C: "C \<longleftrightarrow> (q, target) \<in> {''PAPER'', ''PAUSED''} \<times> {''PRODUCTION_ACTIVE''}"
    unfolding C_def CONFIRMATION_REQUIRED_def by simp
  have L: "L \<longleftrightarrow> target = q \<or> target \<in> {''DISABLED'', ''PAUSED''} \<or> q = ''PAUSED'' \<and> paused_from = Some target \<or> adjacent q target"
    unfolding L_def IMMEDIATE_TARGETS_def by simp
  show ?thesis
  proof (cases "{q, target} \<union> set_option paused_from \<subseteq> set MODES")
    case True
    then have "q \<in> set MODES" "target \<in> set MODES" "case paused_from of None \<Rightarrow> True | Some m \<Rightarrow> m \<in> set MODES"
      by (auto split: option.splits)
    then have "assert_legal_startup persisted target confirmed paused_from =
      (if \<not> L then Inl IllegalModeTransition else if C \<and> \<not> confirmed then Inl ConfirmationRequired else Inr ())"
      by (simp add: assert_legal_startup_def Let_def q_def [symmetric] check_known_def is_legal_step_eq L_def C_def)
    with True show ?thesis unfolding q_def [symmetric] L [symmetric] C [symmetric] by auto
  next
    case False
    then have "assert_legal_startup persisted target confirmed paused_from \<noteq> Inr ()"
      using legal_startup_step [of persisted target confirmed paused_from] is_legal_step_known unfolding q_def by metis
    with False show ?thesis unfolding q_def by blast
  qed
qed

subsection \<open>Runs of writes\<close>

type_synonym mode_write = "string \<times> instant \<times> string option \<times> string option"

definition ms_apply :: "(mode_change \<Rightarrow> string) \<Rightarrow> mode_write \<Rightarrow> mode_store \<Rightarrow> mode_store" where
  "ms_apply enc w st = (case w of (m, t, reason, paused_from) \<Rightarrow> fst (ms_write enc m (Aware t) reason paused_from None st))"

definition ms_run :: "(mode_change \<Rightarrow> string) \<Rightarrow> mode_write list \<Rightarrow> mode_store \<Rightarrow> mode_store" where
  "ms_run enc ws st = fold (ms_apply enc) ws st"

definition fresh_modes :: mode_store where
  "fresh_modes = \<lparr> ms_history = [], ms_file = Some [], ms_truncated = None \<rparr>"

lemma ms_write_ok:
  assumes "ms_write enc m (Aware t) reason pf broken st = (st', Inr c)"
  shows "ms_history st' = ms_history st @ [c]" "mc_mode c = m" "mc_paused_from c = pf"
    "ms_truncated st' = ms_truncated st"
    "ms_file st = Some body \<Longrightarrow> ms_file st' = Some (write_row enc body c)"
  using assms by (auto simp: ms_write_def Let_def split: option.splits)

lemma ms_write_raised:
  assumes "ms_write enc m (Aware t) reason pf broken st = (st', Inl e)"
  shows "ms_history st' = ms_history st" "e = OSError" "broken \<noteq> None"
  using assms by (auto simp: ms_write_def Let_def split: option.splits)

lemma ms_write_current:
  "ms_write enc m (Aware t) reason pf broken st = (st', Inr c) \<Longrightarrow> ms_current st' = Some m"
  "ms_write enc m (Aware t) reason pf broken st = (st', Inr c) \<Longrightarrow> ms_paused_from st' = pf"
  using ms_write_ok [of enc m t reason pf broken st st' c] by (simp_all add: ms_current_def ms_paused_from_def)

lemma ms_apply_file:
  "ms_file st = Some (rows_text enc (ms_history st)) \<Longrightarrow>
   ms_file (ms_apply enc w st) = Some (rows_text enc (ms_history (ms_apply enc w st)))"
  by (auto simp: ms_apply_def ms_write_def Let_def split: prod.split)

lemma ms_run_file:
  assumes "ms_file st = Some (rows_text enc (ms_history st))"
  shows "ms_file (ms_run enc ws st) = Some (rows_text enc (ms_history (ms_run enc ws st)))
    \<and> ms_truncated (ms_run enc ws st) = ms_truncated st"
  using assms
proof (induction ws arbitrary: st)
  case (Cons w ws)
  have "ms_truncated (ms_apply enc w st) = ms_truncated st"
    by (auto simp: ms_apply_def ms_write_def Let_def split: prod.split option.split)
  with Cons.IH [OF ms_apply_file [OF Cons.prems]] show ?case by (simp add: ms_run_def)
qed (simp add: ms_run_def)

subsection \<open>Properties\<close>

text \<open>
  A mode change is accepted exactly when both modes are known (as is the mode a pause came from, if given)
  and the change is a restart in the same mode, a kill-switch move to DISABLED or PAUSED, the resumption
  of a pause into exactly the mode it came from, or one rung of the ladder, where entering PRODUCTION\_ACTIVE
  from PAPER or from a pause also needs the confirmation. A fresh install counts as DISABLED.
\<close>
theorem mode_change_legal_iff:
  "assert_legal_startup persisted target confirmed paused_from = Inr () \<longleftrightarrow>
   {normalize_persisted persisted, target} \<union> set_option paused_from \<subseteq> set MODES
   \<and> (target = normalize_persisted persisted \<or> target \<in> {''DISABLED'', ''PAUSED''}
      \<or> normalize_persisted persisted = ''PAUSED'' \<and> paused_from = Some target
      \<or> adjacent (normalize_persisted persisted) target)
   \<and> \<not> (\<not> confirmed \<and> (normalize_persisted persisted, target) \<in> {''PAPER'', ''PAUSED''} \<times> {''PRODUCTION_ACTIVE''})"
  by (rule legal_startup_iff)

text \<open>
  The documented default of a pause with an unknown origin is not what the code does: with an origin
  that is no mode the code knows, even the kill-switch move from PAUSED to DISABLED raises
  ModeTransitionError, while the module says such an origin allows nothing but DISABLED and that DISABLED
  is reachable unconditionally.
\<close>
theorem unknown_pause_origin_blocks_disabled:
  assumes "origin \<notin> set MODES"
  shows "assert_legal_startup (Some ''PAUSED'') ''DISABLED'' confirmed (Some origin) = Inl ModeTransitionError"
  using assms by (simp add: assert_legal_startup_def is_legal_step_def check_known_def normalize_persisted_def known_modes)

theorem unknown_pause_origin_blocks_disabled_witness:
  "assert_legal_startup (Some ''PAUSED'') ''DISABLED'' True (Some ''paper'') = Inl ModeTransitionError"
  by (rule unknown_pause_origin_blocks_disabled) (simp add: known_modes)

text \<open>
  A restart keeps the mode: after any sequence of writes to a fresh file, loading the file gives back the same
  store; with a piece of a row that a crash left at the end, the same history, so the current mode is
  the last one whose write completed, and the piece is reported.
\<close>
theorem mode_store_reload:
  assumes "st = ms_run enc ws fresh_modes" and "\<forall>c \<in> set (ms_history st). encodes enc de c"
    and "ms_file st = Some body" and "torn ms_catches de p"
  shows "ms_load de (ms_file st) = Inr st
    \<and> ms_load de (Some (body @ p)) = Inr (st\<lparr>ms_file := Some (body @ p), ms_truncated := Some p\<rparr>)"
proof -
  have f: "ms_file st = Some (rows_text enc (ms_history st))" and t: "ms_truncated st = None"
    using ms_run_file [of fresh_modes enc ws] by (simp_all add: assms(1) fresh_modes_def rows_text_def)
  then have b: "body = rows_text enc (ms_history st)" using assms(3) by simp
  show ?thesis
    using load_rows_text [OF assms(2), of ms_catches ModeStoreError] load_torn [OF assms(2,4), of ModeStoreError] f t
    by (simp add: ms_load_def b)
qed

text \<open>
  A kill switch can be lost: after a load that tolerated a torn row, the next change of mode is written
  onto the torn piece. The write succeeds and the process sees the new mode, but the next load drops
  that line and the store is back in the mode before it: a pause written after a recovered crash
  does not survive a restart.
\<close>
theorem pause_lost_after_torn_tail:
  assumes "ms_load de (Some (rows_text enc (hist @ [c]) @ p)) = Inr st" and "\<forall>r \<in> set (hist @ [c]). encodes enc de r"
    and "torn ms_catches de p"
    and "ms_write enc ''PAUSED'' (Aware t) reason paused_from None st = (st', Inr change)"
    and "torn ms_catches de (p @ enc change)"
    and "ms_load de (ms_file st') = Inr st''"
  shows "ms_current st' = Some ''PAUSED'' \<and> ms_current st'' = Some (mc_mode c)"
proof -
  have st: "st = \<lparr> ms_history = hist @ [c], ms_file = Some (rows_text enc (hist @ [c]) @ p), ms_truncated = Some p \<rparr>"
    using assms(1) load_torn [OF assms(2,3), of ModeStoreError] by (simp add: ms_load_def)
  have f: "ms_file st' = Some (write_row enc (rows_text enc (hist @ [c]) @ p) change)"
    by (rule ms_write_ok(5) [OF assms(4)]) (simp add: st)
  from assms(6) have "ms_history st'' = hist @ [c]"
    using load_after_torn [OF assms(2,5), of ModeStoreError] by (auto simp: ms_load_def f)
  then show ?thesis using ms_write_current(1) [OF assms(4)] by (simp add: ms_current_def)
qed

subsection \<open>A store\<close>

definition ex_menc :: "mode_change \<Rightarrow> string" where "ex_menc c = mc_mode c"

definition ex_mrow :: "string \<Rightarrow> mode_change result" where
  "ex_mrow l =
     (if l = ''PAPER'' then Inr \<lparr> mc_seq = 1, mc_mode = l, mc_changed_at = 5, mc_reason = None, mc_paused_from = None \<rparr>
      else Inl JSONDecodeError)"

definition ex_paper :: mode_write where "ex_paper = (''PAPER'', 5, None, None)"

lemma ex_modes_run:
  "ms_history (ms_run ex_menc [ex_paper] fresh_modes) =
    [\<lparr> mc_seq = 1, mc_mode = ''PAPER'', mc_changed_at = 5, mc_reason = None, mc_paused_from = None \<rparr>]"
  "ms_file (ms_run ex_menc [ex_paper] fresh_modes) = Some ''PAPER\<newline>''"
  by (simp_all add: ms_run_def ms_apply_def ms_write_def ex_paper_def fresh_modes_def write_row_def ex_menc_def nl_def Let_def)

lemma ex_mode_rows:
  "encodes ex_menc ex_mrow \<lparr> mc_seq = 1, mc_mode = ''PAPER'', mc_changed_at = 5, mc_reason = None, mc_paused_from = None \<rparr>"
  by (simp add: encodes_def ex_menc_def ex_mrow_def blank_line_def is_space_def is_sep_def)

lemma ex_mode_torn: "torn ms_catches ex_mrow ''PAP''" "torn ms_catches ex_mrow ''PAPPAUSED''"
  by (simp_all add: torn_def ex_mrow_def blank_line_def is_space_def is_sep_def ms_catches_def)

theorem mode_store_reload_witness:
  "ms_load ex_mrow (Some ''PAPER\<newline>PAP'') = Inr ((ms_run ex_menc [ex_paper] fresh_modes)\<lparr>ms_file := Some ''PAPER\<newline>PAP'', ms_truncated := Some ''PAP''\<rparr>)"
  using mode_store_reload [OF refl, of ex_menc "[ex_paper]" ex_mrow "''PAPER\<newline>''" "''PAP''"]
  by (simp add: ex_modes_run ex_mode_rows ex_mode_torn)

theorem pause_lost_after_torn_tail_witness:
  "\<exists>st' st''. ms_current st' = Some ''PAUSED'' \<and> ms_current st'' = Some ''PAPER'' \<and> ms_load ex_mrow (ms_file st') = Inr st''"
proof -
  let ?c = "\<lparr> mc_seq = 1, mc_mode = ''PAPER'', mc_changed_at = 5, mc_reason = None, mc_paused_from = None \<rparr>"
  let ?p = "\<lparr> mc_seq = 2, mc_mode = ''PAUSED'', mc_changed_at = 9, mc_reason = None, mc_paused_from = Some ''PAPER'' \<rparr>"
  let ?st = "\<lparr> ms_history = [?c], ms_file = Some (rows_text ex_menc [?c] @ ''PAP''), ms_truncated = Some ''PAP'' \<rparr>"
  let ?st' = "\<lparr> ms_history = [?c, ?p], ms_file = Some (write_row ex_menc (rows_text ex_menc [?c] @ ''PAP'') ?p), ms_truncated = Some ''PAP'' \<rparr>"
  have rows: "\<forall>r \<in> set ([] @ [?c]). encodes ex_menc ex_mrow r" using ex_mode_rows by simp
  have e: "ex_menc ?p = ''PAUSED''" by (simp add: ex_menc_def)
  have l: "ms_load ex_mrow (Some (rows_text ex_menc ([] @ [?c]) @ ''PAP'')) = Inr ?st"
    using load_torn [OF rows ex_mode_torn(1), of ModeStoreError] by (simp add: ms_load_def)
  have w: "ms_write ex_menc ''PAUSED'' (Aware 9) None (Some ''PAPER'') None ?st = (?st', Inr ?p)"
    by (simp add: ms_write_def Let_def)
  have t: "torn ms_catches ex_mrow (''PAP'' @ ex_menc ?p)" using ex_mode_torn(2) by (simp add: e)
  have l': "ms_load ex_mrow (ms_file ?st') = Inr \<lparr> ms_history = [?c],
      ms_file = ms_file ?st', ms_truncated = Some (''PAP'' @ ex_menc ?p) \<rparr>"
    using load_after_torn [OF rows t, of ModeStoreError] by (simp add: ms_load_def)
  show ?thesis using pause_lost_after_torn_tail [OF l rows ex_mode_torn(1) w t l'] l' by auto
qed

end
