(* ===== verification/AuditLog.thy ===== *)
theory AuditLog
  imports Jsonl Calendar
begin

text \<open>
  agent/audit.py: the hash-chained audit log. An event commits to the hash of the one before it;
  SHA-256 and the canonical json.dumps of a payload are the parameters \<open>sha\<close> and \<open>dumps\<close>, the
  JSONL row codec is \<open>enc\<close> and \<open>de\<close> (theory Jsonl). An instance is its events, the text of its file (if it
  has one) and the torn tail of the last load. A file write may stop after a piece of the line.
\<close>

text \<open>The values \<open>before\<close> and \<open>after\<close> may hold; \<open>JOther\<close> is any object json does not know.\<close>

datatype json_key = KStr string | KOther

datatype json =
    JNull | JBool bool | JInt int | JFloat rat | JStr string
  | JList "json list" | JObj "(json_key \<times> json) list" | JOther

fun json_native :: "json \<Rightarrow> bool" where
  "json_native (JList vs) = (\<forall>v \<in> set vs. json_native v)"
| "json_native (JObj kvs) = (\<forall>kv \<in> set kvs. fst kv \<noteq> KOther \<and> json_native (snd kv))"
| "json_native JOther = False"
| "json_native _ = True"

definition assert_json_native :: "json \<Rightarrow> unit result" where
  "assert_json_native v = guardE (json_native v) AuditError"

record audit_payload =
  ae_seq :: int
  ae_actor :: string
  ae_action :: string
  ae_object_type :: string
  ae_object_id :: string
  ae_before :: json
  ae_after :: json
  ae_correlation_id :: "string option"
  ae_timestamp :: instant

record audit_event = audit_payload +
  ae_prev_hash :: string
  ae_hash :: string

record audit_log =
  al_events :: "audit_event list"
  al_file :: "string option"
  al_truncated :: "string option"

definition GENESIS :: string where "GENESIS = replicate 64 CHR ''0''"

definition digest :: "(string \<Rightarrow> string) \<Rightarrow> (audit_payload \<Rightarrow> string) \<Rightarrow> audit_payload \<Rightarrow> string \<Rightarrow> string" where
  "digest sha dumps payload prev_hash = sha (prev_hash @ dumps payload)"

definition last_hash :: "audit_event list \<Rightarrow> string" where
  "last_hash evs = (if evs \<noteq> [] then ae_hash (last evs) else GENESIS)"

record append_args =
  ag_actor :: string
  ag_action :: string
  ag_object_type :: string
  ag_object_id :: string
  ag_before :: json
  ag_after :: json
  ag_correlation_id :: "string option"
  ag_timestamp :: instant

definition new_payload :: "audit_event list \<Rightarrow> append_args \<Rightarrow> audit_payload" where
  "new_payload evs a =
     \<lparr> ae_seq = int (length evs) + 1, ae_actor = ag_actor a, ae_action = ag_action a,
       ae_object_type = ag_object_type a, ae_object_id = ag_object_id a, ae_before = ag_before a,
       ae_after = ag_after a, ae_correlation_id = ag_correlation_id a, ae_timestamp = ag_timestamp a \<rparr>"

definition new_event ::
  "(string \<Rightarrow> string) \<Rightarrow> (audit_payload \<Rightarrow> string) \<Rightarrow> audit_event list \<Rightarrow> append_args \<Rightarrow> audit_event" where
  "new_event sha dumps evs a =
     (let p = new_payload evs a; prev = last_hash evs
      in audit_payload.extend p (audit_event.fields prev (digest sha dumps p prev)))"

text \<open>\<open>broken\<close>: the piece of the line that reached the disk when the write raised, if it did.\<close>

definition audit_append ::
  "(string \<Rightarrow> string) \<Rightarrow> (audit_payload \<Rightarrow> string) \<Rightarrow> (audit_event \<Rightarrow> string) \<Rightarrow> append_args \<Rightarrow> string option
   \<Rightarrow> audit_log \<Rightarrow> audit_log \<times> audit_event result" where
  "audit_append sha dumps enc a broken al =
     (case bindE (assert_json_native (ag_before a)) (\<lambda>_. assert_json_native (ag_after a)) of
        Inl e \<Rightarrow> (al, Inl e)
      | Inr _ \<Rightarrow>
          let ev = new_event sha dumps (al_events al) a
          in case (al_file al, broken) of
               (Some body, Some piece) \<Rightarrow> (al\<lparr>al_file := Some (body @ piece)\<rparr>, Inl OSError)
             | (Some body, None) \<Rightarrow>
                 (al\<lparr>al_file := Some (write_row enc body ev), al_events := al_events al @ [ev]\<rparr>, Inr ev)
             | (None, _) \<Rightarrow> (al\<lparr>al_events := al_events al @ [ev]\<rparr>, Inr ev))"

definition audit_load :: "(string \<Rightarrow> audit_event result) \<Rightarrow> string option \<Rightarrow> audit_log result" where
  "audit_load de file =
     (case file of
        None \<Rightarrow> Inr \<lparr> al_events = [], al_file = None, al_truncated = None \<rparr>
      | Some body \<Rightarrow>
          bindE (load_rows (\<lambda>e. e = JSONDecodeError) AuditError de (jsonl_lines body)) (\<lambda>(evs, t).
            Inr \<lparr> al_events = evs, al_file = Some body, al_truncated = t \<rparr>))"

fun verify_from ::
  "(string \<Rightarrow> string) \<Rightarrow> (audit_payload \<Rightarrow> string) \<Rightarrow> int \<Rightarrow> string \<Rightarrow> audit_event list \<Rightarrow> bool" where
  "verify_from sha dumps i prev [] = True"
| "verify_from sha dumps i prev (ev # evs) =
     (if ae_seq ev \<noteq> i \<or> ae_prev_hash ev \<noteq> prev then False
      else if digest sha dumps (audit_payload.truncate ev) prev \<noteq> ae_hash ev then False
      else verify_from sha dumps (i + 1) (ae_hash ev) evs)"

definition audit_verify :: "(string \<Rightarrow> string) \<Rightarrow> (audit_payload \<Rightarrow> string) \<Rightarrow> audit_log \<Rightarrow> bool" where
  "audit_verify sha dumps al = verify_from sha dumps 1 GENESIS (al_events al)"

text \<open>The in-memory list refuses every mutation but append.\<close>

definition forbid :: "audit_event list \<Rightarrow> audit_event list result" where
  "forbid evs = Inl AuditError"

subsection \<open>The chain\<close>

lemma verify_from_append:
  "verify_from sha dumps i prev (xs @ ys) \<longleftrightarrow> verify_from sha dumps i prev xs
   \<and> verify_from sha dumps (i + int (length xs)) (if xs = [] then prev else ae_hash (last xs)) ys"
  by (induction xs arbitrary: i prev) (auto simp: add.assoc)

lemma verify_snoc:
  "verify_from sha dumps 1 GENESIS (evs @ [ev]) \<longleftrightarrow> verify_from sha dumps 1 GENESIS evs
   \<and> ae_seq ev = int (length evs) + 1 \<and> ae_prev_hash ev = last_hash evs
   \<and> ae_hash ev = digest sha dumps (audit_payload.truncate ev) (last_hash evs)"
  by (auto simp: verify_from_append last_hash_def)

lemma new_event_fields:
  "ae_seq (new_event sha dumps evs a) = int (length evs) + 1"
  "ae_prev_hash (new_event sha dumps evs a) = last_hash evs"
  "audit_payload.truncate (new_event sha dumps evs a) = new_payload evs a"
  "ae_hash (new_event sha dumps evs a) = digest sha dumps (new_payload evs a) (last_hash evs)"
  by (simp_all add: new_event_def new_payload_def Let_def audit_payload.defs audit_event.defs)

lemma verify_new: "verify_from sha dumps 1 GENESIS evs \<Longrightarrow> verify_from sha dumps 1 GENESIS (evs @ [new_event sha dumps evs a])"
  by (simp add: verify_snoc new_event_fields)

text \<open>What the hash of an event is taken of.\<close>

definition hash_input :: "(audit_payload \<Rightarrow> string) \<Rightarrow> audit_event \<Rightarrow> string" where
  "hash_input dumps ev = ae_prev_hash ev @ dumps (audit_payload.truncate ev)"

definition hash_inputs :: "(audit_payload \<Rightarrow> string) \<Rightarrow> audit_event list \<Rightarrow> string set" where
  "hash_inputs dumps evs = hash_input dumps ` set evs"

definition content :: "(audit_payload \<Rightarrow> string) \<Rightarrow> audit_event list \<Rightarrow> string list" where
  "content dumps evs = map (\<lambda>ev. dumps (audit_payload.truncate ev)) evs"

lemma verified_hash_length:
  assumes "verify_from sha dumps 1 GENESIS evs" and "\<forall>s. length (sha s) = 64"
  shows "length (last_hash evs) = 64"
proof (cases evs rule: rev_cases)
  case Nil
  then show ?thesis by (simp add: last_hash_def GENESIS_def)
next
  case (snoc ys y)
  with assms show ?thesis by (simp add: verify_snoc digest_def) (simp add: last_hash_def digest_def)
qed

lemma same_last_hash_same_content:
  assumes "verify_from sha dumps 1 GENESIS xs" and "verify_from sha dumps 1 GENESIS ys"
    and "length xs = length ys" and "last_hash xs = last_hash ys"
    and len: "\<forall>s. length (sha s) = 64" and inj: "inj_on sha (hash_inputs dumps xs \<union> hash_inputs dumps ys)"
  shows "content dumps xs = content dumps ys"
  using assms(1-4) inj
proof (induction xs arbitrary: ys rule: rev_induct)
  case Nil
  then show ?case by (simp add: content_def)
next
  case (snoc x xs)
  then obtain y ys' where ys: "ys = ys' @ [y]" by (cases ys rule: rev_cases) auto
  have vx: "verify_from sha dumps 1 GENESIS xs" "ae_prev_hash x = last_hash xs"
      "ae_hash x = digest sha dumps (audit_payload.truncate x) (last_hash xs)"
    and vy: "verify_from sha dumps 1 GENESIS ys'" "ae_prev_hash y = last_hash ys'"
      "ae_hash y = digest sha dumps (audit_payload.truncate y) (last_hash ys')"
    using snoc.prems(1) snoc.prems(2) [unfolded ys] unfolding verify_snoc by blast+
  have "ae_hash x = ae_hash y" using snoc.prems(4) by (simp add: ys last_hash_def)
  then have "sha (hash_input dumps x) = sha (hash_input dumps y)"
    unfolding vx(3) vy(3) digest_def hash_input_def vx(2) vy(2) .
  then have "hash_input dumps x = hash_input dumps y"
    by (rule inj_onD [OF snoc.prems(5)]) (simp_all add: hash_inputs_def ys)
  moreover have "length (ae_prev_hash x) = length (ae_prev_hash y)"
    unfolding vx(2) vy(2) verified_hash_length [OF vx(1) len] verified_hash_length [OF vy(1) len] ..
  ultimately have e: "ae_prev_hash x = ae_prev_hash y" "dumps (audit_payload.truncate x) = dumps (audit_payload.truncate y)"
    by (simp_all add: hash_input_def)
  have "content dumps xs = content dumps ys'"
  proof (rule snoc.IH)
    show "inj_on sha (hash_inputs dumps xs \<union> hash_inputs dumps ys')"
      by (rule inj_on_subset [OF snoc.prems(5)]) (auto simp: hash_inputs_def ys)
    show "last_hash xs = last_hash ys'" using e(1) unfolding vx(2) vy(2) .
  qed (use vx(1) vy(1) snoc.prems(3) ys in simp_all)
  then show ?case using e by (simp add: content_def ys)
qed

subsection \<open>Sessions\<close>

definition audit_run ::
  "(string \<Rightarrow> string) \<Rightarrow> (audit_payload \<Rightarrow> string) \<Rightarrow> (audit_event \<Rightarrow> string)
   \<Rightarrow> (append_args \<times> string option) list \<Rightarrow> audit_log \<Rightarrow> audit_log" where
  "audit_run sha dumps enc ops al = foldl (\<lambda>l (a, broken). fst (audit_append sha dumps enc a broken l)) al ops"

lemma append_cases:
  obtains e where "snd (audit_append sha dumps enc a broken al) = Inl e"
      "al_events (fst (audit_append sha dumps enc a broken al)) = al_events al"
  | "snd (audit_append sha dumps enc a broken al) = Inr (new_event sha dumps (al_events al) a)"
      "al_events (fst (audit_append sha dumps enc a broken al)) = al_events al @ [new_event sha dumps (al_events al) a]"
  by (cases "bindE (assert_json_native (ag_before a)) (\<lambda>_. assert_json_native (ag_after a))";
      cases "al_file al"; cases broken) (auto simp: audit_append_def Let_def)

lemma append_file:
  "broken = None \<Longrightarrow> al_file al = Some (rows_text enc (al_events al)) \<Longrightarrow>
   al_file (fst (audit_append sha dumps enc a broken al)) = Some (rows_text enc (al_events (fst (audit_append sha dumps enc a broken al))))"
  by (auto simp: audit_append_def Let_def split: sum.split)

lemma append_truncated [simp]: "al_truncated (fst (audit_append sha dumps enc a broken al)) = al_truncated al"
  by (auto simp: audit_append_def Let_def split: sum.split option.split)

lemma run_grows:
  "verify_from sha dumps 1 GENESIS (al_events al) \<Longrightarrow>
   verify_from sha dumps 1 GENESIS (al_events (audit_run sha dumps enc ops al))
   \<and> (\<exists>new. al_events (audit_run sha dumps enc ops al) = al_events al @ new)"
proof (induction ops arbitrary: al)
  case Nil
  then show ?case by (simp add: audit_run_def)
next
  case (Cons p ops)
  obtain a broken where p: "p = (a, broken)" by (cases p)
  let ?al = "fst (audit_append sha dumps enc a broken al)"
  have "verify_from sha dumps 1 GENESIS (al_events ?al) \<and> (\<exists>new. al_events ?al = al_events al @ new)"
    by (cases rule: append_cases [of sha dumps enc a broken al]) (use Cons.prems verify_new in auto)
  with Cons.IH [of ?al] show ?case by (auto simp: audit_run_def p)
qed

definition fresh_log :: audit_log where
  "fresh_log = \<lparr> al_events = [], al_file = Some [], al_truncated = None \<rparr>"

lemma run_file:
  assumes "\<forall>q \<in> set ops. snd q = None" and "al_file al = Some (rows_text enc (al_events al))"
  shows "al_file (audit_run sha dumps enc ops al) = Some (rows_text enc (al_events (audit_run sha dumps enc ops al)))
    \<and> al_truncated (audit_run sha dumps enc ops al) = al_truncated al"
  using assms
proof (induction ops arbitrary: al)
  case (Cons p ops)
  obtain a where p: "p = (a, None)" using Cons.prems(1) by (cases p) auto
  from Cons.IH [of "fst (audit_append sha dumps enc a None al)"] append_file [OF refl Cons.prems(2)] Cons.prems(1)
  show ?case by (simp add: audit_run_def p)
qed (simp add: audit_run_def)

subsection \<open>Properties\<close>

text \<open>
  The chain can only grow and always verifies: from a log that verifies, any sequence of appends,
  including appends refused for a value that is not JSON and disk writes that fail half-way, leaves
  a log that verifies and has the old events, unchanged, as its beginning.
\<close>
theorem audit_chain_grows:
  assumes "audit_verify sha dumps al"
  shows "audit_verify sha dumps (audit_run sha dumps enc ops al)
    \<and> (\<exists>new. al_events (audit_run sha dumps enc ops al) = al_events al @ new)"
  using run_grows assms unfolding audit_verify_def by blast


text \<open>
  Deleting the newest rows is not evident: every beginning of a log that verifies, the empty one
  included, verifies too, although the module documents that any edit or deletion breaks verification;
  the last hash is kept nowhere else.
\<close>
theorem audit_tail_deletion_undetected:
  assumes "audit_verify sha dumps al"
  shows "audit_verify sha dumps (al\<lparr>al_events := take n (al_events al)\<rparr>)"
  using assms verify_from_append [of sha dumps 1 GENESIS "take n (al_events al)" "drop n (al_events al)"]
  by (simp add: audit_verify_def)

text \<open>
  A restart keeps the log: after any sequence of appends to a fresh file, refused ones included, loading the
  file gives back exactly the same log; with a piece of a row that a crash left at the end, the same
  events, and the piece reported in \<open>truncated_tail_on_load\<close>.
\<close>
theorem audit_log_reload:
  assumes "al = audit_run sha dumps enc ops fresh_log" and "\<forall>q \<in> set ops. snd q = None"
    and "\<forall>ev \<in> set (al_events al). encodes enc de ev" and "al_file al = Some body"
    and "torn (\<lambda>e. e = JSONDecodeError) de p"
  shows "audit_load de (al_file al) = Inr al
    \<and> audit_load de (Some (body @ p)) = Inr (al\<lparr>al_file := Some (body @ p), al_truncated := Some p\<rparr>)"
proof -
  have f: "al_file al = Some (rows_text enc (al_events al))" and t: "al_truncated al = None"
    using run_file [OF assms(2), of fresh_log enc sha dumps] by (simp_all add: fresh_log_def assms(1) rows_text_def)
  then have b: "body = rows_text enc (al_events al)" using assms(4) by simp
  show ?thesis
    using load_rows_text [OF assms(3), of "\<lambda>e. e = JSONDecodeError" AuditError]
      load_torn [OF assms(3,5), of AuditError] f t
    by (simp add: audit_load_def b)
qed

text \<open>
C38: A recovered crash poisons the log: the torn piece stays in the file without a line end, so the first
  event appended after a recovery is written onto it. Although that append succeeded and was synced, the next
  load loses the event, and if a further event was appended, the next load raises AuditError, the
  verdict reserved for tampering, and the log cannot be opened any more.
\<close>
theorem audit_append_after_torn_tail:
  assumes "audit_load de (Some (rows_text enc evs @ p)) = Inr al" and "\<forall>ev \<in> set evs. encodes enc de ev"
    and "torn (\<lambda>e. e = JSONDecodeError) de p"
    and "audit_append sha dumps enc a None al = (al1, Inr ev)"
    and "torn (\<lambda>e. e = JSONDecodeError) de (p @ enc ev)"
    and "audit_append sha dumps enc a' None al1 = (al2, Inr ev')" and "encodes enc de ev'"
  shows "al_events al1 = evs @ [ev] \<and> audit_load de (al_file al1) = Inr (al1\<lparr>al_events := evs, al_truncated := Some (p @ enc ev)\<rparr>)
    \<and> audit_load de (al_file al2) = Inl AuditError"
proof -
  have al: "al = \<lparr> al_events = evs, al_file = Some (rows_text enc evs @ p), al_truncated = Some p \<rparr>"
    using assms(1) load_torn [OF assms(2,3), of AuditError] by (simp add: audit_load_def)
  have ok: "al1 = al\<lparr>al_file := Some (write_row enc (rows_text enc evs @ p) ev), al_events := evs @ [ev]\<rparr>"
    using assms(4) by (auto simp: audit_append_def Let_def al split: sum.splits)
  have "al_file al2 = Some (write_row enc (write_row enc (rows_text enc evs @ p) ev) ev')"
    using assms(6) by (auto simp: audit_append_def Let_def ok split: sum.splits)
  then show ?thesis
    using load_after_torn [OF assms(2,5), of AuditError] load_after_torn_twice [OF assms(2,5,7), of AuditError]
    by (simp add: audit_load_def ok al)
qed

subsection \<open>A log\<close>

definition ex_sha :: "string \<Rightarrow> string" where
  "ex_sha s = replicate 64 (if s = [] then CHR ''0'' else last s)"

definition ex_append :: "string \<Rightarrow> append_args" where
  "ex_append who = \<lparr> ag_actor = who, ag_action = ''mode_transition'', ag_object_type = ''mode'',
     ag_object_id = ''m'', ag_before = JNull, ag_after = JStr ''PAUSED'', ag_correlation_id = None, ag_timestamp = 0 \<rparr>"

definition ex_ev1 :: audit_event where "ex_ev1 = new_event ex_sha ae_actor [] (ex_append ''a'')"
definition ex_ev2 :: audit_event where "ex_ev2 = new_event ex_sha ae_actor [ex_ev1] (ex_append ''b'')"

definition ex_row :: "string \<Rightarrow> audit_event result" where
  "ex_row s = (if s = ''a'' then Inr ex_ev1 else if s = ''b'' then Inr ex_ev2 else Inl JSONDecodeError)"

abbreviation ex_run :: "audit_log \<Rightarrow> audit_log" where
  "ex_run \<equiv> audit_run ex_sha ae_actor ae_actor [(ex_append ''a'', None), (ex_append ''b'', None)]"

lemma ex_actor [simp]: "ae_actor ex_ev1 = ''a''" "ae_actor ex_ev2 = ''b''"
  by (simp_all add: ex_ev1_def ex_ev2_def new_event_def Let_def new_payload_def ex_append_def
      audit_payload.defs audit_event.defs)

lemma ex_append_ok:
  "assert_json_native (ag_before (ex_append w)) = Inr ()" "assert_json_native (ag_after (ex_append w)) = Inr ()"
  by (simp_all add: assert_json_native_def ex_append_def)

lemma ex_run_events: "al_events (ex_run fresh_log) = [ex_ev1, ex_ev2]" "al_file (ex_run fresh_log) = Some ''a\<newline>b\<newline>''"
  by (simp_all add: audit_run_def audit_append_def ex_append_ok fresh_log_def write_row_def nl_def
      ex_ev1_def [symmetric] ex_ev2_def [symmetric])

lemma ex_rows: "encodes ae_actor ex_row ex_ev1" "encodes ae_actor ex_row ex_ev2"
  by (simp_all add: encodes_def ex_row_def blank_line_def is_space_def is_sep_def)

lemma ex_torn_rows: "torn (\<lambda>e. e = JSONDecodeError) ex_row ''x''" "torn (\<lambda>e. e = JSONDecodeError) ex_row ''xa''"
  by (simp_all add: torn_def ex_row_def blank_line_def is_space_def is_sep_def)

lemma ex_verified: "audit_verify ex_sha ae_actor (ex_run fresh_log)"
  using run_grows [of ex_sha ae_actor fresh_log] by (simp add: audit_verify_def fresh_log_def)

theorem audit_chain_grows_witness: "audit_verify ex_sha ae_actor (ex_run (ex_run fresh_log))"
  using audit_chain_grows [OF ex_verified] by blast


theorem audit_tail_deletion_undetected_witness:
  "audit_verify ex_sha ae_actor ((ex_run fresh_log)\<lparr>al_events := take 1 [ex_ev1, ex_ev2]\<rparr>)"
  using audit_tail_deletion_undetected [OF ex_verified, of 1] by (simp add: ex_run_events)

theorem audit_log_reload_witness:
  "audit_load ex_row (Some ''a\<newline>b\<newline>x'') = Inr \<lparr> al_events = [ex_ev1, ex_ev2], al_file = Some ''a\<newline>b\<newline>x'', al_truncated = Some ''x'' \<rparr>"
proof -
  have e: "\<forall>ev \<in> set (al_events (ex_run fresh_log)). encodes ae_actor ex_row ev" by (simp add: ex_run_events ex_rows)
  have "(ex_run fresh_log)\<lparr>al_file := f, al_truncated := t\<rparr>
      = \<lparr> al_events = [ex_ev1, ex_ev2], al_file = f, al_truncated = t \<rparr>" for f t
    by (rule audit_log.equality) (simp_all add: ex_run_events(1))
  moreover have q: "\<forall>q \<in> set [(ex_append ''a'', None), (ex_append ''b'', None)]. snd q = (None :: string option)" by simp
  ultimately show ?thesis
    using conjunct2 [OF audit_log_reload [OF refl q e ex_run_events(2) ex_torn_rows(1)]] by simp
qed

theorem audit_append_after_torn_tail_witness:
  "audit_load ex_row (Some ''xa\<newline>b\<newline>'') = Inl AuditError"
proof -
  have l: "audit_load ex_row (Some (rows_text ae_actor [] @ ''x'')) = Inr \<lparr> al_events = [], al_file = Some ''x'', al_truncated = Some ''x'' \<rparr>"
    using load_torn [of "[]" ae_actor ex_row _ "''x''" AuditError] ex_torn_rows(1) by (simp add: audit_load_def rows_text_def)
  let ?al1 = "\<lparr> al_events = [ex_ev1], al_file = Some ''xa\<newline>'', al_truncated = Some ''x'' \<rparr>"
  let ?al2 = "\<lparr> al_events = [ex_ev1, ex_ev2], al_file = Some ''xa\<newline>b\<newline>'', al_truncated = Some ''x'' \<rparr>"
  have a: "audit_append ex_sha ae_actor ae_actor (ex_append ''a'') None
      \<lparr> al_events = [], al_file = Some ''x'', al_truncated = Some ''x'' \<rparr> = (?al1, Inr ex_ev1)"
    "audit_append ex_sha ae_actor ae_actor (ex_append ''b'') None ?al1 = (?al2, Inr ex_ev2)"
    by (simp_all add: audit_append_def ex_append_ok write_row_def nl_def ex_ev1_def [symmetric] ex_ev2_def [symmetric])
  show ?thesis
    using audit_append_after_torn_tail [OF l _ ex_torn_rows(1) a(1) _ a(2) ex_rows(2)] ex_torn_rows(2) by simp
qed

end
