(* ===== verification/Startup.thy ===== *)
theory Startup
  imports Effects Reconciliation Mode AuditLog "HOL-Library.Sublist"
begin

text \<open>
  agent/startup.py, the startup sequence, and \<open>_run_advance_mode\<close> of scripts/run\_agent.py, the operator's
  mode change. They act on the mode store, the audit log and the approval service; a file write may break
  off, as the list \<open>wd_disk\<close> says of the writes to come (the piece that reached the disk, or
  \<open>None\<close> for a write that completes; every write completes once the list is used up).
\<close>

record startup_state =
  wd_modes :: mode_store
  wd_log :: audit_log
  wd_svc :: approval_service
  wd_disk :: "string option list"

text \<open>
  What the code formats with the standard library: SHA-256 and the JSON texts of payloads and rows
  (theories AuditLog and Mode), \<open>str(exc)\<close>, \<open>isoformat\<close>, \<open>str\<close> of a decimal, the text of a warning; and
  the correlation id of the run.
\<close>

record startup_env =
  ev_sha :: "string \<Rightarrow> string"
  ev_dumps :: "audit_payload \<Rightarrow> string"
  ev_audit_row :: "audit_event \<Rightarrow> string"
  ev_mode_row :: "mode_change \<Rightarrow> string"
  ev_message :: "exn \<Rightarrow> string"
  ev_iso :: "instant \<Rightarrow> string"
  ev_iso_date :: "date \<Rightarrow> string"
  ev_str :: "decimal \<Rightarrow> string"
  ev_warning :: "coverage_warning \<Rightarrow> string"
  ev_correlation :: "string option"

record account_reconciliation =
  rc_account :: string
  rc_guard :: day_trade_guard
  rc_broker_day_trades :: "int option"
  rc_local_positions :: "decimal dict"
  rc_broker_positions :: "position list"
  rc_local_settled_cash :: decimal
  rc_broker_account :: account_snapshot
  rc_local_open_orders :: "string list"
  rc_broker_open_orders :: "broker_order list"

record startup_result =
  sr_mode :: string
  sr_warnings :: "string list"
  sr_reconciled :: "string list"
  sr_swept :: "string list"
  sr_chain_length :: nat

type_synonym 'a act = "(startup_state, 'a) action"

subsection \<open>Writes\<close>

definition next_write :: "startup_state \<Rightarrow> string option" where
  "next_write w = (case wd_disk w of [] \<Rightarrow> None | b # _ \<Rightarrow> b)"

definition log_append ::
  "startup_env \<Rightarrow> string \<Rightarrow> string \<Rightarrow> string \<Rightarrow> string \<Rightarrow> json \<Rightarrow> json \<Rightarrow> string option \<Rightarrow> instant \<Rightarrow> unit act" where
  "log_append E actor action otype oid before after corr now = (\<lambda>w.
     let (al, r) = audit_append (ev_sha E) (ev_dumps E) (ev_audit_row E)
           \<lparr> ag_actor = actor, ag_action = action, ag_object_type = otype, ag_object_id = oid,
             ag_before = before, ag_after = after, ag_correlation_id = corr, ag_timestamp = now \<rparr>
           (next_write w) (wd_log w)
     in (w\<lparr>wd_log := al, wd_disk := tl (wd_disk w)\<rparr>, bindE r (\<lambda>_. Inr ())))"

definition mode_write :: "startup_env \<Rightarrow> string \<Rightarrow> instant \<Rightarrow> string option \<Rightarrow> string option \<Rightarrow> unit act" where
  "mode_write E m now reason paused_from = (\<lambda>w.
     let (ms, r) = ms_write (ev_mode_row E) m (Aware now) reason paused_from (next_write w) (wd_modes w)
     in (w\<lparr>wd_modes := ms, wd_disk := tl (wd_disk w)\<rparr>, bindE r (\<lambda>_. Inr ())))"

definition opt_str :: "string option \<Rightarrow> json" where
  "opt_str x = (case x of None \<Rightarrow> JNull | Some s \<Rightarrow> JStr s)"

definition mode_obj :: "json \<Rightarrow> json" where "mode_obj m = JObj [(KStr ''mode'', m)]"

definition transition_obj :: "string \<Rightarrow> string option \<Rightarrow> json" where
  "transition_obj target paused_from =
     JObj ((KStr ''mode'', JStr target) #
       (case paused_from of None \<Rightarrow> [] | Some p \<Rightarrow> [(KStr ''paused_from'', JStr p)]))"

subsection \<open>Mode persistence\<close>

definition claims_mode :: "audit_event \<Rightarrow> bool" where
  "claims_mode ev \<longleftrightarrow> ae_action ev \<in> {''mode_transition'', ''mode_persisted_reconciled''}"

definition claimed_mode :: "audit_event \<Rightarrow> json" where
  "claimed_mode ev = (case ae_after ev of
     JObj kvs \<Rightarrow> (case map_of kvs (KStr ''mode'') of None \<Rightarrow> JNull | Some v \<Rightarrow> v)
   | _ \<Rightarrow> JNull)"

definition last_claimed_mode :: "audit_log \<Rightarrow> json" where
  "last_claimed_mode al =
     (case List.find claims_mode (rev (al_events al)) of None \<Rightarrow> JNull | Some ev \<Rightarrow> claimed_mode ev)"

definition reconcile_mode_persistence :: "startup_env \<Rightarrow> string option \<Rightarrow> instant \<Rightarrow> string option act" where
  "reconcile_mode_persistence E corr now =
     bindW (getW (\<lambda>w. ms_current (wd_modes w))) (\<lambda>stored.
     bindW (getW (\<lambda>w. last_claimed_mode (wd_log w))) (\<lambda>claimed.
     bindW (whenW (opt_str stored \<noteq> claimed)
       (log_append E ''system'' ''mode_persisted_reconciled'' ''mode'' ''system''
          (mode_obj claimed) (mode_obj (opt_str stored)) corr now)) (\<lambda>_.
     retW stored)))"

definition halt :: "startup_env \<Rightarrow> string option \<Rightarrow> string \<Rightarrow> instant \<Rightarrow> unit act" where
  "halt E persisted reason now =
     bindW (whenW (persisted \<noteq> Some ''PAUSED'')
       (let paused_from = normalize_persisted persisted
        in bindW (mode_write E ''PAUSED'' now (Some reason) (Some paused_from)) (\<lambda>_.
           log_append E ''system'' ''mode_transition'' ''mode'' ''system'' (mode_obj (opt_str persisted))
             (transition_obj ''PAUSED'' (Some paused_from)) (ev_correlation E) now))) (\<lambda>_.
     log_append E ''system'' ''startup_halted'' ''startup'' ''system'' (mode_obj (opt_str persisted))
       (JObj [(KStr ''reason'', JStr reason)]) (ev_correlation E) now)"

text \<open>\<open>try: m except catches as exc: _halt(reason=str(exc)); raise\<close>.\<close>

definition halting ::
  "startup_env \<Rightarrow> string option \<Rightarrow> instant \<Rightarrow> (exn \<Rightarrow> bool) \<Rightarrow> 'a act \<Rightarrow> 'a act" where
  "halting E persisted now catches m = on_error catches (\<lambda>e. halt E persisted (ev_message E e) now) m"

subsection \<open>Reconciliation of the accounts\<close>

definition account_checks :: "date \<Rightarrow> account_reconciliation \<Rightarrow> unit result" where
  "account_checks today a =
     bindE (dt_reconcile (rc_guard a) (rc_account a) (rc_broker_day_trades a) today) (\<lambda>_.
     bindE (reconcile_positions (rc_account a) (rc_local_positions a) (rc_broker_positions a)) (\<lambda>_.
     bindE (reconcile_settled_cash (rc_account a) (rc_local_settled_cash a) (rc_broker_account a)) (\<lambda>_.
     reconcile_open_orders (rc_account a) (rc_local_open_orders a) (rc_broker_open_orders a))))"

definition reconcile_row :: "startup_env \<Rightarrow> date \<Rightarrow> account_reconciliation \<Rightarrow> json" where
  "reconcile_row E today a = JObj
     [(KStr ''broker_reported_day_trades'', (case rc_broker_day_trades a of None \<Rightarrow> JNull | Some n \<Rightarrow> JInt n)),
      (KStr ''as_of'', JStr (ev_iso_date E today)),
      (KStr ''positions'', JObj (map (\<lambda>(sym, qty). (KStr sym, JStr (ev_str E qty))) (rc_local_positions a))),
      (KStr ''settled_cash'', JStr (ev_str E (rc_local_settled_cash a))),
      (KStr ''open_order_ids'', JList (map JStr (sorted_list_of_set (set (rc_local_open_orders a)))))]"

definition reconcile_accounts ::
  "startup_env \<Rightarrow> account_reconciliation list \<Rightarrow> instant \<Rightarrow> string list act" where
  "reconcile_accounts E accounts now =
     bindW (liftW (session_for_instant (Aware now))) (\<lambda>today.
     forW (\<lambda>a.
       bindW (liftW (account_checks today a)) (\<lambda>_.
       bindW (log_append E ''system'' ''reconcile_account'' ''account'' (rc_account a) JNull
                (reconcile_row E today a) (ev_correlation E) now) (\<lambda>_.
       retW (rc_account a)))) accounts)"

text \<open>The exceptions \<open>run_startup\<close> turns into a halt, subclasses included.\<close>

definition halts_reconcile :: "exn \<Rightarrow> bool" where
  "halts_reconcile e \<longleftrightarrow> (case e of
     CrossAccountError _ _ \<Rightarrow> True | PostureMismatch \<Rightarrow> True | UnverifiableDayTradeCount \<Rightarrow> True
   | ReconciliationMismatch \<Rightarrow> True | CalendarCoverageError \<Rightarrow> True | CalendarExpiryError \<Rightarrow> True | _ \<Rightarrow> False)"

subsection \<open>The startup sequence\<close>

definition check_chain :: "startup_env \<Rightarrow> string option \<Rightarrow> string \<Rightarrow> instant \<Rightarrow> unit act" where
  "check_chain E persisted reason now =
     bindW (getW (\<lambda>w. audit_verify (ev_sha E) (ev_dumps E) (wd_log w))) (\<lambda>ok.
     whenW (\<not> ok)
       (bindW (whenW (persisted \<noteq> Some ''PAUSED'')
                (mode_write E ''PAUSED'' now (Some reason) (Some (normalize_persisted persisted)))) (\<lambda>_.
        raiseW AuditChainBroken)))"

definition sweep_approvals :: "startup_env \<Rightarrow> instant \<Rightarrow> approval_token list act" where
  "sweep_approvals E now =
     bindW (getW (\<lambda>w. snd (sweep_expired (wd_svc w) now))) (\<lambda>swept.
     bindW (modifyW (\<lambda>w. w\<lparr>wd_svc := fst (sweep_expired (wd_svc w) now)\<rparr>)) (\<lambda>_.
     bindW (forW (\<lambda>tok.
       log_append E ''system'' ''approval_expired'' ''approval_token'' (at_token_id tok)
         (JObj [(KStr ''expires_at'', JStr (ev_iso E (at_expires_at tok)))])
         (JObj [(KStr ''swept_at'', opt_str (map_option (ev_iso E) (at_swept_at tok)))])
         (ev_correlation E) now) swept) (\<lambda>_.
     retW swept)))"

text \<open>A real transition: the store first, its audit row second.\<close>

definition transition ::
  "startup_env \<Rightarrow> string \<Rightarrow> string option \<Rightarrow> string option \<Rightarrow> string option \<Rightarrow> string \<Rightarrow> instant \<Rightarrow> unit act" where
  "transition E actor reason corr persisted target now =
     (let paused_from = (if target = ''PAUSED'' then Some (normalize_persisted persisted) else None)
      in bindW (mode_write E target now reason paused_from) (\<lambda>_.
         log_append E actor ''mode_transition'' ''mode'' ''system'' (mode_obj (opt_str persisted))
           (transition_obj target paused_from) corr now))"

definition pause_origin :: "string option \<Rightarrow> string option act" where
  "pause_origin persisted = getW (\<lambda>w. if persisted = Some ''PAUSED'' then ms_paused_from (wd_modes w) else None)"

definition chain_broken_reason :: string where
  "chain_broken_reason = ''audit hash chain failed verification at startup ('' @ [CHR 0xA7] @ ''8.1)''"

definition finish_startup ::
  "startup_env \<Rightarrow> string option \<Rightarrow> string \<Rightarrow> coverage_warning option \<Rightarrow> string list \<Rightarrow> instant \<Rightarrow> startup_result act" where
  "finish_startup E persisted target warning reconciled now =
     bindW (check_chain E persisted chain_broken_reason now) (\<lambda>_.
     bindW (sweep_approvals E now) (\<lambda>swept.
     bindW (case warning of None \<Rightarrow> retW [] | Some c \<Rightarrow>
       bindW (log_append E ''system'' ''calendar_warning'' ''calendar'' ''market_calendar'' JNull
                (JObj [(KStr ''warning'', JStr (ev_warning E c))]) (ev_correlation E) now) (\<lambda>_.
       retW [ev_warning E c])) (\<lambda>warnings.
     bindW (whenW (Some target \<noteq> persisted) (transition E ''system'' None (ev_correlation E) persisted target now)) (\<lambda>_.
     bindW (log_append E ''system'' ''startup_complete'' ''mode'' ''system'' (mode_obj (opt_str persisted))
              (mode_obj (JStr target)) (ev_correlation E) now) (\<lambda>_.
     getW (\<lambda>w. \<lparr> sr_mode = target, sr_warnings = warnings, sr_reconciled = reconciled,
                 sr_swept = map at_token_id swept, sr_chain_length = length (al_events (wd_log w)) \<rparr>))))))"

definition run_startup ::
  "startup_env \<Rightarrow> string \<Rightarrow> bool \<Rightarrow> account_reconciliation list \<Rightarrow> instant \<Rightarrow> startup_result act" where
  "run_startup E target confirmed accounts now =
     bindW (liftW (session_for_instant (Aware now))) (\<lambda>today.
     bindW (reconcile_mode_persistence E (ev_correlation E) now) (\<lambda>persisted.
     bindW (pause_origin persisted) (\<lambda>paused_from.
     bindW (halting E persisted now is_mode_error
              (liftW (assert_legal_startup persisted target confirmed paused_from))) (\<lambda>_.
     bindW (whenW (accounts \<noteq> [] \<and> \<not> exercises_calendar target)
              (bindW (halt E persisted (ev_message E AccountsNotExpectedForMode) now) (\<lambda>_.
               raiseW AccountsNotExpectedForMode))) (\<lambda>_.
     bindW (halting E persisted now (\<lambda>e. e = CalendarExpiryError)
              (liftW (assert_calendar_coverage_at_startup target today))) (\<lambda>warning.
     bindW (halting E persisted now halts_reconcile (reconcile_accounts E accounts now)) (\<lambda>reconciled.
     finish_startup E persisted target warning reconciled now)))))))"

subsection \<open>The operator's mode change\<close>

definition ADAPTER_CONSTRUCTIBLE_MODES :: "string list" where "ADAPTER_CONSTRUCTIBLE_MODES = [''PAPER'']"

definition advance_reason :: string where "advance_reason = ''--advance-mode-to operator command''"

text \<open>The exit code. Every exception becomes code 1, whatever was written before it.\<close>

definition advance_mode :: "startup_env \<Rightarrow> string \<Rightarrow> bool \<Rightarrow> instant \<Rightarrow> startup_state \<Rightarrow> startup_state \<times> int" where
  "advance_mode E target confirmed now w =
     (case bindW (reconcile_mode_persistence E None now) (\<lambda>persisted.
           bindW (pause_origin persisted) (\<lambda>paused_from.
             case assert_legal_startup persisted target confirmed paused_from of
               Inl e \<Rightarrow> if is_mode_error e then retW 1 else raiseW e
             | Inr _ \<Rightarrow>
                 if exercises_calendar target \<and> target \<notin> set ADAPTER_CONSTRUCTIBLE_MODES then retW 1
                 else if persisted = Some target then retW 0
                 else bindW (transition E ''operator'' (Some advance_reason) None persisted target now) (\<lambda>_. retW 0))) w
      of (w', Inr code) \<Rightarrow> (w', code) | (w', Inl _) \<Rightarrow> (w', 1))"

end
