(* ===== verification/StartupSafety.thy ===== *)
theory StartupSafety
  imports Startup
begin

text \<open>
  What the startup sequence and the operator's mode change guarantee: which writes they make to the mode
  store, what an audit row may claim, what a failed start leaves behind and what a completed one has checked.
\<close>

subsection \<open>The two writes\<close>

lemma wp_seq:
  assumes "wp m P E w" and "\<And>x w'. P x w' \<Longrightarrow> wp (f x) Q E w'"
  shows "wp (bindW m f) Q E w"
  unfolding wp_bind using assms by (rule wp_mono)

text \<open>How an append of a row can end.\<close>

lemma wp_log:
  assumes "\<And>al d e. al_events al = al_events (wd_log w) \<Longrightarrow> Err e (w\<lparr>wd_log := al, wd_disk := d\<rparr>)"
    and "\<And>al d ev. al_events al = al_events (wd_log w) @ [ev] \<Longrightarrow> ae_action ev = action \<Longrightarrow> ae_after ev = after \<Longrightarrow>
      (audit_verify (ev_sha E) (ev_dumps E) (wd_log w) \<Longrightarrow> audit_verify (ev_sha E) (ev_dumps E) al) \<Longrightarrow>
      Q () (w\<lparr>wd_log := al, wd_disk := d\<rparr>)"
  shows "wp (log_append E actor action otype oid before after corr now) Q Err w"
proof -
  let ?a = "\<lparr> ag_actor = actor, ag_action = action, ag_object_type = otype, ag_object_id = oid,
    ag_before = before, ag_after = after, ag_correlation_id = corr, ag_timestamp = now \<rparr>"
  let ?r = "audit_append (ev_sha E) (ev_dumps E) (ev_audit_row E) ?a (next_write w) (wd_log w)"
  obtain al r where r: "?r = (al, r)" by (cases ?r)
  show ?thesis
  proof (cases rule: append_cases [of "ev_sha E" "ev_dumps E" "ev_audit_row E" ?a "next_write w" "wd_log w"])
    case (1 e)
    then show ?thesis using assms(1) by (simp add: wp_def log_append_def r)
  next
    case 2
    let ?ev = "new_event (ev_sha E) (ev_dumps E) (al_events (wd_log w)) ?a"
    have f: "audit_payload.truncate ?ev = new_payload (al_events (wd_log w)) ?a" by (rule new_event_fields(3))
    have "ae_action ?ev = action" "ae_after ?ev = after"
      using f by (auto simp: audit_payload.truncate_def new_payload_def)
    moreover have "audit_verify (ev_sha E) (ev_dumps E) (wd_log w) \<Longrightarrow> audit_verify (ev_sha E) (ev_dumps E) al"
      using 2 verify_new [of "ev_sha E" "ev_dumps E" "al_events (wd_log w)" ?a] by (simp add: audit_verify_def r)
    ultimately show ?thesis using 2 assms(2) by (simp add: wp_def log_append_def r)
  qed
qed

lemma wp_mode_write:
  assumes "\<And>ms d e. ms_history ms = ms_history (wd_modes w) \<Longrightarrow> Err e (w\<lparr>wd_modes := ms, wd_disk := d\<rparr>)"
    and "\<And>ms d c. ms_history ms = ms_history (wd_modes w) @ [c] \<Longrightarrow> mc_mode c = m \<Longrightarrow> mc_paused_from c = pf \<Longrightarrow>
      Q () (w\<lparr>wd_modes := ms, wd_disk := d\<rparr>)"
  shows "wp (mode_write E m now reason pf) Q Err w"
proof -
  let ?r = "ms_write (ev_mode_row E) m (Aware now) reason pf (next_write w) (wd_modes w)"
  obtain ms r where r: "?r = (ms, r)" by (cases ?r)
  show ?thesis
  proof (cases r)
    case (Inl e)
    then show ?thesis using assms(1) ms_write_raised [of "ev_mode_row E" m now reason pf "next_write w" "wd_modes w" ms e]
      by (simp add: wp_def mode_write_def r)
  next
    case (Inr c)
    then show ?thesis using assms(2) ms_write_ok [of "ev_mode_row E" m now reason pf "next_write w" "wd_modes w" ms c]
      by (simp add: wp_def mode_write_def r)
  qed
qed

text \<open>With no write that breaks off, both succeed.\<close>

lemma wp_log_calm:
  assumes "wd_disk w = []" and "json_native before" and "json_native after"
    and "\<And>al ev. al_events al = al_events (wd_log w) @ [ev] \<Longrightarrow> ae_action ev = action \<Longrightarrow> ae_after ev = after \<Longrightarrow>
      Q () (w\<lparr>wd_log := al, wd_disk := []\<rparr>)"
  shows "wp (log_append E actor action otype oid before after corr now) Q Err w"
proof -
  let ?a = "\<lparr> ag_actor = actor, ag_action = action, ag_object_type = otype, ag_object_id = oid,
    ag_before = before, ag_after = after, ag_correlation_id = corr, ag_timestamp = now \<rparr>"
  let ?ev = "new_event (ev_sha E) (ev_dumps E) (al_events (wd_log w)) ?a"
  have "\<exists>al. audit_append (ev_sha E) (ev_dumps E) (ev_audit_row E) ?a None (wd_log w) = (al, Inr ?ev)
      \<and> al_events al = al_events (wd_log w) @ [?ev]"
    using assms(2,3) by (cases "al_file (wd_log w)") (simp_all add: audit_append_def assert_json_native_def Let_def)
  then obtain al where al: "audit_append (ev_sha E) (ev_dumps E) (ev_audit_row E) ?a None (wd_log w) = (al, Inr ?ev)"
    "al_events al = al_events (wd_log w) @ [?ev]" by blast
  have f: "audit_payload.truncate ?ev = new_payload (al_events (wd_log w)) ?a" by (rule new_event_fields(3))
  have "ae_action ?ev = action" "ae_after ?ev = after"
    using f by (auto simp: audit_payload.truncate_def new_payload_def)
  then show ?thesis using assms(1,4) al by (simp add: wp_def log_append_def next_write_def)
qed

lemma wp_mode_write_calm:
  assumes "wd_disk w = []"
    and "\<And>ms c. ms_history ms = ms_history (wd_modes w) @ [c] \<Longrightarrow> mc_mode c = m \<Longrightarrow> mc_paused_from c = pf \<Longrightarrow>
      Q () (w\<lparr>wd_modes := ms, wd_disk := []\<rparr>)"
  shows "wp (mode_write E m now reason pf) Q Err w"
proof -
  obtain ms c where r: "ms_write (ev_mode_row E) m (Aware now) reason pf None (wd_modes w) = (ms, Inr c)"
    by (cases "ms_file (wd_modes w)") (simp_all add: ms_write_def Let_def)
  then show ?thesis using assms ms_write_ok [OF r] by (simp add: wp_def mode_write_def next_write_def)
qed

subsection \<open>What the audit log claims\<close>

text \<open>The modes the log claims, in order, and those the store holds.\<close>

definition claims :: "audit_log \<Rightarrow> json list" where
  "claims al = map claimed_mode (filter claims_mode (al_events al))"

definition stored_modes :: "mode_store \<Rightarrow> json list" where
  "stored_modes ms = map (\<lambda>c. JStr (mc_mode c)) (ms_history ms)"

definition claims_follow :: "startup_state \<Rightarrow> bool" where
  "claims_follow w \<longleftrightarrow> subseq (claims (wd_log w)) (stored_modes (wd_modes w))"

lemma last_claimed_eq: "last_claimed_mode al = (if claims al = [] then JNull else last (claims al))"
proof -
  have "List.find P (rev xs) = (if filter P xs = [] then None else Some (last (filter P xs)))" for P and xs :: "audit_event list"
    by (induction xs rule: rev_induct) auto
  then show ?thesis by (simp add: last_claimed_mode_def claims_def last_map)
qed

lemma stored_current: "opt_str (ms_current ms) = (if stored_modes ms = [] then JNull else last (stored_modes ms))"
  by (simp add: stored_modes_def ms_current_def opt_str_def last_map)

lemma claimed_objects [simp]:
  "ae_after ev = mode_obj m \<Longrightarrow> claimed_mode ev = m"
  "ae_after ev = transition_obj target pf \<Longrightarrow> claimed_mode ev = JStr target"
  by (simp_all add: claimed_mode_def mode_obj_def transition_obj_def)

lemma keeps_other_row [intro]:
  assumes "action \<notin> {''mode_transition'', ''mode_persisted_reconciled''}"
  shows "keeps claims_follow (log_append E actor action otype oid before after corr now)"
  unfolding keeps_def by (intro allI impI wp_log) (use assms in \<open>auto simp: claims_follow_def claims_def claims_mode_def\<close>)

lemma subseq_snoc: "subseq xs ys \<Longrightarrow> subseq (xs @ [x]) (ys @ [x])"
  by (simp add: list_emb_append_mono)

lemma subseq_drop_last:
  assumes "subseq (xs @ [y]) (ys @ [x])" and "y \<noteq> x"
  shows "subseq (xs @ [y]) ys"
proof -
  obtain as bs where a: "xs @ [y] = as @ bs" "subseq as ys" "subseq bs [x]"
    using assms(1) by (auto simp: subseq_append_iff)
  have "bs = []"
  proof (rule ccontr)
    assume "bs \<noteq> []"
    with a(3) have "bs = [x]" by (cases bs) (auto split: if_splits)
    with a(1) assms(2) show False by simp
  qed
  with a show ?thesis by simp
qed

text \<open>A write of a mode and the row that claims it; the row comes second, so it never claims too early.\<close>

lemma keeps_write_row [intro]:
  assumes "\<And>ev. ae_after ev = after \<Longrightarrow> claimed_mode ev = JStr m"
  shows "keeps claims_follow (bindW (mode_write E m now reason pf) (\<lambda>_.
    log_append E actor ''mode_transition'' otype oid before after corr now))"
  unfolding keeps_def
proof (intro allI impI)
  fix w assume J: "claims_follow w"
  show "wp (bindW (mode_write E m now reason pf) (\<lambda>_.
    log_append E actor ''mode_transition'' otype oid before after corr now)) (\<lambda>_. claims_follow) (\<lambda>_. claims_follow) w"
  proof (rule wp_seq)
    show "wp (mode_write E m now reason pf)
        (\<lambda>_ w'. wd_log w' = wd_log w \<and> stored_modes (wd_modes w') = stored_modes (wd_modes w) @ [JStr m]) (\<lambda>_. claims_follow) w"
      by (rule wp_mode_write) (use J in \<open>auto simp: claims_follow_def stored_modes_def\<close>)
  next
    fix u and w' :: startup_state
    assume w': "wd_log w' = wd_log w \<and> stored_modes (wd_modes w') = stored_modes (wd_modes w) @ [JStr m]"
    with J have "subseq (claims (wd_log w')) (stored_modes (wd_modes w'))"
      and "subseq (claims (wd_log w') @ [JStr m]) (stored_modes (wd_modes w'))"
      by (simp_all add: claims_follow_def subseq_snoc subseq_rev_drop_many)
    then show "wp (log_append E actor ''mode_transition'' otype oid before after corr now) (\<lambda>_. claims_follow) (\<lambda>_. claims_follow) w'"
      by (intro wp_log) (use assms in \<open>auto simp: claims_follow_def claims_def claims_mode_def\<close>)
  qed
qed

lemma keeps_mode_write [intro]: "keeps claims_follow (mode_write E m now reason pf)"
  unfolding keeps_def by (intro allI impI wp_mode_write) (auto simp: claims_follow_def stored_modes_def)

text \<open>The row that catches up with the store when the last claim is not the stored mode.\<close>

lemma keeps_catch_up [intro]: "keeps claims_follow (reconcile_mode_persistence E corr now)"
  unfolding keeps_def
proof (intro allI impI)
  fix w assume J: "claims_follow w"
  let ?s = "stored_modes (wd_modes w)" and ?c = "claims (wd_log w)"
  have snoc: "subseq (?c @ [opt_str (ms_current (wd_modes w))]) ?s"
    if d: "opt_str (ms_current (wd_modes w)) \<noteq> last_claimed_mode (wd_log w)"
  proof -
    from J have sub: "subseq ?c ?s" by (simp add: claims_follow_def)
    have ne: "?s \<noteq> []"
    proof
      assume "?s = []"
      with sub have "?c = []" by simp
      with \<open>?s = []\<close> d show False by (simp add: stored_current last_claimed_eq)
    qed
    then obtain s x where s: "?s = s @ [x]" by (metis append_butlast_last_id)
    have x: "opt_str (ms_current (wd_modes w)) = x" by (simp add: stored_current s)
    have "subseq ?c s"
    proof (cases "?c = []")
      case False
      then obtain c y where c: "?c = c @ [y]" by (metis append_butlast_last_id)
      with d x have "y \<noteq> x" by (simp add: last_claimed_eq)
      with sub show ?thesis by (simp add: s c subseq_drop_last)
    qed simp
    then show ?thesis by (simp add: s x subseq_snoc)
  qed
  show "wp (reconcile_mode_persistence E corr now) (\<lambda>_. claims_follow) (\<lambda>_. claims_follow) w"
    unfolding reconcile_mode_persistence_def wp_simps using J snoc
    by (auto intro!: wp_log simp: claims_follow_def claims_def claims_mode_def)
qed

lemma keeps_halt [intro]: "keeps claims_follow (halt E persisted reason now)"
  unfolding halt_def Let_def by (intro keeps_bind keeps_when keeps_write_row keeps_other_row) simp_all

lemma keeps_transition [intro]: "keeps claims_follow (transition E actor reason corr persisted target now)"
  unfolding transition_def Let_def by (intro keeps_write_row) simp

lemma keeps_sweep [intro]: "keeps claims_follow (sweep_approvals E now)"
proof -
  have "keeps claims_follow (modifyW (\<lambda>w. w\<lparr>wd_svc := fst (sweep_expired (wd_svc w) now)\<rparr>))"
    by (simp add: keeps_def wp_simps claims_follow_def)
  then show ?thesis
    unfolding sweep_approvals_def by (intro keeps_bind keeps_for keeps_other_row) auto
qed

lemma keeps_finish [intro]: "keeps claims_follow (finish_startup E persisted target warning reconciled now)"
  unfolding finish_startup_def check_chain_def
  by (cases warning) (auto intro!: keeps_bind keeps_when keeps_other_row keeps_transition keeps_sweep)

lemma keeps_startup: "keeps claims_follow (run_startup E target confirmed accounts now)"
  unfolding run_startup_def pause_origin_def halting_def reconcile_accounts_def
  by (auto intro!: keeps_bind keeps_when keeps_on_error keeps_for keeps_other_row)

lemma advance_mode_state:
  "fst (advance_mode E target confirmed now w) =
   fst (bindW (reconcile_mode_persistence E None now) (\<lambda>persisted.
        bindW (pause_origin persisted) (\<lambda>paused_from.
          case assert_legal_startup persisted target confirmed paused_from of
            Inl e \<Rightarrow> if is_mode_error e then retW (1::int) else raiseW e
          | Inr _ \<Rightarrow>
              if exercises_calendar target \<and> target \<notin> set ADAPTER_CONSTRUCTIBLE_MODES then retW 1
              else if persisted = Some target then retW 0
              else bindW (transition E ''operator'' (Some advance_reason) None persisted target now) (\<lambda>_. retW 0))) w)"
  unfolding advance_mode_def by (auto split: prod.split sum.split)

lemma advance_keeps_claims: "claims_follow w \<Longrightarrow> claims_follow (fst (advance_mode E target confirmed now w))"
  unfolding advance_mode_state pause_origin_def
  by (rule keepsD) (auto intro!: keeps_bind keeps_transition split: sum.split)

subsection \<open>What a startup writes to the mode store\<close>

text \<open>
  One run makes at most one change of mode: nothing, a pause that names where it comes from, or a change that
  is legal from the mode before it with the confirmation the operator gave.
\<close>

definition one_change :: "bool \<Rightarrow> mode_store \<Rightarrow> mode_store \<Rightarrow> bool" where
  "one_change confirmed ms ms' \<longleftrightarrow> ms_history ms' = ms_history ms \<or>
     (\<exists>c. ms_history ms' = ms_history ms @ [c] \<and>
        (if mc_mode c = ''PAUSED''
         then ms_current ms \<noteq> Some ''PAUSED'' \<and> mc_paused_from c = Some (normalize_persisted (ms_current ms))
         else mc_paused_from c = None \<and>
           assert_legal_startup (ms_current ms) (mc_mode c) confirmed
             (if ms_current ms = Some ''PAUSED'' then ms_paused_from ms else None) = Inr ()))"

lemma one_change_refl [simp]: "one_change c ms ms"
  by (simp add: one_change_def)

lemma log_keeps_modes [intro]: "keeps (\<lambda>w. wd_modes w = ms) (log_append E actor action otype oid before after corr now)"
  unfolding keeps_def by (intro allI impI wp_log) simp_all

lemma sweep_keeps_modes [intro]: "keeps (\<lambda>w. wd_modes w = ms) (sweep_approvals E now)"
proof -
  have "keeps (\<lambda>w. wd_modes w = ms) (modifyW (\<lambda>w. w\<lparr>wd_svc := fst (sweep_expired (wd_svc w) now)\<rparr>))"
    by (simp add: keeps_def wp_simps)
  then show ?thesis unfolding sweep_approvals_def by (intro keeps_bind keeps_for) auto
qed

lemma accounts_keep_modes [intro]: "keeps (\<lambda>w. wd_modes w = ms) (reconcile_accounts E accounts now)"
  unfolding reconcile_accounts_def by (auto intro!: keeps_bind keeps_for)

lemma keeps_wp: "keeps P m \<Longrightarrow> P w \<Longrightarrow> (\<And>x w'. P w' \<Longrightarrow> Q x w') \<Longrightarrow> (\<And>e w'. P w' \<Longrightarrow> Err e w') \<Longrightarrow> wp m Q Err w"
  unfolding keeps_def by (blast intro: wp_mono)

text \<open>A change and its row.\<close>

lemma wp_change:
  assumes "\<And>ms. ms_history ms = ms_history (wd_modes w) \<Longrightarrow> P ms"
    and "\<And>ms c. ms_history ms = ms_history (wd_modes w) @ [c] \<Longrightarrow> mc_mode c = m \<Longrightarrow> mc_paused_from c = pf \<Longrightarrow> P ms"
  shows "wp (bindW (mode_write E m now reason pf) (\<lambda>_. log_append E actor action otype oid before after corr now))
    (\<lambda>_ w'. P (wd_modes w')) (\<lambda>_ w'. P (wd_modes w')) w"
proof (rule wp_seq)
  show "wp (mode_write E m now reason pf) (\<lambda>_ w'. P (wd_modes w')) (\<lambda>_ w'. P (wd_modes w')) w"
    by (rule wp_mode_write) (use assms in auto)
  show "P (wd_modes w') \<Longrightarrow> wp (log_append E actor action otype oid before after corr now)
      (\<lambda>_ w'. P (wd_modes w')) (\<lambda>_ w'. P (wd_modes w')) w'" for w' :: startup_state
    by (rule wp_log) simp_all
qed

lemma wp_halt:
  assumes "wd_modes w = ms" and "persisted = ms_current ms"
  shows "wp (halt E persisted reason now) (\<lambda>_ w'. one_change c ms (wd_modes w')) (\<lambda>_ w'. one_change c ms (wd_modes w')) w"
proof -
  have log: "wp (log_append E actor action otype oid before after corr now)
      (\<lambda>_ w'. one_change c ms (wd_modes w')) (\<lambda>_ w'. one_change c ms (wd_modes w')) w'"
    if "one_change c ms (wd_modes w')" for w' actor action otype oid before after corr
    by (rule wp_log) (use that in simp_all)
  have "wp (bindW (mode_write E ''PAUSED'' now (Some reason) (Some (normalize_persisted persisted))) (\<lambda>_.
      log_append E ''system'' ''mode_transition'' ''mode'' ''system'' (mode_obj (opt_str persisted))
        (transition_obj ''PAUSED'' (Some (normalize_persisted persisted))) (ev_correlation E) now))
      (\<lambda>_ w'. one_change c ms (wd_modes w')) (\<lambda>_ w'. one_change c ms (wd_modes w')) w" if "persisted \<noteq> Some ''PAUSED''"
    by (rule wp_change) (use assms that in \<open>auto simp: one_change_def\<close>)
  then show ?thesis
    unfolding halt_def Let_def
    by (intro wp_seq [where P = "\<lambda>_ w'. one_change c ms (wd_modes w')"]) (use assms log in \<open>auto simp: wp_when\<close>)
qed

lemma wp_halting:
  assumes "wp m Q (\<lambda>_ w'. wd_modes w' = ms) w" and "persisted = ms_current ms"
  shows "wp (halting E persisted now catches m) Q (\<lambda>_ w'. one_change c ms (wd_modes w')) w"
  unfolding halting_def wp_on_error
  using assms(1)
proof (rule wp_mono)
  fix e and w' :: startup_state assume "wd_modes w' = ms"
  then show "(if catches e then wp (halt E persisted (ev_message E e) now) (\<lambda>_. (\<lambda>_ w'. one_change c ms (wd_modes w')) e)
      (\<lambda>_ w'. one_change c ms (wd_modes w')) else (\<lambda>_ w'. one_change c ms (wd_modes w')) e) w'"
    using wp_halt assms(2) by auto
qed

text \<open>A legal target that is not a pause leads to a change with no origin.\<close>

lemma wp_transition:
  assumes "wd_modes w = ms" and "persisted = ms_current ms" and "Some target \<noteq> persisted"
    and "assert_legal_startup persisted target confirmed (if persisted = Some ''PAUSED'' then ms_paused_from ms else None) = Inr ()"
  shows "wp (transition E actor reason corr persisted target now) (\<lambda>_ w'. one_change confirmed ms (wd_modes w'))
    (\<lambda>_ w'. one_change confirmed ms (wd_modes w')) w"
  unfolding transition_def Let_def
  by (rule wp_change) (use assms in \<open>auto simp: one_change_def\<close>)

lemma catch_up_result:
  assumes "wd_modes w = ms"
  shows "wp (reconcile_mode_persistence E corr now) (\<lambda>persisted w'. persisted = ms_current ms \<and> wd_modes w' = ms)
    (\<lambda>_ w'. wd_modes w' = ms) w"
  unfolding reconcile_mode_persistence_def wp_simps using assms
  by (auto intro!: wp_log)

lemma wp_finish:
  assumes "wd_modes w = ms" and "persisted = ms_current ms"
    and "assert_legal_startup persisted target confirmed (if persisted = Some ''PAUSED'' then ms_paused_from ms else None) = Inr ()"
  shows "wp (finish_startup E persisted target warning reconciled now) (\<lambda>_ w'. one_change confirmed ms (wd_modes w'))
    (\<lambda>_ w'. one_change confirmed ms (wd_modes w')) w"
proof -
  let ?M = "\<lambda>_ w'. wd_modes w' = ms" and ?C = "\<lambda>_ w'. one_change confirmed ms (wd_modes w')"
  have chain: "wp (check_chain E persisted reason now) ?M ?C w" for reason
  proof -
    have "wp (mode_write E ''PAUSED'' now (Some reason) (Some (normalize_persisted persisted))) ?C ?C w"
      if "persisted \<noteq> Some ''PAUSED''"
      by (rule wp_mode_write) (use assms that in \<open>auto simp: one_change_def\<close>)
    then show ?thesis unfolding check_chain_def wp_simps using assms(1) by (auto simp: wp_simps)
  qed
  have sweep: "wp (sweep_approvals E now) ?M ?C w'" if "wd_modes w' = ms" for w'
    by (rule keeps_wp [OF sweep_keeps_modes]) (use that in auto)
  have warn: "wp (case warning of None \<Rightarrow> retW [] | Some c \<Rightarrow>
       bindW (log_append E ''system'' ''calendar_warning'' ''calendar'' ''market_calendar'' JNull
                (JObj [(KStr ''warning'', JStr (ev_warning E c))]) (ev_correlation E) now) (\<lambda>_.
       retW [ev_warning E c])) ?M ?C w'" if "wd_modes w' = ms" for w'
    using that by (cases warning) (auto simp: wp_simps intro!: wp_log)
  have change: "wp (whenW (Some target \<noteq> persisted) (transition E ''system'' None (ev_correlation E) persisted target now)) ?C ?C w'"
    if "wd_modes w' = ms" for w'
    unfolding wp_when using wp_transition [OF that assms(2) _ assms(3)] that by auto
  show ?thesis
    unfolding finish_startup_def
    by (rule wp_seq [OF chain], rule wp_seq [OF sweep], assumption, rule wp_seq [OF warn], assumption,
        rule wp_seq [OF change], assumption, auto simp: wp_simps intro!: wp_log)
qed

lemma startup_one_change:
  "wp (run_startup E target confirmed accounts now) (\<lambda>_ w'. one_change confirmed (wd_modes w) (wd_modes w'))
    (\<lambda>_ w'. one_change confirmed (wd_modes w) (wd_modes w')) w"
proof -
  define ms where "ms = wd_modes w"
  let ?M = "\<lambda>_ w'. wd_modes w' = ms" and ?C = "\<lambda>_ w'. one_change confirmed ms (wd_modes w')"
  have lift: "wp (liftW r) (\<lambda>x w'. Inr x = r \<and> wd_modes w' = ms) ?M w'" if "wd_modes w' = ms" for r :: "'b result" and w'
    using that by (simp add: wp_simps split: sum.split)
  have halting: "wp (halting E (ms_current ms) now catches (liftW r)) (\<lambda>x w'. Inr x = r \<and> wd_modes w' = ms) ?C w'"
    if "wd_modes w' = ms" for r :: "'b result" and w' catches
    by (rule wp_halting [OF lift]) (use that in simp_all)
  have accounts: "wp (halting E (ms_current ms) now halts_reconcile (reconcile_accounts E accounts now)) ?M ?C w'"
    if "wd_modes w' = ms" for w'
    by (rule wp_halting [OF keeps_wp [OF accounts_keep_modes]]) (use that in auto)
  have refuse: "wp (whenW c (bindW (halt E (ms_current ms) reason now) (\<lambda>_. raiseW AccountsNotExpectedForMode))) ?M ?C w'"
    if "wd_modes w' = ms" for w' c reason
    using wp_halt [OF that refl, of E reason now confirmed] that by (simp add: wp_simps)
  have main: "wp (bindW (pause_origin (ms_current ms)) (\<lambda>paused_from.
     bindW (halting E (ms_current ms) now is_mode_error
              (liftW (assert_legal_startup (ms_current ms) target confirmed paused_from))) (\<lambda>_.
     bindW (whenW (accounts \<noteq> [] \<and> \<not> exercises_calendar target)
              (bindW (halt E (ms_current ms) (ev_message E AccountsNotExpectedForMode) now) (\<lambda>_.
               raiseW AccountsNotExpectedForMode))) (\<lambda>_.
     bindW (halting E (ms_current ms) now (\<lambda>e. e = CalendarExpiryError)
              (liftW (assert_calendar_coverage_at_startup target today))) (\<lambda>warning.
     bindW (halting E (ms_current ms) now halts_reconcile (reconcile_accounts E accounts now)) (\<lambda>reconciled.
     finish_startup E (ms_current ms) target warning reconciled now)))))) ?C ?C w'"
    if w': "wd_modes w' = ms" for w' today
    unfolding pause_origin_def wp_bind [of "getW _"] wp_get w'
    by (rule wp_seq [OF halting], rule w', elim conjE, rule wp_seq [OF refuse], assumption,
        rule wp_seq [OF halting], assumption, elim conjE, rule wp_seq [OF accounts], assumption,
        rule wp_finish) auto
  have catch_up: "wp (reconcile_mode_persistence E (ev_correlation E) now)
      (\<lambda>persisted w'. persisted = ms_current ms \<and> wd_modes w' = ms) ?C w"
    by (rule wp_mono [OF catch_up_result [OF ms_def [symmetric]]]) simp_all
  have "wp (run_startup E target confirmed accounts now) ?C ?C w"
    unfolding run_startup_def wp_bind [of "liftW _"] wp_lift session_for_instant.simps sum.case
    by (rule wp_seq [OF catch_up]) (erule conjE, simp only: main)
  then show ?thesis by (simp add: ms_def)
qed

subsection \<open>Sequences of startups and operator commands\<close>

text \<open>Runs against the same files, each with its own sequence of writes that break off.\<close>

datatype mode_op =
    Start string bool "account_reconciliation list" instant "string option list"
  | Advance string bool instant "string option list"

definition mode_step :: "startup_env \<Rightarrow> mode_op \<Rightarrow> startup_state \<Rightarrow> startup_state" where
  "mode_step E op w = (case op of
     Start target confirmed accounts now disk \<Rightarrow> fst (run_startup E target confirmed accounts now (w\<lparr>wd_disk := disk\<rparr>))
   | Advance target confirmed now disk \<Rightarrow> fst (advance_mode E target confirmed now (w\<lparr>wd_disk := disk\<rparr>)))"

definition mode_run :: "startup_env \<Rightarrow> mode_op list \<Rightarrow> startup_state \<Rightarrow> startup_state" where
  "mode_run E ops w = fold (mode_step E) ops w"

definition confirmed_start :: "mode_op \<Rightarrow> bool" where
  "confirmed_start op \<longleftrightarrow> (case op of Start _ confirmed _ _ _ \<Rightarrow> confirmed | Advance _ _ _ _ \<Rightarrow> False)"

lemma mode_run_invariant:
  assumes "P w" and "\<And>w op. op \<in> set ops \<Longrightarrow> P w \<Longrightarrow> P (mode_step E op w)"
  shows "P (mode_run E ops w)"
  using assms by (induction ops arbitrary: w) (simp_all add: mode_run_def)

lemma step_claims: "claims_follow w \<Longrightarrow> claims_follow (mode_step E op w)"
proof -
  assume "claims_follow w"
  then have "claims_follow (w\<lparr>wd_disk := disk\<rparr>)" for disk by (simp add: claims_follow_def)
  then show "claims_follow (mode_step E op w)"
    by (cases op) (simp_all add: mode_step_def keepsD [OF keeps_startup] advance_keeps_claims)
qed

definition was_live :: "mode_store \<Rightarrow> bool" where
  "was_live ms \<longleftrightarrow> ''PRODUCTION_ACTIVE'' \<in> mc_mode ` set (ms_history ms)"

text \<open>The operator's command makes the same kind of change, and never enters PRODUCTION\_ACTIVE.\<close>

definition safe_change :: "bool \<Rightarrow> mode_store \<Rightarrow> mode_store \<Rightarrow> bool" where
  "safe_change confirmed ms ms' \<longleftrightarrow> one_change confirmed ms ms' \<and> (was_live ms' \<longrightarrow> was_live ms)"

lemma wp_safe_transition:
  assumes "wd_modes w = ms" and "persisted = ms_current ms" and "Some target \<noteq> persisted"
    and "assert_legal_startup persisted target confirmed (if persisted = Some ''PAUSED'' then ms_paused_from ms else None) = Inr ()"
    and "target \<noteq> ''PRODUCTION_ACTIVE''"
  shows "wp (transition E actor reason corr persisted target now) (\<lambda>_ w'. safe_change confirmed ms (wd_modes w'))
    (\<lambda>_ w'. safe_change confirmed ms (wd_modes w')) w"
  unfolding transition_def Let_def
  by (rule wp_change) (use assms in \<open>auto simp: one_change_def safe_change_def was_live_def\<close>)

lemma advance_safe_change:
  "safe_change confirmed (wd_modes w) (wd_modes (fst (advance_mode E target confirmed now w)))"
proof -
  define ms where "ms = wd_modes w"
  let ?C = "\<lambda>_ w'. safe_change confirmed ms (wd_modes w')"
  let ?rest = "\<lambda>persisted. bindW (pause_origin persisted) (\<lambda>paused_from.
      case assert_legal_startup persisted target confirmed paused_from of
        Inl e \<Rightarrow> if is_mode_error e then retW (1::int) else raiseW e
      | Inr _ \<Rightarrow>
          if exercises_calendar target \<and> target \<notin> set ADAPTER_CONSTRUCTIBLE_MODES then retW 1
          else if persisted = Some target then retW 0
          else bindW (transition E ''operator'' (Some advance_reason) None persisted target now) (\<lambda>_. retW 0))"
  have same: "safe_change confirmed ms ms" by (simp add: safe_change_def)
  have "wp (bindW (reconcile_mode_persistence E None now) ?rest) ?C ?C w"
  proof (rule wp_seq)
    show "wp (reconcile_mode_persistence E None now) (\<lambda>persisted w'. persisted = ms_current ms \<and> wd_modes w' = ms) ?C w"
      by (rule wp_mono [OF catch_up_result [OF ms_def [symmetric]]]) (simp_all add: same)
    fix persisted and w' :: startup_state
    assume p: "persisted = ms_current ms \<and> wd_modes w' = ms"
    let ?pf = "if persisted = Some ''PAUSED'' then ms_paused_from ms else None"
    have tr: "wp (transition E ''operator'' (Some advance_reason) None persisted target now) ?C ?C w'"
      if "assert_legal_startup persisted target confirmed ?pf = Inr ()" "Some target \<noteq> persisted"
        "\<not> (exercises_calendar target \<and> target \<notin> set ADAPTER_CONSTRUCTIBLE_MODES)"
      by (rule wp_safe_transition [OF conjunct2 [OF p] conjunct1 [OF p] that(2,1)])
        (use that(3) in \<open>auto simp: exercises_calendar_def ADAPTER_CONSTRUCTIBLE_MODES_def\<close>)
    have pf: "(if persisted = Some ''PAUSED'' then ms_paused_from (wd_modes w') else None) = ?pf" using p by simp
    show "wp (?rest persisted) ?C ?C w'"
      unfolding pause_origin_def wp_bind [of "getW _"] wp_get pf
      by (cases "assert_legal_startup persisted target confirmed ?pf";
          use p same tr in \<open>simp add: wp_simps\<close>)
  qed
  then show ?thesis unfolding advance_mode_state ms_def wp_def by (auto split: prod.splits sum.splits)
qed

subsection \<open>The ladder\<close>

text \<open>The mode the system operates in, or was paused from, and the rungs that lead up to it.\<close>

definition operating :: "mode_change list \<Rightarrow> string" where
  "operating h = (if h = [] then ''DISABLED'' else if mc_mode (last h) = ''PAUSED''
     then normalize_persisted (mc_paused_from (last h)) else mc_mode (last h))"

definition rungs :: "string \<Rightarrow> string list" where
  "rungs m = tl (takeWhile (\<lambda>x. x \<noteq> m) CHAIN @ [m])"

definition climbed :: "mode_store \<Rightarrow> bool" where
  "climbed ms \<longleftrightarrow> operating (ms_history ms) \<in> set CHAIN
     \<and> subseq (rungs (operating (ms_history ms))) (map mc_mode (ms_history ms))"

lemma rungs_chain:
  "rungs ''DISABLED'' = []" "rungs ''RESEARCH'' = [''RESEARCH'']" "rungs ''PAPER'' = [''RESEARCH'', ''PAPER'']"
  "rungs ''PRODUCTION_ACTIVE'' = [''RESEARCH'', ''PAPER'', ''PRODUCTION_ACTIVE'']"
  by (simp_all add: rungs_def CHAIN_def)

text \<open>A step to the same or an adjacent rung extends the climb.\<close>

lemma climb_step:
  assumes "subseq (rungs q) ms" and "adjacent q t \<or> t = q \<or> t = ''DISABLED''"
  shows "subseq (rungs t) (ms @ [t])"
proof -
  have down: "subseq xs (ms @ [t])" if "subseq xs (rungs q)" for xs
    using that assms(1) subseq_rev_drop_many subseq_order.trans by blast
  have up: "subseq (rungs q @ [t]) (ms @ [t])" using assms(1) by simp
  consider "t = q \<or> t = ''DISABLED''" | "adjacent q t" using assms(2) by blast
  then show ?thesis
  proof cases
    case 1
    then show ?thesis using down by (auto simp: rungs_chain)
  next
    case 2
    then have "rungs t = rungs q @ [t] \<or> subseq (rungs t) (rungs q)"
      unfolding adjacent_def by (auto simp: rungs_chain)
    with up down show ?thesis by auto
  qed
qed

lemma climbed_change:
  assumes "one_change confirmed ms ms'" and "climbed ms"
  shows "climbed ms'"
proof (cases "ms_history ms' = ms_history ms")
  case True
  with assms(2) show ?thesis by (simp add: climbed_def)
next
  case False
  let ?q = "normalize_persisted (ms_current ms)" and ?pf = "if ms_current ms = Some ''PAUSED'' then ms_paused_from ms else None"
  obtain c where h: "ms_history ms' = ms_history ms @ [c]"
    and c: "if mc_mode c = ''PAUSED''
         then ms_current ms \<noteq> Some ''PAUSED'' \<and> mc_paused_from c = Some ?q
         else mc_paused_from c = None \<and> assert_legal_startup (ms_current ms) (mc_mode c) confirmed ?pf = Inr ()"
    using assms(1) False unfolding one_change_def by blast
  have old: "operating (ms_history ms) \<in> set CHAIN" "subseq (rungs (operating (ms_history ms))) (map mc_mode (ms_history ms))"
    using assms(2) by (simp_all add: climbed_def)
  have q: "operating (ms_history ms) = ?q" if "ms_current ms \<noteq> Some ''PAUSED''"
    using that by (auto simp: operating_def ms_current_def normalize_persisted_def)
  have pf: "operating (ms_history ms) = t" if "ms_current ms = Some ''PAUSED''" "ms_paused_from ms = Some t" for t
    using that by (auto simp: operating_def ms_current_def ms_paused_from_def normalize_persisted_def split: if_splits)
  show ?thesis
  proof (cases "mc_mode c = ''PAUSED''")
    case True
    with c q have "operating (ms_history ms') = operating (ms_history ms)"
      by (simp add: operating_def [of "ms_history ms @ [c]"] h normalize_persisted_def [of "Some _"])
    with old show ?thesis by (simp add: climbed_def h subseq_rev_drop_many)
  next
    case False
    let ?t = "mc_mode c"
    have t: "operating (ms_history ms @ [c]) = ?t" using False by (simp add: operating_def)
    from c False have legal: "?t \<in> set MODES"
      "?t = ?q \<or> ?t \<in> {''DISABLED'', ''PAUSED''} \<or> ?q = ''PAUSED'' \<and> ?pf = Some ?t \<or> adjacent ?q ?t"
      using legal_startup_iff [of "ms_current ms" ?t confirmed ?pf] by (simp_all only: if_False) blast+
    have "?t \<in> set CHAIN" using legal(1) False by (simp add: MODES_def)
    moreover have "adjacent (operating (ms_history ms)) ?t \<or> ?t = operating (ms_history ms) \<or> ?t = ''DISABLED''"
    proof (cases "ms_current ms = Some ''PAUSED''")
      case True
      with legal(2) False pf show ?thesis by (auto simp: normalize_persisted_def adjacent_def)
    next
      case notpaused: False
      with legal(2) False q show ?thesis by auto
    qed
    ultimately show ?thesis using climb_step [OF old(2)] by (simp add: climbed_def t h)
  qed
qed

text \<open>Without the confirmation the system does not go live.\<close>

lemma unconfirmed_change:
  assumes "one_change False ms ms'" and "climbed ms"
  shows "was_live ms' \<longrightarrow> was_live ms"
proof
  assume live: "was_live ms'"
  show "was_live ms"
  proof (rule ccontr)
    let ?q = "normalize_persisted (ms_current ms)" and ?pf = "if ms_current ms = Some ''PAUSED'' then ms_paused_from ms else None"
    assume not: "\<not> was_live ms"
    obtain c :: mode_change where c: "mc_mode c = ''PRODUCTION_ACTIVE''" "assert_legal_startup (ms_current ms) ''PRODUCTION_ACTIVE'' False ?pf = Inr ()"
    proof -
      from live not have ne: "ms_history ms' \<noteq> ms_history ms" by (auto simp: was_live_def)
      then obtain d where d: "ms_history ms' = ms_history ms @ [d]"
        and i: "if mc_mode d = ''PAUSED''
           then ms_current ms \<noteq> Some ''PAUSED'' \<and> mc_paused_from d = Some ?q
           else mc_paused_from d = None \<and> assert_legal_startup (ms_current ms) (mc_mode d) False ?pf = Inr ()"
        using assms(1) unfolding one_change_def by blast
      have "mc_mode d = ''PRODUCTION_ACTIVE''" using live not by (auto simp: was_live_def d)
      then show thesis using that [of d] i by simp
    qed
    then have "?q = ''PRODUCTION_ACTIVE''"
      using legal_startup_iff [of "ms_current ms" "''PRODUCTION_ACTIVE''" False ?pf]
      by (auto simp: adjacent_def)
    then have "ms_history ms \<noteq> []" "mc_mode (last (ms_history ms)) = ''PRODUCTION_ACTIVE''"
      by (auto simp: normalize_persisted_def ms_current_def split: if_splits)
    with not show False by (metis imageI last_in_set was_live_def)
  qed
qed

subsection \<open>Where a failed start ends\<close>

text \<open>Every write completes, and the rows of the log are JSON (an append refuses others, a load cannot make them).\<close>

definition calm :: "startup_state \<Rightarrow> bool" where
  "calm w \<longleftrightarrow> wd_disk w = [] \<and> (\<forall>ev \<in> set (al_events (wd_log w)). json_native (ae_after ev))"

definition paused_after :: "mode_store \<Rightarrow> mode_store \<Rightarrow> bool" where
  "paused_after ms ms' \<longleftrightarrow>
     (if ms_current ms = Some ''PAUSED'' then ms_history ms' = ms_history ms
      else \<exists>c. ms_history ms' = ms_history ms @ [c] \<and> mc_mode c = ''PAUSED''
             \<and> mc_paused_from c = Some (normalize_persisted (ms_current ms)))"

lemma native_rows [simp]:
  "json_native (mode_obj j) = json_native j" "json_native (opt_str x)"
  "json_native (transition_obj target pf)" "json_native (reconcile_row E today a)"
  by (auto simp: mode_obj_def opt_str_def transition_obj_def reconcile_row_def split: option.split)

lemma native_claim:
  assumes "\<forall>ev \<in> set (al_events al). json_native (ae_after ev)"
  shows "json_native (last_claimed_mode al)"
proof (cases "List.find claims_mode (rev (al_events al))")
  case (Some ev)
  then have "ev \<in> set (al_events al)" by (metis find_Some_iff length_rev nth_mem set_rev)
  with assms have n: "json_native (ae_after ev)" by blast
  have "json_native (claimed_mode ev)"
  proof (cases "ae_after ev")
    case (JObj kvs)
    then show ?thesis
      using n by (fastforce simp: claimed_mode_def split: option.split dest: map_of_SomeD)
  qed (simp_all add: claimed_mode_def)
  then show ?thesis by (simp add: last_claimed_mode_def Some)
qed (simp add: last_claimed_mode_def)

lemma calm_log:
  assumes "calm w" and "wd_modes w = ms" and "json_native before" and "json_native after"
  shows "wp (log_append E actor action otype oid before after corr now) (\<lambda>_ w'. calm w' \<and> wd_modes w' = ms) Err w"
  by (rule wp_log_calm) (use assms in \<open>auto simp: calm_def\<close>)

lemma calm_mode_write:
  assumes "calm w" and "wd_modes w = ms" and "ms_current ms \<noteq> Some ''PAUSED''"
  shows "wp (mode_write E ''PAUSED'' now reason (Some (normalize_persisted (ms_current ms))))
    (\<lambda>_ w'. calm w' \<and> paused_after ms (wd_modes w')) Err w"
  by (rule wp_mode_write_calm) (use assms in \<open>auto simp: calm_def paused_after_def\<close>)

lemma calm_halt:
  assumes "calm w" and "wd_modes w = ms"
  shows "wp (halt E (ms_current ms) reason now) (\<lambda>_ w'. paused_after ms (wd_modes w')) Err w"
proof -
  let ?P = "\<lambda>_ w'. calm w' \<and> paused_after ms (wd_modes w')"
  have log: "wp (log_append E actor action otype oid before after corr now) ?P Err w'"
    if "calm w' \<and> paused_after ms (wd_modes w')" "json_native before" "json_native after"
    for w' actor action otype oid before after corr
    by (rule wp_mono [OF calm_log [of _ "wd_modes w'"]]) (use that in auto)
  have pause: "wp (bindW (mode_write E ''PAUSED'' now (Some reason) (Some (normalize_persisted (ms_current ms)))) (\<lambda>_.
      log_append E ''system'' ''mode_transition'' ''mode'' ''system'' (mode_obj (opt_str (ms_current ms)))
        (transition_obj ''PAUSED'' (Some (normalize_persisted (ms_current ms)))) (ev_correlation E) now)) ?P Err w"
    if "ms_current ms \<noteq> Some ''PAUSED''"
    by (rule wp_seq [OF calm_mode_write [OF assms that]], rule log) simp_all
  have first: "wp (whenW (ms_current ms \<noteq> Some ''PAUSED'') (bindW (mode_write E ''PAUSED'' now (Some reason)
      (Some (normalize_persisted (ms_current ms)))) (\<lambda>_.
      log_append E ''system'' ''mode_transition'' ''mode'' ''system'' (mode_obj (opt_str (ms_current ms)))
        (transition_obj ''PAUSED'' (Some (normalize_persisted (ms_current ms)))) (ev_correlation E) now))) ?P Err w"
    unfolding wp_when using pause assms by (auto simp: paused_after_def)
  show ?thesis
    unfolding halt_def Let_def
    by (rule wp_seq [OF first], rule wp_mono [OF log]) auto
qed

lemma calm_halting:
  assumes "wp m Q (\<lambda>e w'. calm w' \<and> wd_modes w' = ms \<and> catches e) w"
  shows "wp (halting E (ms_current ms) now catches m) Q (\<lambda>_ w'. paused_after ms (wd_modes w')) w"
  unfolding halting_def wp_on_error
  using assms by (rule wp_mono) (use calm_halt in auto)

subsection \<open>Which exceptions the checks raise\<close>

lemma trailing_walk_error: "trailing_walk n d out = Inl e \<Longrightarrow> e = CalendarCoverageError"
proof (induction n d out rule: trailing_walk.induct)
  case (1 n d out)
  show ?case
  proof (cases "is_trading_day d")
    case (Inl x)
    then have "x = CalendarCoverageError"
      by (auto simp: is_trading_day_def check_range_def bindE_eq_Inl split: if_splits)
    with 1 Inl show ?thesis by (subst (asm) trailing_walk.simps) (auto split: if_splits)
  next
    case (Inr td)
    with 1 show ?thesis by (subst (asm) (2) trailing_walk.simps) (auto split: if_splits)
  qed
qed

lemma dt_count_error: "dt_count g d = Inl e \<Longrightarrow> e = CalendarCoverageError"
  by (auto simp: dt_count_def trailing_sessions_def bindE_eq_Inl check_range_def WINDOW_SESSIONS_def
      split: if_splits dest: trailing_walk_error)

lemma dt_reconcile_error: "dt_reconcile g acct n d = Inl e \<Longrightarrow> halts_reconcile e"
  by (auto simp: dt_reconcile_def bindE_eq_Inl halts_reconcile_def split: if_splits option.splits dest: dt_count_error)

lemma reconcile_error_halts: "reconcile_error e \<Longrightarrow> halts_reconcile e"
  by (auto simp: reconcile_error_def halts_reconcile_def)

lemma account_checks_error: "account_checks today a = Inl e \<Longrightarrow> halts_reconcile e"
  unfolding account_checks_def bindE_eq_Inl
  by (auto intro: reconcile_error_halts dest: dt_reconcile_error positions_error settled_cash_error open_orders_error)

lemma legal_startup_error:
  assumes "assert_legal_startup p t c pf = Inl e"
  shows "is_mode_error e"
proof -
  have "e' = ModeTransitionError" if "is_legal_step q t pf = Inl e'" for q e'
  proof (cases "q \<in> set MODES \<and> t \<in> set MODES \<and> (case pf of None \<Rightarrow> True | Some m \<Rightarrow> m \<in> set MODES)")
    case True
    with that show ?thesis using is_legal_step_eq by auto
  next
    case False
    with that show ?thesis
      by (auto simp: is_legal_step_def check_known_def guardE_def split: option.splits if_splits)
  qed
  with assms show ?thesis
    by (auto simp: assert_legal_startup_def Let_def bindE_eq_Inl is_mode_error_def check_known_def split: if_splits)
qed

lemma coverage_error: "assert_calendar_coverage_at_startup m d = Inl e \<Longrightarrow> e = CalendarExpiryError"
  by (auto simp: assert_calendar_coverage_at_startup_def Let_def split: if_splits)

subsection \<open>A run that does not break off\<close>

lemma calm_catch_up:
  assumes "calm w" and "wd_modes w = ms"
  shows "wp (reconcile_mode_persistence E corr now) (\<lambda>persisted w'. persisted = ms_current ms \<and> calm w' \<and> wd_modes w' = ms) Err w"
proof -
  have "wp (log_append E ''system'' ''mode_persisted_reconciled'' ''mode'' ''system''
      (mode_obj (last_claimed_mode (wd_log w))) (mode_obj (opt_str (ms_current ms))) corr now)
      (\<lambda>_ w'. calm w' \<and> wd_modes w' = ms) Err w"
    using calm_log [OF assms] native_claim assms(1) by (simp add: calm_def)
  then show ?thesis
    unfolding reconcile_mode_persistence_def wp_simps using assms by auto
qed

lemma calm_accounts:
  assumes "calm w" and "wd_modes w = ms"
  shows "wp (reconcile_accounts E accounts now) (\<lambda>_ w'. calm w' \<and> wd_modes w' = ms)
    (\<lambda>e w'. calm w' \<and> wd_modes w' = ms \<and> halts_reconcile e) w"
proof -
  have "wp (bindW (liftW (account_checks today a)) (\<lambda>_.
       bindW (log_append E ''system'' ''reconcile_account'' ''account'' (rc_account a) JNull
                (reconcile_row E today a) (ev_correlation E) now) (\<lambda>_.
       retW (rc_account a)))) (\<lambda>_ w'. calm w' \<and> wd_modes w' = ms)
       (\<lambda>e w'. calm w' \<and> wd_modes w' = ms \<and> halts_reconcile e) w'"
    if "calm w' \<and> wd_modes w' = ms" for w' today a
    using that account_checks_error [of today a] calm_log [of w' ms JNull "reconcile_row E today a"]
    by (cases "account_checks today a") (simp_all add: wp_simps)
  then show ?thesis
    unfolding reconcile_accounts_def session_for_instant.simps wp_bind [of "liftW (Inr _)"] wp_lift sum.case
    using assms by (intro wp_for [where I = "\<lambda>_ w'. calm w' \<and> wd_modes w' = ms"]) auto
qed

lemma calm_finish:
  assumes "calm w" and "wd_modes w = ms"
  shows "wp (finish_startup E (ms_current ms) target warning reconciled now) (\<lambda>_ _. True)
    (\<lambda>_ w'. paused_after ms (wd_modes w')) w"
proof -
  let ?K = "\<lambda>_ w'. calm w' \<and> wd_modes w' = ms" and ?P = "\<lambda>_ w'. paused_after ms (wd_modes w')"
  have chain: "wp (check_chain E (ms_current ms) reason now) ?K ?P w" for reason
  proof -
    have "wp (mode_write E ''PAUSED'' now (Some reason) (Some (normalize_persisted (ms_current ms)))) ?P ?P w"
      if "ms_current ms \<noteq> Some ''PAUSED''"
      by (rule wp_mono [OF calm_mode_write [OF assms that]]) simp_all
    then show ?thesis unfolding check_chain_def wp_simps using assms by (auto simp: paused_after_def)
  qed
  have sweep: "wp (sweep_approvals E now) ?K ?P w'" if k: "calm w' \<and> wd_modes w' = ms" for w'
  proof -
    have k': "calm (w'\<lparr>wd_svc := s\<rparr>) \<and> wd_modes (w'\<lparr>wd_svc := s\<rparr>) = ms" for s using k by (simp add: calm_def)
    show ?thesis
      unfolding sweep_approvals_def wp_bind [of "getW _"] wp_bind [of "modifyW _"] wp_get wp_modify
      by (rule wp_seq [OF wp_for [where I = "\<lambda>_ w'. calm w' \<and> wd_modes w' = ms"]])
        (use k' in \<open>auto simp: wp_simps intro!: calm_log\<close>)
  qed
  have warn: "wp (case warning of None \<Rightarrow> retW [] | Some c \<Rightarrow>
       bindW (log_append E ''system'' ''calendar_warning'' ''calendar'' ''market_calendar'' JNull
                (JObj [(KStr ''warning'', JStr (ev_warning E c))]) (ev_correlation E) now) (\<lambda>_.
       retW [ev_warning E c])) ?K ?P w'" if "calm w' \<and> wd_modes w' = ms" for w'
    using that by (cases warning) (auto simp: wp_simps intro!: calm_log)
  have change: "wp (whenW c (transition E ''system'' None (ev_correlation E) (ms_current ms) target now)) (\<lambda>_. calm) ?P w'"
    if "calm w' \<and> wd_modes w' = ms" for w' c
  proof -
    have "wp (mode_write E target now None pf) (\<lambda>_. calm) ?P w'" for pf
      by (rule wp_mode_write_calm) (use that in \<open>auto simp: calm_def\<close>)
    then have "wp (transition E ''system'' None (ev_correlation E) (ms_current ms) target now) (\<lambda>_. calm) ?P w'"
      unfolding transition_def Let_def
      by (rule wp_seq) (rule wp_mono [OF calm_log [OF _ refl]], simp_all)
    then show ?thesis using that by (simp add: wp_when)
  qed
  show ?thesis
    unfolding finish_startup_def
    by (rule wp_seq [OF chain], rule wp_seq [OF sweep], assumption, rule wp_seq [OF warn], assumption,
        rule wp_seq [OF change], assumption, rule wp_seq [OF calm_log [OF _ refl]]) (simp_all add: wp_simps)
qed

lemma calm_startup:
  assumes "calm w"
  shows "wp (run_startup E target confirmed accounts now) (\<lambda>_ _. True) (\<lambda>_ w'. paused_after (wd_modes w) (wd_modes w')) w"
proof -
  define ms where "ms = wd_modes w"
  let ?P = "\<lambda>_ w'. paused_after ms (wd_modes w')" and ?K = "\<lambda>_ w'. calm w' \<and> wd_modes w' = ms"
  have halting: "wp (halting E (ms_current ms) now catches (liftW r)) ?K ?P w'"
    if "calm w' \<and> wd_modes w' = ms" "\<And>e. r = Inl e \<Longrightarrow> catches e" for r :: "'b result" and w' catches
    by (rule calm_halting) (use that in \<open>auto simp: wp_simps split: sum.split\<close>)
  have accounts: "wp (halting E (ms_current ms) now halts_reconcile (reconcile_accounts E accounts now)) ?K ?P w'"
    if "calm w' \<and> wd_modes w' = ms" for w'
    by (rule calm_halting) (use that calm_accounts in blast)
  have refuse: "wp (whenW c (bindW (halt E (ms_current ms) reason now) (\<lambda>_. raiseW AccountsNotExpectedForMode))) ?K ?P w'"
    if "calm w' \<and> wd_modes w' = ms" for w' c reason
    using calm_halt [of w' ms] that by (auto simp: wp_simps)
  have main: "wp (bindW (pause_origin (ms_current ms)) (\<lambda>paused_from.
     bindW (halting E (ms_current ms) now is_mode_error
              (liftW (assert_legal_startup (ms_current ms) target confirmed paused_from))) (\<lambda>_.
     bindW (whenW (accounts \<noteq> [] \<and> \<not> exercises_calendar target)
              (bindW (halt E (ms_current ms) (ev_message E AccountsNotExpectedForMode) now) (\<lambda>_.
               raiseW AccountsNotExpectedForMode))) (\<lambda>_.
     bindW (halting E (ms_current ms) now (\<lambda>e. e = CalendarExpiryError)
              (liftW (assert_calendar_coverage_at_startup target today))) (\<lambda>warning.
     bindW (halting E (ms_current ms) now halts_reconcile (reconcile_accounts E accounts now)) (\<lambda>reconciled.
     finish_startup E (ms_current ms) target warning reconciled now)))))) (\<lambda>_ _. True) ?P w'"
    if k: "calm w' \<and> wd_modes w' = ms" for w' today
    unfolding pause_origin_def wp_bind [of "getW _"] wp_get
    by (rule wp_seq [OF halting], rule k, erule legal_startup_error, rule wp_seq [OF refuse], assumption,
        rule wp_seq [OF halting], assumption, erule coverage_error, rule wp_seq [OF accounts], assumption,
        rule calm_finish) auto
  have "wp (run_startup E target confirmed accounts now) (\<lambda>_ _. True) ?P w"
    unfolding run_startup_def wp_bind [of "liftW _"] wp_lift session_for_instant.simps sum.case
    by (rule wp_seq [OF calm_catch_up [OF assms ms_def [symmetric]]]) (erule conjE, simp only: main)
  then show ?thesis by (simp add: ms_def)
qed

end
