(* ===== verification/StartupProperties.thy ===== *)
theory StartupProperties
  imports StartupSafety
begin

text \<open>
  The properties of the startup sequence and of sequences of startups and operator commands, over the
  lemmas of theory StartupSafety, and what a completed startup has established.
\<close>

subsection \<open>What a completed startup has checked\<close>

lemma wp_True [simp]: "wp m (\<lambda>_ _. True) (\<lambda>_ _. True) w"
  by (auto simp: wp_def split: prod.split sum.split)

text \<open>The state of a verified chain, its approvals swept; every later append keeps it.\<close>

definition sound_log :: "startup_env \<Rightarrow> startup_state \<Rightarrow> bool" where
  "sound_log E w \<longleftrightarrow> audit_verify (ev_sha E) (ev_dumps E) (wd_log w)"

definition swept_svc :: "instant \<Rightarrow> startup_state \<Rightarrow> bool" where
  "swept_svc now w \<longleftrightarrow> (\<forall>t \<in> snd ` set (as_tokens (wd_svc w)). \<not> is_stale now t)"

lemma ready_log:
  assumes "sound_log E w \<and> P (wd_modes w) (wd_svc w)"
  shows "wp (log_append E actor action otype oid before after corr now)
    (\<lambda>_ w'. sound_log E w' \<and> P (wd_modes w') (wd_svc w')) (\<lambda>_ _. True) w"
  by (rule wp_log) (use assms in \<open>auto simp: sound_log_def\<close>)

lemma swept_after_sweep: "swept_svc now (w\<lparr>wd_svc := fst (sweep_expired (wd_svc w) now)\<rparr>)"
  by (auto simp: swept_svc_def sweep_expired_def Let_def is_stale_def split: if_splits)

lemma ready_finish:
  assumes "wd_modes w = ms"
  shows "wp (finish_startup E (ms_current ms) target warning reconciled now)
    (\<lambda>r w'. sr_mode r = target \<and> sr_reconciled r = reconciled \<and> ms_current (wd_modes w') = Some target
      \<and> sound_log E w' \<and> swept_svc now w') (\<lambda>_ _. True) w"
proof -
  let ?T = "\<lambda>_ _. True"
  let ?S = "\<lambda>_ w'. sound_log E w' \<and> (wd_modes w' = ms \<and> (\<forall>t \<in> snd ` set (as_tokens (wd_svc w')). \<not> is_stale now t))"
  let ?F = "\<lambda>_ w'. sound_log E w' \<and> (ms_current (wd_modes w') = Some target \<and> (\<forall>t \<in> snd ` set (as_tokens (wd_svc w')). \<not> is_stale now t))"
  have chain: "wp (check_chain E (ms_current ms) reason now) (\<lambda>_ w'. sound_log E w' \<and> wd_modes w' = ms) ?T w" for reason
    unfolding check_chain_def wp_simps using assms by (auto simp: sound_log_def)
  have sweep: "wp (sweep_approvals E now) ?S ?T w'" if "sound_log E w' \<and> wd_modes w' = ms" for w'
  proof -
    let ?w = "w'\<lparr>wd_svc := fst (sweep_expired (wd_svc w') now)\<rparr>"
    have "?S () ?w" using that swept_after_sweep [of now w'] by (simp add: sound_log_def swept_svc_def)
    then have "wp (forW (\<lambda>tok. log_append E ''system'' ''approval_expired'' ''approval_token'' (at_token_id tok)
         (JObj [(KStr ''expires_at'', JStr (ev_iso E (at_expires_at tok)))])
         (JObj [(KStr ''swept_at'', opt_str (map_option (ev_iso E) (at_swept_at tok)))])
         (ev_correlation E) now) toks) ?S ?T ?w" for toks
      by (rule wp_for) (rule ready_log)
    then show ?thesis
      unfolding sweep_approvals_def wp_bind [of "getW _"] wp_bind [of "modifyW _"] wp_get wp_modify
      by (rule wp_seq) (simp add: wp_simps)
  qed
  have warn: "wp (case warning of None \<Rightarrow> retW [] | Some c \<Rightarrow>
       bindW (log_append E ''system'' ''calendar_warning'' ''calendar'' ''market_calendar'' JNull
                (JObj [(KStr ''warning'', JStr (ev_warning E c))]) (ev_correlation E) now) (\<lambda>_.
       retW [ev_warning E c])) ?S ?T w'" if "?S () w'" for w'
  proof (cases warning)
    case (Some c)
    show ?thesis unfolding Some option.case by (rule wp_seq [OF ready_log], rule that) (simp add: wp_simps)
  qed (use that in \<open>simp add: wp_simps\<close>)
  have change: "wp (whenW (Some target \<noteq> ms_current ms)
      (transition E ''system'' None (ev_correlation E) (ms_current ms) target now)) ?F ?T w'" if "?S () w'" for w'
  proof -
    have "wp (mode_write E target now None pf) ?F ?T w'" for pf
      by (rule wp_mode_write) (use that in \<open>auto simp: ms_current_def sound_log_def\<close>)
    then have "wp (transition E ''system'' None (ev_correlation E) (ms_current ms) target now) ?F ?T w'"
      unfolding transition_def Let_def by (rule wp_seq) (rule ready_log)
    then show ?thesis using that by (auto simp: wp_when)
  qed
  show ?thesis
    unfolding finish_startup_def
    by (rule wp_seq [OF chain], rule wp_seq [OF sweep], assumption, rule wp_seq [OF warn], assumption,
        rule wp_seq [OF change], assumption, rule wp_seq [OF ready_log], assumption)
      (simp add: wp_simps swept_svc_def)
qed

lemma ready_accounts:
  assumes d: "session_for_instant (Aware now) = Inr d"
  shows "wp (reconcile_accounts E accounts now)
    (\<lambda>r w'. wd_modes w' = wd_modes w \<and> r = map rc_account accounts
      \<and> (\<forall>a \<in> set accounts. account_checks d a = Inr ())) (\<lambda>_ _. True) w"
proof -
  let ?f = "\<lambda>a. bindW (liftW (account_checks d a)) (\<lambda>_.
       bindW (log_append E ''system'' ''reconcile_account'' ''account'' (rc_account a) JNull
                (reconcile_row E d a) (ev_correlation E) now) (\<lambda>_.
       retW (rc_account a)))"
  have "wp (forW ?f accounts) (\<lambda>r w'. wd_modes w' = ms \<and> r = map rc_account accounts
      \<and> (\<forall>a \<in> set accounts. account_checks d a = Inr ())) (\<lambda>_ _. True) w" if "wd_modes w = ms" for w ms
    using that
  proof (induction accounts arbitrary: w)
    case (Cons a accounts)
    have "wp (?f a) (\<lambda>r w'. wd_modes w' = ms \<and> r = rc_account a \<and> account_checks d a = Inr ()) (\<lambda>_ _. True) w"
      using Cons.prems by (cases "account_checks d a") (auto simp: wp_simps intro!: wp_log)
    then show ?case unfolding forW.simps
      by (rule wp_seq) (rule wp_seq, rule Cons.IH, auto simp: wp_simps)
  qed (simp add: wp_simps)
  from this [OF refl] show ?thesis
    unfolding reconcile_accounts_def wp_bind [of "liftW _"] d wp_lift sum.case .
qed

lemma ready_startup:
  assumes "session_for_instant (Aware now) = Inr d"
  shows "wp (run_startup E target confirmed accounts now) (\<lambda>r w'. sr_mode r = target \<and> ms_current (wd_modes w') = Some target
      \<and> assert_legal_startup (ms_current (wd_modes w)) target confirmed
          (if ms_current (wd_modes w) = Some ''PAUSED'' then ms_paused_from (wd_modes w) else None) = Inr ()
      \<and> (accounts = [] \<or> exercises_calendar target) \<and> (\<forall>a \<in> set accounts. account_checks d a = Inr ())
      \<and> sr_reconciled r = map rc_account accounts \<and> sound_log E w' \<and> swept_svc now w') (\<lambda>_ _. True) w"
proof -
  define ms where "ms = wd_modes w"
  let ?T = "\<lambda>_ _. True" and ?pf = "if ms_current ms = Some ''PAUSED'' then ms_paused_from ms else None"
  have halting: "wp (halting E (ms_current ms) now catches m) Q ?T w'" if "wp m Q ?T w'" for m :: "'b act" and Q w' catches
    unfolding halting_def wp_on_error using that by (rule wp_mono) simp_all
  have lift: "wp (liftW r) (\<lambda>x w'. Inr x = r \<and> wd_modes w' = ms) ?T w'" if "wd_modes w' = ms" for r :: "'b result" and w'
    using that by (simp add: wp_simps split: sum.split)
  have refuse: "wp (whenW (accounts \<noteq> [] \<and> \<not> exercises_calendar target)
      (bindW (halt E (ms_current ms) reason now) (\<lambda>_. raiseW AccountsNotExpectedForMode)))
      (\<lambda>_ w'. wd_modes w' = ms \<and> (accounts = [] \<or> exercises_calendar target)) ?T w'" if "wd_modes w' = ms" for w' reason
    using that by (auto simp: wp_simps)
  have accounts: "wp (reconcile_accounts E accounts now) (\<lambda>r w'. wd_modes w' = ms
      \<and> r = map rc_account accounts \<and> (\<forall>a \<in> set accounts. account_checks d a = Inr ())) ?T w'"
    if "wd_modes w' = ms" for w'
    using ready_accounts [OF assms, of E accounts w'] that by simp
  have catch_up: "wp (reconcile_mode_persistence E (ev_correlation E) now) (\<lambda>persisted w'. persisted = ms_current ms \<and> wd_modes w' = ms) ?T w"
    by (rule wp_mono [OF catch_up_result [OF ms_def [symmetric]]]) simp_all
  let ?Q = "\<lambda>r w'. sr_mode r = target \<and> ms_current (wd_modes w') = Some target
      \<and> assert_legal_startup (ms_current ms) target confirmed ?pf = Inr ()
      \<and> (accounts = [] \<or> exercises_calendar target) \<and> (\<forall>a \<in> set accounts. account_checks d a = Inr ())
      \<and> sr_reconciled r = map rc_account accounts \<and> sound_log E w' \<and> swept_svc now w'"
  have main: "wp (bindW (pause_origin (ms_current ms)) (\<lambda>paused_from.
     bindW (halting E (ms_current ms) now is_mode_error
              (liftW (assert_legal_startup (ms_current ms) target confirmed paused_from))) (\<lambda>_.
     bindW (whenW (accounts \<noteq> [] \<and> \<not> exercises_calendar target)
              (bindW (halt E (ms_current ms) (ev_message E AccountsNotExpectedForMode) now) (\<lambda>_.
               raiseW AccountsNotExpectedForMode))) (\<lambda>_.
     bindW (halting E (ms_current ms) now (\<lambda>e. e = CalendarExpiryError)
              (liftW (assert_calendar_coverage_at_startup target d))) (\<lambda>warning.
     bindW (halting E (ms_current ms) now halts_reconcile (reconcile_accounts E accounts now)) (\<lambda>reconciled.
     finish_startup E (ms_current ms) target warning reconciled now)))))) ?Q ?T w'"
    if k: "wd_modes w' = ms" for w'
    unfolding pause_origin_def wp_bind [of "getW _"] wp_get k
    by (rule wp_seq [OF halting [OF lift]], rule k, elim conjE, rule wp_seq [OF refuse], assumption, elim conjE,
        rule wp_seq [OF halting [OF lift]], assumption, elim conjE, rule wp_seq [OF halting [OF accounts]], assumption,
        elim conjE, rule wp_mono [OF ready_finish], assumption) simp_all
  have "wp (run_startup E target confirmed accounts now) ?Q ?T w"
    unfolding run_startup_def wp_bind [of "liftW _"] wp_lift assms sum.case
    by (rule wp_seq [OF catch_up]) (erule conjE, simp only: main)
  then show ?thesis unfolding ms_def .
qed

subsection \<open>Invariants of the mode runs\<close>

lemma step_climbed:
  assumes "climbed (wd_modes w)"
  shows "climbed (wd_modes (mode_step E op w))"
    and "\<not> confirmed_start op \<Longrightarrow> was_live (wd_modes (mode_step E op w)) \<longrightarrow> was_live (wd_modes w)"
proof -
  have start: "one_change confirmed (wd_modes w) (wd_modes (fst (run_startup E target confirmed accounts now (w\<lparr>wd_disk := disk\<rparr>))))"
    for target confirmed accounts now disk
    using startup_one_change [of E target confirmed accounts now "w\<lparr>wd_disk := disk\<rparr>"]
    by (auto simp: wp_def split: prod.splits sum.splits)
  have advance: "safe_change confirmed (wd_modes w) (wd_modes (fst (advance_mode E target confirmed now (w\<lparr>wd_disk := disk\<rparr>))))"
    for target confirmed now disk
    using advance_safe_change [of confirmed "w\<lparr>wd_disk := disk\<rparr>" E target now] by simp
  have advance': "one_change confirmed (wd_modes w) (wd_modes (fst (advance_mode E target confirmed now (w\<lparr>wd_disk := disk\<rparr>))))"
    "was_live (wd_modes (fst (advance_mode E target confirmed now (w\<lparr>wd_disk := disk\<rparr>)))) \<Longrightarrow> was_live (wd_modes w)"
    for target confirmed now disk
    using advance unfolding safe_change_def by blast+
  show "climbed (wd_modes (mode_step E op w))"
  proof (cases op)
    case (Start target confirmed accounts now disk)
    show ?thesis unfolding mode_step_def Start mode_op.case by (rule climbed_change [OF start assms])
  next
    case (Advance target confirmed now disk)
    show ?thesis unfolding mode_step_def Advance mode_op.case by (rule climbed_change [OF advance'(1) assms])
  qed
  show "was_live (wd_modes (mode_step E op w)) \<longrightarrow> was_live (wd_modes w)" if "\<not> confirmed_start op"
  proof (cases op)
    case (Start target confirmed accounts now disk)
    then have "\<not> confirmed" using that by (simp add: confirmed_start_def)
    then show ?thesis unfolding mode_step_def Start mode_op.case using unconfirmed_change [OF _ assms] start by (metis (full_types))
  next
    case (Advance target confirmed now disk)
    show ?thesis unfolding mode_step_def Advance mode_op.case using advance'(2) by blast
  qed
qed

lemma run_climbed: "climbed (wd_modes w) \<Longrightarrow> climbed (wd_modes (mode_run E ops w))"
  by (rule mode_run_invariant [where P = "\<lambda>w. climbed (wd_modes w)"]) (simp_all add: step_climbed)

lemma run_unconfirmed:
  assumes "climbed (wd_modes w)" and "\<forall>op \<in> set ops. \<not> confirmed_start op" and "\<not> was_live (wd_modes w)"
  shows "\<not> was_live (wd_modes (mode_run E ops w))"
proof -
  have "climbed (wd_modes (mode_run E ops w)) \<and> \<not> was_live (wd_modes (mode_run E ops w))"
    by (rule mode_run_invariant [where P = "\<lambda>w. climbed (wd_modes w) \<and> \<not> was_live (wd_modes w)"])
      (use assms step_climbed in blast)+
  then show ?thesis by blast
qed

subsection \<open>Properties\<close>

text \<open>
C6: Live trading takes a climb and a confirmation: in any sequence of startups and operator commands on a fresh
  install, whatever they ask for and wherever writes break off, PRODUCTION\_ACTIVE is only ever the stored mode
  after RESEARCH and then PAPER were, and only if one of the startups was confirmed. Pausing in between opens no way
  round, and the operator's command never goes live.
\<close>
theorem live_only_by_confirmed_climb:
  assumes "ms_history (wd_modes w) = []" and "w' = mode_run E ops w"
    and "ms_current (wd_modes w') = Some ''PRODUCTION_ACTIVE''"
  shows "subseq [''RESEARCH'', ''PAPER'', ''PRODUCTION_ACTIVE''] (map mc_mode (ms_history (wd_modes w')))
    \<and> (\<exists>op \<in> set ops. confirmed_start op)"
proof
  have fresh: "climbed (wd_modes w)" "\<not> was_live (wd_modes w)"
    using assms(1) by (simp_all add: climbed_def operating_def rungs_chain was_live_def CHAIN_def)
  have h: "ms_history (wd_modes w') \<noteq> []" "mc_mode (last (ms_history (wd_modes w'))) = ''PRODUCTION_ACTIVE''"
    using assms(3) by (simp_all add: ms_current_def split: if_splits)
  then have "operating (ms_history (wd_modes w')) = ''PRODUCTION_ACTIVE''" by (simp add: operating_def)
  then show "subseq [''RESEARCH'', ''PAPER'', ''PRODUCTION_ACTIVE''] (map mc_mode (ms_history (wd_modes w')))"
    using run_climbed [OF fresh(1), of E ops] by (simp add: climbed_def assms(2) rungs_chain)
  have "was_live (wd_modes w')" using h by (metis imageI last_in_set was_live_def)
  then show "\<exists>op \<in> set ops. confirmed_start op" using run_unconfirmed [OF fresh(1) _ fresh(2), of ops E] assms(2) by blast
qed


text \<open>
  A completed start has checked everything: when run\_startup returns, the stored mode is the one asked for and the
  step to it was legal, every account agreed with its broker on day trades, positions, settled cash and open
  orders, the audit chain verifies with everything this run wrote, and no approval is left that has expired.
\<close>
theorem startup_ready_is_checked:
  assumes "run_startup E target confirmed accounts now w = (w', Inr r)"
    and "session_for_instant (Aware now) = Inr today"
  shows "sr_mode r = target \<and> ms_current (wd_modes w') = Some target
    \<and> assert_legal_startup (ms_current (wd_modes w)) target confirmed
        (if ms_current (wd_modes w) = Some ''PAUSED'' then ms_paused_from (wd_modes w) else None) = Inr ()
    \<and> (accounts = [] \<or> exercises_calendar target)
    \<and> (\<forall>a \<in> set accounts. account_checks today a = Inr ())
    \<and> sr_reconciled r = map rc_account accounts
    \<and> audit_verify (ev_sha E) (ev_dumps E) (wd_log w')
    \<and> (\<forall>t \<in> snd ` set (as_tokens (wd_svc w')). \<not> is_stale now t)"
  using wp_resultD [OF ready_startup [OF assms(2)] assms(1)] by (simp add: sound_log_def swept_svc_def)


subsection \<open>A fresh install\<close>

definition ex_env :: startup_env where
  "ex_env = \<lparr> ev_sha = (\<lambda>_. []), ev_dumps = (\<lambda>_. []), ev_audit_row = ae_action, ev_mode_row = mc_mode,
     ev_message = (\<lambda>_. ''refused''), ev_iso = (\<lambda>_. []), ev_iso_date = (\<lambda>_. []), ev_str = (\<lambda>_. []),
     ev_warning = (\<lambda>_. []), ev_correlation = None \<rparr>"

definition ex_install :: startup_state where
  "ex_install = \<lparr> wd_modes = fresh_modes, wd_log = fresh_log,
     wd_svc = \<lparr> as_expiration = 1, as_min_display = 0, as_max_per_day = 1, as_price_band_pct = 1, as_tokens = [] \<rparr>,
     wd_disk = [] \<rparr>"

definition ex_ops :: "mode_op list" where
  "ex_ops = [Start ''RESEARCH'' False [] 63900000000000000 [], Advance ''PAPER'' False 63900000000000001 [],
     Advance ''PAUSED'' False 63900000000000002 [None, Some ''mode''], Start ''PAPER'' False [] 63900000000000003 [],
     Start ''PRODUCTION_ACTIVE'' True [] 63900000000000004 []]"

lemma ex_ops_live:
  "ms_current (wd_modes (mode_run ex_env ex_ops ex_install)) = Some ''PRODUCTION_ACTIVE''"
  by code_simp

theorem live_only_by_confirmed_climb_witness:
  "subseq [''RESEARCH'', ''PAPER'', ''PRODUCTION_ACTIVE''] (map mc_mode (ms_history (wd_modes (mode_run ex_env ex_ops ex_install))))
    \<and> (\<exists>op \<in> set ex_ops. confirmed_start op)"
  by (rule live_only_by_confirmed_climb [OF _ refl ex_ops_live]) (simp add: ex_install_def fresh_modes_def)


definition ex_account :: account_reconciliation where
  "ex_account = \<lparr> rc_account = ''A1'', rc_guard = \<lparr> dt_account = ''A1'', dt_max = 3, dt_round_trips = [] \<rparr>,
     rc_broker_day_trades = None, rc_local_positions = [(''SPY'', 2)],
     rc_broker_positions = [\<lparr> po_account = ''A1'', po_symbol = ''SPY'', po_qty = 2, po_avg_price = 1, po_market_value = 2 \<rparr>],
     rc_local_settled_cash = 5,
     rc_broker_account = \<lparr> ac_account = ''A1'', ac_equity = 7, ac_cash = 5, ac_settled_cash = 5, ac_unsettled_cash = 0,
       ac_buying_power = 5, ac_multiplier = 1, ac_pattern_day_trader = None, ac_day_trade_count = None, ac_fetched_at = 0 \<rparr>,
     rc_local_open_orders = [], rc_broker_open_orders = [] \<rparr>"

definition ex_paper_install :: startup_state where
  "ex_paper_install = ex_install\<lparr>wd_modes := ms_run mc_mode [(''PAPER'', 5, None, None)] fresh_modes\<rparr>"

lemma ex_paper_start: "is_ok (snd (run_startup ex_env ''PAPER'' False [ex_account] 63900000000000000 ex_paper_install))"
  by code_simp

theorem startup_ready_is_checked_witness:
  "\<exists>today. account_checks today ex_account = Inr ()"
proof -
  let ?r = "run_startup ex_env ''PAPER'' False [ex_account] 63900000000000000 ex_paper_install"
  obtain r where "snd ?r = Inr r" using ex_paper_start by (auto simp: is_ok_iff)
  then have "?r = (fst ?r, Inr r)" by (metis prod.collapse)
  from startup_ready_is_checked [OF this session_for_instant.simps(2)] show ?thesis by auto
qed


end
