(* ===== verification/LedgerStore.thy ===== *)
theory LedgerStore
  imports LedgerCash Jsonl Effects Reconciliation
begin

text \<open>
  agent/ledger\_store.py: the durable record of one account's ledger. A store is a validating ledger whose
  opening cash is a placeholder, the opening balance and positions once they are seeded, and the text of
  its file. The row codec is \<open>enc\<close> and \<open>de\<close> (theory Jsonl); a file write may break off as in theory Startup:
  \<open>lst_disk\<close> holds the pieces of the writes to come, and a write completes when there is none.
\<close>

datatype store_row =
    OpeningBalance decimal instant
  | FillRow fill
  | OrderRow order_record
  | AdjustmentRow cash_adjustment
  | CorrectionRow balance_correction
  | OpeningPosition string decimal
  | UnknownRow

record ledger_store =
  lst_ledger :: ledger
  lst_opening :: "decimal option"
  lst_established :: "instant option"
  lst_positions :: "decimal dict"
  lst_file :: "string option"
  lst_disk :: "string option list"

type_synonym 'a ls_act = "(ledger_store, 'a) action"

subsection \<open>Writes\<close>

definition append_row :: "(store_row \<Rightarrow> string) \<Rightarrow> store_row \<Rightarrow> unit ls_act" where
  "append_row enc r = (\<lambda>s.
     let body = (case lst_file s of None \<Rightarrow> [] | Some b \<Rightarrow> b);
         rest = tl (lst_disk s)
     in case lst_disk s of
          Some piece # _ \<Rightarrow> (s\<lparr>lst_file := Some (body @ piece), lst_disk := rest\<rparr>, Inl OSError)
        | _ \<Rightarrow> (s\<lparr>lst_file := Some (write_row enc body r), lst_disk := rest\<rparr>, Inr ()))"

text \<open>Checking one call against the validating ledger, which keeps the record if it accepts it.\<close>

definition validate :: "(ledger \<Rightarrow> ledger result) \<Rightarrow> unit ls_act" where
  "validate f = (\<lambda>s. case f (lst_ledger s) of Inl e \<Rightarrow> (s, Inl e) | Inr l \<Rightarrow> (s\<lparr>lst_ledger := l\<rparr>, Inr ()))"

text \<open>The opening balance is written once: the same value again is a no-op, another one an error.\<close>

definition set_opening :: "(store_row \<Rightarrow> string) \<Rightarrow> decimal \<Rightarrow> instant \<Rightarrow> unit ls_act" where
  "set_opening enc amount t =
     bindW (getW lst_opening) (\<lambda>opening.
       case opening of
         Some o' \<Rightarrow> if o' = amount then retW () else raiseW LedgerStoreError
       | None \<Rightarrow>
           bindW (append_row enc (OpeningBalance amount t)) (\<lambda>_.
           modifyW (\<lambda>s. s\<lparr>lst_opening := Some amount, lst_established := Some t\<rparr>)))"

definition write_opening_balance :: "(store_row \<Rightarrow> string) \<Rightarrow> decimal \<Rightarrow> datetime \<Rightarrow> unit ls_act" where
  "write_opening_balance enc amount at_time =
     (case at_time of
        Naive _ \<Rightarrow> raiseW LedgerStoreError
      | Aware t \<Rightarrow>
          bindW (getW (\<lambda>s. lst_opening s = None \<and> le_fills (lst_ledger s) \<noteq> [])) (\<lambda>refuse.
          if refuse then raiseW LedgerStoreError else set_opening enc amount t))"

definition seed_opening_balance_from_broker ::
  "(store_row \<Rightarrow> string) \<Rightarrow> decimal \<Rightarrow> datetime \<Rightarrow> unit ls_act" where
  "seed_opening_balance_from_broker enc cash now =
     (case now of
        Naive _ \<Rightarrow> raiseW LedgerStoreError
      | Aware t \<Rightarrow>
          bindW (getW (\<lambda>s. settled_cash (lst_ledger s) t)) (\<lambda>r.
          bindW (liftW r) (\<lambda>effect.
          set_opening enc (dec (cash - effect)) t)))"

definition write_opening_positions :: "(store_row \<Rightarrow> string) \<Rightarrow> position list \<Rightarrow> unit ls_act" where
  "write_opening_positions enc ps =
     bindW (getW (\<lambda>s. le_account (lst_ledger s))) (\<lambda>acct.
     bindW (case List.find (\<lambda>p. po_account p \<noteq> acct) ps of
              Some p \<Rightarrow> raiseW (CrossAccountError acct (po_account p)) | None \<Rightarrow> retW ()) (\<lambda>_.
     let new_map = broker_by_symbol ps in
     bindW (getW (\<lambda>s. positions (lst_ledger s))) (\<lambda>r.
     bindW (liftW r) (\<lambda>derived.
     if \<exists>(sy, q) \<in> set derived. q \<noteq> 0 \<and> map_of new_map sy \<noteq> None then raiseW LedgerStoreError
     else bindW (getW lst_positions) (\<lambda>old.
       if old \<noteq> [] then (if dict_eq old new_map then retW () else raiseW LedgerStoreError)
       else
         bindW (forW (\<lambda>p. append_row enc (OpeningPosition (po_symbol p) (po_qty p))) ps) (\<lambda>_.
         modifyW (\<lambda>s. s\<lparr>lst_positions := new_map\<rparr>)))))))"

definition write_fill :: "(store_row \<Rightarrow> string) \<Rightarrow> fill \<Rightarrow> unit ls_act" where
  "write_fill enc f =
     bindW (getW (\<lambda>s. fi_fill_id f \<in> fi_fill_id ` set (le_fills (lst_ledger s)))) (\<lambda>already_known.
     bindW (validate (\<lambda>l. record_fill l f)) (\<lambda>_.
     if already_known then retW () else append_row enc (FillRow f)))"

definition write_order_record :: "(store_row \<Rightarrow> string) \<Rightarrow> order_record \<Rightarrow> unit ls_act" where
  "write_order_record enc r =
     bindW (validate (\<lambda>l. record_order_status l r)) (\<lambda>_. append_row enc (OrderRow r))"

definition write_cash_adjustment :: "(store_row \<Rightarrow> string) \<Rightarrow> cash_adjustment \<Rightarrow> unit ls_act" where
  "write_cash_adjustment enc a =
     bindW (getW (\<lambda>s. cj_adjustment_id a \<in> cj_adjustment_id ` set (le_adjustments (lst_ledger s)))) (\<lambda>already_known.
     bindW (validate (\<lambda>l. record_cash_adjustment l a)) (\<lambda>_.
     if already_known then retW () else append_row enc (AdjustmentRow a)))"

definition write_balance_correction :: "(store_row \<Rightarrow> string) \<Rightarrow> balance_correction \<Rightarrow> unit ls_act" where
  "write_balance_correction enc c =
     bindW (getW (\<lambda>s. bc_correction_id c \<in> bc_correction_id ` set (le_corrections (lst_ledger s)))) (\<lambda>already_known.
     bindW (validate (\<lambda>l. record_balance_correction l c)) (\<lambda>_.
     if already_known then retW () else append_row enc (CorrectionRow c)))"

definition ls_update :: "ledger_store \<Rightarrow> ledger_store result" where "ls_update s = Inl LedgerStoreError"
definition ls_delete :: "ledger_store \<Rightarrow> ledger_store result" where "ls_delete s = Inl LedgerStoreError"

subsection \<open>Reads\<close>

definition ls_records :: "ledger_store \<Rightarrow> decimal option \<times> fill list \<times> order_record list" where
  "ls_records s = (lst_opening s, le_fills (lst_ledger s), le_order_records (lst_ledger s))"

definition known_cash_adjustment_ids :: "ledger_store \<Rightarrow> string set" where
  "known_cash_adjustment_ids s = set (map cj_adjustment_id (le_adjustments (lst_ledger s)))"

definition known_balance_correction_ids :: "ledger_store \<Rightarrow> string set" where
  "known_balance_correction_ids s = set (map bc_correction_id (le_corrections (lst_ledger s)))"

definition ls_open_order_ids :: "ledger_store \<Rightarrow> string list" where
  "ls_open_order_ids s = open_order_ids (lst_ledger s)"

definition to_ledger :: "ledger_store \<Rightarrow> ledger result" where
  "to_ledger s =
     (let l = lst_ledger s in
      case lst_opening s of
        None \<Rightarrow> Inl LedgerStoreError
      | Some opening \<Rightarrow>
          from_records (le_account l) opening (le_registry l) (le_t_plus l) (le_policy l) (le_fills l)
            (le_order_records l) (le_adjustments l) (le_corrections l) (lst_positions s))"

subsection \<open>Load\<close>

definition ls_empty ::
  "string \<Rightarrow> hp_registry \<Rightarrow> int \<Rightarrow> lot_selection_policy \<Rightarrow> string option \<Rightarrow> ledger_store result" where
  "ls_empty acct reg t_plus policy file =
     bindE (make_ledger acct 0 reg t_plus policy []) (\<lambda>l.
       Inr \<lparr> lst_ledger = l, lst_opening = None, lst_established = None, lst_positions = [],
             lst_file = file, lst_disk = [] \<rparr>)"

definition apply_row :: "ledger_store \<Rightarrow> store_row \<Rightarrow> ledger_store result" where
  "apply_row s r = (case r of
     OpeningBalance amount t \<Rightarrow> Inr (s\<lparr>lst_opening := Some amount, lst_established := Some t\<rparr>)
   | FillRow f \<Rightarrow> bindE (record_fill (lst_ledger s) f) (\<lambda>l. Inr (s\<lparr>lst_ledger := l\<rparr>))
   | OrderRow q \<Rightarrow> bindE (record_order_status (lst_ledger s) q) (\<lambda>l. Inr (s\<lparr>lst_ledger := l\<rparr>))
   | AdjustmentRow a \<Rightarrow> bindE (record_cash_adjustment (lst_ledger s) a) (\<lambda>l. Inr (s\<lparr>lst_ledger := l\<rparr>))
   | CorrectionRow c \<Rightarrow> bindE (record_balance_correction (lst_ledger s) c) (\<lambda>l. Inr (s\<lparr>lst_ledger := l\<rparr>))
   | OpeningPosition sy q \<Rightarrow> Inr (s\<lparr>lst_positions := AList.update sy q (lst_positions s)\<rparr>)
   | UnknownRow \<Rightarrow> Inl LedgerStoreError)"

definition ls_load ::
  "(string \<Rightarrow> store_row result) \<Rightarrow> string \<Rightarrow> hp_registry \<Rightarrow> int \<Rightarrow> lot_selection_policy \<Rightarrow> string option
   \<Rightarrow> ledger_store result" where
  "ls_load de acct reg t_plus policy file =
     bindE (ls_empty acct reg t_plus policy file) (\<lambda>s.
       case file of
         None \<Rightarrow> Inr s
       | Some body \<Rightarrow> foldE (\<lambda>s line. bindE (de line) (apply_row s)) s (jsonl_lines body))"

text \<open>
  The narrow read of the opening instant: \<open>peek\<close> decodes a line and looks at its kind only, and gives the
  instant of an opening balance row.
\<close>

fun first_established :: "(string \<Rightarrow> instant option result) \<Rightarrow> string list \<Rightarrow> instant option result" where
  "first_established peek [] = Inr None"
| "first_established peek (l # ls) =
     bindE (peek l) (\<lambda>r. case r of Some t \<Rightarrow> Inr (Some t) | None \<Rightarrow> first_established peek ls)"

definition read_opening_established ::
  "(string \<Rightarrow> instant option result) \<Rightarrow> string option \<Rightarrow> instant option result" where
  "read_opening_established peek file =
     (case file of None \<Rightarrow> Inr None | Some body \<Rightarrow> first_established peek (jsonl_lines body))"

subsection \<open>Sequences of calls\<close>

datatype store_op =
    WOpening decimal datetime
  | WSeed decimal datetime
  | WPositions "position list"
  | WFill fill
  | WOrder order_record
  | WAdjustment cash_adjustment
  | WCorrection balance_correction

fun store_call :: "(store_row \<Rightarrow> string) \<Rightarrow> store_op \<Rightarrow> unit ls_act" where
  "store_call enc (WOpening amount t) = write_opening_balance enc amount t"
| "store_call enc (WSeed cash t) = seed_opening_balance_from_broker enc cash t"
| "store_call enc (WPositions ps) = write_opening_positions enc ps"
| "store_call enc (WFill f) = write_fill enc f"
| "store_call enc (WOrder r) = write_order_record enc r"
| "store_call enc (WAdjustment a) = write_cash_adjustment enc a"
| "store_call enc (WCorrection c) = write_balance_correction enc c"

definition store_run :: "(store_row \<Rightarrow> string) \<Rightarrow> store_op list \<Rightarrow> ledger_store \<Rightarrow> ledger_store" where
  "store_run enc ops s = fold (\<lambda>op s. fst (store_call enc op s)) ops s"

lemma store_run_invariant:
  assumes "P s" and "\<And>s op. P s \<Longrightarrow> P (fst (store_call enc op s))"
  shows "P (store_run enc ops s)"
  using assms(1) unfolding store_run_def by (induction ops arbitrary: s) (simp_all add: assms(2))

text \<open>The text of the file, and the store without it.\<close>

definition body :: "ledger_store \<Rightarrow> string" where
  "body s = (case lst_file s of None \<Rightarrow> [] | Some b \<Rightarrow> b)"

definition in_memory :: "ledger_store \<Rightarrow> ledger_store" where
  "in_memory s = s\<lparr>lst_file := None, lst_disk := []\<rparr>"

lemma wp_append_row:
  assumes "lst_disk s = []" and "Q () (s\<lparr>lst_file := Some (write_row enc (body s) r)\<rparr>)"
  shows "wp (append_row enc r) Q E s"
proof -
  have "append_row enc r s = (s\<lparr>lst_file := Some (write_row enc (body s) r)\<rparr>, Inr ())"
    using assms(1) by (cases s) (simp add: append_row_def body_def)
  with assms(2) show ?thesis by (simp add: wp_def)
qed

lemma wp_validate [wp_simps]:
  "wp (validate f) Q E s = (case f (lst_ledger s) of Inl e \<Rightarrow> E e s | Inr l \<Rightarrow> Q () (s\<lparr>lst_ledger := l\<rparr>))"
  by (simp add: wp_def validate_def split: sum.split)

text \<open>The file holds rows whose replay, from the empty store, is the store.\<close>

definition replays :: "(store_row \<Rightarrow> string) \<Rightarrow> ledger_store \<Rightarrow> ledger_store \<Rightarrow> bool" where
  "replays enc s0 s \<longleftrightarrow> lst_disk s = [] \<and> recorded (lst_ledger s) \<and> (lst_file s = None \<longrightarrow> in_memory s = in_memory s0)
     \<and> (\<exists>rows. body s = rows_text enc rows \<and> foldE apply_row (in_memory s0) rows = Inr (in_memory s))"

lemma replays_step:
  assumes "replays enc s0 s" and "apply_row (in_memory s) r = Inr (in_memory s')" and "lst_disk s' = []"
    and "recorded (lst_ledger s')" and "lst_file s' = Some (write_row enc (body s) r)"
  shows "replays enc s0 s'"
proof -
  obtain rows where rows: "body s = rows_text enc rows" "foldE apply_row (in_memory s0) rows = Inr (in_memory s)"
    using assms(1) by (auto simp: replays_def)
  have "body s' = rows_text enc (rows @ [r])" using assms(5) by (simp add: body_def rows(1) [unfolded body_def])
  moreover have "foldE apply_row (in_memory s0) (rows @ [r]) = Inr (in_memory s')"
    using rows(2) assms(2) by (simp add: foldE_append)
  ultimately show ?thesis using assms by (auto simp: replays_def)
qed

lemma replays_disk: "replays enc s0 s \<Longrightarrow> lst_disk s = []"
  by (simp add: replays_def)

lemma replays_recorded: "replays enc s0 s \<Longrightarrow> recorded (lst_ledger s)"
  by (simp add: replays_def)

text \<open>A call that only appends one row, whose replay is what the call did in memory.\<close>

lemma keeps_append:
  assumes s: "replays enc s0 s" and t: "lst_disk t = []" "body t = body s" "recorded (lst_ledger t)"
    and r: "apply_row (in_memory s) r = Inr (in_memory t)"
  shows "wp (append_row enc r) (\<lambda>_. replays enc s0) E t"
  by (rule wp_append_row [OF t(1)], rule replays_step [OF s])
    (use t r in \<open>simp_all add: in_memory_def\<close>)

lemma apply_record_rows:
  "record_fill (lst_ledger s) f = Inr l \<Longrightarrow> apply_row (in_memory s) (FillRow f) = Inr (in_memory (s\<lparr>lst_ledger := l\<rparr>))"
  "record_order_status (lst_ledger s) r = Inr l \<Longrightarrow> apply_row (in_memory s) (OrderRow r) = Inr (in_memory (s\<lparr>lst_ledger := l\<rparr>))"
  "record_cash_adjustment (lst_ledger s) a = Inr l \<Longrightarrow> apply_row (in_memory s) (AdjustmentRow a) = Inr (in_memory (s\<lparr>lst_ledger := l\<rparr>))"
  "record_balance_correction (lst_ledger s) c = Inr l \<Longrightarrow> apply_row (in_memory s) (CorrectionRow c) = Inr (in_memory (s\<lparr>lst_ledger := l\<rparr>))"
  by (simp_all add: apply_row_def in_memory_def)

text \<open>A validated record: refused, known and unchanged, or new and appended.\<close>

lemma keeps_validated:
  assumes s: "replays enc s0 s"
    and op: "\<And>l. f (lst_ledger s) = Inr l \<Longrightarrow> recorded l"
    and known: "\<And>l. f (lst_ledger s) = Inr l \<Longrightarrow> k (lst_ledger s) \<Longrightarrow> l = lst_ledger s"
    and row: "\<And>l. f (lst_ledger s) = Inr l \<Longrightarrow> apply_row (in_memory s) r = Inr (in_memory (s\<lparr>lst_ledger := l\<rparr>))"
  shows "wp (bindW (getW (\<lambda>s. k (lst_ledger s))) (\<lambda>already_known. bindW (validate f) (\<lambda>_.
     if already_known then retW () else append_row enc r))) (\<lambda>_. replays enc s0) (\<lambda>_. replays enc s0) s"
proof (cases "f (lst_ledger s)")
  case (Inl e)
  then show ?thesis using s by (simp add: wp_simps)
next
  case (Inr l)
  let ?t = "s\<lparr>lst_ledger := l\<rparr>"
  have "wp (append_row enc r) (\<lambda>_. replays enc s0) (\<lambda>_. replays enc s0) ?t"
    by (rule keeps_append [OF s]) (use replays_disk [OF s] op row Inr in \<open>simp_all add: body_def\<close>)
  moreover have "k (lst_ledger s) \<Longrightarrow> ?t = s" using known [OF Inr] by simp
  ultimately show ?thesis using s Inr by (simp add: wp_simps)
qed

lemma known_unchanged:
  assumes "recorded l"
  shows "record_fill l f = Inr l' \<Longrightarrow> fi_fill_id f \<in> fi_fill_id ` set (le_fills l) \<Longrightarrow> l' = l"
    and "record_cash_adjustment l a = Inr l' \<Longrightarrow> cj_adjustment_id a \<in> cj_adjustment_id ` set (le_adjustments l) \<Longrightarrow> l' = l"
    and "record_balance_correction l c = Inr l' \<Longrightarrow> bc_correction_id c \<in> bc_correction_id ` set (le_corrections l) \<Longrightarrow> l' = l"
  using assms fills.step [of l f l'] adjustments.step [of l a l'] corrections.step [of l c l']
  by (auto simp: recorded_def split: if_splits)

lemma keeps_set_opening: "replays enc s0 s \<Longrightarrow> wp (set_opening enc amount t) (\<lambda>_. replays enc s0) (\<lambda>_. replays enc s0) s"
proof -
  assume s: "replays enc s0 s"
  have "wp (append_row enc (OpeningBalance amount t))
      (\<lambda>_ s'. replays enc s0 (s'\<lparr>lst_opening := Some amount, lst_established := Some t\<rparr>)) (\<lambda>_. replays enc s0) s"
    by (rule wp_append_row [OF replays_disk [OF s]], rule replays_step [OF s])
      (use s in \<open>auto simp: replays_def apply_row_def in_memory_def\<close>)
  then show ?thesis unfolding set_opening_def using s by (simp add: wp_simps split: option.split)
qed

lemma keeps_positions: "replays enc s0 s \<Longrightarrow> wp (write_opening_positions enc ps) (\<lambda>_. replays enc s0) (\<lambda>_. replays enc s0) s"
proof -
  assume s: "replays enc s0 s"
  let ?row = "\<lambda>p. OpeningPosition (po_symbol p) (po_qty p)"
  let ?m = "\<lambda>ps. foldl (\<lambda>d p. AList.update (po_symbol p) (po_qty p) d) [] ps"
  have rows: "wp (forW (\<lambda>p. append_row enc (?row p)) ps) (\<lambda>_ s'. replays enc s0 (s'\<lparr>lst_positions := broker_by_symbol ps\<rparr>))
      (\<lambda>_. replays enc s0) s" if none: "lst_positions s = []"
  proof -
    define J :: "position list \<Rightarrow> ledger_store \<Rightarrow> bool" where "J seen s' \<longleftrightarrow> replays enc s0 (s'\<lparr>lst_positions := ?m seen\<rparr>) \<and> s'\<lparr>lst_file := None\<rparr> = s\<lparr>lst_file := None\<rparr>" for seen s'
    have start: "J [] s"
    proof -
      have "s\<lparr>lst_positions := []\<rparr> = s" using none by (cases s) simp
      with s show ?thesis by (simp add: J_def)
    qed
    have step: "wp (append_row enc (?row p)) (\<lambda>_. J (seen @ [p])) (\<lambda>_. replays enc s0) s'" if J: "J seen s'" for p :: position and seen s'
    proof (rule wp_append_row)
      from J have d: "replays enc s0 (s'\<lparr>lst_positions := ?m seen\<rparr>)" "s'\<lparr>lst_file := None\<rparr> = s\<lparr>lst_file := None\<rparr>"
        by (simp_all add: J_def)
      show "lst_disk s' = []" using replays_disk [OF d(1)] by simp
      have "replays enc s0 (s'\<lparr>lst_file := Some (write_row enc (body s') (?row p)), lst_positions := ?m (seen @ [p])\<rparr>)"
        by (rule replays_step [OF d(1), where r = "?row p"])
          (use d(1) in \<open>simp_all add: replays_def apply_row_def in_memory_def body_def\<close>)
      moreover have "s'\<lparr>lst_file := Some (write_row enc (body s') (?row p))\<rparr>\<lparr>lst_file := None\<rparr> = s\<lparr>lst_file := None\<rparr>"
        using d(2) by simp
      ultimately show "J (seen @ [p]) (s'\<lparr>lst_file := Some (write_row enc (body s') (?row p))\<rparr>)"
        by (simp add: J_def)
    qed
    have "wp (forW (\<lambda>p. append_row enc (?row p)) ps) (\<lambda>_. J (seen @ ps)) (\<lambda>_. replays enc s0) s'" if "J seen s'" for seen s'
      using that
    proof (induction ps arbitrary: seen s')
      case (Cons p ps)
      have "wp (append_row enc (?row p)) (\<lambda>_. wp (forW (\<lambda>p. append_row enc (?row p)) ps) (\<lambda>_. J ((seen @ [p]) @ ps)) (\<lambda>_. replays enc s0))
          (\<lambda>_. replays enc s0) s'"
        by (rule wp_mono [OF step [OF Cons.prems]]) (rule Cons.IH, assumption+)
      then show ?case by (simp add: wp_simps)
    qed (simp add: wp_simps)
    from this [OF start] show ?thesis by (rule wp_mono) (simp_all add: J_def broker_by_symbol_def)
  qed
  show ?thesis
    unfolding write_opening_positions_def Let_def using s rows
    by (simp add: wp_simps split: option.split sum.split)
qed

lemma keeps_call: "replays enc s0 s \<Longrightarrow> replays enc s0 (fst (store_call enc op s))"
proof -
  assume s: "replays enc s0 s"
  have rec: "recorded (lst_ledger s)" by (rule replays_recorded [OF s])
  have "wp (store_call enc op) (\<lambda>_. replays enc s0) (\<lambda>_. replays enc s0) s"
  proof (cases op)
    case (WOpening amount t)
    then show ?thesis using s keeps_set_opening [OF s]
      by (cases t) (simp_all add: write_opening_balance_def wp_simps)
  next
    case (WSeed cash t)
    then show ?thesis using s keeps_set_opening [OF s]
      by (cases t) (simp_all add: seed_opening_balance_from_broker_def wp_simps split: sum.split)
  next
    case (WPositions ps)
    then show ?thesis using keeps_positions [OF s] by simp
  next
    case (WFill f)
    show ?thesis unfolding WFill store_call.simps write_fill_def
      by (rule keeps_validated [OF s, where k = "\<lambda>l. fi_fill_id f \<in> fi_fill_id ` set (le_fills l)"])
        (use record_fill_recorded [OF rec] known_unchanged [OF rec] apply_record_rows in auto)
  next
    case (WOrder r)
    have "wp (bindW (getW (\<lambda>s. False)) (\<lambda>already_known. bindW (validate (\<lambda>l. record_order_status l r)) (\<lambda>_.
       if already_known then retW () else append_row enc (OrderRow r)))) (\<lambda>_. replays enc s0) (\<lambda>_. replays enc s0) s"
      by (rule keeps_validated [OF s, where k = "\<lambda>_. False"])
        (use ledger_apply_recorded [OF rec, of "RecordStatus r"] apply_record_rows in auto)
    then show ?thesis by (simp add: WOrder write_order_record_def wp_simps)
  next
    case (WAdjustment a)
    show ?thesis unfolding WAdjustment store_call.simps write_cash_adjustment_def
      by (rule keeps_validated [OF s, where k = "\<lambda>l. cj_adjustment_id a \<in> cj_adjustment_id ` set (le_adjustments l)"])
        (use ledger_apply_recorded [OF rec, of "RecordAdjustment a"] known_unchanged [OF rec] apply_record_rows in auto)
  next
    case (WCorrection c)
    show ?thesis unfolding WCorrection store_call.simps write_balance_correction_def
      by (rule keeps_validated [OF s, where k = "\<lambda>l. bc_correction_id c \<in> bc_correction_id ` set (le_corrections l)"])
        (use ledger_apply_recorded [OF rec, of "RecordCorrection c"] known_unchanged [OF rec] apply_record_rows in auto)
  qed
  then show ?thesis by (auto simp: wp_def split: prod.splits sum.splits)
qed

lemma keeps_run: "replays enc s0 s \<Longrightarrow> replays enc s0 (store_run enc ops s)"
  by (rule store_run_invariant) (auto intro: keeps_call)

end
