(* ===== verification/Journal.thy ===== *)
theory Journal
  imports Effects Jsonl "HOL-Library.Countable"
begin

text \<open>
  What the stores that keep an append-only JSONL file share: the text of the file with the writes to come,
  and an action on a part of a larger state. A write may break off, leaving a piece of the line and raising;
  \<open>jn_disk\<close> holds what becomes of the next writes, and a write completes when it is empty.
\<close>

record journal =
  jn_file :: "string option"
  jn_disk :: "string option list"

definition journal_text :: "journal \<Rightarrow> string" where
  "journal_text j = (case jn_file j of None \<Rightarrow> [] | Some b \<Rightarrow> b)"

definition journal_write :: "('r \<Rightarrow> string) \<Rightarrow> 'r \<Rightarrow> (journal, unit) action" where
  "journal_write enc r = (\<lambda>j.
     case jn_disk j of
       Some piece # rest \<Rightarrow> (\<lparr>jn_file = Some (journal_text j @ piece), jn_disk = rest\<rparr>, Inl OSError)
     | ds \<Rightarrow> (\<lparr>jn_file = Some (write_row enc (journal_text j) r), jn_disk = tl ds\<rparr>, Inr ()))"

definition on_part :: "('w \<Rightarrow> 's) \<Rightarrow> ('s \<Rightarrow> 'w \<Rightarrow> 'w) \<Rightarrow> ('s, 'a) action \<Rightarrow> ('w, 'a) action" where
  "on_part get put m = (\<lambda>w. case m (get w) of (s, r) \<Rightarrow> (put s w, r))"

lemma wp_part [wp_simps]: "wp (on_part get put m) Q E w = wp m (\<lambda>x s. Q x (put s w)) (\<lambda>e s. E e (put s w)) (get w)"
  by (simp add: wp_def on_part_def split: prod.split sum.split)

text \<open>A journal on which nothing breaks.\<close>

lemma journal_write_calm:
  assumes "jn_disk j = []"
  shows "journal_write enc r j = (\<lparr>jn_file = Some (write_row enc (journal_text j) r), jn_disk = []\<rparr>, Inr ())"
  using assms by (simp add: journal_write_def)

lemma journal_write_broken:
  assumes "jn_disk j = Some piece # rest"
  shows "journal_write enc r j = (\<lparr>jn_file = Some (journal_text j @ piece), jn_disk = rest\<rparr>, Inl OSError)"
  using assms by (simp add: journal_write_def)

lemma wp_journal_calm:
  "jn_disk j = [] \<Longrightarrow> wp (journal_write enc r) Q E j = Q () \<lparr>jn_file = Some (write_row enc (journal_text j) r), jn_disk = []\<rparr>"
  by (simp add: wp_def journal_write_calm)

text \<open>However it ends, the text only grows.\<close>

lemma journal_write_grows: "\<exists>rest. journal_text (fst (journal_write enc r j)) = journal_text j @ rest"
  by (auto simp: journal_write_def journal_text_def write_row_def split: list.split option.split)

text \<open>The rows a journal holds, when nothing broke: the state is what replaying them makes.\<close>

definition holds_rows :: "('r \<Rightarrow> string) \<Rightarrow> 'r list \<Rightarrow> journal \<Rightarrow> bool" where
  "holds_rows enc rows j \<longleftrightarrow> jn_disk j = [] \<and> journal_text j = rows_text enc rows \<and> (jn_file j = None \<longrightarrow> rows = [])"

lemma wp_journal_rows:
  assumes "holds_rows enc rows j" and "\<And>j'. holds_rows enc (rows @ [r]) j' \<Longrightarrow> Q () j'"
  shows "wp (journal_write enc r) Q E j"
  using assms by (simp add: holds_rows_def wp_journal_calm journal_text_def)

lemma journal_lines:
  assumes "holds_rows enc rows j" and "\<forall>r \<in> set rows. encodes enc de r"
  shows "jsonl_lines (journal_text j) = map enc rows"
  using jsonl_rows [OF assms(2), of "[]"] assms(1) by (simp add: holds_rows_def jsonl_lines_def)

text \<open>Replay of decoded lines.\<close>

lemma replay_lines:
  "\<forall>r \<in> set rows. encodes enc de r \<Longrightarrow>
   foldE (\<lambda>s line. bindE (de line) (f s)) s (map enc rows) = foldE f s rows"
proof (induction rows arbitrary: s)
  case (Cons r rows)
  then show ?case by (cases "f s r") (simp_all add: encodes_def)
qed simp

text \<open>Rows that can be counted have a codec that reads every row back.\<close>

lemma codec_exists:
  fixes f :: "'r \<Rightarrow> 'c :: countable"
  assumes "inj f"
  shows "\<exists>enc de. \<forall>r :: 'r. encodes enc de r"
proof -
  let ?n = "to_nat \<circ> f"
  have inj: "inj ?n" by (rule inj_compose [OF inj_to_nat assms])
  let ?enc = "\<lambda>r. replicate (Suc (?n r)) CHR ''a''" and ?de = "\<lambda>l. Inr (inv ?n (length l - 1)) :: 'r result"
  have "encodes ?enc ?de r" for r
    using inv_f_f [OF inj, of r] by (simp add: encodes_def blank_line_def is_space_def is_sep_def)
  then show ?thesis by blast
qed

subsection \<open>Stores that are replayed from their file\<close>

text \<open>
  What a store promises: each call, accepted or refused, adds to the file the rows whose replay does to the
  memory what the call did. Then the file of any sequence of calls replays to the memory it left.
\<close>

locale logged_store =
  fixes journal_of :: "'s \<Rightarrow> journal" and mem :: "'s \<Rightarrow> 'm" and enc :: "'r \<Rightarrow> string"
    and apply_row :: "'m \<Rightarrow> 'r \<Rightarrow> 'm result" and call :: "'o \<Rightarrow> 's \<Rightarrow> 's"
  assumes logged: "holds_rows enc rows (journal_of s) \<Longrightarrow>
    \<exists>new. holds_rows enc (rows @ new) (journal_of (call op s)) \<and> foldE apply_row (mem s) new = Inr (mem (call op s))"
begin

lemma run_logged:
  "holds_rows enc rows (journal_of s) \<Longrightarrow>
   \<exists>new. holds_rows enc (rows @ new) (journal_of (fold call ops s)) \<and> foldE apply_row (mem s) new = Inr (mem (fold call ops s))"
proof (induction ops arbitrary: s rows)
  case Nil
  then show ?case by (intro exI [of _ "[]"]) simp
next
  case (Cons op ops)
  obtain one where one: "holds_rows enc (rows @ one) (journal_of (call op s))"
    "foldE apply_row (mem s) one = Inr (mem (call op s))" using logged [OF Cons.prems] by blast
  obtain more where "holds_rows enc ((rows @ one) @ more) (journal_of (fold call ops (call op s)))"
    "foldE apply_row (mem (call op s)) more = Inr (mem (fold call ops (call op s)))" using Cons.IH [OF one(1)] by blast
  with one(2) show ?case by (intro exI [of _ "one @ more"]) (simp add: foldE_append)
qed

lemma reload:
  assumes "holds_rows enc [] (journal_of s0)"
  shows "\<exists>rows. holds_rows enc rows (journal_of (fold call ops s0)) \<and>
    ((\<forall>r \<in> set rows. encodes enc de r) \<longrightarrow>
      foldE (\<lambda>m line. bindE (de line) (apply_row m)) (mem s0) (jsonl_lines (journal_text (journal_of (fold call ops s0))))
        = Inr (mem (fold call ops s0)))"
proof -
  obtain rows where rows: "holds_rows enc rows (journal_of (fold call ops s0))"
    "foldE apply_row (mem s0) rows = Inr (mem (fold call ops s0))" using run_logged [OF assms] by auto
  have "foldE (\<lambda>m line. bindE (de line) (apply_row m)) (mem s0) (jsonl_lines (journal_text (journal_of (fold call ops s0))))
      = Inr (mem (fold call ops s0))" if "\<forall>r \<in> set rows. encodes enc de r"
    by (simp add: journal_lines [OF rows(1) that] replay_lines [OF that] rows(2))
  with rows(1) show ?thesis by blast
qed

end

end
