(* ===== verification/LedgerStoreProps.thy ===== *)
theory LedgerStoreProps
  imports LedgerStore Journal
begin

text \<open>
  The properties of agent/ledger\_store.py: what a restart reads back, that the opening balance is fixed once,
  that seeding it from the broker makes the derived cash agree with the broker, and two ways in which the file
  and the program part.
\<close>

subsection \<open>Load\<close>

lemma apply_row_file:
  "apply_row (s\<lparr>lst_file := x\<rparr>) r = (case apply_row s r of Inl e \<Rightarrow> Inl e | Inr t \<Rightarrow> Inr (t\<lparr>lst_file := x\<rparr>))"
  by (cases r) (simp_all add: apply_row_def bindE_def split: sum.split)

lemma apply_rows_file:
  "foldE apply_row s rows = Inr t \<Longrightarrow> foldE apply_row (s\<lparr>lst_file := x\<rparr>) rows = Inr (t\<lparr>lst_file := x\<rparr>)"
proof (induction rows arbitrary: s)
  case (Cons r rows)
  then obtain s1 where "apply_row s r = Inr s1" "foldE apply_row s1 rows = Inr t" by (auto simp: bindE_eq_Inr)
  with Cons.IH [of s1] show ?case by (simp add: apply_row_file)
qed simp

lemma load_lines:
  "\<forall>r \<in> set rows. encodes enc de r \<Longrightarrow>
   foldE (\<lambda>s line. bindE (de line) (apply_row s)) s (map enc rows) = foldE apply_row s rows"
proof (induction rows arbitrary: s)
  case (Cons r rows)
  then show ?case by (cases "apply_row s r") (simp_all add: encodes_def)
qed simp

lemma load_replayed:
  assumes s0: "ls_empty acct reg t_plus policy None = Inr s0" and s: "replays enc s0 s"
  shows "\<exists>rows. body s = rows_text enc rows \<and>
    ((\<forall>r \<in> set rows. encodes enc de r) \<longrightarrow> ls_load de acct reg t_plus policy (lst_file s) = Inr s)"
proof -
  obtain rows where rows: "body s = rows_text enc rows" "foldE apply_row (in_memory s0) rows = Inr (in_memory s)"
    using s by (auto simp: replays_def)
  have mem0: "in_memory s0 = s0" using s0 by (auto simp: ls_empty_def in_memory_def bindE_eq_Inr)
  have disk: "lst_disk s = []" by (rule replays_disk [OF s])
  have "ls_load de acct reg t_plus policy (lst_file s) = Inr s" if enc: "\<forall>r \<in> set rows. encodes enc de r"
  proof (cases "lst_file s")
    case None
    then have "in_memory s = in_memory s0" using s by (simp add: replays_def)
    then have "s = s0" using None disk mem0 by (cases s) (simp add: in_memory_def)
    then show ?thesis using s0 None by (simp add: ls_load_def)
  next
    case (Some b)
    have b: "b = rows_text enc rows" using rows(1) Some by (simp add: body_def)
    have lines: "jsonl_lines b = map enc rows" using jsonl_rows [OF enc, of "[]"] by (simp add: b jsonl_lines_def)
    have e: "ls_empty acct reg t_plus policy (Some b) = Inr (s0\<lparr>lst_file := Some b\<rparr>)"
      using s0 by (auto simp: ls_empty_def bindE_eq_Inr)
    have "foldE apply_row (s0\<lparr>lst_file := Some b\<rparr>) rows = Inr ((in_memory s)\<lparr>lst_file := Some b\<rparr>)"
      using apply_rows_file [OF rows(2)] by (simp add: mem0)
    moreover have "(in_memory s)\<lparr>lst_file := Some b\<rparr> = s" using disk Some by (cases s) (simp add: in_memory_def)
    ultimately show ?thesis by (simp add: ls_load_def e Some lines load_lines [OF enc])
  qed
  with rows(1) show ?thesis by blast
qed

subsection \<open>The opening balance\<close>

lemma append_keeps:
  assumes "\<And>s x d. P (s\<lparr>lst_file := x, lst_disk := d\<rparr>) = P s"
  shows "keeps P (append_row enc r)"
  using assms by (auto simp: keeps_def wp_def append_row_def Let_def split: list.split option.split)

lemma validate_keeps: "(\<And>s l. P (s\<lparr>lst_ledger := l\<rparr>) = P s) \<Longrightarrow> keeps P (validate f)"
  by (simp add: keeps_def wp_simps split: sum.split)

definition opened :: "decimal \<Rightarrow> instant option \<Rightarrow> ledger_store \<Rightarrow> bool" where
  "opened x t s \<longleftrightarrow> lst_opening s = Some x \<and> lst_established s = t"

lemma opened_append [intro]: "keeps (opened x t) (append_row enc r)"
  by (rule append_keeps) (simp add: opened_def)

lemma opened_validate [intro]: "keeps (opened x t) (validate f)"
  by (rule validate_keeps) (simp add: opened_def)

lemma opened_set_opening: "keeps (opened x t) (set_opening enc amount t')"
  by (simp add: keeps_def set_opening_def wp_simps opened_def)

lemma opened_positions: "keeps (opened x t) (write_opening_positions enc ps)"
proof -
  have "keeps (opened x t) (modifyW (\<lambda>s. s\<lparr>lst_positions := m\<rparr>))" for m
    by (simp add: keeps_def wp_simps opened_def)
  then show ?thesis
    unfolding write_opening_positions_def Let_def
    by (auto intro!: keeps_bind keeps_for keeps_ret keeps_raise keeps_get keeps_lift opened_append split: option.split)
qed

lemma opened_call: "keeps (opened x t) (store_call enc op)"
proof (cases op)
  case (WOpening amount u)
  then show ?thesis using opened_set_opening
    by (cases u) (auto simp: write_opening_balance_def intro!: keeps_bind)
next
  case (WSeed cash u)
  then show ?thesis using opened_set_opening
    by (cases u) (auto simp: seed_opening_balance_from_broker_def intro!: keeps_bind)
qed (auto simp: write_fill_def write_order_record_def write_cash_adjustment_def write_balance_correction_def
      opened_positions intro!: keeps_bind)

lemma opened_run: "opened x t s \<Longrightarrow> opened x t (store_run enc ops s)"
  by (rule store_run_invariant) (auto intro: keepsD [OF opened_call])

lemma to_ledger_negative: "lst_opening s = Some x \<Longrightarrow> x < 0 \<Longrightarrow> to_ledger s = Inl LedgerError"
  by (simp add: to_ledger_def from_records_def make_ledger_def Let_def)

lemma apply_row_placeholder:
  "apply_row s r = Inr t \<Longrightarrow> le_opening_cash (lst_ledger t) = le_opening_cash (lst_ledger s)"
  by (cases r) (auto simp: apply_row_def bindE_eq_Inr record_order_status_def record_cash_adjustment_def
      record_balance_correction_def split: if_splits elim: record_fill_cases)

lemma make_ledger_opening: "make_ledger acct opening reg t_plus policy ps = Inr l \<Longrightarrow> le_opening_cash l = opening"
  by (auto simp: make_ledger_def split: if_splits)

lemma fresh_replays:
  assumes "ls_empty acct reg t_plus policy None = Inr s0"
  shows "replays enc s0 s0" and "le_opening_cash (lst_ledger s0) = 0" and "lst_disk s0 = []"
proof -
  have mk: "make_ledger acct 0 reg t_plus policy [] = Inr (lst_ledger s0)" "lst_file s0 = None" "lst_disk s0 = []"
    using assms by (auto simp: ls_empty_def bindE_eq_Inr)
  then show "replays enc s0 s0"
    using make_ledger_recorded by (auto simp: replays_def body_def rows_text_def intro!: exI [of _ "[]"])
  show "le_opening_cash (lst_ledger s0) = 0" "lst_disk s0 = []" using mk make_ledger_opening by auto
qed

lemma run_placeholder:
  assumes "ls_empty acct reg t_plus policy None = Inr s0"
  shows "le_opening_cash (lst_ledger (store_run enc ops s0)) = 0"
proof -
  obtain rows where "foldE apply_row (in_memory s0) rows = Inr (in_memory (store_run enc ops s0))"
    using keeps_run [OF fresh_replays(1) [OF assms], of enc ops] by (auto simp: replays_def)
  then have "le_opening_cash (lst_ledger (in_memory (store_run enc ops s0))) = 0"
    by (rule foldE_invariant) (use fresh_replays(2) [OF assms] apply_row_placeholder in \<open>auto simp: in_memory_def\<close>)
  then show ?thesis by (simp add: in_memory_def)
qed

subsection \<open>The ledger rebuilt from a store\<close>

text \<open>Recording fills does not look at the opening state.\<close>

lemma record_fills_frame:
  assumes "le_account m = le_account l" and "le_registry m = le_registry l"
    and "le_fills m = le_fills l" and "le_fill_ids m = le_fill_ids l"
    and "foldE record_fill l fs = Inr l'"
  shows "foldE record_fill m fs = Inr (m\<lparr>le_fills := le_fills l', le_fill_ids := le_fill_ids l'\<rparr>)"
  using assms
proof (induction fs arbitrary: l m)
  case Nil
  then show ?case by (cases m) simp
next
  case (Cons f fs)
  obtain k where k: "record_fill l f = Inr k" "foldE record_fill k fs = Inr l'"
    using Cons.prems(5) by (auto simp: bindE_eq_Inr)
  let ?m = "m\<lparr>le_fills := le_fills k, le_fill_ids := le_fill_ids k\<rparr>"
  have m: "record_fill m f = Inr ?m" by (rule record_fill_frame [OF Cons.prems(1-4) k(1)])
  have fr: "le_account k = le_account l" "le_registry k = le_registry l"
    using record_fill_cases [OF k(1)] by fastforce+
  have "foldE record_fill ?m fs = Inr (?m\<lparr>le_fills := le_fills l', le_fill_ids := le_fill_ids l'\<rparr>)"
    by (rule Cons.IH [OF _ _ _ _ k(2)]) (use fr Cons.prems in simp_all)
  then show ?case by (simp add: m)
qed

definition seeded :: "ledger \<Rightarrow> decimal \<Rightarrow> decimal dict \<Rightarrow> ledger" where
  "seeded l opening ps = l\<lparr>le_opening_cash := opening, le_opening_positions := ps\<rparr>"

lemma seeded_recorded:
  assumes "recorded l" and "0 \<le> opening"
  shows "recorded (seeded l opening ps)"
proof -
  let ?m = "seeded l opening ps"
  have "foldE record_fill (blank l) (le_fills l) = Inr ((blank l)\<lparr>le_fills := le_fills l, le_fill_ids := le_fill_ids l\<rparr>)"
    using assms(1) by (simp add: recorded_def fills_recorded_def)
  from record_fills_frame [OF _ _ _ _ this, of "blank ?m"]
  have "foldE record_fill (blank ?m) (le_fills l) = Inr ((blank ?m)\<lparr>le_fills := le_fills l, le_fill_ids := le_fill_ids l\<rparr>)"
    by (simp add: blank_def seeded_def)
  then show ?thesis
    using assms by (simp add: recorded_def fills_recorded_def seeded_def ledger_ok_def fill_ok_def order_record_ok_def)
qed

lemma to_ledger_seeded:
  assumes "recorded (lst_ledger s)" and "lst_opening s = Some opening" and "0 \<le> opening"
  shows "to_ledger s = Inr (seeded (lst_ledger s) opening (lst_positions s))"
  using recorded_rebuild [OF seeded_recorded [OF assms(1,3), of "lst_positions s"]] assms(2)
  by (simp add: to_ledger_def rebuild_def seeded_def)

text \<open>Settled cash is defined for the one exactly when it is for the other, and the effect of the fills is the same.\<close>

lemma settle_defined:
  assumes "foldE (settle_fill l now) a fs = Inr r"
  shows "\<exists>r'. foldE (settle_fill (seeded l opening ps) now) a' fs = Inr r'"
  using assms
proof (induction fs arbitrary: a a')
  case (Cons f fs)
  then obtain b where b: "settle_fill l now a f = Inr b" "foldE (settle_fill l now) b fs = Inr r"
    by (auto simp: bindE_eq_Inr)
  have same: "fill_settles_at (seeded l opening ps) f = fill_settles_at l f"
    by (simp add: fill_settles_at_def seeded_def)
  obtain n where n: "cash_notional (fi_qty f) (fi_price f) = Inr n"
    using b(1) by (auto simp: settle_fill_def bindE_eq_Inr)
  have "\<exists>b'. settle_fill (seeded l opening ps) now a' f = Inr b'"
  proof (cases "is_buy f")
    case True
    then show ?thesis by (simp add: settle_fill_def n)
  next
    case False
    then obtain t where "fill_settles_at l f = Inr t" using b(1) by (auto simp: settle_fill_def n bindE_eq_Inr)
    with False show ?thesis by (simp add: settle_fill_def n same)
  qed
  then obtain b' where "settle_fill (seeded l opening ps) now a' f = Inr b'" by blast
  with Cons.IH [OF b(2), of b'] show ?case by simp
qed simp

lemma settled_effect_seeded: "settled_effect (seeded l opening ps) now = settled_effect l now"
  by (simp add: settled_effect_def has_settled_def fill_settles_at_def seeded_def fun_eq_iff)

definition turnover :: "ledger \<Rightarrow> decimal" where
  "turnover l = sum_list (map (\<lambda>f. \<bar>cash_value f\<bar>) (le_fills l))
     + sum_list (map (\<lambda>a. \<bar>cj_amount a\<bar>) (le_adjustments l)) + sum_list (map (\<lambda>c. \<bar>bc_amount c\<bar>) (le_corrections l))"

lemma seeded_settled_cash:
  assumes e: "settled_cash l now = Inr effect" and ex: "cash_exact l" and z: "le_opening_cash l = 0"
    and g: "on_grid 2 cash" and b: "\<bar>cash\<bar> + 2 * turnover l \<le> 10 ^ 26"
  shows "dec (cash - effect) = cash - effect" and "settled_cash (seeded l (cash - effect) ps) now = Inr cash"
proof -
  let ?S = "sum_list (map (settled_effect l now) (le_fills l))"
  let ?A = "sum_list (map cj_amount (le_adjustments l))" and ?C = "sum_list (map bc_amount (le_corrections l))"
  let ?m = "seeded l (cash - effect) ps"
  have eff: "effect = ?S + ?A + ?C" using settled_cash_exact [OF e ex] z by simp
  have "\<bar>?S\<bar> \<le> sum_list (map (\<lambda>f. \<bar>cash_value f\<bar>) (le_fills l))"
    using abs_sum_list [of "settled_effect l now" "le_fills l"]
      sum_list_mono [of "le_fills l" "\<lambda>f. \<bar>settled_effect l now f\<bar>" "\<lambda>f. \<bar>cash_value f\<bar>"] effects_abs(1)
    by (smt (verit) order_trans)
  then have bound: "\<bar>effect\<bar> \<le> turnover l"
    unfolding eff turnover_def using abs_sum_list [of cj_amount "le_adjustments l"] abs_sum_list [of bc_amount "le_corrections l"]
    by linarith
  have ge: "on_grid 2 effect"
    unfolding eff using ex effects_grid by (intro on_grid_add on_grid_sum_list) (auto simp: cash_exact_def)
  have gd: "on_grid 2 (cash - effect)" by (rule on_grid_diff [OF g ge])
  have bd: "\<bar>cash - effect\<bar> + turnover l \<le> 10 ^ 26" using b bound by linarith
  have nn: "0 \<le> turnover l" unfolding turnover_def by (intro add_nonneg_nonneg sum_list_abs_nonneg)
  show "dec (cash - effect) = cash - effect" by (rule dec_on_grid [OF gd]) (use bd nn in simp)
  have exm: "cash_exact ?m"
    using ex gd bd unfolding cash_exact_def seeded_def turnover_def by simp
  obtain t where "foldE (settle_fill l now) (le_opening_cash l) (le_fills l) = Inr t"
    using e by (auto simp: settled_cash_def bindE_eq_Inr)
  from settle_defined [OF this] obtain t' where "foldE (settle_fill ?m now) (cash - effect) (le_fills l) = Inr t'" by blast
  then obtain r where r: "settled_cash ?m now = Inr r" by (simp add: settled_cash_def seeded_def)
  have "r = (cash - effect) + ?S + ?A + ?C"
    using settled_cash_exact [OF r exm] by (simp only: settled_effect_seeded) (simp add: seeded_def)
  then show "settled_cash ?m now = Inr cash" using r eff by simp
qed

subsection \<open>Properties\<close>

text \<open>
C31: A restart reads the ledger back: after any sequence of writes to a new store, accepted or refused, the file is
  the text of a list of rows, and if the row codec reads those rows back, loading the file gives the same store,
  validating ledger, opening balance, opening positions and all.
\<close>
theorem ledger_store_reload:
  assumes "ls_empty acct reg t_plus policy None = Inr s0" and "s = store_run enc ops s0"
  shows "\<exists>rows. body s = rows_text enc rows \<and>
    ((\<forall>r \<in> set rows. encodes enc de r) \<longrightarrow> ls_load de acct reg t_plus policy (lst_file s) = Inr s)"
  unfolding assms(2) by (rule load_replayed [OF assms(1) keeps_run [OF fresh_replays(1) [OF assms(1)]]])

text \<open>
  The opening balance is fixed once: whatever is called afterwards, seeding attempts from later broker reads
  included, and wherever a write breaks off, the balance and the instant it was established stay what they are.
\<close>
theorem opening_balance_fixed:
  assumes "lst_opening s = Some opening"
  shows "lst_opening (store_run enc ops s) = Some opening \<and> lst_established (store_run enc ops s) = lst_established s"
proof -
  have "opened opening (lst_established s) s" using assms by (simp add: opened_def)
  then have "opened opening (lst_established s) (store_run enc ops s)" by (rule opened_run)
  then show ?thesis by (simp add: opened_def)
qed

text \<open>
C30: Seeding solves the ledger's own equation: when the opening balance is derived from the settled cash the broker
  reports, on a store that already holds fills, adjustments and corrections, the ledger rebuilt from the store
  derives exactly the broker's figure at that instant, so the first reconciliation agrees. The amounts are in cents
  and below 26 integer digits, and the fills' effect is not above the broker's figure.
\<close>
theorem seeding_matches_broker:
  assumes "ls_empty acct reg t_plus policy None = Inr s0" and "s = store_run enc ops s0" and "lst_opening s = None"
    and "settled_cash (lst_ledger s) now = Inr effect" and "effect \<le> cash" and "on_grid 2 cash"
    and "cash_exact (lst_ledger s)" and "\<bar>cash\<bar> + 2 * turnover (lst_ledger s) \<le> 10 ^ 26"
    and "seed_opening_balance_from_broker enc cash (Aware now) s = (s', Inr ())"
  shows "\<exists>l. to_ledger s' = Inr l \<and> settled_cash l now = Inr cash"
proof -
  have run: "replays enc s0 s" using keeps_run [OF fresh_replays(1) [OF assms(1)], of enc ops] by (simp add: assms(2))
  note rec = replays_recorded [OF run] and disk = replays_disk [OF run]
  have z: "le_opening_cash (lst_ledger s) = 0" using run_placeholder [OF assms(1)] by (simp add: assms(2))
  note cash = seeded_settled_cash [OF assms(4,7) z assms(6,8)]
  have "append_row enc (OpeningBalance (cash - effect) now) s
      = (s\<lparr>lst_file := Some (write_row enc (body s) (OpeningBalance (cash - effect) now))\<rparr>, Inr ())"
    using disk by (cases s) (simp add: append_row_def body_def)
  then have s': "lst_ledger s' = lst_ledger s" "lst_opening s' = Some (cash - effect)"
    using assms(9,3,4) cash(1)
    by (auto simp: seed_opening_balance_from_broker_def set_opening_def bindW_def getW_def liftW_def modifyW_def)
  have "to_ledger s' = Inr (seeded (lst_ledger s) (cash - effect) (lst_positions s'))"
    using to_ledger_seeded [of s' "cash - effect"] rec s' assms(5) by simp
  with cash(2) show ?thesis by blast
qed

text \<open>
  A fill whose row did not reach the file is lost for good: when the append breaks off, the validating ledger has
  already recorded the fill, so delivering it again reports success without writing anything, although every
  other store persists before it changes memory.
\<close>
theorem fill_lost_after_failed_write:
  assumes "record_fill (lst_ledger s) f = Inr l" and "f \<notin> set (le_fills (lst_ledger s))" and "ledger_ok (lst_ledger s)"
    and "lst_disk s = [Some piece]"
  shows "\<exists>s'. write_fill enc f s = (s', Inl OSError) \<and> body s' = body s @ piece
    \<and> write_fill enc f s' = (s', Inr ()) \<and> f \<in> set (le_fills (lst_ledger s'))"
proof -
  have new: "fi_fill_id f \<notin> fi_fill_id ` set (le_fills (lst_ledger s))" "le_fills l = le_fills (lst_ledger s) @ [f]" "ledger_ok l"
    using fills.step [OF assms(3,1)] assms(2) by auto
  let ?s = "s\<lparr>lst_ledger := l, lst_file := Some (body s @ piece), lst_disk := []\<rparr>"
  have one: "write_fill enc f s = (?s, Inl OSError)"
    using assms(1,4) new(1)
    by (cases s) (simp add: write_fill_def bindW_def getW_def validate_def append_row_def body_def)
  have "record_fill l f = Inr l" by (rule fills.replay [OF new(3)]) (simp add: new(2))
  then have two: "write_fill enc f ?s = (?s, Inr ())"
    using new(2) by (simp add: write_fill_def bindW_def getW_def validate_def retW_def)
  show ?thesis using one two new(2) by (intro exI [of _ ?s]) (simp add: body_def)
qed

text \<open>
  A negative opening balance poisons the store: it is accepted and written, although the module says nothing reaches
  the file that a ledger would reject, and from then on, whatever is written, no ledger can be rebuilt.
\<close>
theorem negative_opening_poisons_store:
  assumes "lst_opening s = None" and "le_fills (lst_ledger s) = []" and "lst_disk s = []" and "amount < 0"
  shows "\<exists>s'. write_opening_balance enc amount (Aware t) s = (s', Inr ())
    \<and> to_ledger (store_run enc ops s') = Inl LedgerError"
proof -
  let ?s = "s\<lparr>lst_file := Some (write_row enc (body s) (OpeningBalance amount t)), lst_opening := Some amount, lst_established := Some t\<rparr>"
  have "append_row enc (OpeningBalance amount t) s = (s\<lparr>lst_file := Some (write_row enc (body s) (OpeningBalance amount t))\<rparr>, Inr ())"
    using assms(3) by (cases s) (simp add: append_row_def body_def)
  then have "write_opening_balance enc amount (Aware t) s = (?s, Inr ())"
    using assms(1,2)
    by (simp add: write_opening_balance_def set_opening_def bindW_def getW_def modifyW_def)
  moreover have "opened amount (Some t) (store_run enc ops ?s)" by (rule opened_run) (simp add: opened_def)
  then have "to_ledger (store_run enc ops ?s) = Inl LedgerError"
    using to_ledger_negative assms(4) by (simp add: opened_def)
  ultimately show ?thesis by blast
qed

subsection \<open>A store\<close>

text \<open>Rows are countable, so there is a codec that reads every row back.\<close>

fun row_code :: "store_row \<Rightarrow> nat \<times> rat list \<times> int list \<times> string list \<times> string option list" where
  "row_code (OpeningBalance a t) = (0, [a], [t], [], [])"
| "row_code (FillRow f) = (1, [fi_qty f, fi_price f], [fi_filled_at f],
     [fi_fill_id f, fi_account f, fi_symbol f, fi_side f, fi_lot_id f], [fi_policy_version f])"
| "row_code (OrderRow r) = (2, [], [or_at r], [or_client_order_id r, or_account r, or_status r], [or_lot_id r, or_policy_version r])"
| "row_code (AdjustmentRow a) = (3, [cj_amount a], [cj_effective_date a],
     [cj_adjustment_id a, cj_account a, cj_activity_type a, cj_description a], [cj_symbol a])"
| "row_code (CorrectionRow c) = (4, [bc_amount c], [bc_corrects_at c, bc_recorded_at c],
     [bc_correction_id c, bcn_account c, bc_reason c], [])"
| "row_code (OpeningPosition sy q) = (5, [q], [], [sy], [])"
| "row_code UnknownRow = (6, [], [], [], [])"

lemma row_code_inj: "inj row_code"
proof (rule injI)
  fix r r' :: store_row
  assume "row_code r = row_code r'"
  then show "r = r'" by (cases r; cases r') auto
qed

lemma row_codec: "\<exists>enc de. \<forall>r :: store_row. encodes enc de r"
  by (rule codec_exists [OF row_code_inj])

definition ex_store0 :: ledger_store where
  "ex_store0 = \<lparr> lst_ledger = ex_ledger0\<lparr>le_opening_cash := 0\<rparr>, lst_opening = None, lst_established = None,
     lst_positions = [], lst_file = None, lst_disk = [] \<rparr>"

lemma ex_store0_made: "ls_empty ''a'' ex_registry 1 ALPACA_DEFAULT_POLICY None = Inr ex_store0"
  by (simp add: ls_empty_def make_ledger_def ex_store0_def ex_ledger0_def)

definition ex_writes :: "store_op list" where
  "ex_writes = [WFill (ex_fill ''f1'' ''L1'' ''BUY'' 3 1 5), WFill (ex_fill ''f2'' ''L1'' ''SELL'' 2 1 6)]"

definition ex_row :: "store_row \<Rightarrow> string" where "ex_row r = ''r''"

lemma write_new_fill:
  assumes "record_fill (lst_ledger s) f = Inr l" and "lst_disk s = []" and "fi_fill_id f \<notin> fi_fill_id ` set (le_fills (lst_ledger s))"
  shows "fst (write_fill enc f s) = s\<lparr>lst_ledger := l, lst_file := Some (write_row enc (body s) (FillRow f))\<rparr>"
  using assms
  by (cases s) (simp add: write_fill_def bindW_def getW_def validate_def append_row_def body_def)

lemma ex_recorded:
  "record_fill (ex_ledger0\<lparr>le_opening_cash := 0\<rparr>) (ex_fill ''f1'' ''L1'' ''BUY'' 3 1 5)
     = Inr (ex_ledger0\<lparr>le_opening_cash := 0, le_fills := [ex_fill ''f1'' ''L1'' ''BUY'' 3 1 5],
         le_fill_ids := [(''f1'', ex_fill ''f1'' ''L1'' ''BUY'' 3 1 5)]\<rparr>)"
  "record_fill (ex_ledger0\<lparr>le_opening_cash := 0, le_fills := [ex_fill ''f1'' ''L1'' ''BUY'' 3 1 5],
         le_fill_ids := [(''f1'', ex_fill ''f1'' ''L1'' ''BUY'' 3 1 5)]\<rparr>) (ex_fill ''f2'' ''L1'' ''SELL'' 2 1 6)
     = Inr (ex_ledger\<lparr>le_opening_cash := 0\<rparr>)"
  by (simp_all add: ex_ledger_def ex_ledger0_def ex_record_simps)

lemma ex_store_run:
  "store_run ex_row ex_writes ex_store0
     = ex_store0\<lparr>lst_ledger := ex_ledger\<lparr>le_opening_cash := 0\<rparr>,
         lst_file := lst_file (store_run ex_row ex_writes ex_store0)\<rparr>"
proof -
  let ?f1 = "ex_fill ''f1'' ''L1'' ''BUY'' 3 1 5" and ?f2 = "ex_fill ''f2'' ''L1'' ''SELL'' 2 1 6"
  let ?s1 = "fst (write_fill ex_row ?f1 ex_store0)"
  have s1: "?s1 = ex_store0\<lparr>lst_ledger := ex_ledger0\<lparr>le_opening_cash := 0, le_fills := [?f1], le_fill_ids := [(''f1'', ?f1)]\<rparr>,
      lst_file := Some (write_row ex_row (body ex_store0) (FillRow ?f1))\<rparr>"
    by (subst write_new_fill) (simp_all add: ex_store0_def ex_ledger0_def ex_recorded(1) [unfolded ex_ledger0_def, simplified])
  have "fst (write_fill ex_row ?f2 ?s1) = ?s1\<lparr>lst_ledger := ex_ledger\<lparr>le_opening_cash := 0\<rparr>,
      lst_file := Some (write_row ex_row (body ?s1) (FillRow ?f2))\<rparr>"
    by (rule write_new_fill, unfold s1) (simp_all add: ex_recorded(2) ex_store0_def ex_fill_fields)
  then show ?thesis by (simp add: store_run_def ex_writes_def s1)
qed

lemma ex_store_ledger:
  "lst_ledger (store_run ex_row ex_writes ex_store0) = ex_ledger\<lparr>le_opening_cash := 0\<rparr>"
  "lst_opening (store_run ex_row ex_writes ex_store0) = None"
  "lst_disk (store_run ex_row ex_writes ex_store0) = []"
  by (subst ex_store_run, simp add: ex_store0_def)+

theorem ledger_store_reload_witness:
  "\<exists>enc de. ls_load de ''a'' ex_registry 1 ALPACA_DEFAULT_POLICY (lst_file (store_run enc ex_writes ex_store0))
     = Inr (store_run enc ex_writes ex_store0)"
proof -
  obtain enc de where "\<forall>r :: store_row. encodes enc de r" using row_codec by blast
  with ledger_store_reload [OF ex_store0_made refl, of enc ex_writes de] show ?thesis by blast
qed

lemma ex_store_effect: "settled_cash (ex_ledger\<lparr>le_opening_cash := 0\<rparr>) (ex_at 6) = Inr (- 3)"
proof -
  have "dec (- 3) = - 3" using dec_grid [of "- 3" 0] by simp
  then show ?thesis
    using ex_before by (simp add: settled_cash_def settle_fill_def ex_cash_eval ex_fill_fields)
qed

lemma ex_store_exact: "cash_exact (ex_ledger\<lparr>le_opening_cash := 0\<rparr>)" "turnover (ex_ledger\<lparr>le_opening_cash := 0\<rparr>) = 5"
  by (simp_all add: cash_exact_def turnover_def cash_value_def ex_cash_eval ex_fill_fields)

lemma ex_seed:
  "\<exists>s'. seed_opening_balance_from_broker ex_row 97 (Aware (ex_at 6)) (store_run ex_row ex_writes ex_store0) = (s', Inr ())
     \<and> lst_opening s' = Some 100"
proof -
  let ?s = "store_run ex_row ex_writes ex_store0"
  have "append_row ex_row r ?s = (?s\<lparr>lst_file := Some (write_row ex_row (body ?s) r)\<rparr>, Inr ())" for r
    using ex_store_ledger(3) by (cases ?s) (simp add: append_row_def body_def)
  moreover have "dec (97 - (- 3)) = 100" by (simp add: dec_numeral)
  ultimately show ?thesis
    using ex_store_ledger ex_store_effect
    by (simp add: seed_opening_balance_from_broker_def set_opening_def bindW_def getW_def liftW_def modifyW_def)
qed

theorem seeding_matches_broker_witness:
  "\<exists>s' l. lst_opening s' = Some 100 \<and> to_ledger s' = Inr l \<and> settled_cash l (ex_at 6) = Inr 97"
proof -
  obtain s' where s': "seed_opening_balance_from_broker ex_row 97 (Aware (ex_at 6)) (store_run ex_row ex_writes ex_store0) = (s', Inr ())"
    "lst_opening s' = Some 100" using ex_seed by blast
  have "\<exists>l. to_ledger s' = Inr l \<and> settled_cash l (ex_at 6) = Inr 97"
    by (rule seeding_matches_broker [OF ex_store0_made refl ex_store_ledger(2) _ _ _ _ _ s'(1), where effect = "- 3"])
      (simp_all add: ex_store_ledger ex_store_effect ex_store_exact)
  with s'(2) show ?thesis by blast
qed

theorem opening_balance_fixed_witness:
  "lst_opening (store_run ex_row ex_writes (ex_store0\<lparr>lst_opening := Some 7\<rparr>)) = Some 7"
  using opening_balance_fixed [of "ex_store0\<lparr>lst_opening := Some 7\<rparr>" 7] by simp

theorem fill_lost_after_failed_write_witness:
  "\<exists>s'. write_fill ex_row (ex_fill ''f1'' ''L1'' ''BUY'' 3 1 5) (ex_store0\<lparr>lst_disk := [Some ''x'']\<rparr>) = (s', Inl OSError)
    \<and> write_fill ex_row (ex_fill ''f1'' ''L1'' ''BUY'' 3 1 5) s' = (s', Inr ())"
proof -
  let ?s = "ex_store0\<lparr>lst_disk := [Some ''x'']\<rparr>" and ?f = "ex_fill ''f1'' ''L1'' ''BUY'' 3 1 5"
  have "is_ok (record_fill (lst_ledger ?s) ?f)" by code_simp
  then obtain l where l: "record_fill (lst_ledger ?s) ?f = Inr l" by (auto simp: is_ok_iff)
  have "ledger_ok (lst_ledger ?s)" "?f \<notin> set (le_fills (lst_ledger ?s))"
    by (simp_all add: ex_store0_def ex_ledger0_def ledger_ok_def index_by_def)
  with fill_lost_after_failed_write [OF l, of "''x''" ex_row] show ?thesis by auto
qed

theorem negative_opening_poisons_store_witness:
  "\<exists>s'. write_opening_balance ex_row (- 5) (Aware 0) ex_store0 = (s', Inr ()) \<and> to_ledger (store_run ex_row ex_writes s') = Inl LedgerError"
  by (rule negative_opening_poisons_store) (simp_all add: ex_store0_def ex_ledger0_def)

end
