(* ===== verification/Quarantine.thy ===== *)
theory Quarantine
  imports Journal Broker
begin

text \<open>
  agent/cash\_event\_quarantine.py and agent/execution\_quarantine.py: what the broker reports and the program
  cannot place waits for one decision of the operator. The two stores have one shape, written once here over
  a description \<open>q_kind\<close> of what they keep, and then each store's own calls. The row codec is \<open>enc\<close> and
  \<open>de\<close> (theory Jsonl); rows that are synced to the disk and rows that are not are the same here.
\<close>

definition ADMITTED :: string where "ADMITTED = ''ADMITTED''"
definition REJECTED :: string where "REJECTED = ''REJECTED''"
definition PENDING :: string where "PENDING = ''PENDING''"

datatype ('q, 'r) q_row = QuarantinedRow 'q | ResolutionRow 'r | UnknownKind

record ('q, 'r) q_memory =
  qs_account :: string
  qs_items :: "'q dict"
  qs_resolutions :: "'r dict"

record ('q, 'r) q_store = "('q, 'r) q_memory" +
  qs_journal :: journal

record ('q, 'r) q_kind =
  qk_key :: "'q \<Rightarrow> string"
  qk_account :: "'q \<Rightarrow> string"
  qk_rkey :: "'r \<Rightarrow> string"
  qk_decision :: "'r \<Rightarrow> string"
  qk_valid :: "'q \<Rightarrow> 'r \<Rightarrow> bool"
  qk_error :: exn

type_synonym ('q, 'r, 'a) q_act = "(('q, 'r) q_store, 'a) action"

subsection \<open>Writes\<close>

definition q_append :: "(('q, 'r) q_row \<Rightarrow> string) \<Rightarrow> ('q, 'r) q_row \<Rightarrow> ('q, 'r, unit) q_act" where
  "q_append enc row = on_part qs_journal (\<lambda>j s. s\<lparr>qs_journal := j\<rparr>) (journal_write enc row)"

definition q_quarantine :: "('q, 'r) q_kind \<Rightarrow> (('q, 'r) q_row \<Rightarrow> string) \<Rightarrow> 'q \<Rightarrow> ('q, 'r, 'q) q_act" where
  "q_quarantine K enc record =
     bindW (getW qs_account) (\<lambda>acct.
     if qk_account K record \<noteq> acct then raiseW (CrossAccountError acct (qk_account K record))
     else bindW (getW (\<lambda>s. map_of (qs_items s) (qk_key K record))) (\<lambda>existing.
       case existing of
         Some q \<Rightarrow> retW q
       | None \<Rightarrow>
           bindW (q_append enc (QuarantinedRow record)) (\<lambda>_.
           bindW (modifyW (\<lambda>s. s\<lparr>qs_items := AList.update (qk_key K record) record (qs_items s)\<rparr>)) (\<lambda>_.
           retW record))))"

definition require_quarantined :: "('q, 'r) q_kind \<Rightarrow> string \<Rightarrow> ('q, 'r) q_memory \<Rightarrow> 'q result" where
  "require_quarantined K k m = (case map_of (qs_items m) k of None \<Rightarrow> Inl (qk_error K) | Some q \<Rightarrow> Inr q)"

definition q_require :: "('q, 'r) q_kind \<Rightarrow> string \<Rightarrow> ('q, 'r, 'q) q_act" where
  "q_require K k = bindW (getW (\<lambda>s. require_quarantined K k (q_memory.truncate s))) liftW"

definition record_resolution :: "('q, 'r) q_kind \<Rightarrow> (('q, 'r) q_row \<Rightarrow> string) \<Rightarrow> 'r \<Rightarrow> ('q, 'r, 'r) q_act" where
  "record_resolution K enc r =
     bindW (getW (\<lambda>s. map_of (qs_resolutions s) (qk_rkey K r))) (\<lambda>existing.
       case existing of
         Some e \<Rightarrow> if e = r then retW e else raiseW (qk_error K)
       | None \<Rightarrow>
           bindW (q_append enc (ResolutionRow r)) (\<lambda>_.
           bindW (modifyW (\<lambda>s. s\<lparr>qs_resolutions := AList.update (qk_rkey K r) r (qs_resolutions s)\<rparr>)) (\<lambda>_.
           retW r)))"

subsection \<open>Reads\<close>

definition q_status :: "('q, 'r) q_kind \<Rightarrow> string \<Rightarrow> ('q, 'r) q_memory \<Rightarrow> string option" where
  "q_status K k m =
     (if map_of (qs_items m) k = None then None
      else case map_of (qs_resolutions m) k of Some r \<Rightarrow> Some (qk_decision K r) | None \<Rightarrow> Some PENDING)"

definition resolution_for :: "string \<Rightarrow> ('q, 'r) q_memory \<Rightarrow> 'r option" where
  "resolution_for k m = map_of (qs_resolutions m) k"

definition q_pending :: "('q, 'r) q_memory \<Rightarrow> 'q list" where
  "q_pending m = map snd (filter (\<lambda>(k, _). map_of (qs_resolutions m) k = None) (qs_items m))"

definition pending_count :: "('q, 'r) q_memory \<Rightarrow> nat" where
  "pending_count m = length (q_pending m)"

definition q_contents :: "('q, 'r) q_memory \<Rightarrow> 'q list \<times> 'r list" where
  "q_contents m = (map snd (qs_items m), map snd (qs_resolutions m))"

definition q_forbidden :: "('q, 'r) q_kind \<Rightarrow> ('q, 'r) q_memory \<Rightarrow> ('q, 'r) q_memory result" where
  "q_forbidden K m = Inl (qk_error K)"

subsection \<open>Load\<close>

definition replay_quarantine :: "('q, 'r) q_kind \<Rightarrow> ('q, 'r) q_memory \<Rightarrow> 'q \<Rightarrow> ('q, 'r) q_memory result" where
  "replay_quarantine K m q =
     (if qk_account K q \<noteq> qs_account m then Inl (CrossAccountError (qs_account m) (qk_account K q))
      else if map_of (qs_items m) (qk_key K q) \<noteq> None then Inr m
      else Inr (m\<lparr>qs_items := AList.update (qk_key K q) q (qs_items m)\<rparr>))"

definition replay_resolution :: "('q, 'r) q_kind \<Rightarrow> ('q, 'r) q_memory \<Rightarrow> 'r \<Rightarrow> ('q, 'r) q_memory result" where
  "replay_resolution K m r =
     bindE (require_quarantined K (qk_rkey K r) m) (\<lambda>q.
     bindE (guardE (qk_valid K q r) (qk_error K)) (\<lambda>_.
     case map_of (qs_resolutions m) (qk_rkey K r) of
       Some e \<Rightarrow> if e = r then Inr m else Inl (qk_error K)
     | None \<Rightarrow> Inr (m\<lparr>qs_resolutions := AList.update (qk_rkey K r) r (qs_resolutions m)\<rparr>)))"

definition q_apply_row :: "('q, 'r) q_kind \<Rightarrow> ('q, 'r) q_memory \<Rightarrow> ('q, 'r) q_row \<Rightarrow> ('q, 'r) q_memory result" where
  "q_apply_row K m row = (case row of
     QuarantinedRow q \<Rightarrow> replay_quarantine K m q
   | ResolutionRow r \<Rightarrow>
       if qk_decision K r \<notin> {ADMITTED, REJECTED} then Inl (qk_error K) else replay_resolution K m r
   | UnknownKind \<Rightarrow> Inl (qk_error K))"

definition q_empty :: "string \<Rightarrow> ('q, 'r) q_memory" where
  "q_empty acct = \<lparr> qs_account = acct, qs_items = [], qs_resolutions = [] \<rparr>"

definition q_open :: "('q, 'r) q_memory \<Rightarrow> string option \<Rightarrow> ('q, 'r) q_store" where
  "q_open m file = q_memory.extend m (q_store.fields \<lparr> jn_file = file, jn_disk = [] \<rparr>)"

definition q_load ::
  "('q, 'r) q_kind \<Rightarrow> (string \<Rightarrow> ('q, 'r) q_row result) \<Rightarrow> string \<Rightarrow> string option \<Rightarrow> ('q, 'r) q_store result" where
  "q_load K de acct file =
     (case file of
        None \<Rightarrow> Inr (q_open (q_empty acct) None)
      | Some body \<Rightarrow>
          bindE (foldE (\<lambda>m line. bindE (de line) (q_apply_row K m)) (q_empty acct) (jsonl_lines body)) (\<lambda>m.
          Inr (q_open m file)))"

subsection \<open>Cash events\<close>

record quarantined_cash_event = account_activity +
  qc_reason :: string
  qc_quarantined_at :: instant

record cash_event_resolution =
  cr_activity_id :: string
  cr_account :: string
  cr_decision :: string
  cr_decided_by :: string
  cr_decided_at :: instant
  cr_notes :: "string option"

definition cash_kind :: "(quarantined_cash_event, cash_event_resolution) q_kind" where
  "cash_kind = \<lparr> qk_key = av_activity_id, qk_account = av_account, qk_rkey = cr_activity_id,
     qk_decision = cr_decision, qk_valid = (\<lambda>_ _. True), qk_error = CashEventQuarantineError \<rparr>"

type_synonym cash_row = "(quarantined_cash_event, cash_event_resolution) q_row"
type_synonym cash_quarantine = "(quarantined_cash_event, cash_event_resolution) q_store"

definition quarantined_cash :: "account_activity \<Rightarrow> string \<Rightarrow> instant \<Rightarrow> quarantined_cash_event" where
  "quarantined_cash act reason now = account_activity.extend act (quarantined_cash_event.fields reason now)"

definition cash_quarantine ::
  "(cash_row \<Rightarrow> string) \<Rightarrow> account_activity \<Rightarrow> string \<Rightarrow> instant \<Rightarrow> (cash_quarantine, quarantined_cash_event) action" where
  "cash_quarantine enc act reason now = q_quarantine cash_kind enc (quarantined_cash act reason now)"

definition cash_decide ::
  "(cash_row \<Rightarrow> string) \<Rightarrow> string \<Rightarrow> string \<Rightarrow> string \<Rightarrow> instant \<Rightarrow> string option
   \<Rightarrow> (cash_quarantine, cash_event_resolution) action" where
  "cash_decide enc decision k decided_by decided_at notes =
     bindW (q_require cash_kind k) (\<lambda>q.
     record_resolution cash_kind enc
       \<lparr> cr_activity_id = k, cr_account = av_account q, cr_decision = decision, cr_decided_by = decided_by,
         cr_decided_at = decided_at, cr_notes = notes \<rparr>)"

definition cash_admit ::
  "(cash_row \<Rightarrow> string) \<Rightarrow> string \<Rightarrow> string \<Rightarrow> instant \<Rightarrow> string option
   \<Rightarrow> (cash_quarantine, cash_event_resolution) action" where
  "cash_admit enc = cash_decide enc ADMITTED"

definition cash_reject ::
  "(cash_row \<Rightarrow> string) \<Rightarrow> string \<Rightarrow> string \<Rightarrow> instant \<Rightarrow> string option
   \<Rightarrow> (cash_quarantine, cash_event_resolution) action" where
  "cash_reject enc = cash_decide enc REJECTED"

text \<open>
  Why an admission must be refused, if it must: without a posting instant, or when the opening balance already
  contains it. \<open>fmt\<close> is \<open>isoformat\<close>, \<open>repr\<close> Python's representation of a string.
\<close>

definition refuse_admission_reason ::
  "(instant \<Rightarrow> string) \<Rightarrow> (string \<Rightarrow> string) \<Rightarrow> string \<Rightarrow> instant option \<Rightarrow> instant option \<Rightarrow> string option" where
  "refuse_admission_reason fmt repr k created_at established =
     (case created_at of
        None \<Rightarrow> Some (''cash event '' @ repr k @ '' has no created_at reported by the broker -- cannot verify whether ''
          @ ''its cash effect predates this account's ledger baseline. Refusing to admit rather than risk a silent ''
          @ ''double-count. Reject it instead.'')
      | Some c \<Rightarrow>
          (case established of
             None \<Rightarrow> None
           | Some t \<Rightarrow>
               if c \<le> t then Some (''cash event '' @ repr k @ '' (created_at='' @ fmt c
                 @ '') is at or before the opening balance's own establishment instant ('' @ fmt t
                 @ '') -- its cash effect is already reflected in the seeded baseline; admitting it would ''
                 @ ''double-count it. Reject it instead.'')
               else None))"

subsection \<open>Executions\<close>

record quarantined_execution =
  qx_execution_id :: string
  qx_account :: string
  qx_client_order_id :: string
  qx_symbol :: string
  qx_side :: string
  qx_qty :: decimal
  qx_price :: decimal
  qx_filled_at :: instant
  qx_reason :: string
  qx_quarantined_at :: instant

record execution_resolution =
  xr_execution_id :: string
  xr_account :: string
  xr_decision :: string
  xr_decided_by :: string
  xr_decided_at :: instant
  xr_lot_id :: "string option"
  xr_policy_version :: "string option"
  xr_notes :: "string option"

text \<open>An admission names the policy version of a BUY, or the lot of anything else, and nothing more.\<close>

definition admission_fields_ok :: "string \<Rightarrow> string option \<Rightarrow> string option \<Rightarrow> bool" where
  "admission_fields_ok side lid version =
     (if upper side = ''BUY'' then version \<noteq> None \<and> lid = None else lid \<noteq> None \<and> version = None)"

definition execution_kind :: "(quarantined_execution, execution_resolution) q_kind" where
  "execution_kind = \<lparr> qk_key = qx_execution_id, qk_account = qx_account, qk_rkey = xr_execution_id,
     qk_decision = xr_decision,
     qk_valid = (\<lambda>q r. xr_decision r = ADMITTED \<longrightarrow> admission_fields_ok (qx_side q) (xr_lot_id r) (xr_policy_version r)),
     qk_error = ExecutionQuarantineError \<rparr>"

type_synonym execution_row = "(quarantined_execution, execution_resolution) q_row"
type_synonym execution_quarantine = "(quarantined_execution, execution_resolution) q_store"

definition quarantined_exec :: "execution \<Rightarrow> string \<Rightarrow> instant \<Rightarrow> quarantined_execution" where
  "quarantined_exec x reason now =
     \<lparr> qx_execution_id = xe_execution_id x, qx_account = xe_account x, qx_client_order_id = xe_client_order_id x,
       qx_symbol = xe_symbol x, qx_side = xe_side x, qx_qty = xe_qty x, qx_price = xe_price x,
       qx_filled_at = xe_filled_at x, qx_reason = reason, qx_quarantined_at = now \<rparr>"

definition exec_quarantine ::
  "(execution_row \<Rightarrow> string) \<Rightarrow> execution \<Rightarrow> string \<Rightarrow> instant \<Rightarrow> (execution_quarantine, quarantined_execution) action" where
  "exec_quarantine enc x reason now = q_quarantine execution_kind enc (quarantined_exec x reason now)"

definition exec_admit ::
  "(execution_row \<Rightarrow> string) \<Rightarrow> string \<Rightarrow> string \<Rightarrow> instant \<Rightarrow> string option \<Rightarrow> string option \<Rightarrow> string option
   \<Rightarrow> (execution_quarantine, execution_resolution) action" where
  "exec_admit enc k decided_by decided_at lid version notes =
     bindW (q_require execution_kind k) (\<lambda>q.
     if \<not> admission_fields_ok (qx_side q) lid version then raiseW ExecutionQuarantineError
     else record_resolution execution_kind enc
       \<lparr> xr_execution_id = k, xr_account = qx_account q, xr_decision = ADMITTED, xr_decided_by = decided_by,
         xr_decided_at = decided_at, xr_lot_id = lid, xr_policy_version = version, xr_notes = notes \<rparr>)"

definition exec_reject ::
  "(execution_row \<Rightarrow> string) \<Rightarrow> string \<Rightarrow> string \<Rightarrow> instant \<Rightarrow> string option
   \<Rightarrow> (execution_quarantine, execution_resolution) action" where
  "exec_reject enc k decided_by decided_at notes =
     bindW (q_require execution_kind k) (\<lambda>q.
     record_resolution execution_kind enc
       \<lparr> xr_execution_id = k, xr_account = qx_account q, xr_decision = REJECTED, xr_decided_by = decided_by,
         xr_decided_at = decided_at, xr_lot_id = None, xr_policy_version = None, xr_notes = notes \<rparr>)"

subsection \<open>Sequences of calls\<close>

datatype ('q, 'r) q_op = Put 'q | Decide 'r

text \<open>
  The two writes every call comes down to: an item, and a decision on a quarantined item whose fields suit it.
\<close>

definition q_call :: "('q, 'r) q_kind \<Rightarrow> (('q, 'r) q_row \<Rightarrow> string) \<Rightarrow> ('q, 'r) q_op \<Rightarrow> ('q, 'r) q_store \<Rightarrow> ('q, 'r) q_store" where
  "q_call K enc op s = (case op of
     Put q \<Rightarrow> fst (q_quarantine K enc q s)
   | Decide r \<Rightarrow>
       if qk_decision K r \<in> {ADMITTED, REJECTED} \<and>
          (\<exists>q. map_of (qs_items s) (qk_rkey K r) = Some q \<and> qk_valid K q r)
       then fst (record_resolution K enc r s) else s)"

datatype cash_op =
    CashQuarantine account_activity string instant
  | CashAdmit string string instant "string option"
  | CashReject string string instant "string option"

fun cash_call :: "(cash_row \<Rightarrow> string) \<Rightarrow> cash_op \<Rightarrow> cash_quarantine \<Rightarrow> cash_quarantine" where
  "cash_call enc (CashQuarantine act reason now) s = fst (cash_quarantine enc act reason now s)"
| "cash_call enc (CashAdmit k by now notes) s = fst (cash_admit enc k by now notes s)"
| "cash_call enc (CashReject k by now notes) s = fst (cash_reject enc k by now notes s)"

datatype exec_op =
    ExecQuarantine execution string instant
  | ExecAdmit string string instant "string option" "string option" "string option"
  | ExecReject string string instant "string option"

fun exec_call :: "(execution_row \<Rightarrow> string) \<Rightarrow> exec_op \<Rightarrow> execution_quarantine \<Rightarrow> execution_quarantine" where
  "exec_call enc (ExecQuarantine x reason now) s = fst (exec_quarantine enc x reason now s)"
| "exec_call enc (ExecAdmit k by now lid version notes) s = fst (exec_admit enc k by now lid version notes s)"
| "exec_call enc (ExecReject k by now notes) s = fst (exec_reject enc k by now notes s)"

lemma q_decide_eq:
  "map_of (qs_items s) k = Some q \<Longrightarrow> q_require K k s = (s, Inr q)"
  "map_of (qs_items s) k = None \<Longrightarrow> q_require K k s = (s, Inl (qk_error K))"
  by (simp_all add: q_require_def require_quarantined_def bindW_def getW_def liftW_def q_memory.truncate_def)

lemma decide_call:
  "map_of (qs_items s) (qk_rkey K r) = Some q \<Longrightarrow> qk_decision K r \<in> {ADMITTED, REJECTED} \<Longrightarrow> qk_valid K q r \<Longrightarrow>
   \<exists>op'. fst (record_resolution K enc r s) = q_call K enc op' s"
  by (intro exI [of _ "Decide r"]) (simp add: q_call_def)

lemma cash_call_eq: "(\<exists>op'. cash_call enc op s = q_call cash_kind enc op' s) \<or> cash_call enc op s = s"
proof (cases op)
  case (CashQuarantine act reason now)
  then show ?thesis
    by (intro disjI1 exI [of _ "Put (quarantined_cash act reason now)"]) (simp add: cash_quarantine_def q_call_def)
next
  case (CashAdmit k who now nt)
  then show ?thesis
    by (cases "map_of (qs_items s) k")
      (simp_all add: cash_admit_def cash_decide_def bindW_def q_decide_eq decide_call cash_kind_def)
next
  case (CashReject k who now nt)
  then show ?thesis
    by (cases "map_of (qs_items s) k")
      (simp_all add: cash_reject_def cash_decide_def bindW_def q_decide_eq decide_call cash_kind_def)
qed

lemma exec_call_eq: "(\<exists>op'. exec_call enc op s = q_call execution_kind enc op' s) \<or> exec_call enc op s = s"
proof (cases op)
  case (ExecQuarantine x reason now)
  then show ?thesis
    by (intro disjI1 exI [of _ "Put (quarantined_exec x reason now)"]) (simp add: exec_quarantine_def q_call_def)
next
  case (ExecAdmit k who now lid version nt)
  then show ?thesis
    by (cases "map_of (qs_items s) k")
      (simp_all add: exec_admit_def bindW_def q_decide_eq decide_call execution_kind_def raiseW_def)
next
  case (ExecReject k who now nt)
  then show ?thesis
    by (cases "map_of (qs_items s) k")
      (simp_all add: exec_reject_def bindW_def q_decide_eq decide_call execution_kind_def ADMITTED_def REJECTED_def)
qed

subsection \<open>What the two stores keep\<close>

lemma q_append_calm:
  "holds_rows enc rows (qs_journal s) \<Longrightarrow> \<exists>j. q_append enc row s = (s\<lparr>qs_journal := j\<rparr>, Inr ()) \<and> holds_rows enc (rows @ [row]) j"
  by (auto simp: q_append_def on_part_def journal_write_calm holds_rows_def journal_text_def)

lemma q_call_logged:
  fixes s :: "('q, 'r) q_store"
  assumes j: "holds_rows enc rows (qs_journal s)"
  shows "\<exists>new. holds_rows enc (rows @ new) (qs_journal (q_call K enc op s))
    \<and> foldE (q_apply_row K) (q_memory.truncate s) new = Inr (q_memory.truncate (q_call K enc op s))"
proof (cases op)
  case (Put q)
  obtain j' where "q_append enc (QuarantinedRow q) s = (s\<lparr>qs_journal := j'\<rparr>, Inr ())"
    "holds_rows enc (rows @ [QuarantinedRow q]) j'" using q_append_calm [OF j] by blast
  with j Put show ?thesis
    by (cases "qk_account K q = qs_account s \<and> map_of (qs_items s) (qk_key K q) = None")
      (auto simp: q_call_def q_quarantine_def bindW_def getW_def modifyW_def retW_def raiseW_def q_apply_row_def
        replay_quarantine_def q_memory.truncate_def split: option.split
        intro: exI [of _ "[QuarantinedRow q]"] exI [of _ "[]"])
next
  case (Decide r)
  obtain j' where "q_append enc (ResolutionRow r) s = (s\<lparr>qs_journal := j'\<rparr>, Inr ())"
    "holds_rows enc (rows @ [ResolutionRow r]) j'" using q_append_calm [OF j] by blast
  with j Decide show ?thesis
    by (cases "map_of (qs_resolutions s) (qk_rkey K r)")
      (auto simp: q_call_def record_resolution_def bindW_def getW_def modifyW_def retW_def raiseW_def q_apply_row_def
        replay_resolution_def require_quarantined_def q_memory.truncate_def
        intro: exI [of _ "[ResolutionRow r]"] exI [of _ "[]"])
qed

interpretation cash_log: logged_store qs_journal q_memory.truncate enc "q_apply_row cash_kind" "cash_call enc" for enc
proof unfold_locales
  fix rows op and s :: cash_quarantine
  assume j: "holds_rows enc rows (qs_journal s)"
  show "\<exists>new. holds_rows enc (rows @ new) (qs_journal (cash_call enc op s))
    \<and> foldE (q_apply_row cash_kind) (q_memory.truncate s) new = Inr (q_memory.truncate (cash_call enc op s))"
    using cash_call_eq [of enc op s] q_call_logged [OF j, of cash_kind] j by (metis append_Nil2 foldE.simps(1))
qed

interpretation exec_log: logged_store qs_journal q_memory.truncate enc "q_apply_row execution_kind" "exec_call enc" for enc
proof unfold_locales
  fix rows op and s :: execution_quarantine
  assume j: "holds_rows enc rows (qs_journal s)"
  show "\<exists>new. holds_rows enc (rows @ new) (qs_journal (exec_call enc op s))
    \<and> foldE (q_apply_row execution_kind) (q_memory.truncate s) new = Inr (q_memory.truncate (exec_call enc op s))"
    using exec_call_eq [of enc op s] q_call_logged [OF j, of execution_kind] j by (metis append_Nil2 foldE.simps(1))
qed

subsection \<open>Decisions are final\<close>

lemma q_append_frame:
  "q_append enc row s = (s', r) \<Longrightarrow> q_memory.truncate s' = q_memory.truncate s"
  by (auto simp: q_append_def on_part_def q_memory.truncate_def split: prod.splits)

lemma q_append_fields:
  "q_append enc row s = (s', r) \<Longrightarrow> qs_items s' = qs_items s \<and> qs_resolutions s' = qs_resolutions s \<and> qs_account s' = qs_account s"
  using q_append_frame [of enc row s s' r] by (simp add: q_memory.truncate_def)

lemma q_call_decided: "map_of (qs_resolutions s) k = Some r \<Longrightarrow> map_of (qs_resolutions (q_call K enc op s)) k = Some r"
  by (cases op) (auto simp: q_call_def q_quarantine_def record_resolution_def bindW_def getW_def modifyW_def retW_def raiseW_def
      dest: q_append_fields split: option.splits prod.splits sum.splits)

lemma decided_stays:
  assumes "\<And>op s. (\<exists>op'. call op s = q_call K enc op' s) \<or> call op s = s" and "map_of (qs_resolutions s) k = Some r"
  shows "map_of (qs_resolutions (fold call ops s)) k = Some r"
  using assms(2)
proof (induction ops arbitrary: s)
  case (Cons op ops)
  have "map_of (qs_resolutions (call op s)) k = Some r"
    using assms(1) [of op s] q_call_decided [OF Cons.prems] Cons.prems by auto
  then show ?case by (simp add: Cons.IH)
qed simp

lemma quarantine_reload:
  assumes rows: "holds_rows enc rows (qs_journal s)" and m: "foldE (q_apply_row K) (q_empty acct) rows = Inr (q_memory.truncate s)"
  shows "\<exists>rows. journal_text (qs_journal s) = rows_text enc rows \<and>
    ((\<forall>r \<in> set rows. encodes enc de r) \<longrightarrow> q_load K de acct (jn_file (qs_journal s)) = Inr s)"
proof -
  have s: "q_open (q_memory.truncate s) (jn_file (qs_journal s)) = s"
    using rows by (cases s; cases "qs_journal s")
      (simp add: q_open_def holds_rows_def q_memory.truncate_def q_memory.extend_def q_store.fields_def)
  have "q_load K de acct (jn_file (qs_journal s)) = Inr s" if "\<forall>r \<in> set rows. encodes enc de r"
  proof (cases "jn_file (qs_journal s)")
    case None
    then have "q_memory.truncate s = q_empty acct" using rows m by (simp add: holds_rows_def)
    with s None show ?thesis by (simp add: q_load_def)
  next
    case (Some body)
    then have "body = journal_text (qs_journal s)" by (simp add: journal_text_def)
    then show ?thesis
      using s Some m by (simp add: q_load_def journal_lines [OF rows that] replay_lines [OF that])
  qed
  with rows show ?thesis by (auto simp: holds_rows_def)
qed

lemma new_quarantine: "holds_rows enc [] (qs_journal (q_open m None))" "q_memory.truncate (q_open m None) = m"
  by (simp_all add: q_open_def holds_rows_def journal_text_def rows_text_def q_memory.truncate_def q_memory.extend_def q_store.fields_def)

text \<open>
  A decision is final: once the operator admitted or rejected a quarantined execution or cash event, no further
  call to the store changes the decision, its fields or its author, wherever a write to the file breaks off.
\<close>
theorem quarantine_decision_final:
  assumes "resolution_for k (q_memory.truncate xs) = Some xr" and "resolution_for k' (q_memory.truncate cs) = Some cr"
  shows "resolution_for k (q_memory.truncate (fold (exec_call enc) ops xs)) = Some xr
    \<and> resolution_for k' (q_memory.truncate (fold (cash_call cenc) cops cs)) = Some cr"
  using decided_stays [where call = "exec_call enc", OF exec_call_eq] decided_stays [where call = "cash_call cenc", OF cash_call_eq] assms
  by (simp add: resolution_for_def q_memory.truncate_def)

text \<open>
  The quarantine stores are replayed from their files: after any sequence of quarantines, admissions and
  rejections on a new store, accepted or refused, loading the file gives the store back, for executions and
  for cash events, if the codec reads the rows back. Loading writes nothing.
\<close>
theorem quarantine_stores_reload:
  assumes "xs = fold (exec_call enc) ops (q_open (q_empty acct) None)"
    and "cs = fold (cash_call cenc) cops (q_open (q_empty acct) None)"
  shows "(\<exists>rows. journal_text (qs_journal xs) = rows_text enc rows \<and>
      ((\<forall>r \<in> set rows. encodes enc de r) \<longrightarrow> q_load execution_kind de acct (jn_file (qs_journal xs)) = Inr xs))
    \<and> (\<exists>rows. journal_text (qs_journal cs) = rows_text cenc rows \<and>
      ((\<forall>r \<in> set rows. encodes cenc cde r) \<longrightarrow> q_load cash_kind cde acct (jn_file (qs_journal cs)) = Inr cs))"
proof -
  obtain rows where "holds_rows enc rows (qs_journal xs)" "foldE (q_apply_row execution_kind) (q_empty acct) rows = Inr (q_memory.truncate xs)"
    using exec_log.run_logged [OF new_quarantine(1) [of enc "q_empty acct"], of ops] by (auto simp: assms(1) new_quarantine)
  note x = quarantine_reload [OF this]
  obtain crows where "holds_rows cenc crows (qs_journal cs)" "foldE (q_apply_row cash_kind) (q_empty acct) crows = Inr (q_memory.truncate cs)"
    using cash_log.run_logged [OF new_quarantine(1) [of cenc "q_empty acct"], of cops] by (auto simp: assms(2) new_quarantine)
  note c = quarantine_reload [OF this]
  from x c show ?thesis by blast
qed

subsection \<open>Two stores\<close>

definition ex_activity :: account_activity where
  "ex_activity = \<lparr> av_activity_id = ''act'', av_account = ''a'', av_activity_type = ''FEE'', av_activity_sub_type = Some ''CAT'',
     av_net_amount = - (1 / 100), av_date = 9340, av_created_at = Some 807000000000000000, av_symbol = None, av_description = ''CAT fee'' \<rparr>"

definition ex_execution :: execution where
  "ex_execution = \<lparr> xe_execution_id = ''x1'', xe_account = ''a'', xe_client_order_id = ''c1'', xe_symbol = ''SPY'', xe_side = ''buy'',
     xe_qty = 3, xe_price = 1, xe_cum_qty = 3, xe_filled_at = 807000000000000000 \<rparr>"

definition ex_exec_ops :: "exec_op list" where
  "ex_exec_ops = [ExecQuarantine ex_execution ''r'' 1, ExecAdmit ''x1'' ''op'' 2 (Some ''L1'') None None,
     ExecAdmit ''x1'' ''op'' 3 None (Some ''v1'') None, ExecReject ''x1'' ''op'' 4 None]"

definition ex_cash_ops :: "cash_op list" where
  "ex_cash_ops = [CashQuarantine ex_activity ''r'' 1, CashReject ''act'' ''op'' 2 None, CashAdmit ''act'' ''op'' 3 None]"

definition ex_exec_store :: execution_quarantine where
  "ex_exec_store = fold (exec_call (\<lambda>_. ''r'')) ex_exec_ops (q_open (q_empty ''a'') None)"

definition ex_cash_store :: cash_quarantine where
  "ex_cash_store = fold (cash_call (\<lambda>_. ''r'')) ex_cash_ops (q_open (q_empty ''a'') None)"

text \<open>The admission with a lot is refused, the one with a policy version stands, and the rejection comes too late.\<close>

lemma ex_decided:
  "resolution_for ''x1'' (q_memory.truncate ex_exec_store) = Some \<lparr> xr_execution_id = ''x1'', xr_account = ''a'', xr_decision = ADMITTED,
     xr_decided_by = ''op'', xr_decided_at = 3, xr_lot_id = None, xr_policy_version = Some ''v1'', xr_notes = None \<rparr>"
  "resolution_for ''act'' (q_memory.truncate ex_cash_store) = Some \<lparr> cr_activity_id = ''act'', cr_account = ''a'', cr_decision = REJECTED,
     cr_decided_by = ''op'', cr_decided_at = 2, cr_notes = None \<rparr>"
  by code_simp+

theorem quarantine_decision_final_witness:
  "\<exists>r. resolution_for ''x1'' (q_memory.truncate (fold (exec_call (\<lambda>_. ''r'')) [ExecReject ''x1'' ''op'' 9 None] ex_exec_store)) = Some r
     \<and> xr_decision r = ADMITTED"
  using quarantine_decision_final [OF ex_decided] by fastforce

fun exec_row_code :: "execution_row \<Rightarrow> nat \<times> string list \<times> rat list \<times> int list \<times> string option list" where
  "exec_row_code (QuarantinedRow q) = (0, [qx_execution_id q, qx_account q, qx_client_order_id q, qx_symbol q, qx_side q, qx_reason q],
     [qx_qty q, qx_price q], [qx_filled_at q, qx_quarantined_at q], [])"
| "exec_row_code (ResolutionRow r) = (1, [xr_execution_id r, xr_account r, xr_decision r, xr_decided_by r], [], [xr_decided_at r],
     [xr_lot_id r, xr_policy_version r, xr_notes r])"
| "exec_row_code UnknownKind = (2, [], [], [], [])"

fun cash_row_code :: "cash_row \<Rightarrow> nat \<times> string list \<times> rat list \<times> (int list \<times> int option list) \<times> string option list" where
  "cash_row_code (QuarantinedRow q) = (0, [av_activity_id q, av_account q, av_activity_type q, av_description q, qc_reason q],
     [av_net_amount q], ([av_date q, qc_quarantined_at q], [av_created_at q]), [av_activity_sub_type q, av_symbol q])"
| "cash_row_code (ResolutionRow r) = (1, [cr_activity_id r, cr_account r, cr_decision r, cr_decided_by r], [], ([cr_decided_at r], []),
     [cr_notes r])"
| "cash_row_code UnknownKind = (2, [], [], ([], []), [])"

lemma row_codes_inj: "inj exec_row_code" "inj cash_row_code"
proof -
  show "inj exec_row_code"
  proof (rule injI)
    fix r r' :: execution_row
    assume "exec_row_code r = exec_row_code r'"
    then show "r = r'" by (cases r; cases r') auto
  qed
  show "inj cash_row_code"
  proof (rule injI)
    fix r r' :: cash_row
    assume "cash_row_code r = cash_row_code r'"
    then show "r = r'" by (cases r; cases r') auto
  qed
qed

theorem quarantine_stores_reload_witness:
  "\<exists>enc de cenc cde. let s = fold (exec_call enc) ex_exec_ops (q_open (q_empty ''a'') None);
       c = fold (cash_call cenc) ex_cash_ops (q_open (q_empty ''a'') None)
     in q_load execution_kind de ''a'' (jn_file (qs_journal s)) = Inr s \<and> q_load cash_kind cde ''a'' (jn_file (qs_journal c)) = Inr c"
proof -
  obtain enc de where e: "\<forall>r :: execution_row. encodes enc de r" using codec_exists [OF row_codes_inj(1)] by blast
  obtain cenc cde where c: "\<forall>r :: cash_row. encodes cenc cde r" using codec_exists [OF row_codes_inj(2)] by blast
  have "q_load execution_kind de ''a'' (jn_file (qs_journal (fold (exec_call enc) ex_exec_ops (q_open (q_empty ''a'') None))))
      = Inr (fold (exec_call enc) ex_exec_ops (q_open (q_empty ''a'') None))
    \<and> q_load cash_kind cde ''a'' (jn_file (qs_journal (fold (cash_call cenc) ex_cash_ops (q_open (q_empty ''a'') None))))
      = Inr (fold (cash_call cenc) ex_cash_ops (q_open (q_empty ''a'') None))"
    using quarantine_stores_reload [OF refl refl, where enc = enc and de = de and cenc = cenc and cde = cde] e c by blast
  then show ?thesis by (auto simp: Let_def)
qed

end
