(* ===== verification/Sync.thy ===== *)
theory Sync
  imports Quarantine LedgerStoreProps Startup
begin

text \<open>
  agent/fill\_sync.py and agent/cash\_events.py: what the broker reports reaches the ledger. A poll reads the
  broker's executions or its other activities (the parameters \<open>feed\<close> and \<open>by_id\<close>: what the adapter returns, or
  the exception it raises), records what is new and resolvable, and quarantines the rest. The functions act
  on the ledger store, the two quarantine stores and the audit log of one account.
\<close>

record sync_state =
  sy_sys :: startup_state
  sy_store :: ledger_store
  sy_exec :: execution_quarantine
  sy_cash :: cash_quarantine

text \<open>The row codecs of the stores, and the standard library's representation of a string.\<close>

record sync_env =
  sv_env :: startup_env
  sv_store_row :: "store_row \<Rightarrow> string"
  sv_exec_row :: "execution_row \<Rightarrow> string"
  sv_cash_row :: "cash_row \<Rightarrow> string"
  sv_repr :: "string \<Rightarrow> string"

type_synonym 'a sync_act = "(sync_state, 'a) action"

definition on_store :: "(ledger_store, 'a) action \<Rightarrow> 'a sync_act" where
  "on_store = on_part sy_store (\<lambda>s w. w\<lparr>sy_store := s\<rparr>)"

definition on_exec :: "(execution_quarantine, 'a) action \<Rightarrow> 'a sync_act" where
  "on_exec = on_part sy_exec (\<lambda>s w. w\<lparr>sy_exec := s\<rparr>)"

definition on_cash :: "(cash_quarantine, 'a) action \<Rightarrow> 'a sync_act" where
  "on_cash = on_part sy_cash (\<lambda>s w. w\<lparr>sy_cash := s\<rparr>)"

definition sync_log :: "sync_env \<Rightarrow> string \<Rightarrow> string \<Rightarrow> string \<Rightarrow> string \<Rightarrow> json \<Rightarrow> instant \<Rightarrow> unit sync_act" where
  "sync_log V actor action otype oid after now =
     on_part sy_sys (\<lambda>s w. w\<lparr>sy_sys := s\<rparr>) (log_append (sv_env V) actor action otype oid JNull after None now)"

definition sync_account :: "sync_state \<Rightarrow> string" where
  "sync_account w = le_account (lst_ledger (sy_store w))"

text \<open>
  The loop of both polls: the known ids grow with what a step records, and the steps' records are collected.
\<close>

fun poll ::
  "('x \<Rightarrow> string) \<Rightarrow> (string set \<Rightarrow> 'x \<Rightarrow> ('w, 'y option) action) \<Rightarrow> string set \<Rightarrow> 'x list \<Rightarrow> ('w, 'y list) action" where
  "poll key step known [] = retW []"
| "poll key step known (x # xs) =
     bindW (step known x) (\<lambda>r. case r of
       None \<Rightarrow> poll key step known xs
     | Some y \<Rightarrow> bindW (poll key step (insert (key x) known) xs) (\<lambda>ys. retW (y # ys)))"

subsection \<open>Executions\<close>

definition audit_exec_quarantine ::
  "sync_env \<Rightarrow> execution \<Rightarrow> string \<Rightarrow> string \<Rightarrow> instant \<Rightarrow> unit sync_act" where
  "audit_exec_quarantine V x side reason now =
     sync_log V ''system'' ''execution_quarantined'' ''execution'' (xe_execution_id x)
       (JObj [(KStr ''account_id'', JStr (xe_account x)), (KStr ''client_order_id'', JStr (xe_client_order_id x)),
              (KStr ''side'', JStr side), (KStr ''reason'', JStr reason)]) now"

definition fill_of :: "execution \<Rightarrow> string \<Rightarrow> string \<Rightarrow> string option \<Rightarrow> fill" where
  "fill_of x side lid version =
     \<lparr> fi_fill_id = xe_execution_id x, fi_account = xe_account x, fi_symbol = xe_symbol x, fi_side = side,
       fi_qty = xe_qty x, fi_price = xe_price x, fi_filled_at = xe_filled_at x, fi_lot_id = lid,
       fi_policy_version = version \<rparr>"

definition latest_orders :: "order_record list \<Rightarrow> string \<Rightarrow> order_record option" where
  "latest_orders rs cid = map_of (foldl (\<lambda>d r. AList.update (or_client_order_id r) r d) [] rs) cid"

definition buy_reason :: "sync_env \<Rightarrow> execution \<Rightarrow> string" where
  "buy_reason V x = ''BUY with no holding_policy_version recorded at staging time (client_order_id=''
     @ sv_repr V (xe_client_order_id x) @ ''); refusing to guess which policy the new lot should open under''"

definition sell_reason :: "sync_env \<Rightarrow> execution \<Rightarrow> string \<Rightarrow> string" where
  "sell_reason V x side = side @ '' with no intended lot_id recorded at staging time (client_order_id=''
     @ sv_repr V (xe_client_order_id x) @ ''); refusing to guess which lot it reduces (this is also where a ''
     @ ''CLOSE-originated fill lands -- see module docstring's named, unsolved CLOSE/multi-lot gap)''"

definition write_new_fill :: "sync_env \<Rightarrow> fill \<Rightarrow> fill option sync_act" where
  "write_new_fill V f = bindW (on_store (write_fill (sv_store_row V) f)) (\<lambda>_. retW (Some f))"

definition quarantine_exec :: "sync_env \<Rightarrow> execution \<Rightarrow> string \<Rightarrow> string \<Rightarrow> string \<Rightarrow> instant \<Rightarrow> fill option sync_act" where
  "quarantine_exec V x side reason audit_reason now =
     bindW (on_exec (exec_quarantine (sv_exec_row V) x reason now)) (\<lambda>_.
     bindW (audit_exec_quarantine V x side audit_reason now) (\<lambda>_.
     retW None))"

text \<open>
  One execution. An admitted one takes the fields the operator supplied, any other the fields of the order
  record \<open>latest\<close> finds; a BUY opens the lot named by its own id. (The store admits no other execution
  without a lot; such a fill has the empty lot id here.)
\<close>

definition fill_step ::
  "sync_env \<Rightarrow> (string \<Rightarrow> order_record option) \<Rightarrow> instant \<Rightarrow> string set \<Rightarrow> execution \<Rightarrow> fill option sync_act" where
  "fill_step V latest now known x =
     (let k = xe_execution_id x; side = upper (xe_side x); order = latest (xe_client_order_id x) in
      if k \<in> known then retW None
      else bindW (getW sync_account) (\<lambda>acct.
      if xe_account x \<noteq> acct then raiseW (CrossAccountError acct (xe_account x))
      else if xe_filled_at x > now then raiseW SyncFillsError
      else bindW (getW (\<lambda>w. resolution_for k (q_memory.truncate (sy_exec w)))) (\<lambda>resolution.
      case resolution of
        Some r \<Rightarrow>
          if xr_decision r = ADMITTED then
            (if side = ''BUY'' then write_new_fill V (fill_of x ''BUY'' k (xr_policy_version r))
             else write_new_fill V (fill_of x side (case xr_lot_id r of None \<Rightarrow> [] | Some l \<Rightarrow> l) None))
          else retW None
      | None \<Rightarrow>
          bindW (getW (\<lambda>w. q_status execution_kind k (q_memory.truncate (sy_exec w)))) (\<lambda>status.
          if status \<noteq> None then retW None
          else if side = ''BUY'' then
            (case Option.bind order or_policy_version of
               None \<Rightarrow> quarantine_exec V x side (buy_reason V x)
                 ''no holding_policy_version recorded at staging time'' now
             | Some version \<Rightarrow> write_new_fill V (fill_of x ''BUY'' k (Some version)))
          else
            (case Option.bind order or_lot_id of
               None \<Rightarrow> quarantine_exec V x side (sell_reason V x side)
                 ''no intended lot_id recorded at staging time'' now
             | Some l \<Rightarrow> write_new_fill V (fill_of x side l None))))))"

definition fill_ids :: "sync_state \<Rightarrow> string set" where
  "fill_ids w = set (map fi_fill_id (le_fills (lst_ledger (sy_store w))))"

definition sync_fills :: "sync_env \<Rightarrow> execution list result \<Rightarrow> datetime \<Rightarrow> fill list sync_act" where
  "sync_fills V feed now =
     (case now of
        Naive _ \<Rightarrow> raiseW SyncFillsError
      | Aware t \<Rightarrow>
          bindW (getW (\<lambda>w. (fill_ids w, latest_orders (le_order_records (lst_ledger (sy_store w)))))) (\<lambda>(known, latest).
          bindW (liftW feed) (\<lambda>xs.
          poll xe_execution_id (fill_step V latest t) known xs)))"

subsection \<open>Orders the broker is done with\<close>

definition close_order ::
  "sync_env \<Rightarrow> (string \<Rightarrow> broker_order option result) \<Rightarrow> instant \<Rightarrow> string \<Rightarrow> order_record list sync_act" where
  "close_order V by_id now cid =
     bindW (liftW (by_id cid)) (\<lambda>reported.
     case reported of
       None \<Rightarrow> retW []
     | Some order \<Rightarrow>
         bindW (getW sync_account) (\<lambda>acct.
         if bo_account order \<noteq> acct then raiseW (CrossAccountError acct (bo_account order))
         else if bo_status order \<in> set TERMINAL_ORDER_STATUSES then
           (let record' = \<lparr> or_client_order_id = cid, or_account = acct, or_status = ''CLOSED'', or_at = now,
                            or_lot_id = None, or_policy_version = None \<rparr>
            in bindW (on_store (write_order_record (sv_store_row V) record')) (\<lambda>_. retW [record']))
         else retW []))"

definition close_terminal_orders ::
  "sync_env \<Rightarrow> (string \<Rightarrow> broker_order option result) \<Rightarrow> instant \<Rightarrow> order_record list sync_act" where
  "close_terminal_orders V by_id now =
     bindW (getW (\<lambda>w. sort (ls_open_order_ids (sy_store w)))) (\<lambda>cids.
     bindW (forW (close_order V by_id now) cids) (\<lambda>rs. retW (concat rs)))"

subsection \<open>Cash events\<close>

definition audit_cash_quarantine :: "sync_env \<Rightarrow> account_activity \<Rightarrow> string \<Rightarrow> instant \<Rightarrow> unit sync_act" where
  "audit_cash_quarantine V act reason now =
     sync_log V ''system'' ''cash_event_quarantined'' ''cash_event'' (av_activity_id act)
       (JObj [(KStr ''account_id'', JStr (av_account act)), (KStr ''activity_type'', JStr (av_activity_type act)),
              (KStr ''activity_sub_type'', opt_str (av_activity_sub_type act)),
              (KStr ''net_amount'', JStr (ev_str (sv_env V) (av_net_amount act))), (KStr ''reason'', JStr reason)]) now"

definition audit_admission :: "sync_env \<Rightarrow> account_activity \<Rightarrow> instant \<Rightarrow> unit sync_act" where
  "audit_admission V act now =
     sync_log V ''operator'' ''cash_event_admitted'' ''cash_event'' (av_activity_id act)
       (JObj [(KStr ''account_id'', JStr (av_account act)),
              (KStr ''net_amount'', JStr (ev_str (sv_env V) (av_net_amount act)))]) now"

definition audit_auto_admission :: "sync_env \<Rightarrow> account_activity \<Rightarrow> decimal \<Rightarrow> instant \<Rightarrow> unit sync_act" where
  "audit_auto_admission V act cap now =
     sync_log V ''system'' ''cash_event_auto_admitted'' ''cash_event'' (av_activity_id act)
       (JObj [(KStr ''account_id'', JStr (av_account act)),
              (KStr ''net_amount'', JStr (ev_str (sv_env V) (av_net_amount act))),
              (KStr ''cat_fee_auto_admit_ceiling'', JStr (ev_str (sv_env V) cap))]) now"

definition cash_adjustment_for :: "account_activity \<Rightarrow> cash_adjustment" where
  "cash_adjustment_for act =
     \<lparr> cj_adjustment_id = av_activity_id act, cj_account = av_account act, cj_amount = av_net_amount act,
       cj_activity_type = av_activity_type act, cj_description = av_description act,
       cj_effective_date = av_date act, cj_symbol = av_symbol act \<rparr>"

definition is_cat_fee :: "account_activity \<Rightarrow> bool" where
  "is_cat_fee act \<longleftrightarrow> av_activity_type act = ''FEE'' \<and> av_activity_sub_type act = Some ''CAT''"

definition disqualifying_reason :: "sync_env \<Rightarrow> decimal \<Rightarrow> account_activity \<Rightarrow> string option" where
  "disqualifying_reason V cap act =
     (let amount = av_net_amount act; str = ev_str (sv_env V) in
      if \<not> is_cat_fee act then None
      else if amount \<ge> 0 then
        Some (''matches FEE/CAT but net_amount '' @ str amount @ '' is not negative -- a CAT fee is always a debit; ''
          @ ''a non-negative one is unexplained, not a bigger version of the same pattern'')
      else if \<bar>amount\<bar> > cap then
        Some (''matches FEE/CAT and is negative but |'' @ str amount
          @ ''| exceeds the configured cat_fee_auto_admit_ceiling of '' @ str cap)
      else None)"

definition auto_admittable :: "decimal \<Rightarrow> account_activity \<Rightarrow> bool" where
  "auto_admittable cap act \<longleftrightarrow> is_cat_fee act \<and> av_net_amount act < 0 \<and> \<bar>av_net_amount act\<bar> \<le> cap"

definition cash_reason :: "account_activity \<Rightarrow> string option \<Rightarrow> string" where
  "cash_reason act disqualified =
     ''unexplained cash movement: '' @ av_activity_type act
     @ (case av_activity_sub_type act of None \<Rightarrow> [] | Some s \<Rightarrow> if s = [] then [] else ''/'' @ s)
     @ '': '' @ av_description act
     @ (case disqualified of None \<Rightarrow> [] | Some d \<Rightarrow> '' (not auto-admitted: '' @ d @ '')'')"

definition apply_cash_event :: "sync_env \<Rightarrow> account_activity \<Rightarrow> unit sync_act \<Rightarrow> cash_adjustment option sync_act" where
  "apply_cash_event V act audit =
     bindW (on_store (write_cash_adjustment (sv_store_row V) (cash_adjustment_for act))) (\<lambda>_.
     bindW audit (\<lambda>_.
     retW (Some (cash_adjustment_for act))))"

definition cash_step ::
  "sync_env \<Rightarrow> decimal \<Rightarrow> instant option \<Rightarrow> instant \<Rightarrow> string set \<Rightarrow> account_activity
   \<Rightarrow> cash_adjustment option sync_act" where
  "cash_step V cap established now known act =
     (let k = av_activity_id act in
      if k \<in> known then retW None
      else bindW (getW sync_account) (\<lambda>acct.
      if av_account act \<noteq> acct then raiseW (CrossAccountError acct (av_account act))
      else bindW (getW (\<lambda>w. resolution_for k (q_memory.truncate (sy_cash w)))) (\<lambda>resolution.
      case resolution of
        Some r \<Rightarrow>
          if cr_decision r = ADMITTED then apply_cash_event V act (audit_admission V act now) else retW None
      | None \<Rightarrow>
          bindW (getW (\<lambda>w. q_status cash_kind k (q_memory.truncate (sy_cash w)))) (\<lambda>status.
          if status \<noteq> None then retW None
          else
            let refusal = (if auto_admittable cap act
                  then refuse_admission_reason (ev_iso (sv_env V)) (sv_repr V) k (av_created_at act) established
                  else None);
                reason = cash_reason act (case refusal of None \<Rightarrow> disqualifying_reason V cap act | Some r \<Rightarrow> Some r)
            in if auto_admittable cap act \<and> refusal = None
               then apply_cash_event V act (audit_auto_admission V act cap now)
               else bindW (on_cash (cash_quarantine (sv_cash_row V) act reason now)) (\<lambda>_.
                    bindW (audit_cash_quarantine V act reason now) (\<lambda>_.
                    retW None))))))"

definition sync_cash_events ::
  "sync_env \<Rightarrow> account_activity list result \<Rightarrow> decimal \<Rightarrow> instant \<Rightarrow> cash_adjustment list sync_act" where
  "sync_cash_events V feed cap now =
     bindW (getW (\<lambda>w. (known_cash_adjustment_ids (sy_store w), lst_established (sy_store w)))) (\<lambda>(known, established).
     bindW (liftW feed) (\<lambda>acts.
     poll av_activity_id (cash_step V cap established now) known acts))"

end
