(* ===== verification/SyncProps.thy ===== *)
theory SyncProps
  imports Sync
begin

text \<open>
  What a poll leaves behind: every reported item is recorded, refused by the operator, or waiting for the operator;
  nothing is recorded without an intent; and polling again changes nothing.
\<close>

subsection \<open>The loop\<close>

text \<open>
  What a poll needs of its step: after a step the item is accounted for, what was accounted for stays so, the known
  ids are those recorded, and an item that is accounted for is skipped.
\<close>

locale poller =
  fixes key :: "'x \<Rightarrow> string" and step :: "string set \<Rightarrow> 'x \<Rightarrow> ('w, 'y option) action"
    and known :: "'w \<Rightarrow> string set" and good :: "'w \<Rightarrow> bool" and accounted :: "'w \<Rightarrow> 'x \<Rightarrow> bool"
  assumes step_accounts: "good w \<Longrightarrow> wp (step (known w) x) (\<lambda>r w'. good w' \<and> accounted w' x
      \<and> (\<forall>z. accounted w z \<longrightarrow> accounted w' z)
      \<and> known w' = (case r of None \<Rightarrow> known w | Some _ \<Rightarrow> insert (key x) (known w))) (\<lambda>_ _. True) w"
    and step_skips: "good w \<Longrightarrow> accounted w x \<Longrightarrow> step (known w) x w = (w, Inr None)"
begin

lemma poll_accounts:
  "good w \<Longrightarrow> wp (poll key step (known w) xs) (\<lambda>ys w'. good w' \<and> (\<forall>x \<in> set xs. accounted w' x)
      \<and> (\<forall>z. accounted w z \<longrightarrow> accounted w' z)) (\<lambda>_ _. True) w"
proof (induction xs arbitrary: w)
  case Nil
  then show ?case by (simp add: wp_simps)
next
  case (Cons x xs)
  show ?case
    unfolding poll.simps wp_bind
  proof (rule wp_mono [OF step_accounts [OF Cons.prems, of x]])
    fix r :: "'y option" and w1
    assume one: "good w1 \<and> accounted w1 x \<and> (\<forall>z. accounted w z \<longrightarrow> accounted w1 z)
      \<and> known w1 = (case r of None \<Rightarrow> known w | Some _ \<Rightarrow> insert (key x) (known w))"
    have rest: "wp (poll key step (known w1) xs) (\<lambda>ys w'. good w' \<and> (\<forall>x \<in> set (x # xs). accounted w' x)
        \<and> (\<forall>z. accounted w z \<longrightarrow> accounted w' z)) (\<lambda>_ _. True) w1"
      using Cons.IH [of w1] one by (auto elim!: wp_mono)
    show "wp (case r of None \<Rightarrow> poll key step (known w) xs
        | Some y \<Rightarrow> bindW (poll key step (insert (key x) (known w)) xs) (\<lambda>ys. retW (y # ys)))
      (\<lambda>ys w'. good w' \<and> (\<forall>x \<in> set (x # xs). accounted w' x) \<and> (\<forall>z. accounted w z \<longrightarrow> accounted w' z)) (\<lambda>_ _. True) w1"
      using rest one by (cases r) (simp_all add: wp_simps)
  qed simp
qed

lemma poll_skips: "good w \<Longrightarrow> \<forall>x \<in> set xs. accounted w x \<Longrightarrow> poll key step (known w) xs w = (w, Inr [])"
  by (induction xs) (simp_all add: retW_def bindW_def step_skips)

lemma poll_twice:
  assumes "good w" and "poll key step (known w) xs w = (w', Inr ys)"
  shows "good w' \<and> (\<forall>x \<in> set xs. accounted w' x) \<and> poll key step (known w') xs w' = (w', Inr [])"
  using wp_resultD [OF poll_accounts [OF assms(1)] assms(2)] poll_skips [of w' xs] by blast

end

text \<open>A property of the state that each step keeps, with what it records.\<close>

lemma wp_poll:
  assumes "I known [] w" and "\<And>x ys known w. x \<in> set xs \<Longrightarrow> I known ys w \<Longrightarrow>
    wp (step known x) (\<lambda>r. case r of None \<Rightarrow> I known ys | Some y \<Rightarrow> I (insert (key x) known) (ys @ [y])) E w"
  shows "wp (poll key step known xs) (\<lambda>ys w. \<exists>known. I known ys w) E w"
proof -
  have "wp (poll key step known xs) (\<lambda>zs w. \<exists>known. I known (ys @ zs) w) E w" if "I known ys w" for ys
    using assms(2) that
  proof (induction xs arbitrary: ys w known)
    case Nil
    then show ?case by (auto simp: wp_simps)
  next
    case (Cons x xs)
    have rest: "wp (poll key step known' xs) (\<lambda>zs w. \<exists>known. I known (ys' @ zs) w) E w'" if "I known' ys' w'" for ys' w' known'
      using Cons.prems(1) that by (intro Cons.IH) simp_all
    show ?case
      unfolding poll.simps wp_bind
    proof (rule wp_mono [OF Cons.prems(1) [of x known ys w]])
      fix r w1
      assume "(case r of None \<Rightarrow> I known ys | Some y \<Rightarrow> I (insert (key x) known) (ys @ [y])) w1"
      then show "wp (case r of None \<Rightarrow> poll key step known xs
          | Some y \<Rightarrow> bindW (poll key step (insert (key x) known) xs) (\<lambda>ys. retW (y # ys))) (\<lambda>zs w. \<exists>known. I known (ys @ zs) w) E w1"
        using rest [of known ys w1] rest [of "insert (key x) known" "ys @ [the r]" w1]
        by (cases r) (simp_all add: wp_simps)
    qed (use Cons.prems in simp_all)
  qed
  from this [of "[]"] assms(1) show ?thesis by simp
qed

subsection \<open>What the parts change\<close>

lemma wp_append_frame:
  assumes "\<And>x d. Q () (s\<lparr>lst_file := x, lst_disk := d\<rparr>)" and "\<And>e x d. E e (s\<lparr>lst_file := x, lst_disk := d\<rparr>)"
  shows "wp (append_row enc r) Q E s"
  using assms by (simp add: wp_def append_row_def Let_def split: list.split option.split)

lemma wp_validated_write:
  assumes "\<And>l x d. f (lst_ledger s) = Inr l \<Longrightarrow> Q () (s\<lparr>lst_ledger := l, lst_file := x, lst_disk := d\<rparr>)"
    and "\<And>e. E e s" and "\<And>l e x d. f (lst_ledger s) = Inr l \<Longrightarrow> E e (s\<lparr>lst_ledger := l, lst_file := x, lst_disk := d\<rparr>)"
  shows "wp (bindW (getW k) (\<lambda>already_known. bindW (validate f) (\<lambda>_.
    if already_known then retW () else append_row enc r))) Q E s"
proof (cases "f (lst_ledger s)")
  case (Inr l)
  have "Q () (s\<lparr>lst_ledger := l\<rparr>)" using assms(1) [OF Inr, where x = "lst_file s" and d = "lst_disk s"] by (cases s) simp
  moreover have "wp (append_row enc r) Q E (s\<lparr>lst_ledger := l\<rparr>)"
    by (rule wp_append_frame) (use assms(1,3) [OF Inr] in simp_all)
  ultimately show ?thesis by (simp add: wp_simps Inr)
qed (simp add: wp_simps assms(2))

lemma wp_sync_log:
  assumes "\<And>s. Q () (w\<lparr>sy_sys := s\<rparr>)" and "\<And>e s. E e (w\<lparr>sy_sys := s\<rparr>)"
  shows "wp (sync_log V actor action otype k after now) Q E w"
  unfolding sync_log_def wp_part using assms by (simp add: wp_def split: prod.split sum.split)

lemma wp_q_quarantine:
  assumes "\<And>s'. qs_account s' = qs_account s \<Longrightarrow> qs_resolutions s' = qs_resolutions s \<Longrightarrow>
      qs_items s' = (if map_of (qs_items s) (qk_key K q) = None then AList.update (qk_key K q) q (qs_items s) else qs_items s) \<Longrightarrow>
      Q (case map_of (qs_items s) (qk_key K q) of None \<Rightarrow> q | Some q' \<Rightarrow> q') s'"
    and "\<And>e s'. qs_account s' = qs_account s \<Longrightarrow> qs_resolutions s' = qs_resolutions s \<Longrightarrow> qs_items s' = qs_items s \<Longrightarrow> E e s'"
  shows "wp (q_quarantine K enc q) Q E s"
  using assms unfolding wp_def q_quarantine_def
  by (auto simp: bindW_def getW_def modifyW_def retW_def raiseW_def dest!: q_append_fields
      split: option.splits prod.splits sum.splits)

subsection \<open>Executions\<close>

definition ledger_good :: "sync_state \<Rightarrow> bool" where
  "ledger_good w \<longleftrightarrow> ledger_ok (lst_ledger (sy_store w))"

definition exec_resolution :: "sync_state \<Rightarrow> execution \<Rightarrow> execution_resolution option" where
  "exec_resolution w x = resolution_for (xe_execution_id x) (q_memory.truncate (sy_exec w))"

text \<open>An execution is recorded, rejected, or quarantined and undecided.\<close>

definition exec_accounted :: "instant \<Rightarrow> sync_state \<Rightarrow> execution \<Rightarrow> bool" where
  "exec_accounted now w x \<longleftrightarrow> xe_execution_id x \<in> fill_ids w \<or>
     (xe_account x = sync_account w \<and> xe_filled_at x \<le> now \<and>
      (case exec_resolution w x of
         Some r \<Rightarrow> xr_decision r \<noteq> ADMITTED
       | None \<Rightarrow> q_status execution_kind (xe_execution_id x) (q_memory.truncate (sy_exec w)) = Some PENDING))"

text \<open>
  The fill an execution is recorded as: its own data, and the lot or the policy version the operator admitted it
  with, or else that of the latest order record of its order.
\<close>

definition intended :: "(string \<Rightarrow> order_record option) \<Rightarrow> sync_state \<Rightarrow> execution \<Rightarrow> fill \<Rightarrow> bool" where
  "intended latest w x f \<longleftrightarrow>
     (let side = upper (xe_side x); k = xe_execution_id x; order = latest (xe_client_order_id x)
      in case exec_resolution w x of
           Some r \<Rightarrow> xr_decision r = ADMITTED \<and>
             (if side = ''BUY'' then f = fill_of x side k (xr_policy_version r)
              else f = fill_of x side (case xr_lot_id r of None \<Rightarrow> [] | Some l \<Rightarrow> l) None)
         | None \<Rightarrow>
             (\<exists>q. order = Some q \<and>
               (if side = ''BUY'' then or_policy_version q \<noteq> None \<and> f = fill_of x side k (or_policy_version q)
                else \<exists>l. or_lot_id q = Some l \<and> f = fill_of x side l None)))"

lemma latest_orders_eq: "latest_orders rs cid = latest_order_record (l\<lparr>le_order_records := rs\<rparr>) cid"
proof (induction rs rule: rev_induct)
  case (snoc r rs)
  then show ?case by (simp add: latest_orders_def latest_record_snoc)
qed (simp add: latest_orders_def latest_order_record_def)

lemma latest_orders_ledger: "latest_orders (le_order_records l) cid = latest_order_record l cid"
  using latest_orders_eq [of "le_order_records l" cid l] by simp

lemma record_fill_new:
  assumes "ledger_ok l" and "record_fill l f = Inr l'"
  shows "ledger_ok l'" and "le_account l' = le_account l" and "le_order_records l' = le_order_records l"
    and "fi_fill_id f \<notin> fi_fill_id ` set (le_fills l) \<Longrightarrow> le_fills l' = le_fills l @ [f]"
    and "fi_fill_id ` set (le_fills l') = insert (fi_fill_id f) (fi_fill_id ` set (le_fills l))"
proof -
  show "ledger_ok l'" using fills.step [OF assms] by simp
  show "le_account l' = le_account l" "le_order_records l' = le_order_records l"
    using record_fill_cases [OF assms(2)] by fastforce+
  show new: "fi_fill_id f \<notin> fi_fill_id ` set (le_fills l) \<Longrightarrow> le_fills l' = le_fills l @ [f]"
    using fills.step [OF assms] by (auto split: if_splits)
  show "fi_fill_id ` set (le_fills l') = insert (fi_fill_id f) (fi_fill_id ` set (le_fills l))"
    using fills.step [OF assms] by (auto split: if_splits)
qed

text \<open>What a step may do to the state, with what it records.\<close>

definition fill_effect :: "sync_state \<Rightarrow> sync_state \<Rightarrow> fill list \<Rightarrow> bool" where
  "fill_effect w w' fs \<longleftrightarrow> ledger_good w' \<and> sync_account w' = sync_account w
     \<and> le_fills (lst_ledger (sy_store w')) = le_fills (lst_ledger (sy_store w)) @ fs
     \<and> le_order_records (lst_ledger (sy_store w')) = le_order_records (lst_ledger (sy_store w))
     \<and> qs_resolutions (sy_exec w') = qs_resolutions (sy_exec w)
     \<and> (\<forall>k. map_of (qs_items (sy_exec w)) k \<noteq> None \<longrightarrow> map_of (qs_items (sy_exec w')) k \<noteq> None)"

lemma fill_effect_refl: "ledger_good w \<Longrightarrow> fill_effect w w []"
  by (simp add: fill_effect_def)

lemma wp_new_fill:
  assumes "ledger_good w" and "fi_fill_id f \<notin> fill_ids w"
    and "\<And>w'. fill_effect w w' [f] \<Longrightarrow> Q (Some f) w'"
    and "\<And>e w' fs. fill_effect w w' fs \<Longrightarrow> set fs \<subseteq> {f} \<Longrightarrow> E e w'"
  shows "wp (write_new_fill V f) Q E w"
  unfolding write_new_fill_def on_store_def write_fill_def wp_part wp_ret wp_bind [of "on_part _ _ _"]
proof (rule wp_validated_write)
  fix l x d
  assume l: "record_fill (lst_ledger (sy_store w)) f = Inr l"
  note new = record_fill_new [OF _ l]
  have eff: "fill_effect w (w\<lparr>sy_store := sy_store w\<lparr>lst_ledger := l, lst_file := x, lst_disk := d\<rparr>\<rparr>) [f]" for x d
    using assms(1,2) new by (simp add: fill_effect_def ledger_good_def sync_account_def fill_ids_def)
  show "Q (Some f) (w\<lparr>sy_store := sy_store w\<lparr>lst_ledger := l, lst_file := x, lst_disk := d\<rparr>\<rparr>)" by (rule assms(3) [OF eff])
  show "E e (w\<lparr>sy_store := sy_store w\<lparr>lst_ledger := l, lst_file := x, lst_disk := d\<rparr>\<rparr>)" for e by (rule assms(4) [OF eff]) simp
next
  show "E e (w\<lparr>sy_store := sy_store w\<rparr>)" for e
    using assms(4) [OF fill_effect_refl [OF assms(1)]] by simp
qed

lemma wp_quarantine_exec:
  assumes "ledger_good w"
    and "\<And>w'. fill_effect w w' [] \<Longrightarrow> map_of (qs_items (sy_exec w')) (xe_execution_id x) \<noteq> None \<Longrightarrow> Q None w'"
    and "\<And>e w'. fill_effect w w' [] \<Longrightarrow> E e w'"
  shows "wp (quarantine_exec V x side reason audit_reason now) Q E w"
  unfolding quarantine_exec_def on_exec_def exec_quarantine_def wp_bind wp_part
proof (rule wp_q_quarantine)
  let ?k = "qk_key execution_kind (quarantined_exec x reason now)"
  have k: "?k = xe_execution_id x" by (simp add: execution_kind_def quarantined_exec_def)
  fix s' :: execution_quarantine
  assume s': "qs_account s' = qs_account (sy_exec w)" "qs_resolutions s' = qs_resolutions (sy_exec w)"
    "qs_items s' = (if map_of (qs_items (sy_exec w)) ?k = None then
        AList.update ?k (quarantined_exec x reason now) (qs_items (sy_exec w)) else qs_items (sy_exec w))"
  have eff: "fill_effect w (w\<lparr>sy_exec := s', sy_sys := s\<rparr>) []" for s
    using assms(1) s' by (simp add: fill_effect_def ledger_good_def sync_account_def)
  have mem: "map_of (qs_items s') (xe_execution_id x) \<noteq> None" using s'(3) k by simp
  show "wp (audit_exec_quarantine V x side audit_reason now) (\<lambda>_. wp (retW None) Q E) E (w\<lparr>sy_exec := s'\<rparr>)"
    unfolding audit_exec_quarantine_def wp_ret
    by (rule wp_sync_log; use assms(2) [OF eff] assms(3) [OF eff] mem in simp)
next
  fix e and s' :: execution_quarantine
  assume "qs_account s' = qs_account (sy_exec w)" "qs_resolutions s' = qs_resolutions (sy_exec w)"
    "qs_items s' = qs_items (sy_exec w)"
  then have "fill_effect w (w\<lparr>sy_exec := s'\<rparr>) []" using assms(1) by (simp add: fill_effect_def ledger_good_def sync_account_def)
  then show "E e (w\<lparr>sy_exec := s'\<rparr>)" by (rule assms(3))
qed

lemma wp_fill_step:
  assumes good: "ledger_good w"
  shows "wp (fill_step V latest now (fill_ids w) x)
    (\<lambda>r w'. (case r of None \<Rightarrow> fill_effect w w' [] \<and> exec_accounted now w' x
                     | Some f \<Rightarrow> fill_effect w w' [f] \<and> intended latest w x f \<and> fi_fill_id f = xe_execution_id x))
    (\<lambda>e w'. \<exists>fs. fill_effect w w' fs \<and> (\<forall>f \<in> set fs. intended latest w x f)) w"
  (is "wp _ ?Q ?E w")
proof -
  let ?k = "xe_execution_id x" and ?side = "upper (xe_side x)"
  have same: "?E e w" for e using fill_effect_refl [OF good] by (intro exI [of _ "[]"]) simp
  have new: "wp (write_new_fill V f) ?Q ?E w" if "intended latest w x f" "fi_fill_id f = ?k" "?k \<notin> fill_ids w" for f
    by (rule wp_new_fill [OF good]) (use that in auto)
  have fo: "fi_fill_id (fill_of x sd lid ver) = ?k" for sd lid ver by (simp add: fill_of_def)
  show ?thesis
  proof (cases "?k \<in> fill_ids w \<or> xe_account x \<noteq> sync_account w \<or> xe_filled_at x > now")
    case True
    then show ?thesis using same fill_effect_refl [OF good]
      by (auto simp: fill_step_def Let_def wp_simps exec_accounted_def)
  next
    case False
    note f = False
    show ?thesis
    proof (cases "exec_resolution w x")
      case (Some r)
      show ?thesis
      proof (cases "xr_decision r = ADMITTED")
        case True
        then show ?thesis
          using Some f new [OF _ fo]
          by (auto simp: fill_step_def Let_def wp_simps exec_resolution_def [symmetric] intended_def)
      next
        case False
        then show ?thesis
          using Some f fill_effect_refl [OF good]
          by (auto simp: fill_step_def Let_def wp_simps exec_resolution_def [symmetric] exec_accounted_def)
      qed
    next
      case None
      let ?st = "q_status execution_kind ?k (q_memory.truncate (sy_exec w))"
      have quar: "wp (quarantine_exec V x sd reason ar now) ?Q ?E w" for sd reason ar
      proof (rule wp_quarantine_exec [OF good])
        fix w' assume e: "fill_effect w w' []" and m: "map_of (qs_items (sy_exec w')) ?k \<noteq> None"
        then have "exec_accounted now w' x"
          using None f by (auto simp: exec_accounted_def exec_resolution_def resolution_for_def q_status_def fill_effect_def
              q_memory.truncate_def)
        with e show "?Q None w'" by simp
      qed (auto intro: exI [of _ "[]"])
      show ?thesis
      proof (cases "?st")
        case None': None
        have buy: "wp (write_new_fill V (fill_of x ''BUY'' ?k (Some v))) ?Q ?E w"
          if "Option.bind (latest (xe_client_order_id x)) or_policy_version = Some v" "?side = ''BUY''" for v
          by (rule new [OF _ fo]) (use that None f in \<open>auto simp: intended_def split: Option.bind_splits\<close>)
        have sell: "wp (write_new_fill V (fill_of x ?side l None)) ?Q ?E w"
          if "Option.bind (latest (xe_client_order_id x)) or_lot_id = Some l" "?side \<noteq> ''BUY''" for l
          by (rule new [OF _ fo]) (use that None f in \<open>auto simp: intended_def split: Option.bind_splits\<close>)
        show ?thesis
          using None None' f quar buy sell
          by (auto simp: fill_step_def Let_def wp_simps exec_resolution_def [symmetric] split: option.split)
      next
        case (Some st)
        have "exec_accounted now w x"
          using None Some f by (auto simp: exec_accounted_def exec_resolution_def resolution_for_def q_status_def split: if_splits)
        then show ?thesis
          using None Some f fill_effect_refl [OF good]
          by (auto simp: fill_step_def Let_def wp_simps exec_resolution_def [symmetric])
      qed
    qed
  qed
qed

lemma fill_effect_trans: "fill_effect w w1 fs \<Longrightarrow> fill_effect w1 w2 gs \<Longrightarrow> fill_effect w w2 (fs @ gs)"
  by (simp add: fill_effect_def)

lemma effect_ids: "fill_effect w w' fs \<Longrightarrow> fill_ids w' = fill_ids w \<union> fi_fill_id ` set fs"
  by (auto simp: fill_effect_def fill_ids_def)

lemma effect_resolution: "fill_effect w w' fs \<Longrightarrow> exec_resolution w' x = exec_resolution w x"
  by (simp add: fill_effect_def exec_resolution_def resolution_for_def q_memory.truncate_def)

lemma effect_intended: "fill_effect w w' fs \<Longrightarrow> intended latest w' x f = intended latest w x f"
  by (simp add: intended_def effect_resolution)

lemma effect_accounted: "fill_effect w w' fs \<Longrightarrow> exec_accounted now w z \<Longrightarrow> exec_accounted now w' z"
  using effect_ids [of w w' fs] effect_resolution [of w w' fs z]
  by (auto simp: exec_accounted_def q_status_def fill_effect_def q_memory.truncate_def exec_resolution_def resolution_for_def
      split: option.splits if_splits)

lemma recorded_accounted: "fill_effect w w' [f] \<Longrightarrow> fi_fill_id f = xe_execution_id x \<Longrightarrow> exec_accounted now w' x"
  using effect_ids [of w w' "[f]"] by (simp add: exec_accounted_def)

lemma fill_step_skips:
  "exec_accounted now w x \<Longrightarrow> fill_step V latest now (fill_ids w) x w = (w, Inr None)"
  by (auto simp: exec_accounted_def fill_step_def Let_def retW_def bindW_def getW_def exec_resolution_def split: option.splits)

interpretation fill_poll: poller xe_execution_id "fill_step V latest now" fill_ids ledger_good "exec_accounted now" for V latest now
proof unfold_locales
  fix w :: sync_state and x :: execution
  assume good: "ledger_good w"
  show "wp (fill_step V latest now (fill_ids w) x) (\<lambda>r w'. ledger_good w' \<and> exec_accounted now w' x
      \<and> (\<forall>z. exec_accounted now w z \<longrightarrow> exec_accounted now w' z)
      \<and> fill_ids w' = (case r of None \<Rightarrow> fill_ids w | Some _ \<Rightarrow> insert (xe_execution_id x) (fill_ids w))) (\<lambda>_ _. True) w"
  proof (rule wp_mono [OF wp_fill_step [OF good]])
    fix r w'
    assume r: "case r of None \<Rightarrow> fill_effect w w' [] \<and> exec_accounted now w' x
      | Some f \<Rightarrow> fill_effect w w' [f] \<and> intended latest w x f \<and> fi_fill_id f = xe_execution_id x"
    then obtain fs where eff: "fill_effect w w' fs" and fs: "fs = (case r of None \<Rightarrow> [] | Some f \<Rightarrow> [f])" by (auto split: option.splits)
    have "exec_accounted now w' x" using r recorded_accounted by (auto split: option.splits)
    with eff r fs show "ledger_good w' \<and> exec_accounted now w' x
        \<and> (\<forall>z. exec_accounted now w z \<longrightarrow> exec_accounted now w' z)
        \<and> fill_ids w' = (case r of None \<Rightarrow> fill_ids w | Some _ \<Rightarrow> insert (xe_execution_id x) (fill_ids w))"
      using effect_accounted [OF eff] effect_ids [OF eff] by (auto simp: fill_effect_def split: option.splits)
  qed simp
qed (rule fill_step_skips)

lemma sync_fills_eq:
  "sync_fills V (Inr xs) (Aware t) w
   = poll xe_execution_id (fill_step V (latest_order_record (lst_ledger (sy_store w))) t) (fill_ids w) xs w"
  by (simp add: sync_fills_def bindW_def getW_def liftW_def latest_orders_ledger [abs_def])

lemma wp_poll_fills:
  assumes "ledger_good w"
  shows "wp (poll xe_execution_id (fill_step V latest t) (fill_ids w) xs)
    (\<lambda>fs w'. fill_effect w w' fs \<and> (\<forall>f \<in> set fs. \<exists>x \<in> set xs. intended latest w x f))
    (\<lambda>_ w'. \<exists>fs. fill_effect w w' fs \<and> (\<forall>f \<in> set fs. \<exists>x \<in> set xs. intended latest w x f)) w"
proof -
  let ?ok = "\<lambda>fs. \<forall>f \<in> set fs. \<exists>x \<in> set xs. intended latest w x f"
  let ?I = "\<lambda>known fs w'. known = fill_ids w' \<and> fill_effect w w' fs \<and> ?ok fs"
  have "wp (poll xe_execution_id (fill_step V latest t) (fill_ids w) xs)
      (\<lambda>fs w'. \<exists>known. ?I known fs w') (\<lambda>_ w'. \<exists>fs. fill_effect w w' fs \<and> ?ok fs) w"
  proof (rule wp_poll)
    fix x fs known w1
    assume x: "x \<in> set xs" and I: "?I known fs w1"
    then have eff: "fill_effect w w1 fs" and k: "known = fill_ids w1" and ok: "?ok fs" by simp_all
    have good: "ledger_good w1" using eff by (simp add: fill_effect_def)
    show "wp (fill_step V latest t known x) (\<lambda>r. case r of None \<Rightarrow> ?I known fs
        | Some f \<Rightarrow> ?I (insert (xe_execution_id x) known) (fs @ [f])) (\<lambda>_ w'. \<exists>fs. fill_effect w w' fs \<and> ?ok fs) w1"
      unfolding k
    proof (rule wp_mono [OF wp_fill_step [OF good]])
      fix r w2
      assume "case r of None \<Rightarrow> fill_effect w1 w2 [] \<and> exec_accounted t w2 x
        | Some f \<Rightarrow> fill_effect w1 w2 [f] \<and> intended latest w1 x f \<and> fi_fill_id f = xe_execution_id x"
      then show "(case r of None \<Rightarrow> ?I (fill_ids w1) fs | Some f \<Rightarrow> ?I (insert (xe_execution_id x) (fill_ids w1)) (fs @ [f])) w2"
        using x ok fill_effect_trans [OF eff] effect_intended [OF eff] effect_ids [of w1 w2]
        by (cases r) (fastforce, force)
    next
      fix w2
      assume "\<exists>gs. fill_effect w1 w2 gs \<and> (\<forall>f \<in> set gs. intended latest w1 x f)"
      then obtain gs where gs: "fill_effect w1 w2 gs" "\<forall>f \<in> set gs. intended latest w1 x f" by blast
      have "fill_effect w w2 (fs @ gs)" by (rule fill_effect_trans [OF eff gs(1)])
      moreover have "?ok (fs @ gs)" using ok x gs(2) effect_intended [OF eff] by auto
      ultimately show "\<exists>fs. fill_effect w w2 fs \<and> ?ok fs" by blast
    qed
  qed (simp add: fill_effect_refl [OF assms])
  then show ?thesis by (auto elim: wp_mono)
qed

text \<open>
C32: Intent is never guessed: whatever a poll of the executions ends with, a broken write included, the ledger has
  only grown by fills of reported executions, with the executions' own data, and with the lot or policy version
  either of the operator's admission or of the latest order record of the same order, and these are the fills
  returned.
\<close>
theorem fills_never_guessed:
  assumes "ledger_ok (lst_ledger (sy_store w))" and "sync_fills V (Inr xs) (Aware t) w = (w', r)"
  shows "\<exists>new. le_fills (lst_ledger (sy_store w')) = le_fills (lst_ledger (sy_store w)) @ new
    \<and> (\<forall>f \<in> set new. \<exists>x \<in> set xs. intended (latest_order_record (lst_ledger (sy_store w))) w x f)
    \<and> (\<forall>fs. r = Inr fs \<longrightarrow> fs = new)"
proof -
  have good: "ledger_good w" using assms(1) by (simp add: ledger_good_def)
  show ?thesis
    using wp_poll_fills [OF good, of V "latest_order_record (lst_ledger (sy_store w))" t xs] assms(2)
    unfolding sync_fills_eq wp_def by (cases r) (auto simp: fill_effect_def)
qed

text \<open>
C33: No execution is dropped, and polling again is harmless: after a poll that returned, every reported execution
  is recorded, rejected by the operator, or quarantined and waiting for the operator, and a later poll of the same
  executions returns nothing and changes nothing, neither ledger nor quarantine nor audit log.
\<close>
theorem fills_accounted_for:
  assumes "ledger_ok (lst_ledger (sy_store w))" and "sync_fills V (Inr xs) (Aware t) w = (w', Inr fs)" and "t \<le> t'"
  shows "(\<forall>x \<in> set xs. exec_accounted t w' x) \<and> sync_fills V (Inr xs) (Aware t') w' = (w', Inr [])"
proof -
  have good: "ledger_good w" using assms(1) by (simp add: ledger_good_def)
  have one: "ledger_good w'" "\<forall>x \<in> set xs. exec_accounted t w' x"
    using fill_poll.poll_twice [OF good] assms(2) unfolding sync_fills_eq by blast+
  then have "\<forall>x \<in> set xs. exec_accounted t' w' x" using assms(3) by (auto simp: exec_accounted_def)
  then show ?thesis using one fill_poll.poll_skips [OF one(1)] by (simp add: sync_fills_eq)
qed

subsection \<open>Cash events\<close>

definition adjustment_ids :: "sync_state \<Rightarrow> string set" where
  "adjustment_ids w = known_cash_adjustment_ids (sy_store w)"

definition cash_resolution :: "sync_state \<Rightarrow> account_activity \<Rightarrow> cash_event_resolution option" where
  "cash_resolution w a = resolution_for (av_activity_id a) (q_memory.truncate (sy_cash w))"

definition cash_accounted :: "sync_state \<Rightarrow> account_activity \<Rightarrow> bool" where
  "cash_accounted w a \<longleftrightarrow> av_activity_id a \<in> adjustment_ids w \<or>
     (av_account a = sync_account w \<and>
      (case cash_resolution w a of
         Some r \<Rightarrow> cr_decision r \<noteq> ADMITTED
       | None \<Rightarrow> q_status cash_kind (av_activity_id a) (q_memory.truncate (sy_cash w)) = Some PENDING))"

text \<open>
  Why an activity was applied: the operator admitted it, or it is a small CAT fee, never seen before, that the
  broker posted after the opening balance was taken.
\<close>

definition justified :: "decimal \<Rightarrow> instant option \<Rightarrow> sync_state \<Rightarrow> account_activity \<Rightarrow> bool" where
  "justified cap established w a \<longleftrightarrow>
     (case cash_resolution w a of
        Some r \<Rightarrow> cr_decision r = ADMITTED
      | None \<Rightarrow> auto_admittable cap a \<and>
          (\<exists>c. av_created_at a = Some c \<and> (case established of None \<Rightarrow> True | Some t \<Rightarrow> t < c)))"

definition cash_effects :: "sync_state \<Rightarrow> sync_state \<Rightarrow> cash_adjustment list \<Rightarrow> bool" where
  "cash_effects w w' as \<longleftrightarrow> ledger_good w' \<and> sync_account w' = sync_account w
     \<and> le_adjustments (lst_ledger (sy_store w')) = le_adjustments (lst_ledger (sy_store w)) @ as
     \<and> qs_resolutions (sy_cash w') = qs_resolutions (sy_cash w)
     \<and> (\<forall>k. map_of (qs_items (sy_cash w)) k \<noteq> None \<longrightarrow> map_of (qs_items (sy_cash w')) k \<noteq> None)"

lemma cash_effects_refl: "ledger_good w \<Longrightarrow> cash_effects w w []"
  by (simp add: cash_effects_def)

lemma cash_effects_trans: "cash_effects w w1 as \<Longrightarrow> cash_effects w1 w2 bs \<Longrightarrow> cash_effects w w2 (as @ bs)"
  by (simp add: cash_effects_def)

lemma cash_effects_ids: "cash_effects w w' as \<Longrightarrow> adjustment_ids w' = adjustment_ids w \<union> cj_adjustment_id ` set as"
  by (auto simp: cash_effects_def adjustment_ids_def known_cash_adjustment_ids_def)

lemma cash_effects_resolution: "cash_effects w w' as \<Longrightarrow> cash_resolution w' a = cash_resolution w a"
  by (simp add: cash_effects_def cash_resolution_def resolution_for_def q_memory.truncate_def)

lemma cash_effects_accounted: "cash_effects w w' as \<Longrightarrow> cash_accounted w z \<Longrightarrow> cash_accounted w' z"
  using cash_effects_ids [of w w' as] cash_effects_resolution [of w w' as z]
  by (auto simp: cash_accounted_def q_status_def cash_effects_def q_memory.truncate_def cash_resolution_def resolution_for_def
      split: option.splits if_splits)

lemma record_adjustment_new:
  assumes "ledger_ok l" and "record_cash_adjustment l a = Inr l'" and "cj_adjustment_id a \<notin> cj_adjustment_id ` set (le_adjustments l)"
  shows "ledger_ok l'" and "le_account l' = le_account l" and "le_adjustments l' = le_adjustments l @ [a]"
  using adjustments.step [OF assms(1,2)] assms(2,3)
  by (auto simp: record_cash_adjustment_def bindE_eq_Inr split: if_splits)

lemma wp_apply_cash:
  assumes "ledger_good w" and "av_activity_id a \<notin> adjustment_ids w"
    and audit: "\<And>Q E w. (\<And>s. Q () (w\<lparr>sy_sys := s\<rparr>)) \<Longrightarrow> (\<And>e s. E e (w\<lparr>sy_sys := s\<rparr>)) \<Longrightarrow> wp audit Q E w"
    and "\<And>w'. cash_effects w w' [cash_adjustment_for a] \<Longrightarrow> Q (Some (cash_adjustment_for a)) w'"
    and "\<And>e w' as. cash_effects w w' as \<Longrightarrow> set as \<subseteq> {cash_adjustment_for a} \<Longrightarrow> E e w'"
  shows "wp (apply_cash_event V a audit) Q E w"
  unfolding apply_cash_event_def on_store_def write_cash_adjustment_def wp_part wp_ret wp_bind [of "on_part _ _ _"]
proof (rule wp_validated_write)
  fix l x d
  assume l: "record_cash_adjustment (lst_ledger (sy_store w)) (cash_adjustment_for a) = Inr l"
  have fresh: "cj_adjustment_id (cash_adjustment_for a) \<notin> cj_adjustment_id ` set (le_adjustments (lst_ledger (sy_store w)))"
    using assms(2) by (auto simp: cash_adjustment_for_def adjustment_ids_def known_cash_adjustment_ids_def)
  have eff: "cash_effects w (w\<lparr>sy_store := sy_store w\<lparr>lst_ledger := l, lst_file := x, lst_disk := d\<rparr>, sy_sys := s\<rparr>) [cash_adjustment_for a]" for s
    using assms(1) record_adjustment_new [OF _ l fresh] by (simp add: cash_effects_def ledger_good_def sync_account_def)
  show "wp (bindW audit (\<lambda>_. retW (Some (cash_adjustment_for a)))) Q E (w\<lparr>sy_store := sy_store w\<lparr>lst_ledger := l, lst_file := x, lst_disk := d\<rparr>\<rparr>)"
    unfolding wp_bind wp_ret by (rule audit) (use assms(4) [OF eff] assms(5) [OF eff] in simp_all)
  show "E e (w\<lparr>sy_store := sy_store w\<lparr>lst_ledger := l, lst_file := x, lst_disk := d\<rparr>\<rparr>)" for e
    using assms(5) [OF eff [of "sy_sys w"], of e] by simp
next
  show "E e (w\<lparr>sy_store := sy_store w\<rparr>)" for e
    using assms(5) [OF cash_effects_refl [OF assms(1)]] by simp
qed

lemma wp_quarantine_cash:
  assumes "ledger_good w"
    and "\<And>w'. cash_effects w w' [] \<Longrightarrow> map_of (qs_items (sy_cash w')) (av_activity_id a) \<noteq> None \<Longrightarrow> Q None w'"
    and "\<And>e w'. cash_effects w w' [] \<Longrightarrow> E e w'"
  shows "wp (bindW (on_cash (cash_quarantine enc a reason now)) (\<lambda>_. bindW (audit_cash_quarantine V a reason now) (\<lambda>_. retW None))) Q E w"
  unfolding on_cash_def cash_quarantine_def wp_bind wp_part
proof (rule wp_q_quarantine)
  let ?k = "qk_key cash_kind (quarantined_cash a reason now)"
  have k: "?k = av_activity_id a"
    by (simp add: cash_kind_def quarantined_cash_def account_activity.extend_def quarantined_cash_event.fields_def)
  fix s' :: cash_quarantine
  assume s': "qs_account s' = qs_account (sy_cash w)" "qs_resolutions s' = qs_resolutions (sy_cash w)"
    "qs_items s' = (if map_of (qs_items (sy_cash w)) ?k = None then
        AList.update ?k (quarantined_cash a reason now) (qs_items (sy_cash w)) else qs_items (sy_cash w))"
  have eff: "cash_effects w (w\<lparr>sy_cash := s', sy_sys := s\<rparr>) []" for s
    using assms(1) s' by (simp add: cash_effects_def ledger_good_def sync_account_def)
  have mem: "map_of (qs_items s') (av_activity_id a) \<noteq> None" using s'(3) k by simp
  show "wp (audit_cash_quarantine V a reason now) (\<lambda>_. wp (retW None) Q E) E (w\<lparr>sy_cash := s'\<rparr>)"
    unfolding audit_cash_quarantine_def wp_ret
    by (rule wp_sync_log; use assms(2) [OF eff] assms(3) [OF eff] mem in simp)
next
  fix e and s' :: cash_quarantine
  assume "qs_account s' = qs_account (sy_cash w)" "qs_resolutions s' = qs_resolutions (sy_cash w)"
    "qs_items s' = qs_items (sy_cash w)"
  then have "cash_effects w (w\<lparr>sy_cash := s'\<rparr>) []" using assms(1) by (simp add: cash_effects_def ledger_good_def sync_account_def)
  then show "E e (w\<lparr>sy_cash := s'\<rparr>)" by (rule assms(3))
qed

lemma refusal_None:
  "refuse_admission_reason fmt repr k created established = None \<longleftrightarrow>
   (\<exists>c. created = Some c \<and> (case established of None \<Rightarrow> True | Some t \<Rightarrow> t < c))"
  by (auto simp: refuse_admission_reason_def split: option.splits)

lemma wp_cash_step:
  assumes good: "ledger_good w"
  shows "wp (cash_step V cap established now (adjustment_ids w) a)
    (\<lambda>r w'. (case r of None \<Rightarrow> cash_effects w w' [] \<and> cash_accounted w' a
       | Some adj \<Rightarrow> adj = cash_adjustment_for a \<and> cash_effects w w' [adj] \<and> justified cap established w a))
    (\<lambda>e w'. \<exists>as. cash_effects w w' as \<and> set as \<subseteq> {cash_adjustment_for a} \<and> (as \<noteq> [] \<longrightarrow> justified cap established w a)) w"
  (is "wp _ ?Q ?E w")
proof -
  let ?k = "av_activity_id a"
  have same: "?E e w" for e using cash_effects_refl [OF good] by (intro exI [of _ "[]"]) simp
  have applied: "wp (apply_cash_event V a audit) ?Q ?E w"
    if "justified cap established w a" "?k \<notin> adjustment_ids w"
      "audit = audit_admission V a now \<or> audit = audit_auto_admission V a cap now" for audit
    by (rule wp_apply_cash [OF good that(2)])
      (use that in \<open>auto simp: audit_admission_def audit_auto_admission_def intro: wp_sync_log\<close>)
  show ?thesis
  proof (cases "?k \<in> adjustment_ids w \<or> av_account a \<noteq> sync_account w")
    case True
    then show ?thesis using same cash_effects_refl [OF good]
      by (auto simp: cash_step_def Let_def wp_simps cash_accounted_def)
  next
    case False
    note f = False
    show ?thesis
    proof (cases "cash_resolution w a")
      case (Some r)
      then show ?thesis
        using f applied [of "audit_admission V a now"] cash_effects_refl [OF good]
        by (cases "cr_decision r = ADMITTED")
          (auto simp: cash_step_def Let_def wp_simps cash_resolution_def [symmetric] justified_def cash_accounted_def)
    next
      case None
      have quar: "wp (bindW (on_cash (cash_quarantine enc a reason now)) (\<lambda>_. bindW (audit_cash_quarantine V a reason now) (\<lambda>_. retW None)))
          ?Q ?E w" for enc reason
      proof (rule wp_quarantine_cash [OF good])
        fix w' assume e: "cash_effects w w' []" and m: "map_of (qs_items (sy_cash w')) ?k \<noteq> None"
        then have "cash_accounted w' a"
          using None f by (auto simp: cash_accounted_def cash_resolution_def resolution_for_def q_status_def cash_effects_def
              q_memory.truncate_def)
        with e show "?Q None w'" by simp
      qed (auto intro: exI [of _ "[]"])
      show ?thesis
      proof (cases "q_status cash_kind ?k (q_memory.truncate (sy_cash w))")
        case None': None
        have auto: "wp (apply_cash_event V a (audit_auto_admission V a cap now)) ?Q ?E w"
          if "auto_admittable cap a" "refuse_admission_reason (ev_iso (sv_env V)) (sv_repr V) ?k (av_created_at a) established = None"
          by (rule applied) (use that None f in \<open>simp_all add: justified_def refusal_None\<close>)
        show ?thesis
          using None None' f quar auto
          by (simp add: cash_step_def Let_def wp_bind wp_get cash_resolution_def [symmetric])
      next
        case (Some st)
        have "cash_accounted w a"
          using None Some f by (auto simp: cash_accounted_def cash_resolution_def resolution_for_def q_status_def split: if_splits)
        then show ?thesis
          using None Some f cash_effects_refl [OF good]
          by (auto simp: cash_step_def Let_def wp_simps cash_resolution_def [symmetric])
      qed
    qed
  qed
qed

lemma cash_step_skips:
  "cash_accounted w a \<Longrightarrow> cash_step V cap established now (adjustment_ids w) a w = (w, Inr None)"
  by (auto simp: cash_accounted_def cash_step_def Let_def retW_def bindW_def getW_def cash_resolution_def split: option.splits)

interpretation cash_poll: poller av_activity_id "cash_step V cap established now" adjustment_ids ledger_good cash_accounted
  for V cap established now
proof unfold_locales
  fix w :: sync_state and a :: account_activity
  assume good: "ledger_good w"
  have id: "cj_adjustment_id (cash_adjustment_for a) = av_activity_id a" by (simp add: cash_adjustment_for_def)
  show "wp (cash_step V cap established now (adjustment_ids w) a) (\<lambda>r w'. ledger_good w' \<and> cash_accounted w' a
      \<and> (\<forall>z. cash_accounted w z \<longrightarrow> cash_accounted w' z)
      \<and> adjustment_ids w' = (case r of None \<Rightarrow> adjustment_ids w | Some _ \<Rightarrow> insert (av_activity_id a) (adjustment_ids w))) (\<lambda>_ _. True) w"
  proof (rule wp_mono [OF wp_cash_step [OF good]])
    fix r w'
    assume "case r of None \<Rightarrow> cash_effects w w' [] \<and> cash_accounted w' a
       | Some adj \<Rightarrow> adj = cash_adjustment_for a \<and> cash_effects w w' [adj] \<and> justified cap established w a"
    then show "ledger_good w' \<and> cash_accounted w' a \<and> (\<forall>z. cash_accounted w z \<longrightarrow> cash_accounted w' z)
      \<and> adjustment_ids w' = (case r of None \<Rightarrow> adjustment_ids w | Some _ \<Rightarrow> insert (av_activity_id a) (adjustment_ids w))"
      using cash_effects_accounted [of w w'] cash_effects_ids [of w w'] id
      by (cases r) (auto simp: cash_effects_def cash_accounted_def [of w' a])
  qed simp
qed (rule cash_step_skips)

lemma sync_cash_eq:
  "sync_cash_events V (Inr as) cap now w
   = poll av_activity_id (cash_step V cap (lst_established (sy_store w)) now) (adjustment_ids w) as w"
  by (simp add: sync_cash_events_def bindW_def getW_def liftW_def adjustment_ids_def)

lemma justified_cong: "cash_effects w w' as \<Longrightarrow> justified cap established w' a = justified cap established w a"
  by (simp add: justified_def cash_effects_resolution)

lemma wp_poll_cash:
  assumes "ledger_good w"
  shows "wp (poll av_activity_id (cash_step V cap established now) (adjustment_ids w) acts)
    (\<lambda>as w'. cash_effects w w' as \<and> (\<forall>adj \<in> set as. \<exists>a \<in> set acts. adj = cash_adjustment_for a \<and> justified cap established w a))
    (\<lambda>_ w'. \<exists>as. cash_effects w w' as \<and> (\<forall>adj \<in> set as. \<exists>a \<in> set acts. adj = cash_adjustment_for a \<and> justified cap established w a)) w"
proof -
  let ?ok = "\<lambda>as. \<forall>adj \<in> set as. \<exists>a \<in> set acts. adj = cash_adjustment_for a \<and> justified cap established w a"
  let ?I = "\<lambda>known as w'. known = adjustment_ids w' \<and> cash_effects w w' as \<and> ?ok as"
  have "wp (poll av_activity_id (cash_step V cap established now) (adjustment_ids w) acts)
      (\<lambda>as w'. \<exists>known. ?I known as w') (\<lambda>_ w'. \<exists>as. cash_effects w w' as \<and> ?ok as) w"
  proof (rule wp_poll)
    fix a as known w1
    assume a: "a \<in> set acts" and I: "?I known as w1"
    then have eff: "cash_effects w w1 as" and k: "known = adjustment_ids w1" and ok: "?ok as" by simp_all
    have good: "ledger_good w1" using eff by (simp add: cash_effects_def)
    have id: "cj_adjustment_id (cash_adjustment_for a) = av_activity_id a" by (simp add: cash_adjustment_for_def)
    show "wp (cash_step V cap established now known a) (\<lambda>r. case r of None \<Rightarrow> ?I known as
        | Some adj \<Rightarrow> ?I (insert (av_activity_id a) known) (as @ [adj])) (\<lambda>_ w'. \<exists>as. cash_effects w w' as \<and> ?ok as) w1"
      unfolding k
    proof (rule wp_mono [OF wp_cash_step [OF good]])
      fix r w2
      assume r: "case r of None \<Rightarrow> cash_effects w1 w2 [] \<and> cash_accounted w2 a
        | Some adj \<Rightarrow> adj = cash_adjustment_for a \<and> cash_effects w1 w2 [adj] \<and> justified cap established w1 a"
      show "(case r of None \<Rightarrow> ?I (adjustment_ids w1) as | Some adj \<Rightarrow> ?I (insert (av_activity_id a) (adjustment_ids w1)) (as @ [adj])) w2"
      proof (cases r)
        case None
        with r have "cash_effects w1 w2 []" by simp
        with None ok show ?thesis using cash_effects_trans [OF eff, of w2 "[]"] cash_effects_ids [of w1 w2 "[]"] by simp
      next
        case (Some adj)
        with r have adj: "adj = cash_adjustment_for a" "cash_effects w1 w2 [adj]" "justified cap established w a"
          using justified_cong [OF eff] by auto
        with Some ok a show ?thesis
          using cash_effects_trans [OF eff adj(2)] cash_effects_ids [OF adj(2)] id by auto
      qed
    next
      fix w2
      assume "\<exists>bs. cash_effects w1 w2 bs \<and> set bs \<subseteq> {cash_adjustment_for a} \<and> (bs \<noteq> [] \<longrightarrow> justified cap established w1 a)"
      then obtain bs where bs: "cash_effects w1 w2 bs" "set bs \<subseteq> {cash_adjustment_for a}" "bs \<noteq> [] \<longrightarrow> justified cap established w1 a"
        by blast
      have "cash_effects w w2 (as @ bs)" by (rule cash_effects_trans [OF eff bs(1)])
      moreover have "?ok (as @ bs)" using ok a bs(2,3) justified_cong [OF eff] by (cases "bs = []") auto
      ultimately show "\<exists>as. cash_effects w w2 as \<and> ?ok as" by blast
    qed
  qed (simp add: cash_effects_refl [OF assms])
  then show ?thesis by (auto elim: wp_mono)
qed

text \<open>
C34: Cash only moves with a reason: whatever a poll of the cash events ends with, the ledger has only grown by
  adjustments for reported activities that the operator admitted, or that are CAT fees, a debit within the
  configured ceiling, never quarantined before, which the broker posted after the opening balance was taken.
\<close>
theorem cash_only_with_reason:
  assumes "ledger_ok (lst_ledger (sy_store w))" and "sync_cash_events V (Inr acts) cap now w = (w', r)"
  shows "\<exists>new. le_adjustments (lst_ledger (sy_store w')) = le_adjustments (lst_ledger (sy_store w)) @ new
    \<and> (\<forall>adj \<in> set new. \<exists>a \<in> set acts. adj = cash_adjustment_for a \<and> justified cap (lst_established (sy_store w)) w a)
    \<and> (\<forall>as. r = Inr as \<longrightarrow> as = new)"
proof -
  have good: "ledger_good w" using assms(1) by (simp add: ledger_good_def)
  show ?thesis
    using wp_poll_cash [OF good, of V cap "lst_established (sy_store w)" now acts] assms(2)
    unfolding sync_cash_eq wp_def by (cases r) (auto simp: cash_effects_def)
qed

text \<open>
  No cash event is dropped, and polling again is harmless: after a poll that returned, every reported activity is
  recorded, rejected by the operator, or quarantined and waiting, and polling the same activities again, whatever
  the ceiling is then, returns nothing and changes nothing.
\<close>
theorem cash_accounted_for:
  assumes "ledger_ok (lst_ledger (sy_store w))" and "sync_cash_events V (Inr acts) cap now w = (w', Inr as)"
  shows "(\<forall>a \<in> set acts. cash_accounted w' a) \<and> sync_cash_events V (Inr acts) cap' now' w' = (w', Inr [])"
proof -
  have good: "ledger_good w" using assms(1) by (simp add: ledger_good_def)
  have one: "ledger_good w'" "\<forall>a \<in> set acts. cash_accounted w' a"
    using cash_poll.poll_twice [OF good] assms(2) unfolding sync_cash_eq by blast+
  then show ?thesis using cash_poll.poll_skips [OF one(1)] by (simp add: sync_cash_eq)
qed

end
