(* ===== verification/SyncOrders.thy ===== *)
theory SyncOrders
  imports SyncProps
begin

text \<open>
  agent/fill\_sync.py, \<open>close_terminal_orders\<close>: which orders stay open, and two ways in which a poll of the
  executions cannot go on: an execution reported after its order was closed, and an admission with a wrong lot.
\<close>

lemma wp_for_prefix:
  assumes "I [] [] w" and "\<And>x seen ys rest w. xs = seen @ x # rest \<Longrightarrow> I seen ys w \<Longrightarrow> wp (f x) (\<lambda>y. I (seen @ [x]) (ys @ [y])) E w"
  shows "wp (forW f xs) (I xs) E w"
proof -
  have "wp (forW f zs) (\<lambda>vs. I (seen @ zs) (ys @ vs)) E w" if "xs = seen @ zs" "I seen ys w" for seen ys zs
    using that
  proof (induction zs arbitrary: seen ys w)
    case Nil
    then show ?case by (simp add: wp_simps)
  next
    case (Cons z zs)
    have "wp (forW f zs) (\<lambda>vs. I ((seen @ [z]) @ zs) ((ys @ [y]) @ vs)) E w1" if "I (seen @ [z]) (ys @ [y]) w1" for y w1
      using Cons.prems(1) that by (intro Cons.IH) simp_all
    then have "wp (forW f zs) (\<lambda>vs. I (seen @ z # zs) (ys @ y # vs)) E w1" if "I (seen @ [z]) (ys @ [y]) w1" for y w1
      using that by simp
    then show ?case using assms(2) [OF Cons.prems] by (auto simp: wp_simps elim: wp_mono)
  qed
  from this [of "[]" xs "[]"] assms(1) show ?thesis by simp
qed

definition order_open :: "sync_state \<Rightarrow> string \<Rightarrow> bool" where
  "order_open w cid \<longleftrightarrow> cid \<in> set (ls_open_order_ids (sy_store w))"

definition terminal :: "(string \<Rightarrow> broker_order option result) \<Rightarrow> string \<Rightarrow> bool" where
  "terminal by_id cid \<longleftrightarrow> (\<exists>q. by_id cid = Inr (Some q) \<and> bo_status q \<in> set TERMINAL_ORDER_STATUSES)"

lemma order_open_latest:
  "order_open w cid \<longleftrightarrow> (\<exists>r. latest_order_record (lst_ledger (sy_store w)) cid = Some r \<and> or_status r = ''OPEN'')"
proof -
  have "order_open w cid \<longleftrightarrow> map_of (latest_status (le_order_records (lst_ledger (sy_store w)))) cid = Some ''OPEN''"
    using dict_mem [OF latest_status_keys, of cid "''OPEN''" "le_order_records (lst_ledger (sy_store w))"]
    by (force simp: order_open_def ls_open_order_ids_def open_order_ids_def)
  then show ?thesis
    using latest_status_lookup [of "le_order_records (lst_ledger (sy_store w))" cid "lst_ledger (sy_store w)"] by auto
qed

definition closed_record :: "string \<Rightarrow> string \<Rightarrow> instant \<Rightarrow> order_record" where
  "closed_record acct cid now = \<lparr> or_client_order_id = cid, or_account = acct, or_status = ''CLOSED'', or_at = now,
     or_lot_id = None, or_policy_version = None \<rparr>"

text \<open>The state after some of the open orders were asked about: those the broker is done with have a closing record.\<close>

definition closed_so_far ::
  "(string \<Rightarrow> broker_order option result) \<Rightarrow> instant \<Rightarrow> sync_state \<Rightarrow> string list \<Rightarrow> sync_state \<Rightarrow> bool" where
  "closed_so_far by_id now w seen w' \<longleftrightarrow>
     lst_ledger (sy_store w') = (lst_ledger (sy_store w))\<lparr>le_order_records := le_order_records (lst_ledger (sy_store w))
        @ map (\<lambda>cid. closed_record (sync_account w) cid now) (filter (terminal by_id) seen)\<rparr>
     \<and> sy_exec w' = sy_exec w \<and> sy_cash w' = sy_cash w \<and> sy_sys w' = sy_sys w"

lemma closed_account: "closed_so_far by_id now w seen w' \<Longrightarrow> sync_account w' = sync_account w"
  by (simp add: closed_so_far_def sync_account_def)

lemma wp_close_order:
  assumes "closed_so_far by_id now w seen w1"
  shows "wp (close_order V by_id now cid) (\<lambda>rs w'. closed_so_far by_id now w (seen @ [cid]) w'
      \<and> rs = (if terminal by_id cid then [closed_record (sync_account w) cid now] else [])) (\<lambda>_ _. True) w1"
proof (cases "by_id cid")
  case (Inr reported)
  show ?thesis
  proof (cases reported)
    case (Some q)
    note acct = closed_account [OF assms]
    have frame: "closed_so_far by_id now w (seen @ [cid])
        (w1\<lparr>sy_store := (sy_store w1)\<lparr>lst_ledger := (lst_ledger (sy_store w1))\<lparr>le_order_records :=
            le_order_records (lst_ledger (sy_store w1)) @ [closed_record (sync_account w) cid now]\<rparr>, lst_file := x, lst_disk := d\<rparr>\<rparr>)"
      if "terminal by_id cid" for x d
      using assms that by (simp add: closed_so_far_def)
    have rec: "record_order_status (lst_ledger (sy_store w1)) (closed_record (sync_account w) cid now)
        = Inr ((lst_ledger (sy_store w1))\<lparr>le_order_records := le_order_records (lst_ledger (sy_store w1)) @ [closed_record (sync_account w) cid now]\<rparr>)"
      using acct by (simp add: record_order_status_def closed_record_def sync_account_def)
    show ?thesis
    proof (cases "bo_status q \<in> set TERMINAL_ORDER_STATUSES")
      case True
      then have t: "terminal by_id cid" using Inr Some by (simp add: terminal_def)
      have "wp (write_order_record (sv_store_row V) (closed_record (sync_account w) cid now))
          (\<lambda>_ s. closed_so_far by_id now w (seen @ [cid]) (w1\<lparr>sy_store := s\<rparr>)) (\<lambda>_ _. True) (sy_store w1)"
        unfolding write_order_record_def by (simp add: wp_simps rec, rule wp_append_frame) (simp_all add: frame [OF t])
      then show ?thesis
        using True t acct
        by (auto simp: close_order_def wp_simps Inr Some on_store_def closed_record_def Let_def elim: wp_mono)
    next
      case False
      then have t: "\<not> terminal by_id cid" using Inr Some by (simp add: terminal_def)
      show ?thesis
        using False t assms by (simp add: close_order_def wp_simps Inr Some closed_so_far_def)
    qed
  next
    case None
    then have "\<not> terminal by_id cid" using Inr by (simp add: terminal_def)
    then show ?thesis using assms by (simp add: close_order_def wp_simps Inr None closed_so_far_def)
  qed
qed (simp add: close_order_def wp_simps)

lemma wp_close_all:
  "wp (close_terminal_orders V by_id now) (\<lambda>rs w'. closed_so_far by_id now w (sort (ls_open_order_ids (sy_store w))) w'
     \<and> rs = map (\<lambda>cid. closed_record (sync_account w) cid now) (filter (terminal by_id) (sort (ls_open_order_ids (sy_store w)))))
   (\<lambda>_ _. True) w"
  unfolding close_terminal_orders_def wp_bind wp_get wp_ret
proof (rule wp_mono [OF wp_for_prefix [where I = "\<lambda>seen rss w'. closed_so_far by_id now w seen w'
    \<and> concat rss = map (\<lambda>cid. closed_record (sync_account w) cid now) (filter (terminal by_id) seen)"]])
  show "closed_so_far by_id now w [] w \<and> concat [] = map (\<lambda>cid. closed_record (sync_account w) cid now) (filter (terminal by_id) [])"
    by (simp add: closed_so_far_def)
next
  fix cid seen rss rest w1
  assume "closed_so_far by_id now w seen w1 \<and> concat rss = map (\<lambda>cid. closed_record (sync_account w) cid now) (filter (terminal by_id) seen)"
  then show "wp (close_order V by_id now cid) (\<lambda>rs w'. closed_so_far by_id now w (seen @ [cid]) w'
      \<and> concat (rss @ [rs]) = map (\<lambda>cid. closed_record (sync_account w) cid now) (filter (terminal by_id) (seen @ [cid]))) (\<lambda>_ _. True) w1"
    by (auto elim!: wp_mono [OF wp_close_order])
qed auto

lemma latest_after_closing:
  assumes "closed_so_far by_id now w seen w'"
  shows "latest_order_record (lst_ledger (sy_store w')) cid =
    (if cid \<in> set seen \<and> terminal by_id cid then Some (closed_record (sync_account w) cid now)
     else latest_order_record (lst_ledger (sy_store w)) cid)"
proof -
  let ?l = "lst_ledger (sy_store w)"
  have "latest_order_record (?l\<lparr>le_order_records := le_order_records ?l @ map (\<lambda>cid. closed_record (sync_account w) cid now) cs\<rparr>) cid
      = (if cid \<in> set cs then Some (closed_record (sync_account w) cid now) else latest_order_record ?l cid)" for cs
  proof (induction cs rule: rev_induct)
    case (snoc c cs)
    have "latest_order_record (?l\<lparr>le_order_records := (le_order_records ?l @ map (\<lambda>cid. closed_record (sync_account w) cid now) cs)
        @ [closed_record (sync_account w) c now]\<rparr>) cid
      = (if cid \<in> set (cs @ [c]) then Some (closed_record (sync_account w) cid now) else latest_order_record ?l cid)"
      unfolding latest_record_snoc snoc.IH by (simp add: closed_record_def)
    then show ?case by simp
  qed simp
  from this [of "filter (terminal by_id) seen"] show ?thesis using assms by (auto simp: closed_so_far_def)
qed

text \<open>
  C0: An order is closed exactly when the broker is done with it: after a call that returned, an order is open exactly
  if it was open and the broker reports no terminal status of it (an order it does not report at all stays open),
  and the records returned are those of the orders that were closed.
\<close>
theorem orders_closed_exactly:
  assumes "close_terminal_orders V by_id now w = (w', Inr rs)"
  shows "(order_open w' cid \<longleftrightarrow> order_open w cid \<and> \<not> terminal by_id cid)
    \<and> set (map or_client_order_id rs) = {cid. order_open w cid \<and> terminal by_id cid}"
proof -
  have *: "closed_so_far by_id now w (sort (ls_open_order_ids (sy_store w))) w'"
    "rs = map (\<lambda>cid. closed_record (sync_account w) cid now) (filter (terminal by_id) (sort (ls_open_order_ids (sy_store w))))"
    using wp_resultD [OF wp_close_all assms] by auto
  have "order_open w' cid \<longleftrightarrow> order_open w cid \<and> \<not> terminal by_id cid"
    using latest_after_closing [OF *(1), of cid] unfolding order_open_latest [of w'] order_open_latest [of w]
    by (auto simp: closed_record_def order_open_latest [symmetric] order_open_def)
  moreover have "set (map or_client_order_id rs) = {cid. order_open w cid \<and> terminal by_id cid}"
    by (auto simp: *(2) closed_record_def order_open_def)
  ultimately show ?thesis by blast
qed

text \<open>
C35: C0: A fill reported after its order was closed loses its intent: closing writes an order record without lot and
  policy version, and a poll looks at the latest record only, so an execution of that order reported later is
  quarantined for the operator although its order was staged with everything it needs.
\<close>
theorem late_fill_loses_intent:
  assumes "ledger_ok (lst_ledger (sy_store w))" and "close_terminal_orders V by_id now w = (w1, Inr rs)"
    and "order_open w (xe_client_order_id x)" and "terminal by_id (xe_client_order_id x)"
    and "xe_execution_id x \<notin> fill_ids w" and "exec_resolution w x = None"
    and "sync_fills V (Inr [x]) (Aware t) w1 = (w2, Inr fs)"
  shows "fs = [] \<and> le_fills (lst_ledger (sy_store w2)) = le_fills (lst_ledger (sy_store w))
    \<and> q_status execution_kind (xe_execution_id x) (q_memory.truncate (sy_exec w2)) = Some PENDING"
proof -
  have c: "closed_so_far by_id now w (sort (ls_open_order_ids (sy_store w))) w1"
    using wp_resultD [OF wp_close_all assms(2)] by blast
  let ?latest = "latest_order_record (lst_ledger (sy_store w1))"
  have latest: "?latest (xe_client_order_id x) = Some (closed_record (sync_account w) (xe_client_order_id x) now)"
    using latest_after_closing [OF c, of "xe_client_order_id x"] assms(3,4) by (simp add: order_open_def)
  have res: "exec_resolution w1 x = None" using c assms(6) by (simp add: closed_so_far_def exec_resolution_def)
  have none: "\<not> intended ?latest w1 x f" for f
    using latest res by (auto simp: intended_def Let_def closed_record_def)
  have same: "le_fills (lst_ledger (sy_store w1)) = le_fills (lst_ledger (sy_store w))" using c by (simp add: closed_so_far_def)
  have ok: "ledger_ok (lst_ledger (sy_store w1))"
    using assms(1) c by (simp add: closed_so_far_def ledger_ok_def fill_ok_def)
  then have good: "ledger_good w1" by (simp add: ledger_good_def)
  have "fill_effect w1 w2 fs \<and> (\<forall>f \<in> set fs. \<exists>x' \<in> set [x]. intended ?latest w1 x' f)"
    using wp_resultD [OF wp_poll_fills [OF good, of V ?latest t "[x]"]] assms(7) unfolding sync_fills_eq by blast
  then have eff: "fill_effect w1 w2 fs" "fs = []" using none by (auto simp: set_empty [symmetric] simp del: set_empty)
  have "exec_accounted t w2 x" using fill_poll.poll_twice [OF good] assms(7) unfolding sync_fills_eq by fastforce
  moreover have "xe_execution_id x \<notin> fill_ids w2" using assms(5) eff same by (simp add: fill_effect_def fill_ids_def)
  moreover have "exec_resolution w2 x = None" using effect_resolution [OF eff(1)] res by simp
  ultimately show ?thesis using eff same by (simp add: exec_accounted_def fill_effect_def)
qed

text \<open>
  C0: A mistaken admission stops the account for good: when the operator admits an execution with a lot (or policy
  version) the ledger refuses, every later poll that reaches it raises the ledger's error and records nothing, and no
  admission, rejection or quarantine the operator can still make changes that.
\<close>
theorem wrong_admission_blocks_sync:
  assumes "exec_resolution w x = Some r" and "xr_decision r = ADMITTED" and "intended latest w x f"
    and "record_fill (lst_ledger (sy_store w)) f = Inl e"
    and "xe_execution_id x \<notin> fill_ids w" and "xe_account x = sync_account w" and "xe_filled_at x \<le> t"
    and "w' = w\<lparr>sy_exec := fold (exec_call enc) ops (sy_exec w)\<rparr>"
  shows "sync_fills V (Inr (x # xs)) (Aware t) w' = (w', Inl e)"
proof -
  have res: "exec_resolution w' x = Some r"
    using decided_stays [where call = "exec_call enc", OF exec_call_eq, of "sy_exec w" "xe_execution_id x" r ops] assms(1,8)
    by (simp add: exec_resolution_def resolution_for_def q_memory.truncate_def)
  have led: "sy_store w' = sy_store w" using assms(8) by simp
  have "write_new_fill V f w' = (w', Inl e)"
    using assms(4) led
    by (simp add: write_new_fill_def on_store_def on_part_def write_fill_def bindW_def getW_def validate_def)
  then have "fill_step V lt t (fill_ids w') x w' = (w', Inl e)" for lt
    using assms(2,3,5,6,7) res led assms(1)
    by (auto simp: fill_step_def Let_def bindW_def getW_def exec_resolution_def [symmetric] intended_def fill_ids_def sync_account_def)
  then show ?thesis by (simp add: sync_fills_eq bindW_def)
qed

subsection \<open>An account\<close>

definition ex_sync_env :: sync_env where
  "ex_sync_env = \<lparr> sv_env = \<lparr> ev_sha = (\<lambda>_. []), ev_dumps = (\<lambda>_. []), ev_audit_row = ae_action, ev_mode_row = mc_mode,
       ev_message = (\<lambda>_. []), ev_iso = (\<lambda>_. []), ev_iso_date = (\<lambda>_. []), ev_str = (\<lambda>_. []), ev_warning = (\<lambda>_. []),
       ev_correlation = None \<rparr>, sv_store_row = (\<lambda>_. []), sv_exec_row = (\<lambda>_. []), sv_cash_row = (\<lambda>_. []), sv_repr = id \<rparr>"

definition ex_sync :: "order_record list \<Rightarrow> sync_state" where
  "ex_sync rs = \<lparr> sy_sys = \<lparr> wd_modes = \<lparr> ms_history = [], ms_file = None, ms_truncated = None \<rparr>,
       wd_log = \<lparr> al_events = [], al_file = None, al_truncated = None \<rparr>,
       wd_svc = \<lparr> as_expiration = 1, as_min_display = 0, as_max_per_day = 1, as_price_band_pct = 1, as_tokens = [] \<rparr>, wd_disk = [] \<rparr>,
     sy_store = ex_store0\<lparr>lst_ledger := (lst_ledger ex_store0)\<lparr>le_order_records := rs\<rparr>\<rparr>,
     sy_exec = q_open (q_empty ''a'') None, sy_cash = q_open (q_empty ''a'') None \<rparr>"

definition ex_order :: order_record where
  "ex_order = \<lparr> or_client_order_id = ''c1'', or_account = ''a'', or_status = ''OPEN'', or_at = 1, or_lot_id = None,
     or_policy_version = Some ''v1'' \<rparr>"

lemma ex_sync_good: "ledger_ok (lst_ledger (sy_store (ex_sync rs)))"
  by (simp add: ex_sync_def ex_store0_def ex_ledger0_def ledger_ok_def index_by_def)

lemma ex_polls:
  "snd (sync_fills ex_sync_env (Inr [ex_execution]) (Aware 807000000000000001) (ex_sync [ex_order]))
     = Inr [fill_of ex_execution ''BUY'' ''x1'' (Some ''v1'')]"
  "snd (sync_cash_events ex_sync_env (Inr [ex_activity]) (1 / 20) 5 (ex_sync [])) = Inr [cash_adjustment_for ex_activity]"
  by code_simp+

theorem fills_never_guessed_witness:
  "\<exists>new. le_fills (lst_ledger (sy_store (fst (sync_fills ex_sync_env (Inr [ex_execution]) (Aware 807000000000000001) (ex_sync [ex_order]))))) = new
    \<and> new = [fill_of ex_execution ''BUY'' ''x1'' (Some ''v1'')]"
proof -
  let ?r = "sync_fills ex_sync_env (Inr [ex_execution]) (Aware 807000000000000001) (ex_sync [ex_order])"
  have r: "?r = (fst ?r, snd ?r)" by simp
  have "le_fills (lst_ledger (sy_store (ex_sync [ex_order]))) = []" by (simp add: ex_sync_def ex_store0_def ex_ledger0_def)
  with fills_never_guessed [OF ex_sync_good r] ex_polls(1) show ?thesis by auto
qed

theorem fills_accounted_for_witness:
  "\<exists>w'. exec_accounted 807000000000000001 w' ex_execution
    \<and> sync_fills ex_sync_env (Inr [ex_execution]) (Aware 807000000000000009) w' = (w', Inr [])"
proof -
  let ?r = "sync_fills ex_sync_env (Inr [ex_execution]) (Aware 807000000000000001) (ex_sync [ex_order])"
  have "?r = (fst ?r, Inr [fill_of ex_execution ''BUY'' ''x1'' (Some ''v1'')])" using ex_polls(1) by (metis prod.collapse)
  from fills_accounted_for [OF ex_sync_good this, of 807000000000000009] show ?thesis by auto
qed

theorem cash_only_with_reason_witness:
  "le_adjustments (lst_ledger (sy_store (fst (sync_cash_events ex_sync_env (Inr [ex_activity]) (1 / 20) 5 (ex_sync [])))))
    = [cash_adjustment_for ex_activity]"
proof -
  let ?r = "sync_cash_events ex_sync_env (Inr [ex_activity]) (1 / 20) 5 (ex_sync [])"
  have r: "?r = (fst ?r, snd ?r)" by simp
  have "le_adjustments (lst_ledger (sy_store (ex_sync []))) = []" by (simp add: ex_sync_def ex_store0_def ex_ledger0_def)
  with cash_only_with_reason [OF ex_sync_good r] ex_polls(2) show ?thesis by auto
qed

theorem cash_accounted_for_witness:
  "\<exists>w'. cash_accounted w' ex_activity \<and> sync_cash_events ex_sync_env (Inr [ex_activity]) 0 7 w' = (w', Inr [])"
proof -
  let ?r = "sync_cash_events ex_sync_env (Inr [ex_activity]) (1 / 20) 5 (ex_sync [])"
  have "?r = (fst ?r, Inr [cash_adjustment_for ex_activity])" using ex_polls(2) by (metis prod.collapse)
  from cash_accounted_for [OF ex_sync_good this, of 0 7] show ?thesis by auto
qed

text \<open>The order is filled at the broker, and closed before its fill is polled.\<close>

definition ex_by_id :: "string \<Rightarrow> broker_order option result" where
  "ex_by_id cid = Inr (if cid = ''c1'' then Some \<lparr> bo_account = ''a'', bo_client_order_id = ''c1'', bo_broker_order_id = None,
     bo_symbol = ''SPY'', bo_side = ''buy'', bo_qty = 3, bo_order_type = ''market'', bo_time_in_force = ''day'', bo_limit_price = None,
     bo_status = ''filled'', bo_filled_qty = 3, bo_avg_fill_price = Some 1, bo_submitted_at = None, bo_filled_at = None \<rparr> else None)"

lemma ex_closing:
  "snd (close_terminal_orders ex_sync_env ex_by_id 2 (ex_sync [ex_order])) = Inr [closed_record ''a'' ''c1'' 2]"
  "is_ok (snd (sync_fills ex_sync_env (Inr [ex_execution]) (Aware 807000000000000001)
     (fst (close_terminal_orders ex_sync_env ex_by_id 2 (ex_sync [ex_order])))))"
  "order_open (ex_sync [ex_order]) ''c1''" "ex_by_id ''c1'' = Inr (Some (the (case ex_by_id ''c1'' of Inr q \<Rightarrow> q)))"
  "bo_status (the (case ex_by_id ''c1'' of Inr q \<Rightarrow> q)) = ''filled''"
  by code_simp+

lemma ex_terminal: "terminal ex_by_id ''c1''"
  by (simp add: terminal_def ex_by_id_def TERMINAL_ORDER_STATUSES_def)

lemma ex_closing_result:
  "close_terminal_orders ex_sync_env ex_by_id 2 (ex_sync [ex_order])
     = (fst (close_terminal_orders ex_sync_env ex_by_id 2 (ex_sync [ex_order])), Inr [closed_record ''a'' ''c1'' 2])"
  using ex_closing(1) by (metis prod.collapse)

theorem orders_closed_exactly_witness:
  "\<not> order_open (fst (close_terminal_orders ex_sync_env ex_by_id 2 (ex_sync [ex_order]))) ''c1''"
  using orders_closed_exactly [OF ex_closing_result, of "''c1''"] ex_terminal by blast

theorem late_fill_loses_intent_witness:
  "\<exists>w2 :: sync_state. q_status execution_kind ''x1'' (q_memory.truncate (sy_exec w2)) = Some PENDING \<and> le_fills (lst_ledger (sy_store w2)) = []"
proof -
  let ?w1 = "fst (close_terminal_orders ex_sync_env ex_by_id 2 (ex_sync [ex_order]))"
  let ?r = "sync_fills ex_sync_env (Inr [ex_execution]) (Aware 807000000000000001) ?w1"
  obtain fs where "snd ?r = Inr fs" using ex_closing(2) by (auto simp: is_ok_iff)
  then have r: "?r = (fst ?r, Inr fs)" by (metis prod.collapse)
  have x: "xe_client_order_id ex_execution = ''c1''" "xe_execution_id ex_execution = ''x1''" by (simp_all add: ex_execution_def)
  have "xe_execution_id ex_execution \<notin> fill_ids (ex_sync [ex_order])" "exec_resolution (ex_sync [ex_order]) ex_execution = None"
    by (simp_all add: fill_ids_def ex_sync_def ex_store0_def ex_ledger0_def exec_resolution_def resolution_for_def q_open_def
        q_empty_def q_memory.truncate_def q_memory.extend_def)
  from late_fill_loses_intent [OF ex_sync_good ex_closing_result _ _ this r] x ex_closing(3) ex_terminal
  have late: "le_fills (lst_ledger (sy_store (fst ?r))) = le_fills (lst_ledger (sy_store (ex_sync [ex_order])))"
    "q_status execution_kind ''x1'' (q_memory.truncate (sy_exec (fst ?r))) = Some PENDING" by simp_all
  have "le_fills (lst_ledger (sy_store (ex_sync [ex_order]))) = []" by (simp add: ex_sync_def ex_store0_def ex_ledger0_def)
  then have none: "le_fills (lst_ledger (sy_store (fst ?r))) = []" by (simp only: late(1))
  show ?thesis by (rule exI, rule conjI [OF late(2) none])
qed

text \<open>A sale admitted against a lot that does not exist.\<close>

definition ex_sale :: execution where
  "ex_sale = ex_execution\<lparr>xe_side := ''sell''\<rparr>"

definition ex_blocked :: sync_state where
  "ex_blocked = (ex_sync [])\<lparr>sy_exec := fold (exec_call (\<lambda>_. ''r''))
     [ExecQuarantine ex_sale ''r'' 1, ExecAdmit ''x1'' ''op'' 2 (Some ''L9'') None None] (q_open (q_empty ''a'') None)\<rparr>"

lemma ex_blocked_facts:
  "exec_resolution ex_blocked ex_sale = Some \<lparr> xr_execution_id = ''x1'', xr_account = ''a'', xr_decision = ADMITTED,
     xr_decided_by = ''op'', xr_decided_at = 2, xr_lot_id = Some ''L9'', xr_policy_version = None, xr_notes = None \<rparr>"
  "record_fill (lst_ledger (sy_store ex_blocked)) (fill_of ex_sale ''SELL'' ''L9'' None) = Inl UnknownLotError"
  "xe_execution_id ex_sale \<notin> fill_ids ex_blocked" "xe_account ex_sale = sync_account ex_blocked"
  "upper (xe_side ex_sale) = ''SELL''" "xe_filled_at ex_sale \<le> 807000000000000001"
  by code_simp+

theorem wrong_admission_blocks_sync_witness:
  "snd (sync_fills ex_sync_env (Inr [ex_sale]) (Aware 807000000000000001)
     (ex_blocked\<lparr>sy_exec := fold (exec_call (\<lambda>_. ''r'')) [ExecReject ''x1'' ''op'' 9 None] (sy_exec ex_blocked)\<rparr>)) = Inl UnknownLotError"
proof -
  have "intended (\<lambda>_. None) ex_blocked ex_sale (fill_of ex_sale ''SELL'' ''L9'' None)"
    by (simp add: intended_def Let_def ex_blocked_facts)
  from wrong_admission_blocks_sync [OF ex_blocked_facts(1) _ this ex_blocked_facts(2,3,4,6) refl, where V = ex_sync_env and xs = "[]"
    and enc = "\<lambda>_. ''r''" and ops = "[ExecReject ''x1'' ''op'' 9 None]"]
  show ?thesis by (simp del: fold_simps exec_call.simps)
qed

end
