(* ===== verification/Bridge.thy ===== *)
theory Bridge
  imports Broker Startup Journal
begin

text \<open>
  agent/approval\_bridge.py and agent/dashboard\_decisions.py: from an operator's decision to a token.
  The functions act on the request store, and on the audit log and approval service of theory Startup.

  The JSON snapshots a request carries are the values they encode: \<open>proposal\<close> and \<open>risk_figures\<close> are
  what agent/approval\_trigger.py writes, a token snapshot is the token (\<open>_token_from_snapshot\<close> inverts
  \<open>encode_token\<close> field by field). A write to the request store's file completes.
\<close>

subsection \<open>Snapshots\<close>

text \<open>\<open>pp_legs\<close>: the length of the key \<open>legs\<close>, which no producer writes; \<open>pp_staged\<close>: the staged order, if any.\<close>

record proposal =
  pp_event_id :: string
  pp_symbol :: string
  pp_side :: string
  pp_requested_qty :: "pyfloat option"
  pp_authorized_qty :: "pyfloat option"
  pp_order_type :: string
  pp_time_in_force :: string
  pp_limit_price :: "pyfloat option"
  pp_lot_id :: "string option"
  pp_confidence :: pyfloat
  pp_analysis :: json
  pp_model_id :: string
  pp_doc_sha256 :: string
  pp_analyzed_at :: instant
  pp_legs :: "nat option"
  pp_staged :: "staged_order option"

record post_trade =
  pt_reserve_pct :: pyfloat
  pt_concentration_pct :: pyfloat
  pt_sector_pct :: pyfloat
  pt_earliest_exit :: "instant option"
  pt_day_trades :: int

record sale_tax =
  stx_character :: "string option"
  stx_gain :: "pyfloat option"
  stx_short :: "pyfloat option"
  stx_long :: "pyfloat option"
  stx_estimated :: "pyfloat option"
  stx_wash_sale :: "bool option"
  stx_long_begins :: "instant option"

datatype tax_figures = SaleTax sale_tax | PurchaseTax bool

record risk_figures =
  rf_gates_passed :: "string list"
  rf_binding :: "string list"
  rf_post_trade :: post_trade
  rf_tax :: tax_figures

datatype snapshot = ProposalSnap proposal | RiskSnap risk_figures | TokenSnap approval_token

definition proposal_of :: "snapshot \<Rightarrow> proposal result" where
  "proposal_of s = (case s of ProposalSnap p \<Rightarrow> Inr p | _ \<Rightarrow> Inl (KeyError ''symbol''))"

definition encode_token :: "approval_token \<Rightarrow> snapshot" where
  "encode_token t = TokenSnap t"

definition token_from_snapshot :: "snapshot \<Rightarrow> approval_token result" where
  "token_from_snapshot s = (case s of TokenSnap t \<Rightarrow> Inr t | _ \<Rightarrow> Inl (KeyError ''token_id''))"

subsection \<open>What a mint checks\<close>

definition SHOWN_AT_DRIFT_TOLERANCE_MS :: int where "SHOWN_AT_DRIFT_TOLERANCE_MS = 5000"

definition reject_compound_snapshot :: "proposal \<Rightarrow> unit result" where
  "reject_compound_snapshot p =
     guardE (case pp_legs p of None \<Rightarrow> True | Some n \<Rightarrow> n = 1) ApprovalBridgeError"

definition validate_qty :: "proposal \<Rightarrow> pyfloat option \<Rightarrow> unit result" where
  "validate_qty p qty_override =
     (case qty_override of
        None \<Rightarrow> Inr ()
      | Some q \<Rightarrow>
          if q \<le> 0 then Inl ApprovalBridgeError
          else (case pp_authorized_qty p of
                  None \<Rightarrow> Inl TypeError
                | Some authorized \<Rightarrow> guardE (\<not> q > fl (authorized + eps9)) ApprovalBridgeError))"

definition validate_limit :: "proposal \<Rightarrow> pyfloat option \<Rightarrow> unit result" where
  "validate_limit p limit_override =
     (case limit_override of
        None \<Rightarrow> Inr ()
      | Some l \<Rightarrow>
          (case pp_limit_price p of
             None \<Rightarrow> Inl ApprovalBridgeError
           | Some original \<Rightarrow>
               if upper (pp_side p) = ''BUY'' then guardE (\<not> l > fl (original + eps9)) ApprovalBridgeError
               else guardE (\<not> l < fl (original - eps9)) ApprovalBridgeError))"

definition validate_modification :: "proposal \<Rightarrow> pyfloat option \<Rightarrow> pyfloat option \<Rightarrow> unit result" where
  "validate_modification p qty_override limit_override =
     bindE (validate_qty p qty_override) (\<lambda>_. validate_limit p limit_override)"

text \<open>An undecided elapsed time is \<open>None\<close>, which cannot be added to.\<close>

definition check_drift :: "snapshot approval_request \<Rightarrow> instant \<Rightarrow> unit result" where
  "check_drift r now =
     (let would_be = elapsed_ms (now - rq_shown_at r) in
      if would_be < 0 then Inl ApprovalBridgeError
      else (case rq_elapsed_ms r of
              None \<Rightarrow> Inl TypeError
            | Some ms \<Rightarrow> guardE (\<not> would_be > ms + SHOWN_AT_DRIFT_TOLERANCE_MS) ApprovalBridgeError))"

text \<open>The arguments of \<open>approve\<close>; rounding a quantity that is \<open>None\<close> raises \<open>TypeError\<close>.\<close>

definition token_id_for :: "string \<Rightarrow> string" where "token_id_for rid = ''tok-'' @ rid"

definition mint_args ::
  "(fingerprint_body \<Rightarrow> string) \<Rightarrow> string \<Rightarrow> snapshot approval_request \<Rightarrow> instant
   \<Rightarrow> pyfloat option \<Rightarrow> pyfloat option \<Rightarrow> approve_args result" where
  "mint_args sha rid r now qty_override limit_override =
     bindE (proposal_of (rq_proposal_snapshot r)) (\<lambda>p.
     bindE (reject_compound_snapshot p) (\<lambda>_.
     bindE (validate_modification p qty_override limit_override) (\<lambda>_.
     bindE (check_drift r now) (\<lambda>_.
       case (if qty_override \<noteq> None then qty_override else pp_authorized_qty p) of
         None \<Rightarrow> Inl TypeError
       | Some qty \<Rightarrow>
           let limit_price = (if limit_override \<noteq> None then limit_override else pp_limit_price p)
           in Inr \<lparr> aa_token_id = token_id_for rid, aa_request_id = rid,
                    aa_fingerprint = order_fingerprint sha (pp_symbol p) (pp_side p) qty (pp_order_type p)
                       (pp_time_in_force p) limit_price (pp_lot_id p),
                    aa_price_at_analysis = rq_price_at_analysis r, aa_shown_at = rq_shown_at r, aa_now = now,
                    aa_symbol = pp_symbol p, aa_side = pp_side p, aa_qty = qty,
                    aa_order_type = pp_order_type p, aa_time_in_force = pp_time_in_force p,
                    aa_limit_price = limit_price, aa_lot_id = pp_lot_id p,
                    aa_decision_elapsed_ms = rq_elapsed_ms r,
                    aa_price_band_low = Some (rq_price_band_low r),
                    aa_price_band_high = Some (rq_price_band_high r) \<rparr>))))"

subsection \<open>The state\<close>

record desk =
  dk_sys :: startup_state
  dk_store :: "snapshot request_store"

type_synonym 'a desk_act = "(desk, 'a) action"

definition desk_log ::
  "startup_env \<Rightarrow> string \<Rightarrow> string \<Rightarrow> string \<Rightarrow> string \<Rightarrow> json \<Rightarrow> json \<Rightarrow> instant \<Rightarrow> unit desk_act" where
  "desk_log E actor action otype oid before after now =
     on_part dk_sys (\<lambda>s w. w\<lparr>dk_sys := s\<rparr>) (log_append E actor action otype oid before after None now)"

definition desk_call :: "(snapshot request_store \<Rightarrow> snapshot request_store result) \<Rightarrow> unit desk_act" where
  "desk_call f = (\<lambda>w. case f (dk_store w) of
     Inl e \<Rightarrow> (w, Inl e) | Inr st \<Rightarrow> (w\<lparr>dk_store := st\<rparr>, Inr ()))"

definition get_request :: "string \<Rightarrow> snapshot approval_request option desk_act" where
  "get_request rid = getW (\<lambda>w. rs_get (dk_store w) rid)"

definition live_token :: "string \<Rightarrow> approval_token option desk_act" where
  "live_token rid = getW (\<lambda>w. token_for_request (wd_svc (dk_sys w)) rid)"

text \<open>\<open>ApprovalService.approve\<close> with its audit row: the row is written before the token is kept.\<close>

definition drift_row :: "approval_service \<Rightarrow> approve_args \<Rightarrow> band_drift \<Rightarrow> json" where
  "drift_row svc a drift = (case drift of ((lo, hi), (clo, chi)) \<Rightarrow> JObj
     [(KStr ''stored_band'', JList [JFloat lo, JFloat hi]),
      (KStr ''recomputed_band'', JList [JFloat clo, JFloat chi]),
      (KStr ''price_band_pct'', JFloat (as_price_band_pct svc)),
      (KStr ''price_at_analysis'', JFloat (aa_price_at_analysis a))])"

definition service_approve :: "startup_env \<Rightarrow> approve_args \<Rightarrow> approval_token desk_act" where
  "service_approve E a =
     bindW (getW (\<lambda>w. wd_svc (dk_sys w))) (\<lambda>svc.
     case approve svc a of
       Inl e \<Rightarrow> raiseW e
     | Inr (svc', tok, drift) \<Rightarrow>
         bindW (case drift of
                  None \<Rightarrow> retW ()
                | Some d \<Rightarrow> desk_log E ''system'' ''approval_token_price_band_drift'' ''approval_request''
                    (aa_request_id a) JNull (drift_row svc a d) (aa_now a)) (\<lambda>_.
         bindW (modifyW (\<lambda>w. w\<lparr>dk_sys := (dk_sys w)\<lparr>wd_svc := svc'\<rparr>\<rparr>)) (\<lambda>_.
         retW tok)))"

subsection \<open>Minting\<close>

definition mint_new ::
  "startup_env \<Rightarrow> (fingerprint_body \<Rightarrow> string) \<Rightarrow> string \<Rightarrow> snapshot approval_request \<Rightarrow> instant
   \<Rightarrow> pyfloat option \<Rightarrow> pyfloat option \<Rightarrow> approval_token desk_act" where
  "mint_new E sha rid r now qty_override limit_override =
     (if now \<ge> rq_expires_at r then raiseW ApprovalBridgeError
      else bindW (liftW (mint_args sha rid r now qty_override limit_override)) (\<lambda>a.
           bindW (service_approve E a) (\<lambda>tok.
           bindW (desk_call (rs_token_minted True rid (encode_token tok))) (\<lambda>_.
           retW tok))))"

definition mint_approval_token ::
  "startup_env \<Rightarrow> (fingerprint_body \<Rightarrow> string) \<Rightarrow> string \<Rightarrow> instant \<Rightarrow> pyfloat option \<Rightarrow> pyfloat option
   \<Rightarrow> approval_token desk_act" where
  "mint_approval_token E sha rid now qty_override limit_override =
     bindW (get_request rid) (\<lambda>req. case req of
       None \<Rightarrow> raiseW ApprovalBridgeError
     | Some r \<Rightarrow>
         if rq_decision r \<noteq> Some ''APPROVED'' then raiseW ApprovalBridgeError
         else if rq_invalidated r \<noteq> None then raiseW ApprovalBridgeError
         else bindW (live_token rid) (\<lambda>live. case live of
           Some t \<Rightarrow> retW t
         | None \<Rightarrow> (case rq_token_snapshot r of
             Some s \<Rightarrow> liftW (token_from_snapshot s)
           | None \<Rightarrow> mint_new E sha rid r now qty_override limit_override)))"

subsection \<open>The operator's decision\<close>

record token_result =
  tr_token_id :: string
  tr_request_id :: string
  tr_expires_at :: instant
  tr_elapsed_ms :: int
  tr_band_low :: pyfloat
  tr_band_high :: pyfloat
  tr_qty :: pyfloat
  tr_limit_price :: "pyfloat option"
  tr_replayed :: bool

definition token_result :: "approval_token \<Rightarrow> bool \<Rightarrow> token_result" where
  "token_result t replayed =
     \<lparr> tr_token_id = at_token_id t, tr_request_id = at_request_id t, tr_expires_at = at_expires_at t,
       tr_elapsed_ms = at_elapsed_ms t, tr_band_low = at_band_low t, tr_band_high = at_band_high t,
       tr_qty = at_qty t, tr_limit_price = at_limit_price t, tr_replayed = replayed \<rparr>"

definition decision_json :: "string option \<Rightarrow> json" where
  "decision_json d = JObj [(KStr ''decision'', opt_str d)]"

definition opt_float :: "pyfloat option \<Rightarrow> json" where
  "opt_float x = (case x of None \<Rightarrow> JNull | Some v \<Rightarrow> JFloat v)"

text \<open>The first decision: friction and size before the store's one decision is spent, its audit row after.\<close>

definition first_approval ::
  "startup_env \<Rightarrow> string \<Rightarrow> snapshot approval_request \<Rightarrow> instant \<Rightarrow> string \<Rightarrow> pyfloat \<Rightarrow> pyfloat option
   \<Rightarrow> unit desk_act" where
  "first_approval E rid r now actor size_pct limit_price =
     bindW (getW (\<lambda>w. as_min_display (wd_svc (dk_sys w)))) (\<lambda>least.
     if now - rq_shown_at r < least then raiseW DecisionError
     else if \<not> (0 < size_pct \<and> size_pct \<le> 100) then raiseW DecisionError
     else bindW (desk_call (rs_decide True rid ''APPROVED'' now actor)) (\<lambda>_.
          desk_log E actor ''approval_request_decided'' ''approval_request'' rid (decision_json None)
            (JObj [(KStr ''decision'', JStr ''APPROVED''), (KStr ''size_pct'', JFloat size_pct),
                   (KStr ''limit_price'', opt_float limit_price)]) now))"

text \<open>\<open>except TokenReissued\<close> and \<open>except ApprovalBridgeError\<close> around the mint.\<close>

definition mint_for_decision ::
  "startup_env \<Rightarrow> (fingerprint_body \<Rightarrow> string) \<Rightarrow> string \<Rightarrow> instant \<Rightarrow> pyfloat option \<Rightarrow> pyfloat option
   \<Rightarrow> token_result desk_act" where
  "mint_for_decision E sha rid now qty_override limit_override = (\<lambda>w.
     case mint_approval_token E sha rid now qty_override limit_override w of
       (w', Inr tok) \<Rightarrow> (w', Inr (token_result tok False))
     | (w', Inl TokenReissued) \<Rightarrow>
         (w', case token_for_request (wd_svc (dk_sys w')) rid of
                None \<Rightarrow> Inl DecisionError | Some t \<Rightarrow> Inr (token_result t True))
     | (w', Inl ApprovalBridgeError) \<Rightarrow> (w', Inl DecisionError)
     | (w', Inl e) \<Rightarrow> (w', Inl e))"

definition approve_decided ::
  "startup_env \<Rightarrow> (fingerprint_body \<Rightarrow> string) \<Rightarrow> string \<Rightarrow> snapshot approval_request \<Rightarrow> instant \<Rightarrow> pyfloat
   \<Rightarrow> pyfloat option \<Rightarrow> token_result desk_act" where
  "approve_decided E sha rid r now size_pct limit_price =
     bindW (liftW (proposal_of (rq_proposal_snapshot r))) (\<lambda>p.
       mint_for_decision E sha rid now
         (map_option (\<lambda>q. fl (fl (q * size_pct) / 100)) (pp_authorized_qty p)) limit_price)"

definition dashboard_approve ::
  "startup_env \<Rightarrow> (fingerprint_body \<Rightarrow> string) \<Rightarrow> string \<Rightarrow> instant \<Rightarrow> string \<Rightarrow> pyfloat \<Rightarrow> pyfloat option
   \<Rightarrow> token_result desk_act" where
  "dashboard_approve E sha rid now actor size_pct limit_price =
     bindW (get_request rid) (\<lambda>req. case req of
       None \<Rightarrow> raiseW DecisionError
     | Some r \<Rightarrow>
         if rq_decision r = Some ''REJECTED'' then raiseW DecisionConflict
         else if rq_decision r = None then
           bindW (first_approval E rid r now actor size_pct limit_price) (\<lambda>_.
           approve_decided E sha rid r now size_pct limit_price)
         else bindW (live_token rid) (\<lambda>live. case live of
           Some t \<Rightarrow> retW (token_result t True)
         | None \<Rightarrow> approve_decided E sha rid r now size_pct limit_price))"

record reject_result =
  rj_request_id :: string
  rj_decision :: "string option"
  rj_decided_at :: "instant option"
  rj_elapsed_ms :: "int option"
  rj_replayed :: bool

definition reject_result :: "snapshot approval_request \<Rightarrow> bool \<Rightarrow> reject_result" where
  "reject_result r replayed =
     \<lparr> rj_request_id = rq_request_id r, rj_decision = rq_decision r, rj_decided_at = rq_decided_at r,
       rj_elapsed_ms = rq_elapsed_ms r, rj_replayed = replayed \<rparr>"

definition dashboard_reject :: "startup_env \<Rightarrow> string \<Rightarrow> instant \<Rightarrow> string \<Rightarrow> reject_result desk_act" where
  "dashboard_reject E rid now actor =
     bindW (get_request rid) (\<lambda>req. case req of
       None \<Rightarrow> raiseW DecisionError
     | Some r \<Rightarrow>
         if rq_decision r = Some ''APPROVED'' then raiseW DecisionConflict
         else if rq_decision r = Some ''REJECTED'' then retW (reject_result r True)
         else bindW (desk_call (rs_decide True rid ''REJECTED'' now actor)) (\<lambda>_.
              bindW (desk_log E actor ''approval_request_decided'' ''approval_request'' rid
                       (decision_json None) (decision_json (Some ''REJECTED'')) now) (\<lambda>_.
              bindW (get_request rid) (\<lambda>req'. case req' of
                None \<Rightarrow> raiseW (KeyError rid)
              | Some r' \<Rightarrow> retW (reject_result r' False)))))"

end
