(* ===== verification/Session.thy ===== *)
theory Session
  imports Calendar
begin

text \<open>
  The scheduling functions of agent/run\_loop.py: whether an instant lies in a regular session, and how long the
  loop sleeps when it does not. A sleep is in microseconds here; \<open>total_seconds\<close> turns it into a float.
\<close>

definition in_session_now :: "datetime \<Rightarrow> bool result" where
  "in_session_now now =
     bindE (session_for_instant now) (\<lambda>s.
     bindE (is_trading_day s) (\<lambda>td.
       if \<not> td then Inr False
       else bindE (session_times s) (\<lambda>times.
         case now of
           Aware t \<Rightarrow> Inr (st_open times \<le> t \<and> t < st_close times)
         | Naive _ \<Rightarrow> Inl TypeError)))"

definition sleep_until_open :: "instant \<Rightarrow> date \<Rightarrow> timedelta result" where
  "sleep_until_open t s =
     bindE (next_trading_day s) (\<lambda>nxt. bindE (session_times nxt) (\<lambda>times. Inr (st_open times - t)))"

definition time_until_next_session_open :: "datetime \<Rightarrow> timedelta result" where
  "time_until_next_session_open now =
     bindE (session_for_instant now) (\<lambda>s.
     bindE (is_trading_day s) (\<lambda>td.
       case now of
         Naive _ \<Rightarrow> Inl TypeError
       | Aware t \<Rightarrow>
           if td then bindE (session_times s) (\<lambda>times.
             if t < st_open times then Inr (st_open times - t) else sleep_until_open t s)
           else sleep_until_open t s))"

definition total_seconds :: "timedelta \<Rightarrow> pyfloat" where
  "total_seconds d = fl (of_int d / 10 ^ 6)"

definition seconds_until_next_session_open :: "datetime \<Rightarrow> pyfloat result" where
  "seconds_until_next_session_open now =
     bindE (time_until_next_session_open now) (\<lambda>d. Inr (total_seconds d))"

subsection \<open>Where sessions lie\<close>

lemma local_instant_bounds:
  "d * day_us + w + 4 * hour_us \<le> local_instant d w" "local_instant d w \<le> d * day_us + w + 5 * hour_us"
  using local_offset_bounds [of d w] by (simp_all add: local_instant_def)

lemma session_times_bounds:
  assumes "session_times s = Inr st"
  shows "s * day_us + 13 * hour_us < st_open st" and "st_open st \<le> s * day_us + 15 * hour_us"
    and "st_open st < st_close st" and "st_close st \<le> s * day_us + 21 * hour_us"
  using assms local_instant_bounds [of s "9 * hour_us + hour_us div 2"]
    local_instant_bounds [of s "13 * hour_us"] local_instant_bounds [of s "16 * hour_us"]
  by (auto simp: session_times_eq_Inr hour_us_def split: if_splits)

lemma session_at_open:
  assumes "session_times s = Inr st"
  shows "session_for_instant (Aware (st_open st)) = Inr s"
proof -
  have "s * day_us \<le> st_open st + eastern_offset (st_open st)"
       "st_open st + eastern_offset (st_open st) < s * day_us + day_us"
    using session_times_bounds(1,2) [OF assms] eastern_offset_bounds [of "st_open st"]
    by (simp_all add: hour_us_def day_us_def)
  then have "(st_open st + eastern_offset (st_open st)) div day_us = s"
    by (simp add: day_us_def)
  then show ?thesis by simp
qed

lemma in_session_iff:
  "in_session_now (Aware t) = Inr True \<longleftrightarrow>
   (\<exists>s st. session_for_instant (Aware t) = Inr s \<and> session_times s = Inr st \<and> st_open st \<le> t \<and> t < st_close st)"
proof -
  obtain s where s: "session_for_instant (Aware t) = Inr s" by simp
  show ?thesis
  proof (cases "session_times s")
    case (Inl e)
    then have "is_trading_day s \<noteq> Inr True"
      by (auto simp: session_times_def check_range_def is_trading_day_eq is_early_close_eq split: if_splits)
    with s Inl show ?thesis
      by (auto simp: in_session_now_def bindE_eq_Inr simp del: session_for_instant.simps split: if_splits)
  next
    case (Inr st)
    then have "is_trading_day s = Inr True" by (simp add: session_times_eq_Inr is_trading_day_eq)
    with s Inr show ?thesis by (simp add: in_session_now_def del: session_for_instant.simps)
  qed
qed

lemma open_is_in_session:
  assumes "session_times s = Inr st" shows "in_session_now (Aware (st_open st)) = Inr True"
  unfolding in_session_iff using session_at_open [OF assms] assms session_times_bounds(3) [OF assms] by auto

text \<open>An instant of session \<open>s'\<close>, at or after an instant whose local date is \<open>s\<close>.\<close>

lemma later_session:
  assumes "session_for_instant (Aware t) = Inr s" and "session_for_instant (Aware t') = Inr s'"
    and "session_times s' = Inr st'" and "t' < st_close st'" and "t \<le> t'"
  shows "s \<le> s'"
proof (rule ccontr)
  assume "\<not> s \<le> s'"
  then have "s' * day_us + day_us \<le> s * day_us" by (simp add: day_us_def)
  with session_for_instant_bounds(1) [OF assms(1)] session_times_bounds(4) [OF assms(3)] assms(4,5)
  show False by (simp add: day_us_def hour_us_def)
qed

lemma opens_increase:
  assumes "session_times s = Inr st" and "session_times s' = Inr st'" and "s < s'"
  shows "st_open st < st_open st'"
proof -
  have "s * day_us + day_us \<le> s' * day_us" using assms(3) by (simp add: day_us_def)
  with session_times_bounds(2) [OF assms(1)] session_times_bounds(1) [OF assms(2)] show ?thesis
    by (simp add: day_us_def hour_us_def)
qed

lemma sleep_until_open_ok:
  assumes "sleep_until_open t s = Inr d" and "session_for_instant (Aware t) = Inr s"
  obtains nxt st where "session_times nxt = Inr st" "d = st_open st - t" "s < nxt" "0 < d"
    "\<And>x. s < x \<Longrightarrow> x < nxt \<Longrightarrow> \<not> trading x"
proof -
  obtain nxt st where n: "next_trading_day s = Inr nxt" "session_times nxt = Inr st" "d = st_open st - t"
    using assms(1) by (auto simp: sleep_until_open_def result_simps)
  have w: "s < nxt" "\<And>x. s < x \<Longrightarrow> x < nxt \<Longrightarrow> \<not> trading x"
    using next_walk_spec [of "s + 1" nxt] n(1) by (auto simp: next_trading_day_def result_simps)
  have "s * day_us + day_us \<le> nxt * day_us" using w(1) by (simp add: day_us_def)
  with session_for_instant_bounds(2) [OF assms(2)] session_times_bounds(1) [OF n(2)] n(3)
  have "0 < d" by (simp add: day_us_def hour_us_def algebra_simps)
  with n w that show thesis by blast
qed

lemma time_until_cases:
  assumes "time_until_next_session_open (Aware t) = Inr d" and "session_for_instant (Aware t) = Inr s"
  obtains (before) st where "session_times s = Inr st" "t < st_open st" "d = st_open st - t"
  | (after) "sleep_until_open t s = Inr d" "\<And>st. session_times s = Inr st \<Longrightarrow> st_open st \<le> t"
proof -
  obtain td where td: "is_trading_day s = Inr td"
    using assms by (auto simp: time_until_next_session_open_def bindE_eq_Inr simp del: session_for_instant.simps)
  show thesis
  proof (cases td)
    case False
    with td have "session_times s \<noteq> Inr st" for st by (auto simp: session_times_eq_Inr is_trading_day_eq split: if_splits)
    with assms td False show thesis
      by (intro after) (auto simp: time_until_next_session_open_def simp del: session_for_instant.simps)
  next
    case True
    have "bindE (session_times s) (\<lambda>times. if t < st_open times then Inr (st_open times - t) else sleep_until_open t s) = Inr d"
      using assms(1) unfolding time_until_next_session_open_def assms(2) by (simp add: td True)
    then obtain st where st: "session_times s = Inr st"
      "(if t < st_open st then Inr (st_open st - t) else sleep_until_open t s) = Inr d"
      by (auto simp: bindE_eq_Inr)
    show thesis
    proof (cases "t < st_open st")
      case True
      with st before show thesis by simp
    next
      case False
      with st show thesis by (intro after) auto
    qed
  qed
qed

lemma total_seconds_pos: "0 < d \<Longrightarrow> 0 < total_seconds d"
  unfolding total_seconds_def by (intro flt.rnd_pos) simp

subsection \<open>Properties\<close>

text \<open>
C25: The loop sleeps exactly until the market opens: outside a session, whenever the calendar covers the next
  one, the sleep is positive, the instant at its end is in session, and no instant slept through was.
\<close>
theorem sleep_ends_at_next_session:
  assumes "time_until_next_session_open (Aware t) = Inr d" and "in_session_now (Aware t) \<noteq> Inr True"
  shows "0 < d \<and> seconds_until_next_session_open (Aware t) = Inr (total_seconds d) \<and> 0 < total_seconds d
    \<and> in_session_now (Aware (t + d)) = Inr True
    \<and> (\<forall>t'. t \<le> t' \<and> t' < t + d \<longrightarrow> in_session_now (Aware t') \<noteq> Inr True)"
proof -
  obtain s where s: "session_for_instant (Aware t) = Inr s" by simp
  have "0 < d \<and> in_session_now (Aware (t + d)) = Inr True
    \<and> (\<forall>t'. t \<le> t' \<and> t' < t + d \<longrightarrow> in_session_now (Aware t') \<noteq> Inr True)"
    using assms(1) s
  proof (cases rule: time_until_cases)
    case (before st)
    have "in_session_now (Aware t') \<noteq> Inr True" if t': "t \<le> t'" "t' < t + d" for t'
    proof
      assume "in_session_now (Aware t') = Inr True"
      then obtain s' st' where s': "session_for_instant (Aware t') = Inr s'" "session_times s' = Inr st'"
        "st_open st' \<le> t'" "t' < st_close st'" unfolding in_session_iff by blast
      have "s \<le> s'" by (rule later_session [OF s s'(1,2,4) t'(1)])
      then have "st_open st \<le> st_open st'"
        using opens_increase [OF before(1) s'(2)] before(1) s'(2) by (cases "s = s'") auto
      with s'(3) t'(2) before(3) show False by simp
    qed
    with before open_is_in_session [OF before(1)] show ?thesis by simp
  next
    case after
    obtain nxt st where n: "session_times nxt = Inr st" "d = st_open st - t" "s < nxt" "0 < d"
      "\<And>x. s < x \<Longrightarrow> x < nxt \<Longrightarrow> \<not> trading x"
      using sleep_until_open_ok [OF after(1) s] by blast
    have "in_session_now (Aware t') \<noteq> Inr True" if t': "t \<le> t'" "t' < t + d" for t'
    proof
      assume "in_session_now (Aware t') = Inr True"
      then obtain s' st' where s': "session_for_instant (Aware t') = Inr s'" "session_times s' = Inr st'"
        "st_open st' \<le> t'" "t' < st_close st'" unfolding in_session_iff by blast
      have "s \<le> s'" by (rule later_session [OF s s'(1,2,4) t'(1)])
      moreover have "\<not> nxt \<le> s'"
        using opens_increase [OF n(1) s'(2)] n(1,2) s'(2,3) t'(2) by (cases "nxt = s'") auto
      moreover have "trading s'" using s'(2) by (simp add: session_times_eq_Inr)
      ultimately have "s' = s" using n(5) [of s'] by linarith
      then show False using after(2) s' s assms(2) t'(1) unfolding in_session_iff by auto
    qed
    with n open_is_in_session [OF n(1)] show ?thesis by simp
  qed
  with assms(1) total_seconds_pos [of d] show ?thesis by (simp add: seconds_until_next_session_open_def)
qed

lemma ex_saturday:
  "time_until_next_session_open (Aware 63921286800000000) = Inr 160200000000"
  "in_session_now (Aware 63921286800000000) \<noteq> Inr True"
  by code_simp+

theorem sleep_ends_at_next_session_witness:
  "in_session_now (Aware (63921286800000000 + 160200000000)) = Inr True"
  using sleep_ends_at_next_session [OF ex_saturday] by blast

end
