(* ===== verification/Execution.thy ===== *)
theory Execution
  imports Bridge Session
begin

text \<open>
  agent/approval\_execution.py, the fields of agent/runtime\_status.py it reads, and \<open>_run_submit_approved\<close> of
  scripts/run\_agent.py: the one path by which an approved request reaches the broker.

  The broker is a state \<open>'b\<close> behind a port: its reads leave it alone, \<open>bp_impl\<close> is the \<open>_submit_impl\<close> of
  the adapter. What is read fresh for a submission (the two clock readings, the file of the mode store, the
  runtime status, the quote) is the record \<open>run_reads\<close>. \<open>sx_sent\<close> is a history variable: the request, order,
  token and price of every call that reached the broker.
\<close>

subsection \<open>What is read\<close>

record runtime_status =
  rt_generated_at :: instant
  rt_account :: string
  rt_source :: string
  rt_reconciliation_status :: string
  rt_reconciliation_at :: "instant option"
  rt_positions_reconciled :: "bool option"
  rt_cash_reconciled :: "bool option"
  rt_open_orders_reconciled :: "bool option"

definition DEFAULT_STALE_AFTER :: timedelta where "DEFAULT_STALE_AFTER = 25 * hour_us"

definition is_stale_status :: "runtime_status \<Rightarrow> instant \<Rightarrow> timedelta \<Rightarrow> bool" where
  "is_stale_status s now max_age \<longleftrightarrow> now - rt_generated_at s > max_age"

record run_reads =
  rd_now :: instant
  rd_submit_now :: instant
  rd_mode_row :: "string \<Rightarrow> mode_change result"
  rd_mode_file :: "string option"
  rd_status :: "runtime_status option result"
  rd_quote :: "string \<Rightarrow> pyfloat option result"

record 'b broker_port =
  bp_by_id :: "string \<Rightarrow> 'b \<Rightarrow> broker_order option result"
  bp_account :: "'b \<Rightarrow> account_snapshot result"
  bp_positions :: "'b \<Rightarrow> position list result"
  bp_identity :: "'b \<Rightarrow> unit result"
  bp_impl :: "'b impl"

subsection \<open>The gates\<close>

definition SUBMISSION_PERMITTED_MODES :: "string list" where
  "SUBMISSION_PERMITTED_MODES = [''PAPER'', ''PRODUCTION_ACTIVE'']"

definition RECONCILIATION_AUTHORITATIVE_SOURCES :: "string list" where
  "RECONCILIATION_AUTHORITATIVE_SOURCES = [''cycle'', ''reconcile_once'']"

definition mode_permits_submission :: "run_reads \<Rightarrow> bool" where
  "mode_permits_submission rd =
     (case ms_load (rd_mode_row rd) (rd_mode_file rd) of
        Inl _ \<Rightarrow> False
      | Inr st \<Rightarrow> normalize_persisted (ms_current st) \<in> set SUBMISSION_PERMITTED_MODES)"

definition reconciliation_is_fresh :: "runtime_status option result \<Rightarrow> instant \<Rightarrow> string \<Rightarrow> bool" where
  "reconciliation_is_fresh status now acct =
     (case status of
        Inl _ \<Rightarrow> False
      | Inr None \<Rightarrow> False
      | Inr (Some s) \<Rightarrow>
          if rt_account s \<noteq> acct then False
          else if rt_source s \<notin> set RECONCILIATION_AUTHORITATIVE_SOURCES then False
          else if rt_reconciliation_status s \<noteq> ''PASS'' then False
          else (case rt_reconciliation_at s of
                  None \<Rightarrow> False
                | Some since \<Rightarrow>
                    if rt_positions_reconciled s \<noteq> Some True \<or> rt_cash_reconciled s \<noteq> Some True
                       \<or> rt_open_orders_reconciled s \<noteq> Some True then False
                    else if now - since > DEFAULT_STALE_AFTER then False
                    else \<not> is_stale_status s now DEFAULT_STALE_AFTER))"

definition session_permits_submission :: "instant \<Rightarrow> bool" where
  "session_permits_submission now = (case in_session_now (Aware now) of Inl _ \<Rightarrow> False | Inr b \<Rightarrow> b)"

definition fresh_price :: "run_reads \<Rightarrow> string \<Rightarrow> pyfloat result" where
  "fresh_price rd symbol =
     (case rd_quote rd symbol of
        Inl _ \<Rightarrow> Inl QuoteUnavailable
      | Inr None \<Rightarrow> Inl QuoteUnavailable
      | Inr (Some p) \<Rightarrow> if p \<le> 0 then Inl QuoteUnavailable else Inr p)"

definition submission_gates :: "run_reads \<Rightarrow> string \<Rightarrow> string \<Rightarrow> pyfloat result" where
  "submission_gates rd acct symbol =
     bindE (guardE (mode_permits_submission rd) ModeNotPermitted) (\<lambda>_.
     bindE (guardE (reconciliation_is_fresh (rd_status rd) (rd_now rd) acct) ReconciliationNotFresh) (\<lambda>_.
     bindE (guardE (session_permits_submission (rd_now rd)) SessionClosed) (\<lambda>_.
       fresh_price rd symbol)))"

subsection \<open>Drift\<close>

definition held_quantity :: "position list \<Rightarrow> string \<Rightarrow> pyfloat" where
  "held_quantity ps symbol = dict_get (foldl (\<lambda>d p. AList.update (po_symbol p) (fl (po_qty p)) d) [] ps) symbol 0"

definition check_drifted :: "'b broker_port \<Rightarrow> order_fields \<Rightarrow> 'b \<Rightarrow> unit result" where
  "check_drifted port f b =
     bindE (bp_account port b) (\<lambda>acct.
       if of_side f = ''BUY'' then
         guardE (\<not> fl (ac_settled_cash acct) < fl (of_notional f - eps6)) DriftDetected
       else if of_side f \<in> {''SELL'', ''CLOSE''} then
         bindE (bp_positions port b) (\<lambda>ps.
           case of_authorized_qty f of
             None \<Rightarrow> Inl TypeError
           | Some q \<Rightarrow> guardE (\<not> held_quantity ps (of_symbol f) < fl (q - eps6)) DriftDetected)
       else Inr ())"

definition staged_order_from_snapshot :: "snapshot \<Rightarrow> staged_order result" where
  "staged_order_from_snapshot s =
     bindE (proposal_of s) (\<lambda>p. case pp_staged p of None \<Rightarrow> Inl MissingStagedOrder | Some so \<Rightarrow> Inr so)"

subsection \<open>Execution\<close>

record sent_order =
  sn_request :: string
  sn_order :: staged_order
  sn_token :: approval_token
  sn_price :: pyfloat
  sn_now :: instant

record 'b exec_state =
  sx_desk :: desk
  sx_broker :: 'b
  sx_sent :: "sent_order list"

type_synonym ('b, 'a) exec_act = "('b exec_state, 'a) action"

definition on_desk :: "'a desk_act \<Rightarrow> ('b, 'a) exec_act" where
  "on_desk = on_part sx_desk (\<lambda>d w. w\<lparr>sx_desk := d\<rparr>)"

definition ask_broker :: "('b \<Rightarrow> 'a result) \<Rightarrow> ('b, 'a) exec_act" where
  "ask_broker f = (\<lambda>w. (w, f (sx_broker w)))"

text \<open>The sink: \<open>record_token_consumed\<close> with the token as consumed.\<close>

definition consumption_sink :: "string \<Rightarrow> snapshot request_store \<Rightarrow> approval_token \<Rightarrow> unit result" where
  "consumption_sink rid st tok = bindE (rs_token_consumed True rid (encode_token tok) st) (\<lambda>_. Inr ())"

definition record_consumed :: "string \<Rightarrow> approval_token list \<Rightarrow> snapshot request_store \<Rightarrow> snapshot request_store" where
  "record_consumed rid toks st = fold (\<lambda>tok. rs_step (OpConsume rid (encode_token tok))) toks st"

definition send_order ::
  "'k mac \<Rightarrow> 'k gatekeeper \<Rightarrow> 'k adapter \<Rightarrow> 'b broker_port \<Rightarrow> run_reads \<Rightarrow> string \<Rightarrow> staged_order
   \<Rightarrow> approval_token \<Rightarrow> pyfloat \<Rightarrow> ('b, broker_order) exec_act" where
  "send_order mac gk ad port rd rid so tok price = (\<lambda>w.
     let out = submit mac (bp_identity port (sx_broker w)) (attach_staging_key (gk_key gk) ad) (rd_submit_now rd)
                 (Some (consumption_sink rid (dk_store (sx_desk w)))) (bp_impl port) so (Some tok) (Some price)
                 (sx_broker w)
     in (w\<lparr>sx_desk := (sx_desk w)\<lparr>dk_store := record_consumed rid (sb_recorded out) (dk_store (sx_desk w))\<rparr>,
           sx_broker := sb_broker out,
           sx_sent := sx_sent w @ (if sb_reached out
             then [\<lparr> sn_request = rid, sn_order = so, sn_token = tok, sn_price = price,
                     sn_now = rd_submit_now rd \<rparr>] else [])\<rparr>,
         sb_result out))"

definition verify_unmodified :: "approval_token \<Rightarrow> order_fields \<Rightarrow> unit result" where
  "verify_unmodified tok f =
     verify_modification_within_bounds tok (of_symbol f) (of_side f) (of_authorized_qty f) (of_order_type f)
       (of_time_in_force f) (of_limit_price f) (of_lot_id f)"

definition execute_approved_request ::
  "'k mac \<Rightarrow> 'k gatekeeper \<Rightarrow> 'k adapter \<Rightarrow> 'b broker_port \<Rightarrow> run_reads \<Rightarrow> string \<Rightarrow> approval_token
   \<Rightarrow> ('b, broker_order) exec_act" where
  "execute_approved_request mac gk ad port rd rid tok =
     bindW (on_desk (get_request rid)) (\<lambda>req. case req of
       None \<Rightarrow> raiseW ExecutionError
     | Some r \<Rightarrow>
         if rq_decision r \<noteq> Some ''APPROVED'' then raiseW ExecutionError
         else if rq_invalidated r \<noteq> None then raiseW ExecutionError
         else bindW (liftW (staged_order_from_snapshot (rq_proposal_snapshot r))) (\<lambda>so.
           if \<not> so_verify mac (gk_key gk) so then raiseW StagingSignatureInvalid
           else if at_request_id tok \<noteq> rid then raiseW ExecutionError
           else bindW (ask_broker (bp_by_id port (of_client_order_id (so_fields so)))) (\<lambda>existing.
             case existing of
               Some ord \<Rightarrow> retW ord
             | None \<Rightarrow>
                 bindW (ask_broker (check_drifted port (so_fields so))) (\<lambda>_.
                 bindW (liftW (verify_unmodified tok (so_fields so))) (\<lambda>_.
                 bindW (liftW (submission_gates rd (ad_account ad) (of_symbol (so_fields so)))) (\<lambda>price.
                 send_order mac gk ad port rd rid so tok price))))))"

subsection \<open>The command\<close>

text \<open>
  \<open>_run_submit_approved\<close>: a fresh service, the token by the mint, the execution, its audit row; the exit code. The
  objects it builds from the configuration are arguments; \<open>cf_service\<close> has no tokens.
\<close>

record 'k submit_config =
  cf_env :: startup_env
  cf_sha :: "fingerprint_body \<Rightarrow> string"
  cf_mac :: "'k mac"
  cf_service :: approval_service
  cf_gatekeeper :: "'k gatekeeper result"
  cf_adapter :: "'k adapter result"
  cf_now :: instant

definition fresh_service :: "approval_service \<Rightarrow> approval_service" where
  "fresh_service svc = svc\<lparr>as_tokens := []\<rparr>"

definition exit_code :: "('w, 'a) action \<Rightarrow> 'w \<Rightarrow> 'w \<times> int" where
  "exit_code m = (\<lambda>w. case m w of (w', Inl _) \<Rightarrow> (w', 1) | (w', Inr _) \<Rightarrow> (w', 0))"

definition submission_row :: "broker_order \<Rightarrow> json" where
  "submission_row ord = JObj
     [(KStr ''client_order_id'', JStr (bo_client_order_id ord)), (KStr ''status'', JStr (bo_status ord)),
      (KStr ''broker_order_id'', opt_str (bo_broker_order_id ord))]"

definition submit_approved_steps ::
  "'k submit_config \<Rightarrow> 'b broker_port \<Rightarrow> run_reads \<Rightarrow> string \<Rightarrow> ('b, unit) exec_act" where
  "submit_approved_steps cf port rd rid =
     bindW (on_desk (mint_approval_token (cf_env cf) (cf_sha cf) rid (cf_now cf) None None)) (\<lambda>tok.
     bindW (liftW (cf_gatekeeper cf)) (\<lambda>gk.
     bindW (liftW (cf_adapter cf)) (\<lambda>ad.
     bindW (execute_approved_request (cf_mac cf) gk ad port rd rid tok) (\<lambda>ord.
     on_desk (desk_log (cf_env cf) ''operator'' ''approval_execution_submitted'' ''approval_request'' rid JNull
                (submission_row ord) (cf_now cf))))))"

text \<open>The process has its own service; the one of \<open>w\<close>, the dashboard's, is untouched.\<close>

definition run_submit_approved ::
  "'k submit_config \<Rightarrow> 'b broker_port \<Rightarrow> run_reads \<Rightarrow> string \<Rightarrow> 'b exec_state \<Rightarrow> 'b exec_state \<times> int" where
  "run_submit_approved cf port rd rid w =
     (let set_svc = (\<lambda>svc w. w\<lparr>sx_desk := (sx_desk w)\<lparr>dk_sys := (dk_sys (sx_desk w))\<lparr>wd_svc := svc\<rparr>\<rparr>\<rparr>);
          (w', code) = exit_code (submit_approved_steps cf port rd rid) (set_svc (fresh_service (cf_service cf)) w)
      in (set_svc (wd_svc (dk_sys (sx_desk w))) w', code))"

end
