(* ===== verification/ExecutionProps.thy ===== *)
theory ExecutionProps
  imports Execution StartupProperties
begin

text \<open>
  What the decision desk and the execution path guarantee together: an approved request reaches the broker at
  most once, whatever happens in between, and only when every gate is open.
\<close>

subsection \<open>Runs\<close>

text \<open>
  What can happen to the stores, in any order: the agent creates and invalidates requests, the operator approves and
  rejects at the dashboard and submits from the command line, the dashboard restarts with an empty
  service, and the broker's state moves on its own.
\<close>

datatype ('k, 'b) exec_op =
    NewRequest "snapshot create_args"
  | InvalidateRequest string string
  | ApproveRequest startup_env "fingerprint_body \<Rightarrow> string" string instant string pyfloat "pyfloat option"
  | RejectRequest startup_env string instant string
  | RestartDashboard approval_service
  | SubmitApproved "'k submit_config" "'b broker_port" run_reads string
  | BrokerMoves "'b \<Rightarrow> 'b"

definition set_service :: "approval_service \<Rightarrow> 'b exec_state \<Rightarrow> 'b exec_state" where
  "set_service svc w = w\<lparr>sx_desk := (sx_desk w)\<lparr>dk_sys := (dk_sys (sx_desk w))\<lparr>wd_svc := svc\<rparr>\<rparr>\<rparr>"

fun exec_step :: "('k, 'b) exec_op \<Rightarrow> 'b exec_state \<Rightarrow> 'b exec_state" where
  "exec_step (NewRequest a) w = fst (on_desk (desk_call (rs_create True a)) w)"
| "exec_step (InvalidateRequest rid reason) w = fst (on_desk (desk_call (rs_invalidate True rid reason)) w)"
| "exec_step (ApproveRequest E sha rid now actor size_pct limit_price) w =
     fst (on_desk (dashboard_approve E sha rid now actor size_pct limit_price) w)"
| "exec_step (RejectRequest E rid now actor) w = fst (on_desk (dashboard_reject E rid now actor) w)"
| "exec_step (RestartDashboard svc) w = set_service (fresh_service svc) w"
| "exec_step (SubmitApproved cf port rd rid) w = fst (run_submit_approved cf port rd rid w)"
| "exec_step (BrokerMoves f) w = w\<lparr>sx_broker := f (sx_broker w)\<rparr>"

definition exec_run :: "('k, 'b) exec_op list \<Rightarrow> 'b exec_state \<Rightarrow> 'b exec_state" where
  "exec_run ops w = fold exec_step ops w"

subsection \<open>The stored token\<close>

definition stored_token :: "snapshot request_store \<Rightarrow> string \<Rightarrow> snapshot option" where
  "stored_token st rid = Option.bind (map_of (rs_current st) rid) rq_token_snapshot"

definition token_spent :: "string \<Rightarrow> snapshot request_store \<Rightarrow> bool" where
  "token_spent rid st \<longleftrightarrow> (\<exists>t. stored_token st rid = Some (TokenSnap t) \<and> at_consumed_at t \<noteq> None)"

lemma stored_token_create:
  "rs_create p a st = Inr st' \<Longrightarrow> stored_token st rid = Some s \<Longrightarrow> stored_token st' rid = Some s"
  by (auto simp: rs_create_def append_event_def Let_def stored_token_def split: if_splits)

lemma stored_token_decide:
  "rs_decide p k d now who st = Inr st' \<Longrightarrow> stored_token st' rid = stored_token st rid"
  by (auto simp: rs_decide_def append_event_def rs_put_def rs_require_def rs_account_def Let_def stored_token_def
      result_simps session_eq simp del: session_for_instant.simps split: if_splits option.splits)

lemma stored_token_invalidate:
  "rs_invalidate p k reason st = Inr st' \<Longrightarrow> stored_token st' rid = stored_token st rid"
  by (auto simp: rs_invalidate_def append_event_def rs_put_def rs_require_def rs_account_def Let_def stored_token_def
      result_simps split: if_splits option.splits)

lemma stored_token_minted:
  "rs_token_minted p k s st = Inr st' \<Longrightarrow>
   stored_token st k = None \<and> stored_token st' rid = (if rid = k then Some s else stored_token st rid)"
  by (auto simp: rs_token_minted_def append_event_def rs_put_def rs_require_def rs_account_def Let_def stored_token_def
      result_simps split: if_splits option.splits)

lemma stored_token_consumed:
  "rs_token_consumed p k s st = Inr st' \<Longrightarrow>
   stored_token st k \<noteq> None \<and> stored_token st' rid = (if rid = k then Some s else stored_token st rid)"
  by (auto simp: rs_token_consumed_def append_event_def rs_put_def rs_require_def rs_account_def Let_def stored_token_def
      result_simps split: if_splits option.splits)

lemma stored_token_mint_keeps:
  "rs_token_minted p k s st = Inr st' \<Longrightarrow> stored_token st rid = Some s' \<Longrightarrow> stored_token st' rid = Some s'"
  using stored_token_minted by (metis option.distinct(1))

subsection \<open>Desk actions keep the stored token\<close>

lemma wp_desk_call [wp_simps]:
  "wp (desk_call f) Q E w = (case f (dk_store w) of Inl e \<Rightarrow> E e w | Inr st \<Rightarrow> Q () (w\<lparr>dk_store := st\<rparr>))"
  by (simp add: wp_def desk_call_def split: sum.split)

lemma keeps_desk_call:
  "(\<And>st st'. f st = Inr st' \<Longrightarrow> P st \<Longrightarrow> P st') \<Longrightarrow> keeps (\<lambda>w. P (dk_store w)) (desk_call f)"
  by (auto simp: keeps_def wp_simps split: sum.split)

lemma keeps_desk_log: "keeps (\<lambda>w. P (dk_store w)) (desk_log E actor act ty oid before after now)"
  by (auto simp: keeps_def wp_def desk_log_def on_part_def split: prod.split sum.split)

lemma keeps_modify_sys: "keeps (\<lambda>w. P (dk_store w)) (modifyW (\<lambda>w. w\<lparr>dk_sys := f w\<rparr>))"
  by (simp add: keeps_def wp_simps)

lemma keeps_service_approve: "keeps (\<lambda>w. P (dk_store w)) (service_approve E a)"
  unfolding service_approve_def
  by (intro keeps_bind keeps_get) (auto split: sum.split prod.split option.split
      intro!: keeps_bind keeps_raise keeps_ret keeps_desk_log keeps_modify_sys)

text \<open>Of the store, a mint can only change what \<open>record_token_minted\<close> changes.\<close>

lemma keeps_mint_store:
  assumes "\<And>s st st'. rs_token_minted True k s st = Inr st' \<Longrightarrow> P st \<Longrightarrow> P st'"
  shows "keeps (\<lambda>w. P (dk_store w)) (mint_approval_token E sha k now qo lo)"
  unfolding mint_approval_token_def mint_new_def get_request_def live_token_def
  by (auto split: option.split intro!: keeps_bind keeps_get keeps_raise keeps_ret keeps_lift keeps_service_approve
      keeps_desk_call assms)

lemma mint_for_decision_state:
  "fst (mint_for_decision E sha k now qo lo w) = fst (mint_approval_token E sha k now qo lo w)"
  by (simp add: mint_for_decision_def split: prod.split sum.split exn_splits)

text \<open>What the store's own operations keep, the operator's decisions keep.\<close>

lemma keeps_approve_store:
  assumes "\<And>k d now who st st'. rs_decide True k d now who st = Inr st' \<Longrightarrow> P st \<Longrightarrow> P st'"
    and "\<And>k s st st'. rs_token_minted True k s st = Inr st' \<Longrightarrow> P st \<Longrightarrow> P st'"
  shows "keeps (\<lambda>w. P (dk_store w)) (dashboard_approve E sha k now actor pct lp)"
proof -
  have "keeps (\<lambda>w. P (dk_store w)) (mint_for_decision E sha k now qo lo)" for qo lo
    using keeps_mint_store [where P = P, OF assms(2)] by (simp add: keeps_iff mint_for_decision_state)
  then show ?thesis
    unfolding dashboard_approve_def first_approval_def approve_decided_def get_request_def live_token_def
    by (auto split: option.split intro!: keeps_bind keeps_get keeps_raise keeps_ret keeps_lift keeps_desk_log
        keeps_desk_call) (erule (1) assms(1))
qed

lemma keeps_reject_store:
  assumes "\<And>k d now who st st'. rs_decide True k d now who st = Inr st' \<Longrightarrow> P st \<Longrightarrow> P st'"
  shows "keeps (\<lambda>w. P (dk_store w)) (dashboard_reject E k now actor)"
  unfolding dashboard_reject_def get_request_def
  by (auto split: option.split intro!: keeps_bind keeps_get keeps_raise keeps_ret keeps_desk_log keeps_desk_call)
    (erule (1) assms)

lemma keeps_mint: "keeps (\<lambda>w. stored_token (dk_store w) rid = Some s) (mint_approval_token E sha k now qo lo)"
  and keeps_approve: "keeps (\<lambda>w. stored_token (dk_store w) rid = Some s) (dashboard_approve E sha k now actor pct lp)"
  and keeps_reject: "keeps (\<lambda>w. stored_token (dk_store w) rid = Some s) (dashboard_reject E k now actor)"
  by (rule keeps_mint_store keeps_approve_store keeps_reject_store;
      (erule (1) stored_token_mint_keeps)?; simp add: stored_token_decide)+

subsection \<open>An order is sent only with the stored token\<close>

lemma token_spent_keeps:
  assumes "\<And>s. keeps (\<lambda>w. stored_token (dk_store w) rid = Some s) m"
  shows "keeps (\<lambda>w. token_spent rid (dk_store w)) m"
  using assms unfolding keeps_iff token_spent_def by blast

text \<open>After a mint by a service without a token for the request, the store holds the token minted.\<close>

lemma wp_desk_log: "(\<And>s. Q () (w\<lparr>dk_sys := s\<rparr>)) \<Longrightarrow> wp (desk_log E actor act ty oid before after now) Q (\<lambda>_ _. True) w"
  by (auto simp: wp_def desk_log_def on_part_def split: prod.split sum.split)

lemma mint_stores_token:
  assumes "live_token rid w = (w, Inr None)"
  shows "wp (mint_approval_token E sha rid now qo lo)
    (\<lambda>tok w'. stored_token (dk_store w') rid = Some (TokenSnap tok)) (\<lambda>_ _. True) w"
proof (cases "rs_get (dk_store w) rid")
  case None
  then show ?thesis by (simp add: mint_approval_token_def get_request_def wp_simps)
next
  case (Some r)
  have live: "token_for_request (wd_svc (dk_sys w)) rid = None"
    using assms by (simp add: live_token_def getW_def)
  have new: "wp (mint_new E sha rid r now qo lo)
    (\<lambda>tok w'. stored_token (dk_store w') rid = Some (TokenSnap tok)) (\<lambda>_ _. True) w"
    unfolding mint_new_def service_approve_def wp_simps
    by (auto simp: wp_simps wp_desk_call encode_token_def stored_token_minted
        split: sum.split option.split intro!: wp_desk_log)
  show ?thesis
  proof (cases "rq_token_snapshot r")
    case None
    with Some live new show ?thesis
      by (simp add: mint_approval_token_def get_request_def live_token_def wp_simps)
  next
    case snap: (Some s)
    with Some live show ?thesis
      by (cases s) (simp_all add: mint_approval_token_def get_request_def live_token_def wp_simps
          token_from_snapshot_def stored_token_def rs_get_def)
  qed
qed

lemma send_order_unsent:
  assumes "\<not> sb_reached (submit mac (bp_identity port (sx_broker w)) (attach_staging_key (gk_key gk) ad) (rd_submit_now rd)
      (Some (consumption_sink rid (dk_store (sx_desk w)))) (bp_impl port) so (Some tok) (Some price) (sx_broker w))"
  shows "fst (send_order mac gk ad port rd rid so tok price w) = w"
  using assms submit_not_reached [OF assms]
  by (auto simp: send_order_def Let_def record_consumed_def submit_def stopped_def split: sum.splits prod.splits)

lemma send_order_sent:
  assumes "sb_reached (submit mac (bp_identity port (sx_broker w)) (attach_staging_key (gk_key gk) ad) (rd_submit_now rd)
      (Some (consumption_sink rid (dk_store (sx_desk w)))) (bp_impl port) so (Some tok) (Some price) (sx_broker w))"
  shows "spendable tok price (rd_submit_now rd) (so_fields so)"
    and "\<exists>st. rs_token_consumed True rid (TokenSnap (tok\<lparr>at_consumed_at := Some (rd_submit_now rd)\<rparr>))
            (dk_store (sx_desk w)) = Inr st
          \<and> sx_desk (fst (send_order mac gk ad port rd rid so tok price w)) = (sx_desk w)\<lparr>dk_store := st\<rparr>"
    and "sx_sent (fst (send_order mac gk ad port rd rid so tok price w)) = sx_sent w @
          [\<lparr> sn_request = rid, sn_order = so, sn_token = tok, sn_price = price, sn_now = rd_submit_now rd \<rparr>]"
proof -
  obtain tok' where t: "spend_token (Some tok) (Some price) (rd_submit_now rd) so = Inr tok'"
    "consumption_sink rid (dk_store (sx_desk w)) tok' = Inr ()"
    using assms by (auto simp: submit_reached)
  show "spendable tok price (rd_submit_now rd) (so_fields so)" using t(1) by (simp add: spend_token_ok)
  have tok': "tok' = tok\<lparr>at_consumed_at := Some (rd_submit_now rd)\<rparr>" using t(1) by (simp add: spend_token_ok)
  obtain st where st: "rs_token_consumed True rid (TokenSnap tok') (dk_store (sx_desk w)) = Inr st"
    using t(2) by (auto simp: consumption_sink_def encode_token_def result_simps)
  have rec: "sb_recorded (submit mac (bp_identity port (sx_broker w)) (attach_staging_key (gk_key gk) ad) (rd_submit_now rd)
      (Some (consumption_sink rid (dk_store (sx_desk w)))) (bp_impl port) so (Some tok) (Some price) (sx_broker w)) = [tok']"
    using submit_reached_token [OF assms] t(1) by simp
  show "\<exists>st. rs_token_consumed True rid (TokenSnap (tok\<lparr>at_consumed_at := Some (rd_submit_now rd)\<rparr>))
            (dk_store (sx_desk w)) = Inr st
          \<and> sx_desk (fst (send_order mac gk ad port rd rid so tok price w)) = (sx_desk w)\<lparr>dk_store := st\<rparr>"
    using st by (simp add: tok' send_order_def Let_def rec record_consumed_def encode_token_def rs_step_def)
  show "sx_sent (fst (send_order mac gk ad port rd rid so tok price w)) = sx_sent w @
          [\<lparr> sn_request = rid, sn_order = so, sn_token = tok, sn_price = price, sn_now = rd_submit_now rd \<rparr>]"
    using assms by (simp add: send_order_def Let_def)
qed

text \<open>The checks before \<open>send_order\<close> only read.\<close>

definition ready_to_send ::
  "'k mac \<Rightarrow> 'k gatekeeper \<Rightarrow> 'k adapter \<Rightarrow> 'b broker_port \<Rightarrow> run_reads \<Rightarrow> string \<Rightarrow> approval_token
   \<Rightarrow> staged_order \<Rightarrow> pyfloat \<Rightarrow> 'b exec_state \<Rightarrow> bool" where
  "ready_to_send mac gk ad port rd rid tok so price w \<longleftrightarrow>
     (\<exists>r. rs_get (dk_store (sx_desk w)) rid = Some r \<and> rq_decision r = Some ''APPROVED'' \<and> rq_invalidated r = None
        \<and> staged_order_from_snapshot (rq_proposal_snapshot r) = Inr so)
     \<and> so_verify mac (gk_key gk) so \<and> at_request_id tok = rid
     \<and> bp_by_id port (of_client_order_id (so_fields so)) (sx_broker w) = Inr None
     \<and> check_drifted port (so_fields so) (sx_broker w) = Inr ()
     \<and> verify_unmodified tok (so_fields so) = Inr ()
     \<and> submission_gates rd (ad_account ad) (of_symbol (so_fields so)) = Inr price"

lemma on_desk_get: "on_desk (get_request rid) w = (w, Inr (rs_get (dk_store (sx_desk w)) rid))"
  by (simp add: on_desk_def on_part_def get_request_def getW_def)

lemma execute_unapproved:
  assumes "rs_get (dk_store (sx_desk w)) rid = Some r" and "rq_decision r = Some ''APPROVED'' \<Longrightarrow> rq_invalidated r \<noteq> None
    \<or> staged_order_from_snapshot (rq_proposal_snapshot r) = Inl e"
  shows "fst (execute_approved_request mac gk ad port rd rid tok w) = w"
  using assms
  by (cases "rq_decision r = Some ''APPROVED''"; cases "rq_invalidated r = None")
    (simp_all add: execute_approved_request_def bindW_def on_desk_get raiseW_def liftW_def)

lemma execute_approved:
  assumes "rs_get (dk_store (sx_desk w)) rid = Some r" and "rq_decision r = Some ''APPROVED''"
    and "rq_invalidated r = None" and "staged_order_from_snapshot (rq_proposal_snapshot r) = Inr so"
  shows "execute_approved_request mac gk ad port rd rid tok w =
    (if \<not> so_verify mac (gk_key gk) so then (w, Inl StagingSignatureInvalid)
     else if at_request_id tok \<noteq> rid then (w, Inl ExecutionError)
     else case bp_by_id port (of_client_order_id (so_fields so)) (sx_broker w) of
       Inl e \<Rightarrow> (w, Inl e) | Inr (Some ord) \<Rightarrow> (w, Inr ord)
     | Inr None \<Rightarrow> (case check_drifted port (so_fields so) (sx_broker w) of Inl e \<Rightarrow> (w, Inl e) | Inr _ \<Rightarrow>
         (case verify_unmodified tok (so_fields so) of Inl e \<Rightarrow> (w, Inl e) | Inr _ \<Rightarrow>
         (case submission_gates rd (ad_account ad) (of_symbol (so_fields so)) of Inl e \<Rightarrow> (w, Inl e)
          | Inr price \<Rightarrow> send_order mac gk ad port rd rid so tok price w))))"
  using assms
  by (simp add: execute_approved_request_def bindW_def on_desk_get raiseW_def liftW_def ask_broker_def retW_def
      split: option.split sum.split)

lemma execute_reads:
  assumes "\<And>so price. \<not> ready_to_send mac gk ad port rd rid tok so price w"
  shows "fst (execute_approved_request mac gk ad port rd rid tok w) = w"
proof (cases "rs_get (dk_store (sx_desk w)) rid")
  case None
  then show ?thesis by (simp add: execute_approved_request_def on_desk_get bindW_def raiseW_def)
next
  case (Some r)
  consider e where "rq_decision r = Some ''APPROVED'' \<Longrightarrow> rq_invalidated r \<noteq> None
      \<or> staged_order_from_snapshot (rq_proposal_snapshot r) = Inl e"
    | so where "rq_decision r = Some ''APPROVED''" "rq_invalidated r = None"
        "staged_order_from_snapshot (rq_proposal_snapshot r) = Inr so"
    by (cases "staged_order_from_snapshot (rq_proposal_snapshot r)") auto
  then show ?thesis
  proof cases
    case 1
    with Some show ?thesis by (rule execute_unapproved)
  next
    case (2 so)
    show ?thesis
    proof (cases "submission_gates rd (ad_account ad) (of_symbol (so_fields so))")
      case (Inl e)
      then show ?thesis by (simp add: execute_approved [OF Some 2] split: sum.split option.split)
    next
      case (Inr price)
      have "\<not> ready_to_send mac gk ad port rd rid tok so price w" using assms .
      with Some 2 Inr show ?thesis
        by (cases "bp_by_id port (of_client_order_id (so_fields so)) (sx_broker w)";
            cases "check_drifted port (so_fields so) (sx_broker w)"; cases "verify_unmodified tok (so_fields so)")
          (auto simp: execute_approved [OF Some 2] ready_to_send_def split: option.split)
    qed
  qed
qed

lemma execute_cases:
  obtains (sent) so price where "ready_to_send mac gk ad port rd rid tok so price w"
      "execute_approved_request mac gk ad port rd rid tok w = send_order mac gk ad port rd rid so tok price w"
  | (refused) "\<And>so price. \<not> ready_to_send mac gk ad port rd rid tok so price w"
      "fst (execute_approved_request mac gk ad port rd rid tok w) = w"
proof (cases "\<exists>so price. ready_to_send mac gk ad port rd rid tok so price w")
  case True
  then obtain so price where r: "ready_to_send mac gk ad port rd rid tok so price w" by blast
  then have "execute_approved_request mac gk ad port rd rid tok w = send_order mac gk ad port rd rid so tok price w"
    by (auto simp: ready_to_send_def execute_approved)
  with r sent show thesis by blast
next
  case False
  with refused execute_reads show thesis by metis
qed

subsection \<open>The invariant of a run\<close>

definition sent_once :: "'b exec_state \<Rightarrow> bool" where
  "sent_once w \<longleftrightarrow> distinct (map sn_request (sx_sent w))
     \<and> (\<forall>s \<in> set (sx_sent w). token_spent (sn_request s) (dk_store (sx_desk w)))"

lemma sent_once_desk:
  assumes "sent_once w" and "\<And>rid s. keeps (\<lambda>d. stored_token (dk_store d) rid = Some s) m"
  shows "sent_once (fst (on_desk m w))"
  using assms(1) keepsD [OF token_spent_keeps [OF assms(2)], where w = "sx_desk w"]
  by (auto simp: sent_once_def on_desk_def on_part_def split: prod.splits)

lemma sent_once_service [simp]: "sent_once (set_service svc w) = sent_once w"
  by (simp add: sent_once_def set_service_def)

lemma sent_once_execute:
  assumes "sent_once w" and "stored_token (dk_store (sx_desk w)) rid = Some (TokenSnap tok)"
  shows "sent_once (fst (execute_approved_request mac gk ad port rd rid tok w))"
proof (cases rule: execute_cases [of mac gk ad port rd rid tok w])
  case (sent so price)
  show ?thesis
  proof (cases "sb_reached (submit mac (bp_identity port (sx_broker w)) (attach_staging_key (gk_key gk) ad)
      (rd_submit_now rd) (Some (consumption_sink rid (dk_store (sx_desk w)))) (bp_impl port) so (Some tok) (Some price)
      (sx_broker w))")
    case True
    note S = send_order_sent [OF True]
    obtain st where st: "rs_token_consumed True rid (TokenSnap (tok\<lparr>at_consumed_at := Some (rd_submit_now rd)\<rparr>))
        (dk_store (sx_desk w)) = Inr st"
      "sx_desk (fst (send_order mac gk ad port rd rid so tok price w)) = (sx_desk w)\<lparr>dk_store := st\<rparr>"
      using S(2) by blast
    have "at_consumed_at tok = None" using S(1) by (simp add: spendable_def)
    then have fresh: "\<not> token_spent rid (dk_store (sx_desk w))" using assms(2) by (simp add: token_spent_def)
    have spent: "token_spent k st \<longleftrightarrow> k = rid \<or> token_spent k (dk_store (sx_desk w))" for k
      using stored_token_consumed [OF st(1), of k] fresh by (auto simp: token_spent_def)
    have "rid \<notin> sn_request ` set (sx_sent w)" using assms(1) fresh by (auto simp: sent_once_def)
    with assms(1) st(2) S(3) spent show ?thesis
      by (auto simp: sent_once_def sent(2))
  next
    case False
    with assms(1) send_order_unsent [OF False] show ?thesis by (simp add: sent(2))
  qed
next
  case refused
  with assms(1) show ?thesis by simp
qed

text \<open>
  What the command keeps, it keeps through the mint, the execution with the token the store then holds, and the audit row;
  the service of its own it does not leave behind.
\<close>

lemma run_submit_keeps:
  assumes "P w" and service: "\<And>svc w. P (set_service svc w) = P w"
    and mint: "\<And>w. P w \<Longrightarrow> P (fst (on_desk (mint_approval_token (cf_env cf) (cf_sha cf) rid (cf_now cf) None None) w))"
    and logged: "\<And>a b c i bef af t w. P w \<Longrightarrow> P (fst (on_desk (desk_log (cf_env cf) a b c i bef af t) w))"
    and execute: "\<And>gk ad tok w. P w \<Longrightarrow> stored_token (dk_store (sx_desk w)) rid = Some (TokenSnap tok)
      \<Longrightarrow> P (fst (execute_approved_request (cf_mac cf) gk ad port rd rid tok w))"
  shows "P (fst (run_submit_approved cf port rd rid w))"
proof -
  define w0 where "w0 = set_service (fresh_service (cf_service cf)) w"
  have w0: "P w0" "live_token rid (sx_desk w0) = (sx_desk w0, Inr None)"
    using assms(1) by (simp_all add: w0_def service, simp add: live_token_def getW_def set_service_def fresh_service_def
        token_for_request_def)
  have step: "P (fst (submit_approved_steps cf port rd rid w0))"
  proof (cases "on_desk (mint_approval_token (cf_env cf) (cf_sha cf) rid (cf_now cf) None None) w0")
    case (Pair w1 r)
    have w1: "P w1" using mint [OF w0(1)] Pair by (metis fst_conv)
    have stored: "stored_token (dk_store (sx_desk w1)) rid = Some (TokenSnap tok)" if "r = Inr tok" for tok
      using wp_resultD [OF mint_stores_token [OF w0(2)]] Pair that
      by (auto simp: on_desk_def on_part_def split: prod.splits)
    show ?thesis
    proof (cases "\<exists>tok gk ad. r = Inr tok \<and> cf_gatekeeper cf = Inr gk \<and> cf_adapter cf = Inr ad")
      case True
      then obtain tok gk ad where x: "r = Inr tok" "cf_gatekeeper cf = Inr gk" "cf_adapter cf = Inr ad" by blast
      obtain w2 y where w2: "execute_approved_request (cf_mac cf) gk ad port rd rid tok w1 = (w2, y)" by force
      then have "P w2" using execute [OF w1 stored [OF x(1)], of gk ad] by (metis fst_conv)
      then show ?thesis
        using logged [of w2]
        by (cases y) (simp_all add: submit_approved_steps_def bindW_def Pair x w2 liftW_def)
    next
      case False
      then have "fst (submit_approved_steps cf port rd rid w0) = w1"
        by (cases r; cases "cf_gatekeeper cf"; cases "cf_adapter cf")
           (auto simp: submit_approved_steps_def bindW_def Pair liftW_def)
      with w1 show ?thesis by simp
    qed
  qed
  have "fst (run_submit_approved cf port rd rid w) =
      set_service (wd_svc (dk_sys (sx_desk w))) (fst (submit_approved_steps cf port rd rid w0))"
    by (simp add: run_submit_approved_def Let_def exit_code_def w0_def set_service_def split: prod.split sum.split)
  with step show ?thesis by (simp add: service)
qed

lemma sent_once_submit:
  assumes "sent_once w"
  shows "sent_once (fst (run_submit_approved cf port rd rid w))"
proof (rule run_submit_keeps [where P = sent_once, OF assms sent_once_service])
  show "sent_once v \<Longrightarrow> sent_once (fst (on_desk (mint_approval_token (cf_env cf) (cf_sha cf) rid (cf_now cf) None None) v))" for v
    by (intro sent_once_desk keeps_mint)
  show "sent_once v \<Longrightarrow> sent_once (fst (on_desk (desk_log (cf_env cf) a b c i bef af t) v))" for v a b c i bef af t
    by (intro sent_once_desk keeps_desk_log)
qed (rule sent_once_execute)

lemma sent_once_step: "sent_once w \<Longrightarrow> sent_once (exec_step op w)"
proof (cases op)
  case (BrokerMoves f)
  then show "sent_once w \<Longrightarrow> ?thesis" by (simp add: sent_once_def)
qed (auto intro!: sent_once_desk keeps_desk_call keeps_approve keeps_reject sent_once_submit
    simp: stored_token_create stored_token_invalidate)

lemma sent_once_run: "sent_once w \<Longrightarrow> sent_once (exec_run ops w)"
  unfolding exec_run_def by (induction ops arbitrary: w) (simp_all add: sent_once_step)

subsection \<open>When an order may go out\<close>

definition gates_open :: "run_reads \<Rightarrow> string \<Rightarrow> string \<Rightarrow> pyfloat \<Rightarrow> bool" where
  "gates_open rd acct symbol price \<longleftrightarrow>
     (\<exists>st. ms_load (rd_mode_row rd) (rd_mode_file rd) = Inr st
        \<and> ms_current st \<in> {Some ''PAPER'', Some ''PRODUCTION_ACTIVE''})
     \<and> (\<exists>s since. rd_status rd = Inr (Some s) \<and> rt_account s = acct \<and> rt_source s \<in> {''cycle'', ''reconcile_once''}
        \<and> rt_reconciliation_status s = ''PASS'' \<and> rt_reconciliation_at s = Some since
        \<and> rt_positions_reconciled s = Some True \<and> rt_cash_reconciled s = Some True
        \<and> rt_open_orders_reconciled s = Some True
        \<and> rd_now rd \<le> since + 25 * hour_us \<and> rd_now rd \<le> rt_generated_at s + 25 * hour_us)
     \<and> in_session_now (Aware (rd_now rd)) = Inr True
     \<and> rd_quote rd symbol = Inr (Some price) \<and> 0 < price"

lemma submission_gates_iff: "submission_gates rd acct symbol = Inr price \<longleftrightarrow> gates_open rd acct symbol price"
proof -
  have m: "mode_permits_submission rd \<longleftrightarrow> (\<exists>st. ms_load (rd_mode_row rd) (rd_mode_file rd) = Inr st
        \<and> ms_current st \<in> {Some ''PAPER'', Some ''PRODUCTION_ACTIVE''})"
    by (auto simp: mode_permits_submission_def SUBMISSION_PERMITTED_MODES_def normalize_persisted_def
        split: sum.split option.splits)
  have r: "reconciliation_is_fresh (rd_status rd) (rd_now rd) acct \<longleftrightarrow>
      (\<exists>s since. rd_status rd = Inr (Some s) \<and> rt_account s = acct \<and> rt_source s \<in> {''cycle'', ''reconcile_once''}
        \<and> rt_reconciliation_status s = ''PASS'' \<and> rt_reconciliation_at s = Some since
        \<and> rt_positions_reconciled s = Some True \<and> rt_cash_reconciled s = Some True
        \<and> rt_open_orders_reconciled s = Some True
        \<and> rd_now rd \<le> since + 25 * hour_us \<and> rd_now rd \<le> rt_generated_at s + 25 * hour_us)"
    by (auto simp: reconciliation_is_fresh_def RECONCILIATION_AUTHORITATIVE_SOURCES_def DEFAULT_STALE_AFTER_def
        is_stale_status_def split: sum.split option.splits)
  have s: "session_permits_submission (rd_now rd) \<longleftrightarrow> in_session_now (Aware (rd_now rd)) = Inr True"
    by (simp add: session_permits_submission_def split: sum.split)
  have q: "fresh_price rd symbol = Inr price \<longleftrightarrow> rd_quote rd symbol = Inr (Some price) \<and> 0 < price"
    by (auto simp: fresh_price_def split: sum.split option.splits)
  show ?thesis
    unfolding submission_gates_def bindE_eq_Inr guardE_eq_Inr m r s q gates_open_def by auto
qed

text \<open>
  Everything an execution needs: of the request and its order, of the broker's state, of the gates, of the adapter
  (its account, key and capability policy), and of the token and the store that is to record its consumption.
\<close>

definition cleared ::
  "'k mac \<Rightarrow> 'k gatekeeper \<Rightarrow> 'k adapter \<Rightarrow> 'b broker_port \<Rightarrow> run_reads \<Rightarrow> string \<Rightarrow> approval_token
   \<Rightarrow> 'b exec_state \<Rightarrow> staged_order \<Rightarrow> pyfloat \<Rightarrow> bool" where
  "cleared mac gk ad port rd rid tok w so price \<longleftrightarrow>
     (\<exists>r. rs_get (dk_store (sx_desk w)) rid = Some r \<and> rq_decision r = Some ''APPROVED'' \<and> rq_invalidated r = None
        \<and> staged_order_from_snapshot (rq_proposal_snapshot r) = Inr so)
     \<and> so_verify mac (gk_key gk) so \<and> of_account (so_fields so) = ad_account ad \<and> of_side (so_fields so) \<noteq> ''CANCEL''
     \<and> bp_identity port (sx_broker w) = Inr ()
     \<and> bp_by_id port (of_client_order_id (so_fields so)) (sx_broker w) = Inr None
     \<and> check_drifted port (so_fields so) (sx_broker w) = Inr ()
     \<and> gates_open rd (ad_account ad) (of_symbol (so_fields so)) price
     \<and> gate4 (attach_staging_key (gk_key gk) ad) so = Inr ()
     \<and> at_request_id tok = rid \<and> spendable tok price (rd_submit_now rd) (so_fields so)
     \<and> is_ok (rs_token_consumed True rid (encode_token (tok\<lparr>at_consumed_at := Some (rd_submit_now rd)\<rparr>))
           (dk_store (sx_desk w)))"

lemma cleared_iff:
  "cleared mac gk ad port rd rid tok w so price \<longleftrightarrow> ready_to_send mac gk ad port rd rid tok so price w
     \<and> sb_reached (submit mac (bp_identity port (sx_broker w)) (attach_staging_key (gk_key gk) ad) (rd_submit_now rd)
         (Some (consumption_sink rid (dk_store (sx_desk w)))) (bp_impl port) so (Some tok) (Some price) (sx_broker w))"
proof -
  have sink: "consumption_sink rid st t = Inr () \<longleftrightarrow> is_ok (rs_token_consumed True rid (encode_token t) st)" for st t
    by (auto simp: consumption_sink_def is_ok_iff result_simps)
  have verified: "verify_staged mac (attach_staging_key (gk_key gk) ad) so = Inr () \<longleftrightarrow>
      so_verify mac (gk_key gk) so \<and> of_account (so_fields so) = ad_account ad"
    by (simp add: verify_staged_ok attach_staging_key_def)
  have modified: "spendable tok price (rd_submit_now rd) (so_fields so) \<Longrightarrow> verify_unmodified tok (so_fields so) = Inr ()"
    by (simp add: spendable_def verify_unmodified_def)
  show ?thesis
    unfolding cleared_def ready_to_send_def submit_reached submit_checks_ok spend_token_ok submission_gates_iff verified
    using modified by (auto simp: sink)
qed

subsection \<open>Properties\<close>


text \<open>
C3: An order goes out only through open gates: an execution reaches the broker exactly when the request is approved and
  not invalidated, its staged order is the signed one, the token is this request's, live, unspent, in its price
  band and for this order, the broker has no order of that id and still supports it, the mode on file
  allows it, a complete reconciliation of this account is at most 25 hours old, the session is open and a fresh positive
  quote is there; otherwise nothing at all changes. The consumption is in the store before the broker is called.
\<close>
theorem execution_reaches_broker_iff:
  "let out = fst (execute_approved_request mac gk ad port rd rid tok w) in
   if \<exists>so price. cleared mac gk ad port rd rid tok w so price
   then \<exists>so price. cleared mac gk ad port rd rid tok w so price
     \<and> sx_sent out = sx_sent w @ [\<lparr> sn_request = rid, sn_order = so, sn_token = tok, sn_price = price,
                       sn_now = rd_submit_now rd \<rparr>]
     \<and> stored_token (dk_store (sx_desk out)) rid = Some (encode_token (tok\<lparr>at_consumed_at := Some (rd_submit_now rd)\<rparr>))
   else out = w"
proof (cases rule: execute_cases [of mac gk ad port rd rid tok w])
  case refused
  then have "\<not> cleared mac gk ad port rd rid tok w so price" for so price
    using cleared_iff by metis
  with refused(2) show ?thesis by (simp add: Let_def)
next
  case (sent so price)
  have unique: "so' = so \<and> price' = price" if "cleared mac gk ad port rd rid tok w so' price'" for so' price'
    using that sent(1) by (auto simp: cleared_iff ready_to_send_def)
  show ?thesis
  proof (cases "cleared mac gk ad port rd rid tok w so price")
    case True
    then have reached: "sb_reached (submit mac (bp_identity port (sx_broker w)) (attach_staging_key (gk_key gk) ad)
        (rd_submit_now rd) (Some (consumption_sink rid (dk_store (sx_desk w)))) (bp_impl port) so (Some tok) (Some price)
        (sx_broker w))" by (simp add: cleared_iff)
    obtain st where st: "rs_token_consumed True rid (TokenSnap (tok\<lparr>at_consumed_at := Some (rd_submit_now rd)\<rparr>))
        (dk_store (sx_desk w)) = Inr st"
      "sx_desk (fst (send_order mac gk ad port rd rid so tok price w)) = (sx_desk w)\<lparr>dk_store := st\<rparr>"
      using send_order_sent(2) [OF reached] by blast
    with True send_order_sent(3) [OF reached] stored_token_consumed [OF st(1), of rid] show ?thesis
      by (auto simp: sent(2) encode_token_def)
  next
    case False
    then have "fst (send_order mac gk ad port rd rid so tok price w) = w"
      using sent(1) by (intro send_order_unsent) (simp add: cleared_iff)
    with False unique show ?thesis by (auto simp: sent(2))
  qed
qed

subsection \<open>A submission that times out, and its retry\<close>

definition ex_proposal :: proposal where
  "ex_proposal = \<lparr> pp_event_id = ''ev-1'', pp_symbol = ''SPY'', pp_side = ''BUY'', pp_requested_qty = Some 2,
     pp_authorized_qty = Some 2, pp_order_type = ''LIMIT'', pp_time_in_force = ''DAY'', pp_limit_price = Some 10,
     pp_lot_id = None, pp_confidence = 1 / 2, pp_analysis = JNull, pp_model_id = ''m'', pp_doc_sha256 = ''d'',
     pp_analyzed_at = 0, pp_legs = None, pp_staged = Some ex_order \<rparr>"

definition ex_figures :: risk_figures where
  "ex_figures = \<lparr> rf_gates_passed = [], rf_binding = [],
     rf_post_trade = \<lparr> pt_reserve_pct = 0, pt_concentration_pct = 0, pt_sector_pct = 0, pt_earliest_exit = None, pt_day_trades = 0 \<rparr>,
     rf_tax = PurchaseTax False \<rparr>"

text \<open>Monday, 3 August 2026, 10:00 in New York.\<close>

definition ex_now :: instant where "ex_now = 63921448800000000"

definition ex_new_request :: "snapshot create_args" where
  "ex_new_request = \<lparr> ca_account = ''A1'', ca_run_id = ''run'', ca_proposal = ProposalSnap ex_proposal,
     ca_risk_result = RiskSnap ex_figures, ca_price = 10, ca_band_low = 9, ca_band_high = 11,
     ca_now = ex_now - 60000000, ca_expiration = 3600000000, ca_earmark = 20, ca_request_id = Some ''apr-1'',
     ca_fresh = [] \<rparr>"

definition ex_desk_service :: approval_service where
  "ex_desk_service = \<lparr> as_expiration = 600000000, as_min_display = 5000000, as_max_per_day = 3,
     as_price_band_pct = 10, as_tokens = [] \<rparr>"

definition ex_submit_config :: "nat submit_config" where
  "ex_submit_config = \<lparr> cf_env = ex_env, cf_sha = (\<lambda>_. ''h''), cf_mac = ex_mac, cf_service = ex_desk_service,
     cf_gatekeeper = Inr ex_gk, cf_adapter = Inr ex_adapter, cf_now = ex_now \<rparr>"

definition ex_reads :: run_reads where
  "ex_reads = \<lparr> rd_now = ex_now, rd_submit_now = ex_now + 1000,
     rd_mode_row = (\<lambda>s. if s = ''PAPER'' then Inr \<lparr> mc_seq = 1, mc_mode = ''PAPER'', mc_changed_at = 0, mc_reason = None,
                        mc_paused_from = None \<rparr> else Inl JSONDecodeError),
     rd_mode_file = Some (''PAPER'' @ [CHR 0x0A]),
     rd_status = Inr (Some \<lparr> rt_generated_at = ex_now - 7000000, rt_account = ''A1'', rt_source = ''cycle'',
        rt_reconciliation_status = ''PASS'', rt_reconciliation_at = Some (ex_now - 7000000),
        rt_positions_reconciled = Some True, rt_cash_reconciled = Some True, rt_open_orders_reconciled = Some True \<rparr>),
     rd_quote = (\<lambda>_. Inr (Some 10)) \<rparr>"

text \<open>A broker that never answers a submission; its state counts them.\<close>

definition ex_port :: "nat broker_port" where
  "ex_port = \<lparr> bp_by_id = (\<lambda>_ _. Inr None),
     bp_account = (\<lambda>_. Inr \<lparr> ac_account = ''A1'', ac_equity = 1000, ac_cash = 1000, ac_settled_cash = 1000,
        ac_unsettled_cash = 0, ac_buying_power = 1000, ac_multiplier = 1, ac_pattern_day_trader = None,
        ac_day_trade_count = None, ac_fetched_at = 0 \<rparr>),
     bp_positions = (\<lambda>_. Inr []), bp_identity = (\<lambda>_. Inr ()), bp_impl = (\<lambda>_ n. (n + 1, Inl TransportTimeout)) \<rparr>"

definition ex_desk_token :: approval_token where
  "ex_desk_token = ex_token\<lparr>at_shown_at := Some (ex_now - 60000000), at_min_display := Some 5000000,
     at_expires_at := ex_now + 570000000\<rparr>"

definition ex_decided :: "snapshot approval_request" where
  "ex_decided = (new_request ex_new_request)\<lparr>rq_decision := Some ''APPROVED'', rq_decided_by := Some ''al'',
     rq_decided_at := Some (ex_now - 30000000), rq_elapsed_ms := Some 30000,
     rq_token_snapshot := Some (TokenSnap ex_desk_token)\<rparr>"

definition ex_start :: "nat exec_state" where
  "ex_start = \<lparr> sx_desk = \<lparr> dk_sys = ex_install\<lparr>wd_svc := ex_desk_service\<rparr>,
       dk_store = empty_store\<lparr>rs_current := [(''apr-1'', ex_decided)], rs_account_of := [(''apr-1'', ''A1'')]\<rparr> \<rparr>,
     sx_broker = 0, sx_sent = [] \<rparr>"

lemma ex_gates: "gates_open ex_reads ''A1'' ''SPY'' 10"
proof -
  have "in_session_now (Aware ex_now) = Inr True"
    "map_sum (\<lambda>e. e) ms_current (ms_load (rd_mode_row ex_reads) (rd_mode_file ex_reads)) = Inr (Some ''PAPER'')" by code_simp+
  then obtain st where "in_session_now (Aware ex_now) = Inr True"
    "ms_load (rd_mode_row ex_reads) (rd_mode_file ex_reads) = Inr st" "ms_current st = Some ''PAPER''"
    by (cases "ms_load (rd_mode_row ex_reads) (rd_mode_file ex_reads)") auto
  then show ?thesis by (simp add: gates_open_def) (simp add: ex_reads_def hour_us_def)
qed

lemma ex_desk_spendable: "spendable ex_desk_token 10 (ex_now + 1000) (so_fields ex_order)"
proof -
  have "2 \<le> fl (2 + eps9)" "10 \<le> fl (10 + eps9)"
    using eps_values(2) flt.rnd_ge_fixed [of 2 "2 + eps9"] flt.rnd_ge_fixed [of 10 "10 + eps9"]
    by (simp_all add: num_simps)
  then show ?thesis
    by (simp add: spendable_def ex_desk_token_def ex_token_def ex_order_def verify_modification_eq same_order_def
        verify_minimum_display_time_def)
qed

lemma ex_cleared: "cleared ex_mac ex_gk ex_adapter ex_port ex_reads ''apr-1'' ex_desk_token ex_start ex_order 10"
proof -
  have drift: "check_drifted ex_port (so_fields ex_order) b = Inr ()" for b
  proof -
    have "0 \<le> eps6" unfolding eps6_def by (rule flt.rnd_nonneg) simp
    then have "fl (20 - eps6) \<le> fl 1000" by (intro flt.rnd_mono) simp
    then show ?thesis by (simp add: check_drifted_def ex_port_def) (simp add: ex_order_def)
  qed
  have p: "policy_check (initial_policy ''v1'') ADAPTER True (Some ''SPY'') (staged_dims (so_fields ex_order)) = Inr ()"
    using ex_args_capability [of "''BUY''" ADAPTER 0 None]
    by (simp add: staged_dims_def order_dims_def ex_order_def ex_gk_def)
  have gate: "gate4 (attach_staging_key 7 ex_adapter) ex_order = Inr ()"
    by (simp add: gate4_ok attach_staging_key_def ex_adapter_def p)
  have ad: "ad_account ex_adapter = ''A1''" "gk_key ex_gk = 7" by (simp_all add: ex_adapter_def ex_gk_def)
  have reads: "rd_submit_now ex_reads = ex_now + 1000" by (simp add: ex_reads_def)
  have port: "bp_identity ex_port = (\<lambda>_. Inr ())" "bp_by_id ex_port = (\<lambda>_ _. Inr None)" by (simp_all add: ex_port_def)
  have req: "at_request_id ex_desk_token = ''apr-1''" by (simp add: ex_desk_token_def ex_token_def)
  have staged: "staged_order_from_snapshot (rq_proposal_snapshot ex_decided) = Inr ex_order"
    by (simp add: staged_order_from_snapshot_def proposal_of_def ex_decided_def new_request_def ex_new_request_def ex_proposal_def)
  have st: "map_of (rs_current (dk_store (sx_desk ex_start))) ''apr-1'' = Some ex_decided"
    "map_of (rs_account_of (dk_store (sx_desk ex_start))) ''apr-1'' = Some ''A1''" by (simp_all add: ex_start_def)
  have dec: "rq_decision ex_decided = Some ''APPROVED''" "rq_invalidated ex_decided = None" "rq_token_snapshot ex_decided \<noteq> None"
    by (simp_all add: ex_decided_def new_request_def)
  show ?thesis
    unfolding cleared_def by (simp add: ad reads port req gate drift ex_gates ex_desk_spendable rs_get_def st dec staged
      rs_token_consumed_def rs_require_def rs_account_def is_ok_iff Let_def)
qed

theorem execution_reaches_broker_iff_witness:
  "sx_sent (fst (execute_approved_request ex_mac ex_gk ex_adapter ex_port ex_reads ''apr-1'' ex_desk_token ex_start)) \<noteq> []"
  using execution_reaches_broker_iff [of ex_mac ex_gk ex_adapter ex_port ex_reads "''apr-1''" ex_desk_token ex_start] ex_cleared
  by (auto simp: Let_def split: if_splits)


end
