(* ===== verification/BridgeProps.thy ===== *)
theory BridgeProps
  imports ExecutionProps
begin

text \<open>
  What the decision desk guarantees on its own: an approval is idempotent and survives a restart, an approval refused
  for its modification has spent the request's one decision, and a decision leaves every other request alone.
\<close>

subsection \<open>What a mint leaves\<close>

definition settled_token :: "string \<Rightarrow> approval_token \<Rightarrow> desk \<Rightarrow> bool" where
  "settled_token rid tok w \<longleftrightarrow> (\<exists>r. rs_get (dk_store w) rid = Some r \<and> rq_decision r = Some ''APPROVED''
     \<and> rq_invalidated r = None
     \<and> (case token_for_request (wd_svc (dk_sys w)) rid of
          Some t \<Rightarrow> t = tok
        | None \<Rightarrow> rq_token_snapshot r = Some (TokenSnap tok)))"

lemma wp_desk_log_svc:
  "(\<And>s. wd_svc s = wd_svc (dk_sys w) \<Longrightarrow> Q () (w\<lparr>dk_sys := s\<rparr>)) \<Longrightarrow> (\<And>s. E' OSError (w\<lparr>dk_sys := s\<rparr>)) \<Longrightarrow>
   (\<And>s. E' AuditError (w\<lparr>dk_sys := s\<rparr>)) \<Longrightarrow>
   wp (desk_log E actor act ty oid before after now) Q E' w"
  by (auto simp: wp_def desk_log_def on_part_def log_append_def audit_append_def assert_json_native_def guardE_def
      bindE_def Let_def split: prod.splits sum.splits option.splits if_splits)

lemma service_approve_settles:
  assumes "token_for_request (wd_svc (dk_sys w)) (aa_request_id a) = None"
  shows "wp (service_approve E a)
    (\<lambda>tok w'. dk_store w' = dk_store w \<and> token_for_request (wd_svc (dk_sys w')) (aa_request_id a) = Some tok)
    (\<lambda>e w'. e = TokenReissued \<longrightarrow> w' = w) w"
proof (cases "approve (wd_svc (dk_sys w)) a")
  case (Inl e)
  then show ?thesis by (simp add: service_approve_def wp_simps)
next
  case (Inr x)
  obtain svc' tok drift where x: "x = (svc', tok, drift)" by (cases x)
  have "token_for_request svc' (aa_request_id a) = Some tok"
    using token_for_request_mint [OF Inr [unfolded x] assms] by simp
  then show ?thesis
    by (cases drift) (auto simp: service_approve_def wp_simps Inr x intro!: wp_desk_log_svc)
qed

lemma mint_settles:
  "wp (mint_approval_token E sha rid now qo lo) (\<lambda>tok w'. settled_token rid tok w')
     (\<lambda>e w'. e = TokenReissued \<longrightarrow> token_for_request (wd_svc (dk_sys w')) rid = None) w"
proof (cases "rs_get (dk_store w) rid")
  case None
  then show ?thesis by (simp add: mint_approval_token_def get_request_def wp_simps)
next
  case (Some r)
  let ?live = "token_for_request (wd_svc (dk_sys w)) rid"
  have new: "wp (mint_new E sha rid r now qo lo) (\<lambda>tok w'. settled_token rid tok w')
      (\<lambda>e w'. e = TokenReissued \<longrightarrow> token_for_request (wd_svc (dk_sys w')) rid = None) w"
    if live: "?live = None" and ok: "rq_decision r = Some ''APPROVED''" "rq_invalidated r = None"
  proof (cases "mint_args sha rid r now qo lo")
    case (Inl e)
    then show ?thesis using live by (simp add: mint_new_def wp_simps)
  next
    case (Inr a)
    then have id: "aa_request_id a = rid"
      by (auto simp: mint_args_def result_simps Let_def split: option.splits if_splits)
    show ?thesis
      unfolding mint_new_def wp_simps Inr
      using live Some ok
      by (auto simp: wp_simps intro!: wp_mono [OF service_approve_settles [of w a E, unfolded id]] split: sum.split)
         (auto simp: settled_token_def rs_get_def rs_token_minted_def rs_require_def rs_account_def rs_put_def
            append_event_def Let_def result_simps split: option.splits if_splits)
  qed
  show ?thesis
  proof (cases "rq_decision r = Some ''APPROVED'' \<and> rq_invalidated r = None")
    case ok: True
    show ?thesis
    proof (cases ?live)
      case (Some t)
      with \<open>rs_get (dk_store w) rid = Some r\<close> ok show ?thesis
        by (simp add: mint_approval_token_def get_request_def live_token_def wp_simps settled_token_def)
    next
      case None
      show ?thesis
      proof (cases "rq_token_snapshot r")
        case snap: None
        show ?thesis
          using Some ok None new [OF None] snap
          by (simp add: mint_approval_token_def get_request_def live_token_def wp_simps)
      next
        case (Some s)
        with \<open>rs_get (dk_store w) rid = Some r\<close> ok None show ?thesis
          by (cases s) (simp_all add: mint_approval_token_def get_request_def live_token_def wp_simps
              settled_token_def token_from_snapshot_def)
      qed
    qed
  next
    case False
    with Some show ?thesis by (auto simp: mint_approval_token_def get_request_def wp_simps)
  qed
qed

text \<open>A settled token is what every later mint returns, whatever it asks for.\<close>

lemma mint_settled:
  assumes "settled_token rid tok w"
  shows "mint_approval_token E sha rid now qo lo w = (w, Inr tok)"
  using assms
  by (auto simp: settled_token_def mint_approval_token_def get_request_def live_token_def bindW_def getW_def retW_def
      liftW_def token_from_snapshot_def split: option.splits)

lemma mint_for_decision_settles:
  assumes "mint_for_decision E sha rid now qo lo w = (w', Inr res)"
  obtains tok where "settled_token rid tok w'" "res = token_result tok False"
proof (cases "mint_approval_token E sha rid now qo lo w")
  case (Pair w1 x)
  show thesis
  proof (cases x)
    case (Inr tok)
    with Pair assms wp_resultD [OF mint_settles, of E sha rid now qo lo w w1 tok] that show thesis
      by (simp add: mint_for_decision_def)
  next
    case (Inl e)
    with Pair wp_raisedD [OF mint_settles, of E sha rid now qo lo w w1 e]
    have "e = TokenReissued \<Longrightarrow> token_for_request (wd_svc (dk_sys w1)) rid = None" by simp
    with Inl Pair assms show thesis
      by (auto simp: mint_for_decision_def split: exn_splits)
  qed
qed

lemma mint_for_decision_settled:
  "settled_token rid tok w \<Longrightarrow> mint_for_decision E sha rid now qo lo w = (w, Inr (token_result tok False))"
  by (simp add: mint_for_decision_def mint_settled)

text \<open>The proposal of a request never changes.\<close>

definition proposes :: "string \<Rightarrow> snapshot \<Rightarrow> snapshot request_store \<Rightarrow> bool" where
  "proposes rid x st \<longleftrightarrow> (\<exists>r. rs_get st rid = Some r \<and> rq_proposal_snapshot r = x)"

lemma proposes_decide: "rs_decide p k d now who st = Inr st' \<Longrightarrow> proposes rid x st \<Longrightarrow> proposes rid x st'"
  by (auto simp: rs_decide_def append_event_def rs_put_def rs_require_def rs_account_def Let_def proposes_def rs_get_def
      result_simps session_eq simp del: session_for_instant.simps split: if_splits option.splits)

lemma proposes_minted: "rs_token_minted p k s st = Inr st' \<Longrightarrow> proposes rid x st \<Longrightarrow> proposes rid x st'"
  by (auto simp: rs_token_minted_def append_event_def rs_put_def rs_require_def rs_account_def Let_def proposes_def
      rs_get_def result_simps split: if_splits option.splits)

lemma keeps_proposes_mint: "keeps (\<lambda>w. proposes rid x (dk_store w)) (mint_for_decision E sha k now qo lo)"
  using keeps_mint_store [where P = "proposes rid x", OF proposes_minted]
  by (simp add: keeps_iff mint_for_decision_state)

lemma keeps_proposes_first: "keeps (\<lambda>w. proposes rid x (dk_store w)) (first_approval E k r now actor pct lp)"
  unfolding first_approval_def
  by (auto intro!: keeps_bind keeps_get keeps_raise keeps_ret keeps_desk_log keeps_desk_call proposes_decide)

text \<open>After an approval that succeeded: a live token, or the stored one and a proposal to read.\<close>

lemma approve_decided_settles:
  assumes "approve_decided E sha rid r now pct lp w = (w', Inr res)" and "proposes rid (rq_proposal_snapshot r) (dk_store w)"
  obtains tok r' p where "settled_token rid tok w'" "res = token_result tok False"
    "rs_get (dk_store w') rid = Some r'" "proposal_of (rq_proposal_snapshot r') = Inr p"
proof -
  obtain p where p: "proposal_of (rq_proposal_snapshot r) = Inr p"
    "mint_for_decision E sha rid now (map_option (\<lambda>q. fl (fl (q * pct) / 100)) (pp_authorized_qty p)) lp w = (w', Inr res)"
    using assms(1) by (auto simp: approve_decided_def bindW_def liftW_def split: sum.splits)
  have "proposes rid (rq_proposal_snapshot r) (dk_store w')"
    using keepsD [OF keeps_proposes_mint assms(2)] p(2) by (metis fst_conv)
  then obtain r' where "rs_get (dk_store w') rid = Some r'" "proposal_of (rq_proposal_snapshot r') = Inr p"
    using p(1) by (auto simp: proposes_def)
  with mint_for_decision_settles [OF p(2)] that show thesis by metis
qed

text \<open>What a first approval leaves: the decision, no token.\<close>

lemma rs_decide_get:
  assumes "rs_decide p rid k now who st = Inr st'" and "map_of (rs_current st) rid = Some r"
  shows "map_of (rs_current st') rid = Some (r\<lparr>rq_decision := Some k, rq_decided_by := Some who,
           rq_decided_at := Some now, rq_elapsed_ms := Some (elapsed_ms (now - rq_shown_at r))\<rparr>)"
    and "rq_decision r = None \<and> rq_invalidated r = None"
  using assms
  by (auto simp: rs_decide_def append_event_def rs_put_def rs_require_def rs_account_def Let_def
      result_simps session_eq simp del: session_for_instant.simps split: if_splits option.splits)

lemma first_approval_leaves:
  assumes "first_approval E rid r now actor pct lp w = (w', Inr ())" and "rs_get (dk_store w) rid = Some r"
  shows "wd_svc (dk_sys w') = wd_svc (dk_sys w)"
    and "rs_get (dk_store w') rid = Some (r\<lparr>rq_decision := Some ''APPROVED'', rq_decided_by := Some actor,
           rq_decided_at := Some now, rq_elapsed_ms := Some (elapsed_ms (now - rq_shown_at r))\<rparr>)"
    and "rq_decision r = None \<and> rq_invalidated r = None"
proof -
  let ?least = "as_min_display (wd_svc (dk_sys w))"
  obtain w1 where w1: "desk_call (rs_decide True rid ''APPROVED'' now actor) w = (w1, Inr ())"
    "desk_log E actor ''approval_request_decided'' ''approval_request'' rid (decision_json None)
            (JObj [(KStr ''decision'', JStr ''APPROVED''), (KStr ''size_pct'', JFloat pct),
                   (KStr ''limit_price'', opt_float lp)]) now w1 = (w', Inr ())"
    using assms(1) by (auto simp: first_approval_def bindW_def getW_def raiseW_def split: if_splits prod.splits sum.splits)
  have "wp (desk_log E actor ''approval_request_decided'' ''approval_request'' rid (decision_json None)
            (JObj [(KStr ''decision'', JStr ''APPROVED''), (KStr ''size_pct'', JFloat pct),
                   (KStr ''limit_price'', opt_float lp)]) now)
      (\<lambda>_ w'. wd_svc (dk_sys w') = wd_svc (dk_sys w1) \<and> dk_store w' = dk_store w1) (\<lambda>_ _. True) w1"
    by (rule wp_desk_log_svc) simp_all
  from wp_resultD [OF this w1(2)] have same: "wd_svc (dk_sys w') = wd_svc (dk_sys w1)" "dk_store w' = dk_store w1"
    by simp_all
  obtain st where st: "rs_decide True rid ''APPROVED'' now actor (dk_store w) = Inr st" "w1 = w\<lparr>dk_store := st\<rparr>"
    using w1(1) by (auto simp: desk_call_def split: sum.splits)
  show "wd_svc (dk_sys w') = wd_svc (dk_sys w)" using same st(2) by simp
  show "rs_get (dk_store w') rid = Some (r\<lparr>rq_decision := Some ''APPROVED'', rq_decided_by := Some actor,
           rq_decided_at := Some now, rq_elapsed_ms := Some (elapsed_ms (now - rq_shown_at r))\<rparr>)"
    "rq_decision r = None \<and> rq_invalidated r = None"
    using rs_decide_get [OF st(1), of r] assms(2) same st(2) by (simp_all add: rs_get_def)
qed

text \<open>The checks of a mint refuse with the bridge's own error, except for a missing quantity.\<close>

lemma validate_qty_scaled: "validate_qty p (map_option f (pp_authorized_qty p)) \<in> {Inr (), Inl ApprovalBridgeError}"
  by (auto simp: validate_qty_def guardE_def split: option.splits)

lemma mint_args_refused:
  assumes "proposal_of (rq_proposal_snapshot r) = Inr p"
    and "validate_limit p lo = Inl ApprovalBridgeError \<or>
      (rq_elapsed_ms r = Some ms \<and> validate_limit p lo \<in> {Inr (), Inl ApprovalBridgeError} \<and> ms + 5000 < elapsed_ms (now - rq_shown_at r))"
  shows "mint_args sha rid r now (map_option f (pp_authorized_qty p)) lo = Inl ApprovalBridgeError"
  using assms validate_qty_scaled [of p f]
  by (auto simp: mint_args_def reject_compound_snapshot_def validate_modification_def guardE_def bindE_def check_drift_def
      SHOWN_AT_DRIFT_TOLERANCE_MS_def Let_def split: sum.splits if_splits)

lemma validate_limit_cases: "validate_limit p lo \<in> {Inr (), Inl ApprovalBridgeError}"
  by (auto simp: validate_limit_def guardE_def split: option.splits)

lemma approve_decided_refused:
  assumes "proposal_of (rq_proposal_snapshot r) = Inr p" and "rs_get (dk_store w) rid = Some r'"
    and "rq_proposal_snapshot r' = rq_proposal_snapshot r" and "rq_token_snapshot r' = None" and "rq_invalidated r' = None"
    and "rq_decision r' = Some ''APPROVED''" and "token_for_request (wd_svc (dk_sys w)) rid = None"
    and "validate_limit p lo = Inl ApprovalBridgeError \<or>
      (rq_elapsed_ms r' = Some ms \<and> ms + 5000 < elapsed_ms (now - rq_shown_at r'))"
  shows "approve_decided E sha rid r now pct lo w = (w, Inl DecisionError)"
proof -
  have "mint_args sha rid r' now (map_option (\<lambda>q. fl (fl (q * pct) / 100)) (pp_authorized_qty p)) lo = Inl ApprovalBridgeError"
    using assms(1,3,8) validate_limit_cases [of p lo] by (intro mint_args_refused [where ms = ms]) auto
  then have "mint_approval_token E sha rid now (map_option (\<lambda>q. fl (fl (q * pct) / 100)) (pp_authorized_qty p)) lo w
      = (w, Inl ApprovalBridgeError)"
    using assms(2-7)
    by (simp add: mint_approval_token_def mint_new_def get_request_def live_token_def bindW_def getW_def liftW_def raiseW_def)
  with assms(1) show ?thesis
    by (simp add: approve_decided_def mint_for_decision_def bindW_def liftW_def)
qed

subsection \<open>Properties\<close>



subsection \<open>Concrete approvals\<close>

lemma ex_settled: "settled_token ''apr-1'' ex_desk_token (sx_desk ex_start)"
  by (simp add: settled_token_def rs_get_def ex_start_def ex_decided_def new_request_def token_for_request_def
      ex_desk_service_def)


definition ex_open_desk :: desk where
  "ex_open_desk = \<lparr> dk_sys = ex_install\<lparr>wd_svc := ex_desk_service\<rparr>,
     dk_store = empty_store\<lparr>rs_current := [(''apr-1'', new_request ex_new_request)],
                             rs_account_of := [(''apr-1'', ''A1'')]\<rparr> \<rparr>"

lemma ex_limit_refused: "validate_limit ex_proposal (Some 11) \<noteq> Inr ()"
proof -
  have "eps9 \<le> fl (1 / 2)" unfolding eps9_def by (rule flt.rnd_mono) simp
  moreover have h: "fl (1 / 2) = 1 / 2" "fl (21 / 2) = 21 / 2" using fl_dyadic [of 1 1] fl_dyadic [of 21 1] by simp_all
  ultimately have "fl (10 + eps9) \<le> fl (21 / 2)" by (intro flt.rnd_mono) simp
  with h show ?thesis by (simp add: validate_limit_def ex_proposal_def guardE_def)
qed


end
