(* ===== verification/Processes.thy ===== *)
theory Processes
  imports BridgeProps
begin

text \<open>
  Two processes over one data directory: the dashboard builds its audit log and its request store once, at its start
  (\<open>build_dashboard_runtime\<close> of scripts/run\_dashboard.py), and appends to the files that the agent's loop and the
  commands append to as well. The process lock keeps the appends apart, but nothing reloads what a process
  holds in memory. Opening a path for appending, a process writes after whatever the file holds by then.
\<close>

definition append_to :: "string \<Rightarrow> audit_log \<Rightarrow> audit_log" where
  "append_to body al = al\<lparr>al_file := Some body\<rparr>"

definition append_to_log :: "'j store_event list \<Rightarrow> 'j request_store \<Rightarrow> 'j request_store" where
  "append_to_log evs st = st\<lparr>rs_log := evs\<rparr>"

lemma audit_append_ok:
  assumes "audit_append sha dumps enc a None al = (al', Inr ev)" and "al_file al = Some body"
  shows "ev = new_event sha dumps (al_events al) a" and "al_events al' = al_events al @ [ev]"
    and "al_file al' = Some (write_row enc body ev)"
  using assms by (auto simp: audit_append_def Let_def split: sum.splits)

text \<open>A chain with a broken prefix stays broken.\<close>

lemma broken_prefix:
  assumes "\<not> audit_verify sha dumps al" and "al_events al' = al_events al @ xs"
  shows "\<not> audit_verify sha dumps al'"
  using assms by (auto simp: audit_verify_def verify_from_append)

lemma run_extends: "\<exists>new. al_events (audit_run sha dumps enc ops al) = al_events al @ new"
proof (induction ops arbitrary: al)
  case Nil
  then show ?case by (simp add: audit_run_def)
next
  case (Cons p ops)
  obtain a broken where p: "p = (a, broken)" by (cases p)
  let ?al = "fst (audit_append sha dumps enc a broken al)"
  have "\<exists>new. al_events ?al = al_events al @ new"
    by (cases rule: append_cases [of sha dumps enc a broken al]) auto
  with Cons.IH [of ?al] show ?case by (auto simp: audit_run_def p)
qed

text \<open>
C39: A second writer breaks the audit chain: two processes that loaded the same log and append in turn, the lock
  keeping their writes apart, leave a file that loads but does not verify, because the second row carries the
  number the first one took; and it never verifies again, whatever is appended later.
\<close>
theorem stale_writer_breaks_chain:
  assumes "audit_load de (Some (rows_text enc evs)) = Inr al" and "\<forall>ev \<in> set evs. encodes enc de ev"
    and "audit_append sha dumps enc a None al = (al1, Inr ev1)" and "al_file al1 = Some body"
    and "audit_append sha dumps enc b None (append_to body al) = (al2, Inr ev2)"
    and "encodes enc de ev1" and "encodes enc de ev2"
  shows "\<exists>al3. audit_load de (al_file al2) = Inr al3 \<and> al_events al3 = evs @ [ev1, ev2]
    \<and> (\<forall>ops. \<not> audit_verify sha dumps (audit_run sha dumps enc ops al3))"
proof -
  have al: "al = \<lparr> al_events = evs, al_file = Some (rows_text enc evs), al_truncated = None \<rparr>"
    using assms(1) load_rows_text [OF assms(2), of "\<lambda>e. e = JSONDecodeError" AuditError] by (simp add: audit_load_def)
  have one: "body = rows_text enc (evs @ [ev1])"
    using audit_append_ok [OF assms(3)] assms(4) by (simp add: al)
  note two = audit_append_ok [OF assms(5), of body]
  have text2: "al_file al2 = Some (rows_text enc (evs @ [ev1, ev2]))"
    using two(3) by (simp add: append_to_def one)
  have seq: "ae_seq ev2 = int (length evs) + 1"
    using two(1) by (simp add: append_to_def al new_event_fields)
  let ?al3 = "\<lparr> al_events = evs @ [ev1, ev2], al_file = al_file al2, al_truncated = None \<rparr>"
  have load: "audit_load de (al_file al2) = Inr ?al3"
    using load_rows_text [of "evs @ [ev1, ev2]" enc de "\<lambda>e. e = JSONDecodeError" AuditError] assms(2,6,7)
    by (simp add: audit_load_def text2)
  have "\<not> audit_verify sha dumps ?al3"
    using verify_snoc [of sha dumps "evs @ [ev1]" ev2] seq by (simp add: audit_verify_def)
  then have "\<not> audit_verify sha dumps (audit_run sha dumps enc ops ?al3)" for ops
    using run_extends [of sha dumps enc ops ?al3] by (elim exE broken_prefix)
  with load show ?thesis by auto
qed

text \<open>
C40: A stale store revives a spent token: when the dashboard still holds a request as approved without a token, and a
  command has meanwhile minted, recorded and spent one, a mint by the dashboard is recorded after the consumption;
  every process that loads the file from then on finds the dashboard's token, as unspent as it was written.
\<close>
theorem stale_store_revives_token:
  assumes "store_ok st" and "rs_token_minted True rid s1 st = Inr st1" and "rs_token_consumed True rid s2 st1 = Inr st2"
    and "rs_token_minted True rid s3 (append_to_log (rs_log st2) st) = Inr st3"
  shows "\<exists>st4. rs_load (rs_log st3) = Inr st4 \<and> stored_token st4 rid = Some s3
    \<and> stored_token st2 rid = Some s2"
proof -
  have "rs_load (rs_log st2) = Inr st2"
    using rs_exec_ok [OF assms(1), of "[OpMint rid s1, OpConsume rid s2]"] assms(2,3)
    by (simp add: rs_exec_def rs_step_def store_ok_def)
  moreover obtain acct r where r: "map_of (rs_current st) rid = Some r" "map_of (rs_account_of st) rid = Some acct"
    "rs_log st3 = rs_log st2 @ [\<lparr> ev_kind = TokenMinted, ev_account = acct, ev_request = r\<lparr>rq_token_snapshot := Some s3\<rparr> \<rparr>]"
    using assms(4)
    by (auto simp: rs_token_minted_def append_to_log_def append_event_def rs_put_def rs_require_def rs_account_def Let_def
      result_simps split: if_splits option.splits)
  moreover have "rq_request_id r = rid" using store_ok_get(1) [OF assms(1) r(1)] .
  moreover obtain st' where "rs_load_event (st2\<lparr>rs_log := []\<rparr>)
      \<lparr> ev_kind = TokenMinted, ev_account = acct, ev_request = r\<lparr>rq_token_snapshot := Some s3\<rparr> \<rparr> = Inr st'"
    "stored_token st' rid = Some s3"
    using \<open>rq_request_id r = rid\<close>
    by (cases "rq_decided_at r"; cases "map_of (rs_account_of st2) rid")
       (auto simp: rs_load_event_def Let_def stored_token_def)
  ultimately show ?thesis
    using rs_load_snoc stored_token_consumed [OF assms(3), of rid] by (fastforce simp: stored_token_def)
qed

subsection \<open>Two writers\<close>

definition ex_second :: audit_event where "ex_second = new_event ex_sha ae_actor [] (ex_append ''b'')"

definition ex_rows_of_two :: "string \<Rightarrow> audit_event result" where
  "ex_rows_of_two s = (if s = ''a'' then Inr ex_ev1 else if s = ''b'' then Inr ex_second else Inl JSONDecodeError)"

theorem stale_writer_breaks_chain_witness:
  "\<exists>al3. audit_load ex_rows_of_two (Some ''a\<newline>b\<newline>'') = Inr al3 \<and> \<not> audit_verify ex_sha ae_actor al3"
proof -
  have l: "audit_load ex_rows_of_two (Some (rows_text ae_actor [])) = Inr fresh_log"
    using load_rows_text [of "[]" ae_actor ex_rows_of_two "\<lambda>e. e = JSONDecodeError" AuditError]
    by (simp add: audit_load_def fresh_log_def rows_text_def)
  have w: "ae_actor ex_second = ''b''"
    by (simp add: ex_second_def new_event_def Let_def new_payload_def ex_append_def audit_payload.defs audit_event.defs)
  have a: "audit_append ex_sha ae_actor ae_actor (ex_append ''a'') None fresh_log
      = (\<lparr> al_events = [ex_ev1], al_file = Some ''a\<newline>'', al_truncated = None \<rparr>, Inr ex_ev1)"
    "audit_append ex_sha ae_actor ae_actor (ex_append ''b'') None (append_to ''a\<newline>'' fresh_log)
      = (\<lparr> al_events = [ex_second], al_file = Some ''a\<newline>b\<newline>'', al_truncated = None \<rparr>, Inr ex_second)"
    by (simp_all add: audit_append_def ex_append_ok write_row_def nl_def ex_ev1_def [symmetric] ex_second_def [symmetric]
        fresh_log_def append_to_def w)
  have e: "encodes ae_actor ex_rows_of_two ex_ev1" "encodes ae_actor ex_rows_of_two ex_second"
    by (simp_all add: encodes_def ex_rows_of_two_def blank_line_def is_space_def is_sep_def w)
  obtain al3 where "audit_load ex_rows_of_two (Some ''a\<newline>b\<newline>'') = Inr al3"
    "\<forall>ops. \<not> audit_verify ex_sha ae_actor (audit_run ex_sha ae_actor ae_actor ops al3)"
    using stale_writer_breaks_chain [OF l _ a(1) _ a(2) e] by auto
  moreover from spec [OF this(2), of "[]"] have "\<not> audit_verify ex_sha ae_actor al3" by (simp add: audit_run_def)
  ultimately show ?thesis by blast
qed

definition ex_approved_store :: "snapshot request_store" where
  "ex_approved_store = rs_exec [OpCreate ex_new_request, OpDecide ''apr-1'' ''APPROVED'' (ex_now - 30000000) ''al''] empty_store"

definition ex_spent_token :: approval_token where
  "ex_spent_token = ex_desk_token\<lparr>at_consumed_at := Some ex_now\<rparr>"

theorem stale_store_revives_token_witness:
  "\<exists>st2 st3 st4. bindE (rs_token_minted True ''apr-1'' (TokenSnap ex_desk_token) ex_approved_store)
        (rs_token_consumed True ''apr-1'' (TokenSnap ex_spent_token)) = Inr st2
     \<and> rs_token_minted True ''apr-1'' (TokenSnap ex_desk_token) (append_to_log (rs_log st2) ex_approved_store) = Inr st3
     \<and> rs_load (rs_log st3) = Inr st4 \<and> token_spent ''apr-1'' st2 \<and> \<not> token_spent ''apr-1'' st4"
proof -
  have "is_ok (bindE (rs_token_minted True ''apr-1'' (TokenSnap ex_desk_token) ex_approved_store) (\<lambda>st1.
      bindE (rs_token_consumed True ''apr-1'' (TokenSnap ex_spent_token) st1) (\<lambda>st2.
      rs_token_minted True ''apr-1'' (TokenSnap ex_desk_token) (append_to_log (rs_log st2) ex_approved_store))))"
    by (simp add: ex_approved_store_def rs_exec_def rs_step_def rs_create_def rs_decide_def rs_token_minted_def
        rs_token_consumed_def rs_require_def rs_account_def rs_put_def append_event_def append_to_log_def new_request_def
        new_request_id_def ex_new_request_def empty_store_def is_ok_def Let_def result_simps)
  then obtain st1 st2 st3 where m: "rs_token_minted True ''apr-1'' (TokenSnap ex_desk_token) ex_approved_store = Inr st1"
    "rs_token_consumed True ''apr-1'' (TokenSnap ex_spent_token) st1 = Inr st2"
    "rs_token_minted True ''apr-1'' (TokenSnap ex_desk_token) (append_to_log (rs_log st2) ex_approved_store) = Inr st3"
    by (auto simp: is_ok_iff bindE_eq_Inr)
  have "store_ok ex_approved_store" unfolding ex_approved_store_def by (rule rs_exec_ok [OF store_ok_empty])
  from stale_store_revives_token [OF this m] obtain st4 where "rs_load (rs_log st3) = Inr st4"
    "stored_token st4 ''apr-1'' = Some (TokenSnap ex_desk_token)" "stored_token st2 ''apr-1'' = Some (TokenSnap ex_spent_token)"
    by blast
  with m show ?thesis
    by (auto simp: token_spent_def ex_spent_token_def ex_desk_token_def ex_token_def)
qed

end
