(* ===== verification/Cycle.thy ===== *)
theory Cycle
  imports SyncOrders StartupProperties Session
begin

text \<open>
  agent/account\_wiring.py and agent/run\_loop.py: one cycle of the scheduled loop. For every account it opens the
  account's stores from their files, polls the broker, closes orders, takes in cash events and builds the
  account's reconciliation, seeding the opening balance and positions the first time; then the startup
  sequence runs once for all of them. The loop runs a cycle when a session is open and sleeps until the next one otherwise.

  What the adapter of an account returns during a cycle is the record \<open>account_reads\<close>. The collection and screening
  stage (\<open>pipeline\<close>) is not attached: \<open>run_cycle\<close> is the one with \<open>pipeline=None\<close>.
\<close>

subsection \<open>One account's reconciliation\<close>

text \<open>The positions are read twice when they are seeded.\<close>

record account_reads =
  bd_account_id :: string
  bd_account :: "account_snapshot result"
  bd_seed_positions :: "position list result"
  bd_positions :: "position list result"
  bd_open_orders :: "broker_order list result"
  bd_fills :: "execution list result"
  bd_activities :: "account_activity list result"
  bd_by_id :: "string \<Rightarrow> broker_order option result"

definition check_account :: "string \<Rightarrow> string \<Rightarrow> unit result" where
  "check_account acct found = guardE (found = acct) (CrossAccountError acct found)"

definition pending_executions :: "sync_state \<Rightarrow> nat" where
  "pending_executions w = pending_count (q_memory.truncate (sy_exec w))"

definition seed_cash :: "sync_env \<Rightarrow> decimal \<Rightarrow> instant \<Rightarrow> fill list \<Rightarrow> unit sync_act" where
  "seed_cash V settled now fills =
     (if fills \<noteq> [] then on_store (seed_opening_balance_from_broker (sv_store_row V) settled (Aware now))
      else on_store (write_opening_balance (sv_store_row V) settled (Aware now)))"

definition store_positions :: "decimal dict sync_act" where
  "store_positions = (\<lambda>w. (w, bindE (to_ledger (sy_store w)) positions))"

definition seed_positions :: "sync_env \<Rightarrow> account_reads \<Rightarrow> unit sync_act" where
  "seed_positions V bd =
     bindW store_positions (\<lambda>held.
     bindW (getW pending_executions) (\<lambda>n.
     if held = [] \<and> n = 0 then
       bindW (liftW (bd_seed_positions bd)) (\<lambda>ps. on_store (write_opening_positions (sv_store_row V) ps))
     else retW ()))"

definition seed_account :: "sync_env \<Rightarrow> account_reads \<Rightarrow> decimal \<Rightarrow> instant \<Rightarrow> unit sync_act" where
  "seed_account V bd settled now =
     bindW (getW (\<lambda>w. ls_records (sy_store w))) (\<lambda>(opening, fills, _).
     if opening = None then
       bindW (getW pending_executions) (\<lambda>n.
       if n = 0 then bindW (seed_cash V settled now fills) (\<lambda>_. seed_positions V bd) else retW ())
     else retW ())"

definition reconciliation_of ::
  "string \<Rightarrow> account_reads \<Rightarrow> day_trade_guard \<Rightarrow> account_snapshot \<Rightarrow> instant \<Rightarrow> ledger
   \<Rightarrow> account_reconciliation result" where
  "reconciliation_of acct bd guard account now l =
     bindE (positions l) (\<lambda>held.
     bindE (bd_positions bd) (\<lambda>broker_held.
     bindE (settled_cash l now) (\<lambda>settled.
     bindE (bd_open_orders bd) (\<lambda>broker_orders.
       Inr \<lparr> rc_account = acct, rc_guard = guard, rc_broker_day_trades = ac_day_trade_count account,
             rc_local_positions = held, rc_broker_positions = broker_held, rc_local_settled_cash = settled,
             rc_broker_account = account, rc_local_open_orders = open_order_ids l,
             rc_broker_open_orders = broker_orders \<rparr>))))"

definition build_account_reconciliation ::
  "sync_env \<Rightarrow> string \<Rightarrow> account_reads \<Rightarrow> day_trade_guard \<Rightarrow> instant \<Rightarrow> account_reconciliation sync_act" where
  "build_account_reconciliation V acct bd guard now =
     bindW (liftW (check_account acct (bd_account_id bd))) (\<lambda>_.
     bindW (getW sync_account) (\<lambda>store_acct.
     bindW (liftW (check_account acct store_acct)) (\<lambda>_.
     bindW (liftW (check_account acct (dt_account guard))) (\<lambda>_.
     bindW (getW (\<lambda>w. qs_account (sy_exec w))) (\<lambda>quarantine_acct.
     bindW (liftW (check_account acct quarantine_acct)) (\<lambda>_.
     bindW (liftW (bd_account bd)) (\<lambda>account.
     bindW (seed_account V bd (ac_settled_cash account) now) (\<lambda>_.
     bindW (getW (\<lambda>w. to_ledger (sy_store w))) (\<lambda>r.
     bindW (liftW r) (\<lambda>l.
     liftW (reconciliation_of acct bd guard account now l)))))))))))"

subsection \<open>An account's part of a cycle\<close>

record account_runtime =
  ar_account :: string
  ar_registry :: hp_registry
  ar_max_day_trades :: int
  ar_cat_fee_ceiling :: decimal
  ar_t_plus :: int

definition cycle_guard :: "account_runtime \<Rightarrow> day_trade_guard" where
  "cycle_guard rt = \<lparr> dt_account = ar_account rt, dt_max = ar_max_day_trades rt, dt_round_trips = [] \<rparr>"

record account_sync =
  as_fills :: "fill list"
  as_cash :: "cash_adjustment list"
  as_recon :: account_reconciliation

definition sync_account_cycle ::
  "sync_env \<Rightarrow> account_runtime \<Rightarrow> account_reads \<Rightarrow> instant \<Rightarrow> account_sync sync_act" where
  "sync_account_cycle V rt bd now =
     bindW (sync_fills V (bd_fills bd) (Aware now)) (\<lambda>fills.
     bindW (close_terminal_orders V (bd_by_id bd) now) (\<lambda>_.
     bindW (sync_cash_events V (bd_activities bd) (ar_cat_fee_ceiling rt) now) (\<lambda>cash.
     bindW (build_account_reconciliation V (ar_account rt) bd (cycle_guard rt) now) (\<lambda>recon.
     retW \<lparr> as_fills = fills, as_cash = cash, as_recon = recon \<rparr>))))"

subsection \<open>The stores, opened from their files\<close>

record account_files =
  fl_ledger :: journal
  fl_exec :: journal
  fl_cash :: journal

record cycle_env = sync_env +
  cv_store_rows :: "string \<Rightarrow> store_row result"
  cv_exec_rows :: "string \<Rightarrow> execution_row result"
  cv_cash_rows :: "string \<Rightarrow> cash_row result"

record cycle_state =
  cy_sys :: startup_state
  cy_files :: "account_files dict"

type_synonym 'a cycle_act = "(cycle_state, 'a) action"

definition no_files :: account_files where
  "no_files = (let j = \<lparr> jn_file = None, jn_disk = [] \<rparr> in \<lparr> fl_ledger = j, fl_exec = j, fl_cash = j \<rparr>)"

definition open_stores :: "cycle_env \<Rightarrow> account_runtime \<Rightarrow> startup_state \<Rightarrow> account_files \<Rightarrow> sync_state result" where
  "open_stores V rt sys files =
     (let acct = ar_account rt in
      bindE (ls_load (cv_store_rows V) acct (ar_registry rt) (ar_t_plus rt) ALPACA_DEFAULT_POLICY
               (jn_file (fl_ledger files))) (\<lambda>s.
      bindE (q_load execution_kind (cv_exec_rows V) acct (jn_file (fl_exec files))) (\<lambda>qx.
      bindE (q_load cash_kind (cv_cash_rows V) acct (jn_file (fl_cash files))) (\<lambda>qc.
        Inr \<lparr> sy_sys = sys, sy_store = s\<lparr>lst_disk := jn_disk (fl_ledger files)\<rparr>,
              sy_exec = qx\<lparr>qs_journal := fl_exec files\<rparr>, sy_cash = qc\<lparr>qs_journal := fl_cash files\<rparr> \<rparr>))))"

definition files_of :: "sync_state \<Rightarrow> account_files" where
  "files_of w = \<lparr> fl_ledger = \<lparr> jn_file = lst_file (sy_store w), jn_disk = lst_disk (sy_store w) \<rparr>,
                  fl_exec = qs_journal (sy_exec w), fl_cash = qs_journal (sy_cash w) \<rparr>"

text \<open>Whatever \<open>m\<close> does to the stores of an account, its files and the system's state are what stays.\<close>

definition with_stores :: "cycle_env \<Rightarrow> account_runtime \<Rightarrow> 'a sync_act \<Rightarrow> 'a cycle_act" where
  "with_stores V rt m = (\<lambda>c.
     case open_stores V rt (cy_sys c) (dict_get (cy_files c) (ar_account rt) no_files) of
       Inl e \<Rightarrow> (c, Inl e)
     | Inr w \<Rightarrow> (case m w of (w', r) \<Rightarrow>
         (c\<lparr>cy_sys := sy_sys w', cy_files := AList.update (ar_account rt) (files_of w') (cy_files c)\<rparr>, r)))"

definition sync_one ::
  "cycle_env \<Rightarrow> (string \<Rightarrow> account_reads result) \<Rightarrow> instant \<Rightarrow> account_runtime \<Rightarrow> account_sync cycle_act" where
  "sync_one V adapters now rt =
     bindW (liftW (adapters (ar_account rt))) (\<lambda>bd.
     bindW (liftW (check_account (ar_account rt) (bd_account_id bd))) (\<lambda>_.
     with_stores V rt (sync_account_cycle (sync_env.truncate V) rt bd now)))"

definition sync_and_build_reconciliations ::
  "cycle_env \<Rightarrow> (string \<Rightarrow> account_reads result) \<Rightarrow> account_runtime list \<Rightarrow> instant \<Rightarrow> account_sync list cycle_act" where
  "sync_and_build_reconciliations V adapters accounts now = forW (sync_one V adapters now) accounts"

subsection \<open>The cycle\<close>

record cycle_report =
  cr_now :: instant
  cr_syncs :: "account_sync list"
  cr_result :: startup_result

definition on_sys :: "'a act \<Rightarrow> 'a cycle_act" where
  "on_sys = on_part cy_sys (\<lambda>s c. c\<lparr>cy_sys := s\<rparr>)"

text \<open>Logging the cycle counts the day trades of every account, which may raise.\<close>

definition log_cycle :: "instant \<Rightarrow> account_reconciliation list \<Rightarrow> unit result" where
  "log_cycle now recons =
     foldE (\<lambda>_ a. bindE (session_for_instant (Aware now)) (\<lambda>as_of. bindE (dt_count (rc_guard a) as_of) (\<lambda>_. Inr ()))) () recons"

definition run_cycle ::
  "cycle_env \<Rightarrow> (string \<Rightarrow> account_reads result) \<Rightarrow> account_runtime list \<Rightarrow> string \<Rightarrow> bool \<Rightarrow> instant
   \<Rightarrow> cycle_report cycle_act" where
  "run_cycle V adapters accounts target confirmed now =
     bindW (sync_and_build_reconciliations V adapters accounts now) (\<lambda>syncs.
     bindW (on_sys (run_startup (sv_env V) target confirmed (map as_recon syncs) now)) (\<lambda>result.
     bindW (liftW (log_cycle now (map as_recon syncs))) (\<lambda>_.
     retW \<lparr> cr_now = now, cr_syncs = syncs, cr_result = result \<rparr>)))"

subsection \<open>The loop\<close>

text \<open>
  A tick is a turn of the loop: the reading of the clock and, in case a cycle runs, the adapters of that
  cycle. The clock is not stopped, so a run is given the ticks that happen; \<open>max_cycles\<close> bounds the cycles,
  not the turns. The outcome lists what each turn did.
\<close>

record tick =
  tk_now :: instant
  tk_adapters :: "string \<Rightarrow> account_reads result"

datatype turn = Cycled cycle_report pyfloat | Slept instant pyfloat

record loop_config =
  lc_env :: cycle_env
  lc_accounts :: "account_runtime list"
  lc_target :: string
  lc_confirmed :: bool
  lc_cadence :: int
  lc_max_cycles :: "nat option"

definition loop_turn :: "loop_config \<Rightarrow> tick \<Rightarrow> turn cycle_act" where
  "loop_turn lc tk =
     bindW (liftW (in_session_now (Aware (tk_now tk)))) (\<lambda>in_session.
     if in_session then
       bindW (run_cycle (lc_env lc) (tk_adapters tk) (lc_accounts lc) (lc_target lc) (lc_confirmed lc) (tk_now tk))
         (\<lambda>report. retW (Cycled report (fl (of_int (lc_cadence lc)))))
     else bindW (liftW (seconds_until_next_session_open (Aware (tk_now tk)))) (\<lambda>s. retW (Slept (tk_now tk) s)))"

definition cycle_count :: "turn list \<Rightarrow> nat" where
  "cycle_count ts = length (filter (\<lambda>t. case t of Cycled _ _ \<Rightarrow> True | Slept _ _ \<Rightarrow> False) ts)"

text \<open>The turns done so far, the state, and the exception that ended the loop, if one did.\<close>

fun run_loop :: "loop_config \<Rightarrow> turn list \<Rightarrow> tick list \<Rightarrow> cycle_state \<Rightarrow> turn list \<times> cycle_state \<times> exn option" where
  "run_loop lc done_so_far [] c = (done_so_far, c, None)"
| "run_loop lc done_so_far (tk # tks) c =
     (if (case lc_max_cycles lc of None \<Rightarrow> True | Some n \<Rightarrow> cycle_count done_so_far < n) then
        (case loop_turn lc tk c of
           (c', Inl e) \<Rightarrow> (done_so_far, c', Some e)
         | (c', Inr t) \<Rightarrow> run_loop lc (done_so_far @ [t]) tks c')
      else (done_so_far, c, None))"

end
