(* ===== verification/Trigger.thy ===== *)
theory Trigger
  imports Bridge Ledger
begin

text \<open>
  agent/approval\_trigger.py: from a finished analysis of one symbol to a request for the operator. A held symbol is
  proposed for closing, another for a purchase of the maximum position; the gatekeeper stages and signs the order, and
  what it would do to the account and to taxes is computed for the operator's card.

  The arguments of \<open>request_approval_for_analysis\<close> are one record; \<open>ta_fresh_id\<close> is the id the request store draws and
  \<open>ta_refusal\<close> the text of the gatekeeper's refusal, if it refuses. The account id, the type and the risk policy
  of the gatekeeper come with the gatekeeper.
\<close>

subsection \<open>What the trigger is given\<close>

record trigger_args =
  ta_event_id :: string
  ta_symbols :: "string list"
  ta_result_id :: string
  ta_confidence :: pyfloat
  ta_analysis :: json
  ta_model_id :: string
  ta_doc_sha256 :: string
  ta_analyzed_at :: instant
  ta_ledger :: ledger
  ta_account :: account_snapshot
  ta_positions :: "position list"
  ta_guard :: day_trade_guard
  ta_account_type :: account_type
  ta_posture :: string
  ta_price :: pyfloat
  ta_max_position_pct :: pyfloat
  ta_min_hold :: timedelta
  ta_max_requests :: int
  ta_expiration :: timedelta
  ta_band_pct :: pyfloat
  ta_short_rate :: "pyfloat option"
  ta_long_rate :: "pyfloat option"
  ta_run_id :: string
  ta_now :: instant
  ta_with_service :: bool
  ta_fresh_id :: string
  ta_refusal :: string

record trigger_result =
  tg_request :: "snapshot approval_request option"
  tg_staged :: "staged_order option"
  tg_suppressed :: "string option"

definition WASH_SALE_WINDOW_DAYS :: int where "WASH_SALE_WINDOW_DAYS = 30"
definition LONG_TERM_THRESHOLD_DAYS :: int where "LONG_TERM_THRESHOLD_DAYS = 365"

definition same_session :: "instant \<Rightarrow> instant \<Rightarrow> bool result" where
  "same_session s t =
     bindE (session_for_instant (Aware s)) (\<lambda>a. bindE (session_for_instant (Aware t)) (\<lambda>b. Inr (a = b)))"

text \<open>\<open>any(f.symbol == symbol and _same_session(f.filled_at, now) for f in fills)\<close>: evaluated until one is found.\<close>

fun opened_today :: "string \<Rightarrow> instant \<Rightarrow> fill list \<Rightarrow> bool result" where
  "opened_today symbol now [] = Inr False"
| "opened_today symbol now (f # fs) =
     (if fi_symbol f = symbol
      then bindE (same_session (fi_filled_at f) now) (\<lambda>b. if b then Inr True else opened_today symbol now fs)
      else opened_today symbol now fs)"

subsection \<open>After the trade\<close>

definition pct_of :: "pyfloat \<Rightarrow> pyfloat \<Rightarrow> pyfloat" where
  "pct_of nlv x = (if nlv \<noteq> 0 then fl (fl (x / nlv) * 100) else 0)"

definition market_values :: "position list \<Rightarrow> pyfloat dict" where
  "market_values ps = foldl (\<lambda>d p. AList.update (po_symbol p) (fl (po_market_value p)) d) [] ps"

definition total_after :: "string \<Rightarrow> pyfloat \<Rightarrow> pyfloat \<Rightarrow> pyfloat dict \<Rightarrow> pyfloat" where
  "total_after symbol signed pending values =
     (let held = sum_seq fl 0 (map (\<lambda>(s, v). if s = symbol then fl (v + signed) else v) values);
          book = (if map_of values symbol = None then fl (held + signed) else held)
      in fl (book + pending))"

definition post_trade_state ::
  "trigger_args \<Rightarrow> string \<Rightarrow> string \<Rightarrow> order_fields \<Rightarrow> bool \<Rightarrow> pyfloat \<Rightarrow> post_trade result" where
  "post_trade_state a symbol side f opens_day_trade pending =
     (let nlv = fl (ac_equity (ta_account a));
          settled = fl (ac_settled_cash (ta_account a));
          signed = (if side = ''BUY'' then of_notional f else - of_notional f);
          values = market_values (ta_positions a)
      in bindE (session_for_instant (Aware (ta_now a))) (\<lambda>session.
         bindE (dt_count (ta_guard a) session) (\<lambda>n.
           Inr \<lparr> pt_reserve_pct = pct_of nlv (fl (fl (settled - signed) - pending)),
                 pt_concentration_pct = pct_of nlv (fl (dict_get values symbol 0 + signed)),
                 pt_sector_pct = pct_of nlv (total_after symbol signed pending values),
                 pt_earliest_exit = (if side = ''BUY'' then Some (ta_now a + ta_min_hold a) else None),
                 pt_day_trades = n + (if opens_day_trade then 1 else 0) \<rparr>)))"

subsection \<open>Taxes\<close>

definition within_wash_window :: "instant \<Rightarrow> instant \<Rightarrow> bool" where
  "within_wash_window now filled_at \<longleftrightarrow> 0 \<le> now - filled_at \<and> now - filled_at \<le> WASH_SALE_WINDOW_DAYS * day_us"

definition traded_in_window :: "(fill \<Rightarrow> bool) \<Rightarrow> string \<Rightarrow> instant \<Rightarrow> fill list \<Rightarrow> bool" where
  "traded_in_window side symbol now fills =
     list_ex (\<lambda>f. fi_symbol f = symbol \<and> side f \<and> within_wash_window now (fi_filled_at f)) fills"

text \<open>The running totals of the loop over the lots.\<close>

record tax_totals =
  tt_short :: pyfloat
  tt_long :: pyfloat
  tt_wash :: bool
  tt_short_seen :: bool
  tt_long_seen :: bool
  tt_latest_short :: "instant option"

definition no_totals :: tax_totals where
  "no_totals = \<lparr> tt_short = 0, tt_long = 0, tt_wash = False, tt_short_seen = False, tt_long_seen = False,
                 tt_latest_short = None \<rparr>"

definition tax_lot ::
  "account_type \<Rightarrow> instant \<Rightarrow> pyfloat \<Rightarrow> pyfloat \<Rightarrow> bool \<Rightarrow> tax_totals \<Rightarrow> lot \<Rightarrow> tax_totals result" where
  "tax_lot ty now notional disposed repurchased t l =
     (let share = (if disposed \<noteq> 0 then fl (notional * fl (fl (lot_qty l) / disposed)) else 0);
          c = classify ty (lot_opened_at l) now share (fl (lot_cost_basis l)) repurchased;
          t1 = t\<lparr>tt_wash := tt_wash t \<or> tx_wash_sale c\<rparr>
      in case tx_realized_gain c of
           None \<Rightarrow> Inl TypeError
         | Some gain \<Rightarrow>
             if tx_character c = SHORT_TERM then
               Inr (t1\<lparr>tt_short := fl (tt_short t + gain), tt_short_seen := True,
                       tt_latest_short := Some (case tt_latest_short t of
                          None \<Rightarrow> lot_opened_at l | Some latest \<Rightarrow> max latest (lot_opened_at l))\<rparr>)
             else Inr (t1\<lparr>tt_long := fl (tt_long t + gain), tt_long_seen := True\<rparr>))"

definition tax_parts :: "trigger_args \<Rightarrow> tax_totals \<Rightarrow> pyfloat list" where
  "tax_parts a t =
     (case ta_short_rate a of Some r \<Rightarrow> if tt_short t > 0 then [fl (tt_short t * r)] else [] | None \<Rightarrow> [])
     @ (case ta_long_rate a of Some r \<Rightarrow> if tt_long t > 0 then [fl (tt_long t * r)] else [] | None \<Rightarrow> [])"

definition sale_figures :: "trigger_args \<Rightarrow> tax_totals \<Rightarrow> sale_tax" where
  "sale_figures a t =
     (let parts = tax_parts a t
      in \<lparr> stx_character = Some (if tt_short_seen t \<and> tt_long_seen t then ''mixed''
                                  else if tt_short_seen t then ''short_term'' else ''long_term''),
           stx_gain = Some (fl (tt_short t + tt_long t)), stx_short = Some (tt_short t), stx_long = Some (tt_long t),
           stx_estimated = (if parts = [] then None else Some (sum_seq fl 0 parts)),
           stx_wash_sale = Some (tt_wash t),
           stx_long_begins = map_option (\<lambda>t. t + LONG_TERM_THRESHOLD_DAYS * day_us) (tt_latest_short t) \<rparr>)"

definition no_sale_figures :: "string option \<Rightarrow> bool option \<Rightarrow> sale_tax" where
  "no_sale_figures character wash =
     \<lparr> stx_character = character, stx_gain = None, stx_short = None, stx_long = None, stx_estimated = None,
       stx_wash_sale = wash, stx_long_begins = None \<rparr>"

definition sale_tax_figures :: "trigger_args \<Rightarrow> string \<Rightarrow> pyfloat \<Rightarrow> sale_tax result" where
  "sale_tax_figures a symbol notional =
     bindE (lots (ta_ledger a)) (\<lambda>ls.
       let open_ls = filter (\<lambda>l. lot_symbol l = symbol \<and> is_open l) ls
       in if open_ls = [] then Inr (no_sale_figures None None)
          else if is_retirement (ta_account_type a) then Inr (no_sale_figures (Some ''not_applicable'') (Some False))
          else bindE (disposal_order ALPACA_DEFAULT_POLICY fifo_key open_ls) (\<lambda>ordered.
               let disposed = fl (sum_seq dec 0 (map lot_qty ordered));
                   repurchased = traded_in_window is_buy symbol (ta_now a) (le_fills (ta_ledger a))
               in bindE (foldE (tax_lot (ta_account_type a) (ta_now a) notional disposed repurchased) no_totals ordered)
                    (\<lambda>t. Inr (sale_figures a t))))"

definition compute_tax_figures :: "trigger_args \<Rightarrow> string \<Rightarrow> string \<Rightarrow> order_fields \<Rightarrow> tax_figures result" where
  "compute_tax_figures a symbol side f =
     (if side = ''SELL'' \<or> side = ''CLOSE''
      then bindE (sale_tax_figures a symbol (of_notional f)) (\<lambda>s. Inr (SaleTax s))
      else Inr (PurchaseTax (traded_in_window is_sell symbol (ta_now a) (le_fills (ta_ledger a)))))"

subsection \<open>The request\<close>

definition trigger_weights :: "pyfloat \<Rightarrow> position list \<Rightarrow> weights" where
  "trigger_weights nlv ps =
     foldl (\<lambda>d p. AList.update (po_symbol p) (if nlv \<noteq> 0 then fl (fl (po_market_value p) / nlv) else 0) d) [] ps"

definition trigger_portfolio :: "'k gatekeeper \<Rightarrow> trigger_args \<Rightarrow> pyfloat \<Rightarrow> portfolio_state" where
  "trigger_portfolio gk a pending =
     \<lparr> pf_account = gk_account gk, pf_nlv = fl (ac_equity (ta_account a)),
       pf_settled_cash = fl (ac_settled_cash (ta_account a)), pf_unsettled_cash = fl (ac_unsettled_cash (ta_account a)),
       pf_pending_buy_notional = pending, pf_estimated_fees = 0 \<rparr>"

definition requested_buy :: "trigger_args \<Rightarrow> pyfloat" where
  "requested_buy a = fl (fl (ta_max_position_pct a / 100) * fl (ac_equity (ta_account a)))"

definition trigger_stage_args ::
  "'k gatekeeper \<Rightarrow> trigger_args \<Rightarrow> string \<Rightarrow> string \<Rightarrow> pyfloat \<Rightarrow> pyfloat \<Rightarrow> bool \<Rightarrow> lot list \<Rightarrow> stage_args" where
  "trigger_stage_args gk a symbol side held pending opens_day_trade ls =
     \<lparr> sa_client_order_id = ''t4-'' @ ta_result_id a, sa_symbol = symbol, sa_side = side,
       sa_order_type = ''LIMIT'', sa_time_in_force = ''DAY'', sa_portfolio = trigger_portfolio gk a pending,
       sa_now = ta_now a, sa_posture = ta_posture a,
       sa_qty = (if side = ''BUY'' then Some (if ta_price a \<noteq> 0 then fl (requested_buy a / ta_price a) else 0) else None),
       sa_price = Some (ta_price a), sa_limit_price = Some (ta_price a), sa_asset_class = ''US_EQUITY'',
       sa_funding = ''SETTLED_CASH'', sa_session = ''REGULAR'', sa_lots = ls, sa_opens_day_trade = opens_day_trade,
       sa_sectors = [], sa_current_weights = trigger_weights (fl (ac_equity (ta_account a))) (ta_positions a),
       sa_broker_position_qty = (if side = ''BUY'' then None else Some held), sa_lot_id = None \<rparr>"

definition trigger_proposal :: "trigger_args \<Rightarrow> string \<Rightarrow> string \<Rightarrow> staged_order \<Rightarrow> proposal" where
  "trigger_proposal a symbol side so =
     \<lparr> pp_event_id = ta_event_id a, pp_symbol = symbol, pp_side = side,
       pp_requested_qty = of_requested_qty (so_fields so), pp_authorized_qty = of_authorized_qty (so_fields so),
       pp_order_type = of_order_type (so_fields so), pp_time_in_force = of_time_in_force (so_fields so),
       pp_limit_price = of_limit_price (so_fields so), pp_lot_id = of_lot_id (so_fields so),
       pp_confidence = ta_confidence a, pp_analysis = ta_analysis a, pp_model_id = ta_model_id a,
       pp_doc_sha256 = ta_doc_sha256 a, pp_analyzed_at = ta_analyzed_at a, pp_legs = None, pp_staged = Some so \<rparr>"

definition trigger_figures :: "staged_order \<Rightarrow> post_trade \<Rightarrow> tax_figures \<Rightarrow> risk_figures" where
  "trigger_figures so post tax =
     \<lparr> rf_gates_passed = of_gates_passed (so_fields so), rf_binding = of_binding (so_fields so),
       rf_post_trade = post, rf_tax = tax \<rparr>"

definition trigger_create_args ::
  "'k gatekeeper \<Rightarrow> trigger_args \<Rightarrow> string \<Rightarrow> string \<Rightarrow> staged_order \<Rightarrow> post_trade \<Rightarrow> tax_figures \<Rightarrow> snapshot create_args" where
  "trigger_create_args gk a symbol side so post tax =
     (let band = fl (ta_band_pct a / 100)
      in \<lparr> ca_account = gk_account gk, ca_run_id = ta_run_id a,
           ca_proposal = ProposalSnap (trigger_proposal a symbol side so),
           ca_risk_result = RiskSnap (trigger_figures so post tax),
           ca_price = ta_price a, ca_band_low = fl (ta_price a * fl (1 - band)),
           ca_band_high = fl (ta_price a * fl (1 + band)), ca_now = ta_now a, ca_expiration = ta_expiration a,
           ca_earmark = (if side = ''BUY'' then of_notional (so_fields so) else 0),
           ca_request_id = None, ca_fresh = ta_fresh_id a \<rparr>)"

text \<open>A suppression is a result, with its audit row.\<close>

definition suppress ::
  "startup_env \<Rightarrow> trigger_args \<Rightarrow> string \<Rightarrow> string \<Rightarrow> string \<Rightarrow> (json_key \<times> json) list \<Rightarrow> staged_order option
   \<Rightarrow> trigger_result desk_act" where
  "suppress E a symbol side reason extra staged =
     bindW (desk_log E ''system'' ''approval_request_suppressed'' ''opportunity_event'' (ta_event_id a) JNull
       (JObj ([(KStr ''reason'', JStr reason), (KStr ''symbol'', JStr symbol), (KStr ''side'', JStr side)] @ extra))
       (ta_now a)) (\<lambda>_.
     retW \<lparr> tg_request = None, tg_staged = staged, tg_suppressed = Some reason \<rparr>)"

definition create_request :: "snapshot create_args \<Rightarrow> staged_order \<Rightarrow> trigger_result desk_act" where
  "create_request ca so =
     bindW (desk_call (rs_create True ca)) (\<lambda>_.
     retW \<lparr> tg_request = Some (new_request ca), tg_staged = Some so, tg_suppressed = None \<rparr>)"

definition propose_staged ::
  "startup_env \<Rightarrow> 'k gatekeeper \<Rightarrow> trigger_args \<Rightarrow> string \<Rightarrow> string \<Rightarrow> pyfloat \<Rightarrow> bool \<Rightarrow> staged_order
   \<Rightarrow> trigger_result desk_act" where
  "propose_staged E gk a symbol side pending opens_day_trade so =
     bindW (liftW (session_for_instant (Aware (ta_now a)))) (\<lambda>today.
     bindW (getW (\<lambda>w. count_decided_on (dk_store w) today)) (\<lambda>n.
     if n \<ge> ta_max_requests a then
       suppress E a symbol side ''approval_cap''
         [(KStr ''requests_today'', JInt n), (KStr ''max_approval_requests_per_day'', JInt (ta_max_requests a))] (Some so)
     else
       bindW (liftW (post_trade_state a symbol side (so_fields so) opens_day_trade pending)) (\<lambda>post.
       bindW (liftW (compute_tax_figures a symbol side (so_fields so))) (\<lambda>tax.
       create_request (trigger_create_args gk a symbol side so post tax) so))))"

definition stage_proposal ::
  "startup_env \<Rightarrow> 'k mac \<Rightarrow> 'k gatekeeper \<Rightarrow> trigger_args \<Rightarrow> string \<Rightarrow> string \<Rightarrow> pyfloat \<Rightarrow> pyfloat \<Rightarrow> bool
   \<Rightarrow> trigger_result desk_act" where
  "stage_proposal E mac gk a symbol side held pending opens_day_trade =
     bindW (liftW (lots (ta_ledger a))) (\<lambda>ls.
     case stage mac gk (trigger_stage_args gk a symbol side held pending opens_day_trade ls) of
       Inr so \<Rightarrow> propose_staged E gk a symbol side pending opens_day_trade so
     | Inl (Rejected g) \<Rightarrow> suppress E a symbol side (''gate:'' @ g @ '':'' @ ta_refusal a) [] None
     | Inl e \<Rightarrow> raiseW e)"

definition trigger_side :: "pyfloat \<Rightarrow> string" where
  "trigger_side held = (if held > 0 then ''CLOSE'' else ''BUY'')"

definition request_approval_for_analysis ::
  "startup_env \<Rightarrow> 'k mac \<Rightarrow> 'k gatekeeper \<Rightarrow> trigger_args \<Rightarrow> trigger_result desk_act" where
  "request_approval_for_analysis E mac gk a =
     (case ta_symbols a of
        [symbol] \<Rightarrow>
          bindW (liftW (positions (ta_ledger a))) (\<lambda>held_map.
          bindW (getW (\<lambda>w. outstanding_earmarks (dk_store w) (gk_account gk) (ta_now a)
                   (if ta_with_service a then Some (wd_svc (dk_sys w)) else None))) (\<lambda>pending.
          bindW (liftW (opened_today symbol (ta_now a) (le_fills (ta_ledger a)))) (\<lambda>opens_day_trade.
          let held = fl (dict_get held_map symbol 0);
              side = trigger_side held;
              available = investable_cash (trigger_portfolio gk a pending) (gk_risk gk)
          in if side = ''BUY'' \<and> requested_buy a > available then
               suppress E a symbol side ''insufficient_settled_cash''
                 [(KStr ''required'', JFloat (requested_buy a)), (KStr ''available'', JFloat available)] None
             else stage_proposal E mac gk a symbol side held pending opens_day_trade)))
      | _ \<Rightarrow> raiseW ApprovalTriggerError)"

end
