(* ===== verification/Modified.thy ===== *)
theory Modified
  imports BridgeProps
begin

text \<open>
  An approval with changes, from the dashboard to the execution: the token is for the changed order, the order that is sent
  is the staged one, and the comparison of the two decides whether the approval can be carried out.
\<close>

subsection \<open>The token a mint writes\<close>

definition token_of_args :: "approve_args \<Rightarrow> approval_token \<Rightarrow> bool" where
  "token_of_args a tok \<longleftrightarrow> at_symbol tok = aa_symbol a \<and> at_side tok = aa_side a \<and> at_qty tok = aa_qty a
     \<and> at_order_type tok = aa_order_type a \<and> at_time_in_force tok = aa_time_in_force a
     \<and> at_limit_price tok = aa_limit_price a \<and> at_lot_id tok = aa_lot_id a \<and> at_request_id tok = aa_request_id a"

lemma service_approve_token:
  "wp (service_approve E a) (\<lambda>tok w'. token_of_args a tok \<and> dk_store w' = dk_store w) (\<lambda>_ _. True) w"
proof (cases "approve (wd_svc (dk_sys w)) a")
  case (Inl e)
  then show ?thesis by (simp add: service_approve_def wp_simps)
next
  case (Inr x)
  obtain svc' tok drift where x: "x = (svc', tok, drift)" by (cases x)
  have "token_of_args a tok"
    using Inr by (auto simp: x approve_def token_of_args_def Let_def split: prod.splits if_splits)
  then show ?thesis
    by (cases drift) (auto simp: service_approve_def wp_simps Inr x intro!: wp_desk_log)
qed

lemma mint_token:
  assumes "rs_get (dk_store w) rid = Some r" and "rq_token_snapshot r = None"
    and "token_for_request (wd_svc (dk_sys w)) rid = None"
  shows "wp (mint_approval_token E sha rid now qo lo)
    (\<lambda>tok w'. (\<exists>a. mint_args sha rid r now qo lo = Inr a \<and> token_of_args a tok)
      \<and> stored_token (dk_store w') rid = Some (TokenSnap tok)
      \<and> proposes rid (rq_proposal_snapshot r) (dk_store w')) (\<lambda>_ _. True) w"
proof -
  have px: "proposes rid (rq_proposal_snapshot r) (dk_store w)" using assms(1) by (auto simp: proposes_def)
  have "wp (mint_new E sha rid r now qo lo)
    (\<lambda>tok w'. (\<exists>a. mint_args sha rid r now qo lo = Inr a \<and> token_of_args a tok)
      \<and> stored_token (dk_store w') rid = Some (TokenSnap tok)
      \<and> proposes rid (rq_proposal_snapshot r) (dk_store w')) (\<lambda>_ _. True) w"
  proof (cases "mint_args sha rid r now qo lo")
    case (Inl e)
    then show ?thesis by (simp add: mint_new_def wp_simps)
  next
    case (Inr a)
    show ?thesis
      unfolding mint_new_def wp_simps Inr
      by (auto simp: wp_simps encode_token_def stored_token_minted intro: proposes_minted [OF _ px]
          intro!: wp_mono [OF service_approve_token [of E a w]] split: sum.split)
  qed
  with assms show ?thesis by (simp add: mint_approval_token_def get_request_def live_token_def wp_simps)
qed

subsection \<open>When the token fits the staged order\<close>

text \<open>The order the proposal was written from, field by field.\<close>

definition proposed_order :: "proposal \<Rightarrow> staged_order \<Rightarrow> bool" where
  "proposed_order p so \<longleftrightarrow> pp_staged p = Some so \<and> of_symbol (so_fields so) = pp_symbol p
     \<and> of_side (so_fields so) = pp_side p \<and> of_authorized_qty (so_fields so) = pp_authorized_qty p
     \<and> of_order_type (so_fields so) = pp_order_type p \<and> of_time_in_force (so_fields so) = pp_time_in_force p
     \<and> of_limit_price (so_fields so) = pp_limit_price p \<and> of_lot_id (so_fields so) = pp_lot_id p"

lemma mint_args_fields:
  assumes "mint_args sha rid r now qo lo = Inr a" and "proposal_of (rq_proposal_snapshot r) = Inr p"
  shows "aa_symbol a = pp_symbol p" and "aa_side a = pp_side p" and "aa_order_type a = pp_order_type p"
    and "aa_time_in_force a = pp_time_in_force p" and "aa_lot_id a = pp_lot_id p" and "aa_request_id a = rid"
    and "aa_limit_price a = (if lo \<noteq> None then lo else pp_limit_price p)"
    and "Some (aa_qty a) = (if qo \<noteq> None then qo else pp_authorized_qty p)"
  using assms by (auto simp: mint_args_def result_simps Let_def split: option.splits if_splits)

lemma float_slack: "fl x = x \<Longrightarrow> x \<le> fl (x + eps9) \<and> fl (x - eps9) \<le> x"
  using eps_values by (auto intro: flt.rnd_ge_fixed flt.rnd_le_fixed)

text \<open>An unchanged approval fits; one for less than the staged quantity, beyond the slack, does not.\<close>

lemma unchanged_fits:
  assumes "mint_args sha rid r now None None = Inr a" and "proposal_of (rq_proposal_snapshot r) = Inr p"
    and "proposed_order p so" and "token_of_args a tok"
    and "\<And>x. pp_authorized_qty p = Some x \<Longrightarrow> fl x = x" and "\<And>x. pp_limit_price p = Some x \<Longrightarrow> fl x = x"
  shows "verify_unmodified tok (so_fields so) = Inr ()"
proof -
  note F = mint_args_fields [OF assms(1,2)]
  have pq: "pp_authorized_qty p = Some (aa_qty a)" using F(8) by simp
  then have q: "aa_qty a \<le> fl (aa_qty a + eps9)" using assms(5) float_slack by simp
  show ?thesis
  proof (cases "pp_limit_price p")
    case None
    with F pq q assms(3,4) show ?thesis
      by (simp add: verify_unmodified_def verify_modification_within_bounds_def proposed_order_def token_of_args_def)
  next
    case (Some l)
    with F pq q assms(3,4) float_slack [OF assms(6) [OF Some]] show ?thesis
      by (simp add: verify_unmodified_def verify_modification_within_bounds_def proposed_order_def token_of_args_def)
  qed
qed

lemma reduced_misfits:
  assumes "of_authorized_qty f = Some q" and "fl (at_qty tok + eps9) < q"
  shows "verify_unmodified tok f \<noteq> Inr ()"
  using assms by (auto simp: verify_unmodified_def verify_modification_within_bounds_def)

subsection \<open>A token that does not fit\<close>

definition unfit :: "string \<Rightarrow> snapshot request_store \<Rightarrow> bool" where
  "unfit rid st \<longleftrightarrow> (\<exists>x so t. proposes rid x st \<and> stored_token st rid = Some (TokenSnap t)
     \<and> staged_order_from_snapshot x = Inr so \<and> verify_unmodified t (so_fields so) \<noteq> Inr ())"

lemma unfit_closed:
  assumes "\<And>x. proposes rid x st \<Longrightarrow> proposes rid x st'"
    and "\<And>s. stored_token st rid = Some s \<Longrightarrow> stored_token st' rid = Some s"
  shows "unfit rid st \<Longrightarrow> unfit rid st'"
  using assms unfolding unfit_def by blast

lemma proposes_create: "rs_create p a st = Inr st' \<Longrightarrow> proposes rid x st \<Longrightarrow> proposes rid x st'"
  by (auto simp: rs_create_def append_event_def Let_def proposes_def rs_get_def split: if_splits)

lemma proposes_invalidate: "rs_invalidate p k reason st = Inr st' \<Longrightarrow> proposes rid x st \<Longrightarrow> proposes rid x st'"
  by (auto simp: rs_invalidate_def append_event_def rs_put_def rs_require_def rs_account_def Let_def proposes_def
      rs_get_def result_simps split: if_splits option.splits)

lemma proposes_consumed: "rs_token_consumed p k s st = Inr st' \<Longrightarrow> proposes rid x st \<Longrightarrow> proposes rid x st'"
  by (auto simp: rs_token_consumed_def append_event_def rs_put_def rs_require_def rs_account_def Let_def proposes_def
      rs_get_def result_simps split: if_splits option.splits)

lemma unfit_create: "rs_create p a st = Inr st' \<Longrightarrow> unfit rid st \<Longrightarrow> unfit rid st'"
  by (rule unfit_closed [OF proposes_create stored_token_create])

lemma unfit_invalidate: "rs_invalidate p k reason st = Inr st' \<Longrightarrow> unfit rid st \<Longrightarrow> unfit rid st'"
  by (rule unfit_closed [OF proposes_invalidate]) (simp_all add: stored_token_invalidate)

lemma unfit_decide: "rs_decide p k d now who st = Inr st' \<Longrightarrow> unfit rid st \<Longrightarrow> unfit rid st'"
  by (rule unfit_closed [OF proposes_decide]) (simp_all add: stored_token_decide)

lemma unfit_minted: "rs_token_minted p k s st = Inr st' \<Longrightarrow> unfit rid st \<Longrightarrow> unfit rid st'"
  by (rule unfit_closed [OF proposes_minted stored_token_mint_keeps])

lemma unfit_consumed: "rs_token_consumed p k s st = Inr st' \<Longrightarrow> k \<noteq> rid \<Longrightarrow> unfit rid st \<Longrightarrow> unfit rid st'"
  by (rule unfit_closed [OF proposes_consumed]) (simp_all add: stored_token_consumed)

subsection \<open>It is never sent\<close>

definition held_back :: "string \<Rightarrow> 'b exec_state \<Rightarrow> bool" where
  "held_back rid w \<longleftrightarrow> unfit rid (dk_store (sx_desk w)) \<and> rid \<notin> sn_request ` set (sx_sent w)"

lemma held_back_desk:
  assumes "keeps (\<lambda>d. unfit rid (dk_store d)) m" and "held_back rid w"
  shows "held_back rid (fst (on_desk m w))"
  using keepsD [OF assms(1), of "sx_desk w"] assms(2)
  by (auto simp: held_back_def on_desk_def on_part_def split: prod.splits)

lemma held_back_service [simp]: "held_back rid (set_service svc w) = held_back rid w"
  by (simp add: held_back_def set_service_def)

lemma held_back_execute:
  assumes "held_back rid w" and "stored_token (dk_store (sx_desk w)) k = Some (TokenSnap tok)"
  shows "held_back rid (fst (execute_approved_request mac gk ad port rd k tok w))"
proof (cases rule: execute_cases [of mac gk ad port rd k tok w])
  case (sent so price)
  have other: "k \<noteq> rid"
  proof
    assume "k = rid"
    with sent(1) assms show False
      by (auto simp: held_back_def unfit_def proposes_def ready_to_send_def)
  qed
  show ?thesis
  proof (cases "sb_reached (submit mac (bp_identity port (sx_broker w)) (attach_staging_key (gk_key gk) ad)
      (rd_submit_now rd) (Some (consumption_sink k (dk_store (sx_desk w)))) (bp_impl port) so (Some tok) (Some price)
      (sx_broker w))")
    case True
    from send_order_sent(2,3) [OF True] other assms(1) show ?thesis
      by (auto simp: held_back_def sent(2) unfit_consumed)
  next
    case False
    with assms(1) send_order_unsent [OF False] show ?thesis by (simp add: sent(2))
  qed
next
  case refused
  with assms(1) show ?thesis by simp
qed

lemma held_back_step: "held_back rid w \<Longrightarrow> held_back rid (exec_step op w)"
proof (cases op)
  case (BrokerMoves f)
  then show "held_back rid w \<Longrightarrow> ?thesis" by (simp add: held_back_def)
next
  case (SubmitApproved cf port rd k)
  assume "held_back rid w"
  then show ?thesis
    unfolding SubmitApproved exec_step.simps
    by (rule run_submit_keeps [where P = "held_back rid"])
      (auto intro: held_back_execute intro!: held_back_desk keeps_mint_store keeps_desk_log intro: unfit_minted)
qed (auto intro!: held_back_desk keeps_desk_call keeps_approve_store keeps_reject_store
    intro: unfit_create unfit_invalidate unfit_decide unfit_minted)

lemma held_back_run: "held_back rid w \<Longrightarrow> held_back rid (exec_run ops w)"
  unfolding exec_run_def by (induction ops arbitrary: w) (simp_all add: held_back_step)

subsection \<open>An approval with changes\<close>

text \<open>The approval is for less than proposed, or for a limit moved against the trade, by more than the slack of 1e-9.\<close>

definition modifies :: "proposal \<Rightarrow> pyfloat \<Rightarrow> pyfloat option \<Rightarrow> bool" where
  "modifies p pct lp \<longleftrightarrow>
     (\<exists>q. pp_authorized_qty p = Some q \<and> fl (fl (fl (q * pct) / 100) + eps9) < q)
     \<or> (\<exists>l l0. lp = Some l \<and> pp_limit_price p = Some l0
          \<and> (if upper (pp_side p) = ''BUY'' then fl (l + eps9) < l0 else l0 < fl (l - eps9)))"

lemma changed_misfits:
  assumes "mint_args sha rid r now (map_option (\<lambda>q. fl (fl (q * pct) / 100)) (pp_authorized_qty p)) lp = Inr a"
    and "proposal_of (rq_proposal_snapshot r) = Inr p" and "proposed_order p so" and "token_of_args a tok"
    and "modifies p pct lp"
  shows "verify_unmodified tok (so_fields so) \<noteq> Inr ()"
proof -
  note F = mint_args_fields [OF assms(1,2)]
  obtain q where q: "pp_authorized_qty p = Some q" "aa_qty a = fl (fl (q * pct) / 100)"
    using F(8) by (cases "pp_authorized_qty p") auto
  show ?thesis
    using assms(5) unfolding modifies_def
  proof (elim disjE exE conjE)
    fix q' assume "pp_authorized_qty p = Some q'" and "fl (fl (fl (q' * pct) / 100) + eps9) < q'"
    with q assms(3,4) show ?thesis
      by (intro reduced_misfits [of _ q']) (simp_all add: proposed_order_def token_of_args_def)
  next
    fix l l0
    assume l: "lp = Some l" "pp_limit_price p = Some l0"
      "if upper (pp_side p) = ''BUY'' then fl (l + eps9) < l0 else l0 < fl (l - eps9)"
    have t: "at_limit_price tok = Some l" using F(7) l assms(4) by (simp add: token_of_args_def)
    have o': "of_limit_price (so_fields so) = Some l0" "of_side (so_fields so) = pp_side p"
      "of_authorized_qty (so_fields so) = Some q" using l q assms(3) by (simp_all add: proposed_order_def)
    show ?thesis
      using l(3) by (simp add: verify_unmodified_def verify_modification_within_bounds_def t o' split: if_splits)
  qed
qed

lemma mint_for_decision_token:
  assumes "mint_for_decision E sha rid now qo lo w = (w', Inr res)"
  obtains tok where "mint_approval_token E sha rid now qo lo w = (w', Inr tok)"
proof (cases "mint_approval_token E sha rid now qo lo w")
  case (Pair w1 x)
  show thesis
  proof (cases x)
    case (Inr tok)
    with Pair assms that show thesis by (simp add: mint_for_decision_def)
  next
    case (Inl e)
    with Pair wp_raisedD [OF mint_settles, of E sha rid now qo lo w w1 e]
    have "e = TokenReissued \<Longrightarrow> token_for_request (wd_svc (dk_sys w1)) rid = None" by simp
    with Inl Pair assms show thesis by (auto simp: mint_for_decision_def split: exn_splits)
  qed
qed

lemma approve_decided_unfit:
  assumes "approve_decided E sha rid r0 now pct lp w = (w', Inr res)" and "rq_proposal_snapshot r0 = rq_proposal_snapshot r"
    and "rs_get (dk_store w) rid = Some r" and "rq_token_snapshot r = None"
    and "token_for_request (wd_svc (dk_sys w)) rid = None"
    and "rq_proposal_snapshot r = ProposalSnap p" and "proposed_order p so" and "modifies p pct lp"
  shows "unfit rid (dk_store w')"
proof -
  have p: "proposal_of (rq_proposal_snapshot r) = Inr p" using assms(6) by (simp add: proposal_of_def)
  have "mint_for_decision E sha rid now (map_option (\<lambda>q. fl (fl (q * pct) / 100)) (pp_authorized_qty p)) lp w = (w', Inr res)"
    using assms(1,2,6) by (simp add: approve_decided_def bindW_def liftW_def proposal_of_def)
  then obtain tok where m: "mint_approval_token E sha rid now
      (map_option (\<lambda>q. fl (fl (q * pct) / 100)) (pp_authorized_qty p)) lp w = (w', Inr tok)"
    by (rule mint_for_decision_token)
  from wp_resultD [OF mint_token [OF assms(3-5)] m] changed_misfits [OF _ p assms(7) _ assms(8)]
  have "verify_unmodified tok (so_fields so) \<noteq> Inr ()" "stored_token (dk_store w') rid = Some (TokenSnap tok)"
    "proposes rid (ProposalSnap p) (dk_store w')" using assms(6) by auto
  moreover have "staged_order_from_snapshot (ProposalSnap p) = Inr so"
    using assms(7) by (simp add: staged_order_from_snapshot_def proposal_of_def proposed_order_def)
  ultimately show ?thesis unfolding unfit_def by blast
qed

subsection \<open>Properties\<close>

text \<open>
C23: A changed approval is never carried out: when the operator approves a request at the dashboard for less than the
  proposed quantity, or with a limit moved against the trade, the approval succeeds and mints a token for the changed
  order; but the order that is submitted is the staged one, which that token does not cover, so whatever
  happens afterwards, the request never reaches the broker.
\<close>
theorem changed_approval_never_sent:
  assumes "dashboard_approve E sha rid now actor pct lp (sx_desk w) = (d, Inr res)"
    and "rs_get (dk_store (sx_desk w)) rid = Some r" and "rq_token_snapshot r = None"
    and "token_for_request (wd_svc (dk_sys (sx_desk w))) rid = None"
    and "rq_proposal_snapshot r = ProposalSnap p" and "proposed_order p so" and "modifies p pct lp"
    and "rid \<notin> sn_request ` set (sx_sent w)"
  shows "rid \<notin> sn_request ` set (sx_sent (exec_run ops (w\<lparr>sx_desk := d\<rparr>)))"
proof -
  have "unfit rid (dk_store d)"
  proof (cases "rq_decision r = None")
    case True
    obtain w1 where w1: "first_approval E rid r now actor pct lp (sx_desk w) = (w1, Inr ())"
      "approve_decided E sha rid r now pct lp w1 = (d, Inr res)"
      using assms(1,2) True
      by (auto simp: dashboard_approve_def bindW_def get_request_def getW_def split: prod.splits sum.splits)
    note L = first_approval_leaves [OF w1(1) assms(2)]
    show ?thesis
      by (rule approve_decided_unfit [OF w1(2) _ L(2) _ _ _ assms(6,7)]) (simp_all add: L(1) assms(3-5))
  next
    case False
    then have "approve_decided E sha rid r now pct lp (sx_desk w) = (d, Inr res)"
      using assms(1,2,4)
      by (auto simp: dashboard_approve_def bindW_def get_request_def getW_def live_token_def raiseW_def split: if_splits)
    then show ?thesis by (rule approve_decided_unfit [OF _ refl assms(2-7)])
  qed
  then have "held_back rid (w\<lparr>sx_desk := d\<rparr>)" using assms(8) by (simp add: held_back_def)
  then show ?thesis using held_back_run unfolding held_back_def by blast
qed

subsection \<open>Half an order\<close>

definition ex_half_request :: "snapshot approval_request" where
  "ex_half_request = (new_request ex_new_request)\<lparr>rq_decision := Some ''APPROVED'', rq_elapsed_ms := Some 0, rq_shown_at := ex_now\<rparr>"

definition ex_half_desk :: desk where
  "ex_half_desk = \<lparr> dk_sys = ex_install\<lparr>wd_svc := ex_desk_service\<lparr>as_min_display := 0\<rparr>\<rparr>,
     dk_store = empty_store\<lparr>rs_current := [(''apr-1'', ex_half_request)], rs_account_of := [(''apr-1'', ''A1'')]\<rparr> \<rparr>"

lemma ex_half_args:
  "\<exists>a. mint_args (\<lambda>_. ''h'') ''apr-1'' (ex_half_request) ex_now (Some 1) None = Inr a \<and> aa_token_id a = ''tok-apr-1'' \<and> aa_request_id a = ''apr-1''
     \<and> aa_now a = ex_now \<and> aa_shown_at a = ex_now"
proof -
  have "1 \<le> fl (2 + eps9)" using eps_values by (intro flt.rnd_ge_fixed) (auto simp: num_simps)
  then show ?thesis
  by (simp add: mint_args_def ex_half_request_def new_request_def ex_new_request_def proposal_of_def reject_compound_snapshot_def ex_proposal_def
     validate_modification_def validate_qty_def validate_limit_def check_drift_def elapsed_ms_def trunc_def guardE_def result_simps
     Let_def token_id_for_def SHOWN_AT_DRIFT_TOLERANCE_MS_def)
qed
text \<open>Half of the two shares proposed: the approval goes through.\<close>

lemma ex_half_approved:
  "is_ok (snd (dashboard_approve ex_env (\<lambda>_. ''h'') ''apr-1'' ex_now ''al'' 50 None ex_half_desk))"
proof -
  obtain a where a: "mint_args (\<lambda>_. ''h'') ''apr-1'' (ex_half_request) ex_now (Some 1) None = Inr a" "aa_token_id a = ''tok-apr-1''"
    "aa_request_id a = ''apr-1''" "aa_now a = ex_now" "aa_shown_at a = ex_now" using ex_half_args by blast
  have n: "fl 100 = 100" "fl 1 = 1" using fl_dyadic [of 100 0] fl_dyadic [of 1 0] by simp_all
  let ?svc = "ex_desk_service\<lparr>as_min_display := 0\<rparr>"
  have "\<exists>tok drift. approve ?svc a = Inr (?svc\<lparr>as_tokens := [(''tok-apr-1'', tok)]\<rparr>, tok, drift)"
    by (cases "approve_band ?svc a") (simp add: approve_def a(2-5), simp add: ex_desk_service_def Let_def)
  then obtain tok drift where "approve ?svc a = Inr (?svc\<lparr>as_tokens := [(''tok-apr-1'', tok)]\<rparr>, tok, drift)" by blast
  then have s: "service_approve ex_env a ex_half_desk = (x, y) \<Longrightarrow> y = Inr tok \<and> dk_store x = dk_store ex_half_desk" for x y
    by (cases drift) (auto simp: service_approve_def bindW_def getW_def modifyW_def retW_def raiseW_def ex_half_desk_def
       desk_log_def on_part_def log_append_def audit_append_def
       ex_env_def ex_install_def fresh_log_def next_write_def assert_json_native_def drift_row_def Let_def ex_desk_service_def result_simps split: prod.splits)
  obtain w1 where s1: "service_approve ex_env a ex_half_desk = (w1, Inr tok)" "dk_store w1 = dk_store ex_half_desk"
    using s by (metis prod.exhaust)
  have r: "rq_decision ex_half_request = Some ''APPROVED''" "rq_invalidated ex_half_request = None"
    "rq_token_snapshot ex_half_request = None" "\<not> rq_expires_at ex_half_request \<le> ex_now"
    "rq_proposal_snapshot ex_half_request = ProposalSnap ex_proposal" "pp_authorized_qty ex_proposal = Some 2"
    by (simp_all add: ex_half_request_def new_request_def ex_new_request_def ex_proposal_def)
  have g: "rs_get (dk_store ex_half_desk) ''apr-1'' = Some ex_half_request"
    "token_for_request (wd_svc (dk_sys ex_half_desk)) ''apr-1'' = None"
    by (simp_all add: ex_half_desk_def rs_get_def token_for_request_def ex_desk_service_def)
  have "is_ok (rs_token_minted True ''apr-1'' (encode_token tok) (dk_store ex_half_desk))"
    using r by (simp add: rs_token_minted_def rs_require_def rs_account_def ex_half_desk_def is_ok_def Let_def result_simps)
  then obtain st where "rs_token_minted True ''apr-1'' (encode_token tok) (dk_store ex_half_desk) = Inr st"
    by (auto simp: is_ok_iff)
  with s1 a(1) r g have "mint_approval_token ex_env (\<lambda>_. ''h'') ''apr-1'' ex_now (Some 1) None ex_half_desk = (w1\<lparr>dk_store := st\<rparr>, Inr tok)"
    by (simp add: mint_approval_token_def mint_new_def bindW_def get_request_def getW_def live_token_def liftW_def desk_call_def retW_def)
  with r g n show ?thesis
    by (simp add: dashboard_approve_def approve_decided_def mint_for_decision_def bindW_def get_request_def getW_def live_token_def
      liftW_def proposal_of_def is_ok_def)
qed

lemma ex_half_modifies: "modifies ex_proposal 50 None"
proof -
  have h: "fl (1 / 2) = 1 / 2" "fl (3 / 2) = 3 / 2" "fl 100 = 100" "fl 1 = 1"
    using fl_dyadic [of 1 1] fl_dyadic [of 3 1] fl_dyadic [of 100 0] fl_dyadic [of 1 0] by simp_all
  have "eps9 \<le> fl (1 / 2)" unfolding eps9_def by (rule flt.rnd_mono) simp
  then have "fl (1 + eps9) \<le> fl (3 / 2)" using h by (intro flt.rnd_mono) simp
  with h show ?thesis by (simp add: modifies_def ex_proposal_def)
qed

theorem changed_approval_never_sent_witness:
  "\<exists>d res. dashboard_approve ex_env (\<lambda>_. ''h'') ''apr-1'' ex_now ''al'' 50 None ex_half_desk = (d, Inr res)
     \<and> (\<forall>ops :: (nat, nat) exec_op list.
          ''apr-1'' \<notin> sn_request ` set (sx_sent (exec_run ops \<lparr> sx_desk = d, sx_broker = 0, sx_sent = [] \<rparr>)))"
proof -
  let ?w = "\<lparr> sx_desk = ex_half_desk, sx_broker = 0, sx_sent = [] \<rparr> :: nat exec_state"
  obtain d res where d: "dashboard_approve ex_env (\<lambda>_. ''h'') ''apr-1'' ex_now ''al'' 50 None (sx_desk ?w) = (d, Inr res)"
    using ex_half_approved by (auto simp: is_ok_iff) (metis prod.collapse)
  have f: "rs_get (dk_store (sx_desk ?w)) ''apr-1'' = Some ex_half_request" "rq_token_snapshot ex_half_request = None"
    "token_for_request (wd_svc (dk_sys (sx_desk ?w))) ''apr-1'' = None"
    "rq_proposal_snapshot ex_half_request = ProposalSnap ex_proposal" "proposed_order ex_proposal ex_order"
    "''apr-1'' \<notin> sn_request ` set (sx_sent ?w)"
    by (simp_all add: ex_half_desk_def rs_get_def token_for_request_def ex_desk_service_def ex_half_request_def
        new_request_def ex_new_request_def proposed_order_def ex_proposal_def ex_order_def sign_staged_order_def)
  have "''apr-1'' \<notin> sn_request ` set (sx_sent (exec_run ops (?w\<lparr>sx_desk := d\<rparr>)))" for ops :: "(nat, nat) exec_op list"
    by (rule changed_approval_never_sent [OF d f(1-5) ex_half_modifies f(6)])
  with d show ?thesis by auto
qed

end
