(* ===== verification/TriggerProps.thy ===== *)
theory TriggerProps
  imports Trigger Modified LedgerRecord
begin

text \<open>
  What a request of the trigger stands for: the order the gatekeeper signed, within the cash that no other request
  has been promised, and carried out as proposed if it is approved as proposed.
\<close>

subsection \<open>The outcomes of the trigger\<close>

lemma wp_suppress:
  assumes "\<And>s. wd_svc s = wd_svc (dk_sys w) \<Longrightarrow>
      Q \<lparr> tg_request = None, tg_staged = staged, tg_suppressed = Some reason \<rparr> (w\<lparr>dk_sys := s\<rparr>)"
    and "\<And>e s. E' e (w\<lparr>dk_sys := s\<rparr>)"
  shows "wp (suppress E a symbol side reason extra staged) Q E' w"
  unfolding suppress_def wp_simps by (rule wp_desk_log_svc) (simp_all add: assms)

text \<open>The earmarks of every other request.\<close>

definition promised :: "'k gatekeeper \<Rightarrow> trigger_args \<Rightarrow> desk \<Rightarrow> pyfloat" where
  "promised gk a w = outstanding_earmarks (dk_store w) (gk_account gk) (ta_now a)
     (if ta_with_service a then Some (wd_svc (dk_sys w)) else None)"

text \<open>A request was created from this staged order, and nothing but the request store changed.\<close>

definition created_from ::
  "'k mac \<Rightarrow> 'k gatekeeper \<Rightarrow> trigger_args \<Rightarrow> desk \<Rightarrow> trigger_result \<Rightarrow> desk \<Rightarrow> bool" where
  "created_from mac gk a w res w' \<longleftrightarrow>
     (\<exists>symbol held opens ls so post tax st.
        stage mac gk (trigger_stage_args gk a symbol (trigger_side held) held (promised gk a w) opens ls) = Inr so
      \<and> rs_create True (trigger_create_args gk a symbol (trigger_side held) so post tax) (dk_store w) = Inr st
      \<and> w' = w\<lparr>dk_store := st\<rparr>
      \<and> res = \<lparr> tg_request = Some (new_request (trigger_create_args gk a symbol (trigger_side held) so post tax)),
                tg_staged = Some so, tg_suppressed = None \<rparr>)"

definition trigger_done :: "'k mac \<Rightarrow> 'k gatekeeper \<Rightarrow> trigger_args \<Rightarrow> desk \<Rightarrow> trigger_result \<Rightarrow> desk \<Rightarrow> bool" where
  "trigger_done mac gk a w res w' \<longleftrightarrow>
     (tg_request res = None \<and> tg_suppressed res \<noteq> None \<and> dk_store w' = dk_store w) \<or> created_from mac gk a w res w'"

lemma trigger_suppressed:
  "wp (suppress E a symbol side reason extra staged) (trigger_done mac gk a w) (\<lambda>_ w'. dk_store w' = dk_store w) w"
  by (rule wp_suppress) (simp_all add: trigger_done_def)

lemma trigger_created:
  assumes "stage mac gk (trigger_stage_args gk a symbol (trigger_side held) held (promised gk a w) opens ls) = Inr so"
  shows "wp (create_request (trigger_create_args gk a symbol (trigger_side held) so post tax) so)
    (trigger_done mac gk a w) (\<lambda>_ w'. dk_store w' = dk_store w) w"
proof (cases "rs_create True (trigger_create_args gk a symbol (trigger_side held) so post tax) (dk_store w)")
  case (Inl e)
  then show ?thesis by (simp add: create_request_def wp_simps)
next
  case (Inr st)
  with assms show ?thesis
    unfolding create_request_def wp_simps trigger_done_def created_from_def by (simp add: wp_simps) blast
qed

lemma trigger_proposed:
  assumes "stage mac gk (trigger_stage_args gk a symbol (trigger_side held) held (promised gk a w) opens ls) = Inr so"
  shows "wp (propose_staged E gk a symbol (trigger_side held) (promised gk a w) opens so)
    (trigger_done mac gk a w) (\<lambda>_ w'. dk_store w' = dk_store w) w"
  unfolding propose_staged_def wp_simps
  by (auto simp: wp_simps intro!: trigger_suppressed trigger_created [OF assms] split: sum.split)

lemma trigger_staged:
  "wp (stage_proposal E mac gk a symbol (trigger_side held) held (promised gk a w) opens)
    (trigger_done mac gk a w) (\<lambda>_ w'. dk_store w' = dk_store w) w"
  unfolding stage_proposal_def wp_simps
  by (auto simp: wp_simps intro!: trigger_suppressed trigger_proposed split: sum.split exn_splits)

lemma trigger_outcome:
  "wp (request_approval_for_analysis E mac gk a) (trigger_done mac gk a w) (\<lambda>_ w'. dk_store w' = dk_store w) w"
  unfolding request_approval_for_analysis_def
  by (auto simp: wp_simps Let_def promised_def [symmetric] intro!: trigger_suppressed trigger_staged
      split: list.split sum.split)

subsection \<open>The staged order of a request\<close>

lemma trigger_side_cases: "trigger_side held \<in> {''BUY'', ''CLOSE''}"
  by (simp add: trigger_side_def)

lemma trigger_staged_fields:
  assumes "stage mac gk (trigger_stage_args gk a symbol (trigger_side held) held pending opens ls) = Inr so"
  shows "proposed_order (trigger_proposal a symbol (trigger_side held) so) so"
    and "so_signature so = mac (gk_key gk) (so_fields so)" and "of_account (so_fields so) = gk_account gk"
    and "\<exists>q. of_authorized_qty (so_fields so) = Some q \<and> fl q = q"
    and "of_limit_price (so_fields so) = Some (ta_price a)"
proof -
  let ?a = "trigger_stage_args gk a symbol (trigger_side held) held pending opens ls"
  have side: "upper (trigger_side held) = trigger_side held"
    using trigger_side_cases [of held] by auto
  from assms obtain sz p2 where sz: "stage_size gk ?a p2 = Inr sz"
    "so = sign_staged_order mac (stage_fields gk ?a (sz\<lparr>sz_passed := sz_passed sz @ [''capability:pre_submit'']\<rparr>) None) (gk_key gk)"
  proof (cases rule: stage_okE)
    case cancel
    then show ?thesis using trigger_side_cases [of held] by (auto simp: trigger_stage_args_def)
  next
    case (sized p1 p2 sz)
    then show ?thesis using that by (auto simp: stage_finish_ok trigger_stage_args_def)
  qed
  show "proposed_order (trigger_proposal a symbol (trigger_side held) so) so"
    by (simp add: sz(2) proposed_order_def trigger_proposal_def stage_fields_def trigger_stage_args_def side)
  show "so_signature so = mac (gk_key gk) (so_fields so)" "of_account (so_fields so) = gk_account gk"
    "of_limit_price (so_fields so) = Some (ta_price a)"
    by (simp_all add: sz(2) stage_fields_def trigger_stage_args_def)
  show "\<exists>q. of_authorized_qty (so_fields so) = Some q \<and> fl q = q"
    using sz(1) trigger_side_cases [of held]
    by (auto simp: sz(2) stage_fields_def stage_size_def stage_buy_def stage_close_def trigger_stage_args_def result_simps
        Let_def flt.rnd_idem split: option.splits if_splits)
qed

lemma rs_create_get:
  assumes "rs_create True ca st = Inr st'"
  shows "rs_get st' (rq_request_id (new_request ca)) = Some (new_request ca)"
    and "k \<noteq> rq_request_id (new_request ca) \<Longrightarrow> rs_get st' k = rs_get st k"
    and "rs_get st (rq_request_id (new_request ca)) = None"
  using assms by (auto simp: rs_create_def append_event_def Let_def rs_get_def new_request_def split: if_splits)

subsection \<open>The cash a purchase is promised\<close>

lemma weights_from:
  assumes "dict_ok d" and "\<forall>x \<in> set (map snd d). fl x = x \<and> (nonneg \<longrightarrow> 0 \<le> x)"
    and "nonneg \<Longrightarrow> 0 \<le> nlv \<and> (\<forall>p \<in> set ps. 0 \<le> po_market_value p)"
  shows "let d' = foldl (\<lambda>d p. AList.update (po_symbol p) (if nlv \<noteq> 0 then fl (fl (po_market_value p) / nlv) else 0) d) d ps
    in dict_ok d' \<and> (\<forall>x \<in> set (map snd d'). fl x = x \<and> (nonneg \<longrightarrow> 0 \<le> x))"
  using assms
proof (induction ps arbitrary: d)
  case Nil
  then show ?case by (simp add: Let_def)
next
  case (Cons p ps)
  define v where "v = (if nlv \<noteq> 0 then fl (fl (po_market_value p) / nlv) else 0)"
  have v: "fl v = v \<and> (nonneg \<longrightarrow> 0 \<le> v)"
    using Cons.prems(3) by (auto simp: v_def flt.rnd_idem intro!: flt.rnd_nonneg divide_nonneg_nonneg)
  have "dict_ok (AList.update (po_symbol p) v d)"
    using Cons.prems(1) by (simp add: dict_ok_def distinct_update)
  moreover have "\<forall>x \<in> set (map snd (AList.update (po_symbol p) v d)). fl x = x \<and> (nonneg \<longrightarrow> 0 \<le> x)"
  proof
    fix x assume "x \<in> set (map snd (AList.update (po_symbol p) v d))"
    then have "x = v \<or> x \<in> set (map snd d)" by (auto dest!: update_mem)
    with v Cons.prems(2) show "fl x = x \<and> (nonneg \<longrightarrow> 0 \<le> x)" by blast
  qed
  ultimately show ?case
    using Cons.IH [of "AList.update (po_symbol p) v d"] Cons.prems(3) by (simp add: v_def)
qed

lemma trigger_weights_ok:
  assumes "0 \<le> nlv" and "\<forall>p \<in> set ps. 0 \<le> po_market_value p"
  shows "dict_ok (trigger_weights nlv ps)" and "\<forall>x \<in> set (map snd (trigger_weights nlv ps)). fl x = x"
    and "0 \<le> dict_get (trigger_weights nlv ps) s 0"
proof -
  have "dict_ok (trigger_weights nlv ps) \<and> (\<forall>x \<in> set (map snd (trigger_weights nlv ps)). fl x = x \<and> (True \<longrightarrow> 0 \<le> x))"
    using weights_from [of "[]" True nlv ps] assms by (simp add: trigger_weights_def Let_def dict_ok_def)
  then show "dict_ok (trigger_weights nlv ps)" "\<forall>x \<in> set (map snd (trigger_weights nlv ps)). fl x = x"
    "0 \<le> dict_get (trigger_weights nlv ps) s 0"
    by (auto simp: dict_get_def split: option.split dest!: map_of_SomeD)
qed

lemma earmarks_after:
  assumes "rs_create True ca st = Inr st'" and "ca_now ca < rq_expires_at (new_request ca)"
  shows "mset (earmark_terms st' (ca_account ca) (ca_now ca) service)
    = add_mset (ca_earmark ca) (mset (earmark_terms st (ca_account ca) (ca_now ca) service))"
proof -
  let ?rid = "new_request_id ca" and ?r = "new_request ca"
  have new: "map_of (rs_current st) ?rid = None"
    and st': "rs_current st' = rs_current st @ [(?rid, ?r)]"
      "rs_account_of st' = AList.update ?rid (ca_account ca) (rs_account_of st)"
    using assms(1) by (auto simp: rs_create_def append_event_def Let_def update_absent split: if_splits)
  have old: "k \<noteq> ?rid" if "(k, r) \<in> set (rs_current st)" for k r
    using that new by (force simp: map_of_eq_None_iff)
  have pending: "filter (is_pending st' (Some (ca_account ca)) (Some (ca_now ca))) (rs_current st)
      = filter (is_pending st (Some (ca_account ca)) (Some (ca_now ca))) (rs_current st)"
    using old by (intro filter_cong) (auto simp: is_pending_def st'(2) update_conv)
  have held: "filter (holds_earmark st' svc (ca_account ca) (ca_now ca)) (rs_current st)
      = filter (holds_earmark st svc (ca_account ca) (ca_now ca)) (rs_current st)" for svc
    using old by (intro filter_cong) (auto simp: holds_earmark_def st'(2) update_conv)
  have "is_pending st' (Some (ca_account ca)) (Some (ca_now ca)) (?rid, ?r)"
    "\<not> holds_earmark st' svc (ca_account ca) (ca_now ca) (?rid, ?r)" "rq_earmark ?r = ca_earmark ca" for svc
    using assms(2) by (simp_all add: is_pending_def holds_earmark_def new_request_def st'(2) update_conv)
  then show ?thesis
    by (simp add: earmark_terms_def rs_pending_def st'(1) pending held split: option.split)
qed

subsection \<open>Properties\<close>

text \<open>
C15: A request is the signed order: a trigger that returns no request leaves the request store as it was and names the
  reason; one that returns a request has added exactly that request to the store and changed nothing else. The request
  is undecided; its proposal carries, and agrees field by field with, an order the gatekeeper signed for its own account;
  and an approval of it as proposed, whenever it is given, mints a token that covers that order.
\<close>
theorem request_is_signed_order:
  assumes "request_approval_for_analysis E mac gk a w = (w', Inr res)" and "fl (ta_price a) = ta_price a"
  shows "case tg_request res of
      None \<Rightarrow> dk_store w' = dk_store w \<and> tg_suppressed res \<noteq> None
    | Some r \<Rightarrow> dk_sys w' = dk_sys w \<and> rs_get (dk_store w) (rq_request_id r) = None
        \<and> (\<forall>k. rs_get (dk_store w') k = (if k = rq_request_id r then Some r else rs_get (dk_store w) k))
        \<and> rq_decision r = None
        \<and> (\<exists>p so. rq_proposal_snapshot r = ProposalSnap p \<and> proposed_order p so
             \<and> so_signature so = mac (gk_key gk) (so_fields so) \<and> of_account (so_fields so) = gk_account gk
             \<and> (\<forall>sha r' now args tok. rq_proposal_snapshot r' = rq_proposal_snapshot r
                  \<and> mint_args sha (rq_request_id r) r' now None None = Inr args \<and> token_of_args args tok
                  \<longrightarrow> verify_unmodified tok (so_fields so) = Inr ()))"
  using wp_resultD [OF trigger_outcome assms(1)] unfolding trigger_done_def
proof (elim disjE)
  assume "created_from mac gk a w res w'"
  then obtain symbol held opens ls so post tax st where c:
    "stage mac gk (trigger_stage_args gk a symbol (trigger_side held) held (promised gk a w) opens ls) = Inr so"
    "rs_create True (trigger_create_args gk a symbol (trigger_side held) so post tax) (dk_store w) = Inr st"
    "w' = w\<lparr>dk_store := st\<rparr>"
    "res = \<lparr> tg_request = Some (new_request (trigger_create_args gk a symbol (trigger_side held) so post tax)),
             tg_staged = Some so, tg_suppressed = None \<rparr>"
    unfolding created_from_def by blast
  let ?p = "trigger_proposal a symbol (trigger_side held) so"
  let ?r = "new_request (trigger_create_args gk a symbol (trigger_side held) so post tax)"
  note F = trigger_staged_fields [OF c(1)]
  have snap: "rq_proposal_snapshot ?r = ProposalSnap ?p" "rq_decision ?r = None"
    by (simp_all add: new_request_def trigger_create_args_def Let_def)
  have qty: "fl x = x" if "pp_authorized_qty ?p = Some x" for x
    using F(1,4) that by (auto simp: proposed_order_def)
  have limit: "fl x = x" if "pp_limit_price ?p = Some x" for x
    using F(1,5) that assms(2) by (auto simp: proposed_order_def)
  have fits: "verify_unmodified tok (so_fields so) = Inr ()"
    if "rq_proposal_snapshot r' = rq_proposal_snapshot ?r" "mint_args sha rid r' now None None = Inr args"
      "token_of_args args tok" for sha rid r' now args tok
    using that snap(1) by (intro unchanged_fits [OF that(2) _ F(1) that(3) qty limit]) (simp add: proposal_of_def)
  have get: "rs_get st k = (if k = rq_request_id ?r then Some ?r else rs_get (dk_store w) k)" for k
    using rs_create_get(1,2) [OF c(2)] by simp
  show ?thesis
    using fits F(1-3) snap rs_create_get(3) [OF c(2)] get by (simp add: c(3,4)) blast
qed simp

text \<open>
C16: A purchase is promised free cash only: the notional a purchase request sets aside is at most the settled cash that
  is left when the reserve and the earmarks of every other outstanding request are taken off, plus the 1e-6 slack,
  up to two float roundings; and from then on the store counts it among the account's earmarks. The
  broker's figures are not negative and the risk policy and the amounts are as for the constrainer.
\<close>
theorem purchase_within_free_cash:
  assumes "request_approval_for_analysis E mac gk a w = (w', Inr res)" and "tg_request res = Some r"
    and "rq_proposal_snapshot r = ProposalSnap p" and "pp_side p = ''BUY''"
    and "\<forall>q \<in> set (ta_positions a). 0 \<le> po_market_value q" and "risk_policy_ok (gk_risk gk)"
    and "small_enough (trigger_portfolio gk a (promised gk a w)) (gk_risk gk)
           (Suc (length (trigger_weights (fl (ac_equity (ta_account a))) (ta_positions a))))"
    and "0 < ta_expiration a"
  shows "rq_earmark r \<le> (1 + 1 / 2 ^ 53) ^ 2
      * fl (investable_cash (trigger_portfolio gk a (promised gk a w)) (gk_risk gk) + eps6)
    \<and> mset (earmark_terms (dk_store w') (gk_account gk) (ta_now a) service)
      = add_mset (rq_earmark r) (mset (earmark_terms (dk_store w) (gk_account gk) (ta_now a) service))"
proof -
  have "created_from mac gk a w res w'"
    using wp_resultD [OF trigger_outcome assms(1)] assms(2) by (simp add: trigger_done_def)
  then obtain symbol held opens ls so post tax st where c:
    "stage mac gk (trigger_stage_args gk a symbol (trigger_side held) held (promised gk a w) opens ls) = Inr so"
    "rs_create True (trigger_create_args gk a symbol (trigger_side held) so post tax) (dk_store w) = Inr st"
    "w' = w\<lparr>dk_store := st\<rparr>" "r = new_request (trigger_create_args gk a symbol (trigger_side held) so post tax)"
    using assms(2) unfolding created_from_def by auto
  let ?args = "trigger_stage_args gk a symbol (trigger_side held) held (promised gk a w) opens ls"
  let ?ca = "trigger_create_args gk a symbol (trigger_side held) so post tax"
  have buy: "trigger_side held = ''BUY''"
    using assms(3,4) by (auto simp: c(4) new_request_def trigger_create_args_def trigger_proposal_def Let_def)
  have a: "sa_portfolio ?args = trigger_portfolio gk a (promised gk a w)" "upper (sa_side ?args) = ''BUY''"
    "sa_current_weights ?args = trigger_weights (fl (ac_equity (ta_account a))) (ta_positions a)"
    by (simp_all add: trigger_stage_args_def buy)
  have "0 \<le> fl (ac_equity (ta_account a))" using assms(7) by (simp add: small_enough_def trigger_portfolio_def)
  note W = trigger_weights_ok [OF this assms(5)]
  have "of_notional (so_fields so) \<le> (1 + 1 / 2 ^ 53) ^ 2
      * fl (investable_cash (trigger_portfolio gk a (promised gk a w)) (gk_risk gk) + eps6)"
    using conjunct1 [OF staged_buy_bound [OF c(1) a(2) _ _ _ assms(6), unfolded a(1,3)]] W assms(7) by blast
  moreover have e: "rq_earmark r = of_notional (so_fields so)" "ca_earmark ?ca = rq_earmark r"
    "ca_account ?ca = gk_account gk" "ca_now ?ca = ta_now a" "ca_now ?ca < rq_expires_at (new_request ?ca)"
    using assms(8) by (simp_all add: c(4) new_request_def trigger_create_args_def Let_def buy)
  ultimately show ?thesis using earmarks_after [OF c(2) e(5), of service] by (simp add: c(3) e(2-4))
qed

subsection \<open>A concrete purchase\<close>

text \<open>A quarter of an account of 1000, at 1, on a day without other requests.\<close>

definition ex_trigger :: trigger_args where
  "ex_trigger = \<lparr> ta_event_id = ''ev'', ta_symbols = [''SPY''], ta_result_id = ''r'', ta_confidence = 1,
     ta_analysis = JNull, ta_model_id = ''m'', ta_doc_sha256 = ''d'', ta_analyzed_at = 0, ta_ledger = ex_ledger0,
     ta_account = \<lparr> ac_account = ''A1'', ac_equity = 1000, ac_cash = 900, ac_settled_cash = 900, ac_unsettled_cash = 0,
        ac_buying_power = 900, ac_multiplier = 1, ac_pattern_day_trader = None, ac_day_trade_count = None, ac_fetched_at = 0 \<rparr>,
     ta_positions = [], ta_guard = guard_ex, ta_account_type = ROTH_IRA, ta_posture = ''CASH'', ta_price = 1,
     ta_max_position_pct = 25, ta_min_hold = 0, ta_max_requests = 3, ta_expiration = 3600000000, ta_band_pct = 10,
     ta_short_rate = None, ta_long_rate = None, ta_run_id = ''run'', ta_now = ex_now, ta_with_service = True,
     ta_fresh_id = ''apr-1'', ta_refusal = [] \<rparr>"

definition ex_trigger_desk :: desk where
  "ex_trigger_desk = \<lparr> dk_sys = ex_install, dk_store = empty_store \<rparr>"

lemma ex_trigger_values:
  "requested_buy ex_trigger = 250" "ta_symbols ex_trigger = [''SPY'']" "ta_price ex_trigger = 1"
  "trigger_portfolio ex_gk ex_trigger 0 = ex_state\<lparr>pf_account := ''A1'', pf_nlv := 1000\<rparr>"
  "lots (ta_ledger ex_trigger) = Inr []" "positions (ta_ledger ex_trigger) = Inr []"
  "le_fills (ta_ledger ex_trigger) = []" "ta_positions ex_trigger = []" "ta_expiration ex_trigger = 3600000000"
  "fl (ac_equity (ta_account ex_trigger)) = 1000"
  by (simp_all add: requested_buy_def ex_trigger_def trigger_portfolio_def ex_gk_def ex_state_def num_simps fl_quarters
      lots_def positions_def ex_ledger0_def buys_of_def result_simps)

lemma ex_trigger_promised: "promised ex_gk ex_trigger ex_trigger_desk = 0"
  by (simp add: promised_def outstanding_earmarks_def earmark_terms_def rs_pending_def ex_trigger_desk_def
      empty_store_def split: option.split)

lemma ex_trigger_capability:
  "policy_check (gk_capability ex_gk) g True (Some ''SPY'') [(''asset_class'', ''US_EQUITY''), (''side'', ''BUY''),
     (''funding'', ''SETTLED_CASH''), (''order_type'', ''LIMIT''), (''session'', ''REGULAR''), (''time_in_force'', ''DAY'')] = Inr ()"
  by (auto simp: ex_gk_def policy_check_ok symbol_ok_def dimension_ok_def policy_table_def
        initial_policy_def Let_def dict_get_def policy_required_def less_eq_capability_status_def)

lemma ex_trigger_stages:
  "\<exists>so. stage ex_mac ex_gk (trigger_stage_args ex_gk ex_trigger ''SPY'' ''BUY'' 0 0 False []) = Inr so
     \<and> of_notional (so_fields so) = 250"
proof -
  let ?a = "trigger_stage_args ex_gk ex_trigger ''SPY'' ''BUY'' 0 0 False []"
  obtain r where r: "risk_constrain [(''SPY'', 1 / 4)] (ex_state\<lparr>pf_account := ''A1'', pf_nlv := 1000\<rparr>) ex_policy []
      (Some (gk_capability ex_gk)) [(''SPY'', ''US_EQUITY'')] True = Inr r" "cr_weights r = [(''SPY'', 1 / 4)]"
    using ex_constrain_single [of "1 / 4"] fl_quarters by auto
  have a: "sa_side ?a = ''BUY''" "sa_symbol ?a = ''SPY''" "sa_qty ?a = Some 250" "sa_price ?a = Some 1"
    "sa_portfolio ?a = ex_state\<lparr>pf_account := ''A1'', pf_nlv := 1000\<rparr>" "sa_asset_class ?a = ''US_EQUITY''"
    "\<not> sa_opens_day_trade ?a" "sa_sectors ?a = []" "sa_current_weights ?a = []" "sa_lot_id ?a = None"
    by (simp_all add: trigger_stage_args_def ex_trigger_values num_simps) (simp add: trigger_weights_def)
  have d: "order_dims ?a = [(''asset_class'', ''US_EQUITY''), (''side'', ''BUY''),
     (''funding'', ''SETTLED_CASH''), (''order_type'', ''LIMIT''), (''session'', ''REGULAR''), (''time_in_force'', ''DAY'')]"
    by (simp add: order_dims_def trigger_stage_args_def)
  have t: "buy_target ?a = [(''SPY'', 1 / 4)]"
    by (simp add: buy_target_def requested_notional_def or_zero_def dict_get_def a num_simps fl_quarters ex_state_values)
  have gk: "gk_live ex_gk" "gk_risk ex_gk = ex_policy" by (simp_all add: ex_gk_def)
  have "\<not> 250 \<le> eps9" using ex_values(4) by simp
  then show ?thesis using r
    by (simp add: stage_def stage_capability_cases stage_lot_id_def stage_holding_def stage_day_trade_def a d gk
        ex_trigger_capability stage_size_def stage_buy_def t stage_risk_def dict_get_def fl_quarters num_simps
        ex_state_values stage_finish_def stage_fields_def)
qed
lemma ex_trigger_session: "session_for_instant (Aware ex_now) = Inr (mk_date 2026 8 3)"
proof -
  have "map_sum (\<lambda>e. e) (\<lambda>d. d) (session_for_instant (Aware ex_now)) = Inr (mk_date 2026 8 3)" by code_simp
  then show ?thesis by (cases "session_for_instant (Aware ex_now)") auto
qed

lemma ex_trigger_count: "\<exists>n. dt_count guard_ex (mk_date 2026 8 3) = Inr n"
proof -
  have "\<exists>ws. trailing_sessions (mk_date 2026 8 3) 5 = Inr ws"
    by (rule trailing_sessions_total) code_simp+
  then show ?thesis by (auto simp: dt_count_def WINDOW_SESSIONS_def)
qed

lemma ex_trigger_requests:
  "\<exists>w' res r. request_approval_for_analysis ex_env ex_mac ex_gk ex_trigger ex_trigger_desk = (w', Inr res)
     \<and> tg_request res = Some r \<and> rq_request_id r = ''apr-1'' \<and> rq_earmark r = 250
     \<and> (\<exists>p. rq_proposal_snapshot r = ProposalSnap p \<and> pp_side p = ''BUY'')"
proof -
  obtain so where so: "stage ex_mac ex_gk (trigger_stage_args ex_gk ex_trigger ''SPY'' ''BUY'' 0 0 False []) = Inr so"
    "of_notional (so_fields so) = 250" using ex_trigger_stages by blast
  obtain n where n: "dt_count guard_ex (mk_date 2026 8 3) = Inr n" using ex_trigger_count by blast
  have post: "\<exists>post. post_trade_state ex_trigger ''SPY'' ''BUY'' (so_fields so) False 0 = Inr post"
    using n by (simp add: post_trade_state_def Let_def ex_trigger_def ex_trigger_session result_simps
        del: session_for_instant.simps)
  have tax: "compute_tax_figures ex_trigger ''SPY'' ''BUY'' (so_fields so)
      = Inr (PurchaseTax (traded_in_window is_sell ''SPY'' ex_now []))"
    by (simp add: compute_tax_figures_def ex_trigger_def ex_ledger0_def)
  have now: "ta_now ex_trigger = ex_now" "ta_max_requests ex_trigger = 3" by (simp_all add: ex_trigger_def)
  have cash: "\<not> requested_buy ex_trigger > investable_cash (trigger_portfolio ex_gk ex_trigger 0) (gk_risk ex_gk)"
    using ex_state_values(2) by (simp add: ex_trigger_values)
  have n0: "count_decided_on empty_store d = 0" "rs_current empty_store = []" for d
    by (simp_all add: count_decided_on_def empty_store_def)
  let ?ca = "trigger_create_args ex_gk ex_trigger ''SPY'' ''BUY'' so"
  have st: "\<exists>st. rs_create True (?ca post tax) empty_store = Inr st" for post tax
    by (simp add: rs_create_def append_event_def n0 Let_def)
  have f: "rq_request_id (new_request (?ca post tax)) = ''apr-1''" "rq_earmark (new_request (?ca post tax)) = 250"
    "rq_proposal_snapshot (new_request (?ca post tax)) = ProposalSnap (trigger_proposal ex_trigger ''SPY'' ''BUY'' so)" for post tax
    by (simp_all add: new_request_def new_request_id_def trigger_create_args_def Let_def so(2)) (simp_all add: ex_trigger_def)
  have pr: "propose_staged ex_env ex_gk ex_trigger ''SPY'' ''BUY'' 0 False so ex_trigger_desk
     = create_request (?ca post tax) so ex_trigger_desk"
    if "post_trade_state ex_trigger ''SPY'' ''BUY'' (so_fields so) False 0 = Inr post"
      "compute_tax_figures ex_trigger ''SPY'' ''BUY'' (so_fields so) = Inr tax" for post tax
    using that by (simp add: propose_staged_def bindW_def liftW_def getW_def now ex_trigger_session ex_trigger_desk_def n0
        del: session_for_instant.simps)
  obtain post' tax' where pt: "post_trade_state ex_trigger ''SPY'' ''BUY'' (so_fields so) False 0 = Inr post'"
    "compute_tax_figures ex_trigger ''SPY'' ''BUY'' (so_fields so) = Inr tax'" using post tax by blast
  obtain st' where st': "rs_create True (?ca post' tax') empty_store = Inr st'" using st by blast
  have "request_approval_for_analysis ex_env ex_mac ex_gk ex_trigger ex_trigger_desk
      = create_request (?ca post' tax') so ex_trigger_desk"
    using ex_trigger_promised cash so(1)
    by (simp add: request_approval_for_analysis_def ex_trigger_values(2,5-7) bindW_def liftW_def getW_def trigger_side_def
        dict_get_def Let_def promised_def stage_proposal_def pr [OF pt])
  also have "\<dots> = (ex_trigger_desk\<lparr>dk_store := st'\<rparr>, Inr \<lparr> tg_request = Some (new_request (?ca post' tax')),
      tg_staged = Some so, tg_suppressed = None \<rparr>)"
    using st' by (simp add: create_request_def bindW_def desk_call_def retW_def ex_trigger_desk_def)
  finally show ?thesis by (simp add: f trigger_proposal_def)
qed
theorem request_is_signed_order_witness:
  "\<exists>w' res r. request_approval_for_analysis ex_env ex_mac ex_gk ex_trigger ex_trigger_desk = (w', Inr res)
     \<and> tg_request res = Some r \<and> rs_get (dk_store w') ''apr-1'' = Some r
     \<and> (\<exists>p so. rq_proposal_snapshot r = ProposalSnap p \<and> proposed_order p so)"
proof -
  obtain w' res r where r: "request_approval_for_analysis ex_env ex_mac ex_gk ex_trigger ex_trigger_desk = (w', Inr res)"
    "tg_request res = Some r" "rq_request_id r = ''apr-1''" using ex_trigger_requests by blast
  have "fl (ta_price ex_trigger) = ta_price ex_trigger" by (simp add: ex_trigger_values num_simps)
  from request_is_signed_order [OF r(1) this] r show ?thesis by auto
qed

theorem purchase_within_free_cash_witness:
  "\<exists>w' res r. request_approval_for_analysis ex_env ex_mac ex_gk ex_trigger ex_trigger_desk = (w', Inr res)
     \<and> tg_request res = Some r \<and> rq_earmark r = 250 \<and> rq_earmark r \<le> (1 + 1 / 2 ^ 53) ^ 2 * fl (800 + eps6)
     \<and> mset (earmark_terms (dk_store w') ''A1'' ex_now None) = {# 250 #}"
proof -
  obtain w' res r p where r: "request_approval_for_analysis ex_env ex_mac ex_gk ex_trigger ex_trigger_desk = (w', Inr res)"
    "tg_request res = Some r" "rq_earmark r = 250" "rq_proposal_snapshot r = ProposalSnap p" "pp_side p = ''BUY''"
    using ex_trigger_requests by blast
  have s: "\<forall>q \<in> set (ta_positions ex_trigger). 0 \<le> po_market_value q" "risk_policy_ok (gk_risk ex_gk)"
    "0 < ta_expiration ex_trigger" using ex_ok(1) by (simp_all add: ex_trigger_values)
  have small: "small_enough (trigger_portfolio ex_gk ex_trigger (promised ex_gk ex_trigger ex_trigger_desk)) (gk_risk ex_gk)
      (Suc (length (trigger_weights (fl (ac_equity (ta_account ex_trigger))) (ta_positions ex_trigger))))"
    using ex_small by (simp add: ex_trigger_promised ex_trigger_values) (simp add: trigger_weights_def)
  have n: "gk_account ex_gk = ''A1''" "ta_now ex_trigger = ex_now" by (simp_all add: ex_gk_def ex_trigger_def)
  have e: "earmark_terms (dk_store ex_trigger_desk) ''A1'' ex_now None = []"
    by (simp add: earmark_terms_def rs_pending_def ex_trigger_desk_def empty_store_def)
  show ?thesis
    using purchase_within_free_cash [OF r(1,2,4,5) s(1,2) small s(3), of None] r(1-3) ex_state_values(2)
    by (auto simp: n e ex_trigger_promised ex_trigger_values)
qed

end
