(* ===== verification/AnalysisOutput.thy ===== *)
theory AnalysisOutput
  imports Store AuditLog Ledger
begin

text \<open>
  agent/analysis\_output.py: the answer of the language model is refused or accepted as a whole. It must be a JSON
  object with a bull case, a non-empty bear case, contradicting evidence and a confidence; every claim must cite
  facts that the evidence store knew at the instant of the analysis, by a line of the document where it cites a document;
  and a claim that names a period and a figure needs a header row near the line it cites. \<open>json.loads\<close> is the
  parameter \<open>loads\<close>; the regular expressions are written out on characters below 256.
\<close>

subsection \<open>Evidence\<close>

record filing_meta =
  fm_cik :: string
  fm_form :: string
  fm_item_codes :: "string list"
  fm_accession :: string
  fm_primary_document :: string
  fm_filing_date :: string
  fm_report_date :: string

record market_snapshot =
  sq_atr_20 :: pyfloat
  sq_ret_since_open :: pyfloat
  sq_volume_so_far :: pyfloat
  sq_median_volume :: pyfloat
  sq_current_price :: pyfloat
  sq_session :: "date option"

record filing_document =
  fd_cik :: string
  fd_accession :: string
  fd_primary_document :: string
  fd_text :: string
  fd_byte_length :: int
  fd_truncated :: bool

datatype evidence =
  FilingFact filing_meta | SnapshotFact market_snapshot | DocumentFact filing_document | OtherFact json

definition FILING_FIELD :: string where "FILING_FIELD = ''filing''"
definition FIELD_DOCUMENT :: string where "FIELD_DOCUMENT = ''filing_document''"
definition SNAPSHOT_FIELD :: string where "SNAPSHOT_FIELD = ''market_snapshot''"

subsection \<open>What the regular expressions match\<close>

abbreviation code :: "char \<Rightarrow> nat" where "code c \<equiv> of_char c"

definition is_digit :: "char \<Rightarrow> bool" where "is_digit c \<longleftrightarrow> 48 \<le> code c \<and> code c \<le> 57"

definition is_hex :: "char \<Rightarrow> bool" where
  "is_hex c \<longleftrightarrow> is_digit c \<or> (97 \<le> code c \<and> code c \<le> 102)"

definition is_word :: "char \<Rightarrow> bool" where
  "is_word c \<longleftrightarrow> is_digit c \<or> (let n = code c in (65 \<le> n \<and> n \<le> 90) \<or> n = 95 \<or> (97 \<le> n \<and> n \<le> 122)
     \<or> n \<in> {170, 178, 179, 181, 185, 186, 188, 189, 190} \<or> (192 \<le> n \<and> n \<noteq> 215 \<and> n \<noteq> 247))"

definition boundary_before :: "char option \<Rightarrow> bool" where
  "boundary_before prev = (case prev of None \<Rightarrow> True | Some c \<Rightarrow> \<not> is_word c)"

definition boundary_after :: "string \<Rightarrow> bool" where
  "boundary_after rest = (case rest of [] \<Rightarrow> True | c # _ \<Rightarrow> \<not> is_word c)"

fun year_at :: "string \<Rightarrow> bool" where
  "year_at (a # b # c # d # _) \<longleftrightarrow> a = CHR ''2'' \<and> b = CHR ''0'' \<and> is_digit c \<and> is_digit d"
| "year_at _ = False"

text \<open>
  \<open>_PERIOD_MARKER_RE\<close>: a year 20dd that is a word of its own, or one that directly follows FY or Q1 to Q4 at the start
  of a word. (After white space the year is a word of its own, whatever precedes.)
\<close>

fun period_marker :: "char option \<Rightarrow> string \<Rightarrow> bool" where
  "period_marker prev [] = False"
| "period_marker prev (c # cs) \<longleftrightarrow>
     boundary_before prev \<and>
       (year_at (c # cs) \<and> boundary_after (drop 4 (c # cs))
        \<or> (case cs of
             d # ys \<Rightarrow> (upper [c, d] = ''FY'' \<or> upper [c] = ''Q'' \<and> d \<in> {CHR ''1'', CHR ''2'', CHR ''3'', CHR ''4''})
                \<and> year_at ys \<and> boundary_after (drop 4 ys)
           | [] \<Rightarrow> False))
     \<or> period_marker (Some c) cs"

definition is_period_specific_claim :: "string \<Rightarrow> bool" where
  "is_period_specific_claim text \<longleftrightarrow> period_marker None text \<and> list_ex is_digit text"

lemma year_has_digit: "year_at s \<Longrightarrow> list_ex is_digit s"
  by (cases s rule: year_at.cases) auto

lemma marker_has_digit: "period_marker prev s \<Longrightarrow> list_ex is_digit s"
proof (induction s arbitrary: prev)
  case (Cons c cs)
  note m = iffD1 [OF period_marker.simps(2) [of prev c cs] Cons.prems]
  have "year_at (c # cs) \<or> (\<exists>d ys. cs = d # ys \<and> year_at ys) \<or> period_marker (Some c) cs"
  proof (cases cs)
    case Nil
    from m [unfolded Nil list.case] Nil show ?thesis by blast
  next
    case (Cons d ys)
    from m [unfolded Cons list.case] Cons show ?thesis by blast
  qed
  then show ?case using Cons.IH year_has_digit [of "c # cs"] year_has_digit by (elim disjE exE conjE) simp_all
qed simp

text \<open>The second test of a period-specific claim, for a figure, is met by the year itself.\<close>

lemma period_claim_needs_no_figure: "is_period_specific_claim s \<longleftrightarrow> period_marker None s"
  using marker_has_digit [of None s] by (simp only: is_period_specific_claim_def) blast

fun year_tokens :: "string \<Rightarrow> nat" where
  "year_tokens [] = 0"
| "year_tokens (c # cs) = (if year_at (c # cs) then Suc (year_tokens (drop 3 cs)) else year_tokens cs)"

definition starts_with :: "string \<Rightarrow> string \<Rightarrow> bool" where
  "starts_with p s \<longleftrightarrow> upper (take (length p) s) = p"

definition ended_after_space :: "string \<Rightarrow> bool" where
  "ended_after_space s \<longleftrightarrow> s \<noteq> [] \<and> is_space (hd s) \<and> starts_with ''ENDED'' (dropWhile is_space s)"

fun header_phrase :: "string \<Rightarrow> bool" where
  "header_phrase [] = False"
| "header_phrase (c # cs) \<longleftrightarrow>
     starts_with ''YEAR'' (c # cs) \<and>
       (ended_after_space (drop 3 cs) \<or> starts_with ''S'' (drop 3 cs) \<and> ended_after_space (drop 4 cs))
     \<or> header_phrase cs"

definition looks_like_header_row :: "string \<Rightarrow> bool" where
  "looks_like_header_row line \<longleftrightarrow> header_phrase line \<or> year_tokens line \<ge> 2"

definition digits_value :: "string \<Rightarrow> nat" where
  "digits_value ds = foldl (\<lambda>n c. 10 * n + (code c - 48)) 0 ds"

text \<open>\<open>_CITATION_RE\<close>; a dollar also matches before a last line feed.\<close>

definition parse_citation_ref :: "string \<Rightarrow> (string \<times> nat option) result" where
  "parse_citation_ref raw =
     (let s = (if raw \<noteq> [] \<and> last raw = nl then butlast raw else raw);
          fid = take 16 s; rest = drop 16 s;
          ds = takeWhile is_digit (drop 2 rest); end = dropWhile is_digit (drop 2 rest)
      in if length fid \<noteq> 16 \<or> \<not> list_all is_hex fid then Inl AnalysisRefused
         else if rest = [] then Inr (fid, None)
         else if take 2 rest = ''#L'' \<and> ds \<noteq> []
                 \<and> (end = [] \<or> take 2 end = ''-L'' \<and> drop 2 end \<noteq> [] \<and> list_all is_digit (drop 2 end))
         then Inr (fid, Some (digits_value ds))
         else Inl AnalysisRefused)"

subsection \<open>Claims\<close>

record claim =
  cm_text :: string
  cm_citations :: "string list"

record analysis_output =
  ao_bull_case :: "claim list"
  ao_bear_case :: "claim list"
  ao_contradicting :: "claim list"
  ao_confidence :: pyfloat

record citable_fact =
  ci_fact :: "evidence fact"
  ci_lines :: "string list option"

type_synonym citation_index = "citable_fact dict"

definition require :: "bool \<Rightarrow> unit result" where
  "require c = guardE c AnalysisRefused"

definition json_get :: "(json_key \<times> json) list \<Rightarrow> string \<Rightarrow> json option" where
  "json_get kvs k = map_of kvs (KStr k)"

definition is_str :: "json \<Rightarrow> bool" where "is_str v = (case v of JStr _ \<Rightarrow> True | _ \<Rightarrow> False)"
definition str_of :: "json \<Rightarrow> string" where "str_of v = (case v of JStr s \<Rightarrow> s | _ \<Rightarrow> [])"

definition parse_claim :: "json \<Rightarrow> claim result" where
  "parse_claim raw = (case raw of
     JObj kvs \<Rightarrow>
       (case json_get kvs ''text'' of
          Some (JStr text) \<Rightarrow>
            bindE (require (\<not> blank_line text)) (\<lambda>_.
            case json_get kvs ''citations'' of
              Some (JList cs) \<Rightarrow>
                bindE (require (cs \<noteq> [])) (\<lambda>_.
                bindE (require (list_all is_str cs)) (\<lambda>_.
                Inr \<lparr> cm_text = text, cm_citations = map str_of cs \<rparr>))
            | _ \<Rightarrow> Inl AnalysisRefused)
        | _ \<Rightarrow> Inl AnalysisRefused)
   | _ \<Rightarrow> Inl AnalysisRefused)"

definition fact_exists_as_of :: "string \<Rightarrow> evidence as_of_view \<Rightarrow> citation_index \<Rightarrow> citable_fact result" where
  "fact_exists_as_of fid view index =
     (case map_of index fid of
        None \<Rightarrow> Inl AnalysisRefused
      | Some cf \<Rightarrow>
          (let fct = ci_fact cf
           in if list_ex (\<lambda>f. fa_observed_at f = fa_observed_at fct \<and> fa_source_id f = fa_source_id fct)
                (view_history view (fa_entity_id fct) (fa_field fct))
              then Inr cf else Inl AnalysisRefused))"

definition validate_citation :: "citation_index \<Rightarrow> evidence as_of_view \<Rightarrow> string \<Rightarrow> unit result" where
  "validate_citation index view raw =
     bindE (parse_citation_ref raw) (\<lambda>(fid, line).
     bindE (fact_exists_as_of fid view index) (\<lambda>cf.
     case line of
       None \<Rightarrow> Inr ()
     | Some n \<Rightarrow>
         bindE (require (fa_field (ci_fact cf) = FIELD_DOCUMENT)) (\<lambda>_.
         require (case ci_lines cf of None \<Rightarrow> False | Some ls \<Rightarrow> 1 \<le> n \<and> n \<le> length ls))))"

definition HEADER_WINDOW :: nat where "HEADER_WINDOW = 8"

text \<open>The lines above the cited one that may hold a header row.\<close>

definition header_window :: "string list \<Rightarrow> nat \<Rightarrow> string list" where
  "header_window ls n = (let start = n - 1 - HEADER_WINDOW in take (n - 1 - start) (drop start ls))"

definition document_citation :: "citation_index \<Rightarrow> string \<Rightarrow> (string list \<times> nat) list result" where
  "document_citation index raw =
     bindE (parse_citation_ref raw) (\<lambda>(fid, line).
       Inr (case (map_of index fid, line) of
              (Some cf, Some n) \<Rightarrow>
                if fa_field (ci_fact cf) = FIELD_DOCUMENT
                then [(case ci_lines cf of None \<Rightarrow> [] | Some ls \<Rightarrow> ls, n)] else []
            | _ \<Rightarrow> []))"

definition check_period_attribution :: "citation_index \<Rightarrow> claim \<Rightarrow> unit result" where
  "check_period_attribution index c =
     (if \<not> is_period_specific_claim (cm_text c) then Inr ()
      else bindE (mapE (document_citation index) (cm_citations c)) (\<lambda>dss.
           let docs = concat dss
           in require (docs = [] \<or> list_ex (\<lambda>(ls, n). list_ex looks_like_header_row (header_window ls n)) docs)))"

definition check_claim :: "citation_index \<Rightarrow> evidence as_of_view \<Rightarrow> unit \<Rightarrow> claim \<Rightarrow> unit result" where
  "check_claim index view u c =
     bindE (foldE (\<lambda>_. validate_citation index view) () (cm_citations c)) (\<lambda>_.
     check_period_attribution index c)"

definition parse_section ::
  "citation_index \<Rightarrow> evidence as_of_view \<Rightarrow> (json_key \<times> json) list \<Rightarrow> string \<Rightarrow> claim list result" where
  "parse_section index view payload section =
     (case json_get payload section of
        Some (JList raws) \<Rightarrow>
          bindE (require (section = ''bear_case'' \<longrightarrow> raws \<noteq> [])) (\<lambda>_.
          bindE (mapE parse_claim raws) (\<lambda>claims.
          bindE (foldE (check_claim index view) () claims) (\<lambda>_. Inr claims)))
      | _ \<Rightarrow> Inl AnalysisRefused)"

definition parse_confidence :: "json option \<Rightarrow> pyfloat result" where
  "parse_confidence v =
     (case v of
        Some (JInt n) \<Rightarrow> bindE (require (0 \<le> fl (of_int n) \<and> fl (of_int n) \<le> 1)) (\<lambda>_. Inr (fl (of_int n)))
      | Some (JFloat x) \<Rightarrow> bindE (require (0 \<le> x \<and> x \<le> 1)) (\<lambda>_. Inr x)
      | _ \<Rightarrow> Inl AnalysisRefused)"

definition parse_analysis_output ::
  "(string \<Rightarrow> json result) \<Rightarrow> string \<Rightarrow> citation_index \<Rightarrow> evidence as_of_view \<Rightarrow> analysis_output result" where
  "parse_analysis_output loads raw index view =
     (case loads raw of
        Inl _ \<Rightarrow> Inl MalformedResponse
      | Inr (JObj payload) \<Rightarrow>
          bindE (require (list_all (\<lambda>k. json_get payload k \<noteq> None)
            [''bull_case'', ''bear_case'', ''contradicting_evidence'', ''confidence''])) (\<lambda>_.
          bindE (parse_confidence (json_get payload ''confidence'')) (\<lambda>confidence.
          bindE (parse_section index view payload ''bull_case'') (\<lambda>bull.
          bindE (parse_section index view payload ''bear_case'') (\<lambda>bear.
          bindE (parse_section index view payload ''contradicting_evidence'') (\<lambda>contradicting.
          Inr \<lparr> ao_bull_case = bull, ao_bear_case = bear, ao_contradicting = contradicting,
                ao_confidence = confidence \<rparr>)))))
      | Inr _ \<Rightarrow> Inl AnalysisRefused)"

subsection \<open>The stored form of an output\<close>

definition encode_claims :: "claim list \<Rightarrow> json" where
  "encode_claims cs = JList (map (\<lambda>c. JObj [(KStr ''text'', JStr (cm_text c)),
     (KStr ''citations'', JList (map JStr (cm_citations c)))]) cs)"

definition serialize_output :: "analysis_output \<Rightarrow> json" where
  "serialize_output out =
     JObj [(KStr ''bull_case'', encode_claims (ao_bull_case out)), (KStr ''bear_case'', encode_claims (ao_bear_case out)),
           (KStr ''contradicting_evidence'', encode_claims (ao_contradicting out)),
           (KStr ''confidence'', JFloat (ao_confidence out))]"

subsection \<open>What an accepted answer says\<close>

text \<open>The fact behind a citation is in the store and was known at the instant of the view; a cited line exists.\<close>

definition supported :: "citation_index \<Rightarrow> evidence as_of_view \<Rightarrow> string \<Rightarrow> bool" where
  "supported index view raw \<longleftrightarrow>
     (\<exists>fid line cf f. parse_citation_ref raw = Inr (fid, line) \<and> map_of index fid = Some cf
        \<and> f \<in> set (fs_facts (vw_store view)) \<and> fa_observed_at f \<le> vw_t view
        \<and> fa_entity_id f = fa_entity_id (ci_fact cf) \<and> fa_field f = fa_field (ci_fact cf)
        \<and> fa_observed_at f = fa_observed_at (ci_fact cf) \<and> fa_source_id f = fa_source_id (ci_fact cf)
        \<and> (\<forall>n. line = Some n \<longrightarrow> fa_field f = FIELD_DOCUMENT
             \<and> (\<exists>ls. ci_lines cf = Some ls \<and> 1 \<le> n \<and> n \<le> length ls)))"

text \<open>A period and a figure are backed by a header row above one of the cited lines, if a line is cited at all.\<close>

definition period_backed :: "citation_index \<Rightarrow> claim \<Rightarrow> bool" where
  "period_backed index c \<longleftrightarrow>
     (is_period_specific_claim (cm_text c)
      \<and> (\<exists>raw \<in> set (cm_citations c). document_citation index raw \<noteq> Inr []) \<longrightarrow>
      (\<exists>raw \<in> set (cm_citations c). \<exists>ls n. document_citation index raw = Inr [(ls, n)]
         \<and> list_ex looks_like_header_row (header_window ls n)))"

lemma mapE_in: "mapE f xs = Inr ys \<Longrightarrow> set ys = {y. \<exists>x \<in> set xs. f x = Inr y}"
proof (induction xs arbitrary: ys)
  case (Cons x xs)
  then show ?case by (auto simp: bindE_eq_Inr)
qed simp

lemma mapE_ok_all: "mapE f xs = Inr ys \<Longrightarrow> x \<in> set xs \<Longrightarrow> \<exists>y. f x = Inr y"
  by (induction xs arbitrary: ys) (auto simp: bindE_eq_Inr)

lemma foldE_unit_all: "foldE f () xs = Inr u \<Longrightarrow> x \<in> set xs \<Longrightarrow> f () x = Inr ()"
  by (induction xs) (auto simp: bindE_eq_Inr)

lemma validate_citation_supported:
  assumes "validate_citation index view raw = Inr ()" and "fs_ok (vw_store view)"
  shows "supported index view raw"
proof -
  obtain fid line where r: "parse_citation_ref raw = Inr (fid, line)"
    using assms(1) by (cases "parse_citation_ref raw") (auto simp: validate_citation_def)
  obtain cf where x: "fact_exists_as_of fid view index = Inr cf"
    using assms(1) r by (cases "fact_exists_as_of fid view index") (auto simp: validate_citation_def)
  have v: "\<forall>n. line = Some n \<longrightarrow> fa_field (ci_fact cf) = FIELD_DOCUMENT
       \<and> (\<exists>ls. ci_lines cf = Some ls \<and> 1 \<le> n \<and> n \<le> length ls)"
    using assms(1) by (cases line; cases "ci_lines cf") (auto simp: validate_citation_def r x require_def bindE_eq_Inr)
  obtain f where f: "map_of index fid = Some cf"
    "f \<in> set (view_history view (fa_entity_id (ci_fact cf)) (fa_field (ci_fact cf)))"
    "fa_observed_at f = fa_observed_at (ci_fact cf)" "fa_source_id f = fa_source_id (ci_fact cf)"
    using x by (auto simp: fact_exists_as_of_def Let_def list_ex_iff split: option.splits if_splits)
  then have "f \<in> set (fs_facts (vw_store view)) \<and> fa_observed_at f \<le> vw_t view
      \<and> about (fa_entity_id (ci_fact cf), fa_field (ci_fact cf)) f"
    by (simp add: view_history_eq [OF assms(2)] known_at_def)
  with r v f show ?thesis unfolding supported_def about_def by (intro exI [of _ fid] exI [of _ line] exI [of _ cf] exI [of _ f]) auto
qed

lemma document_citation_cases:
  "document_citation index raw = Inr ds \<Longrightarrow> ds = [] \<or> (\<exists>ls n. ds = [(ls, n)])"
  by (cases "parse_citation_ref raw") (auto simp: document_citation_def split: option.split)

lemma check_period_backed:
  assumes "check_period_attribution index c = Inr ()"
  shows "period_backed index c"
  unfolding period_backed_def
proof (intro impI, elim conjE bexE)
  fix raw assume p: "is_period_specific_claim (cm_text c)" and raw: "raw \<in> set (cm_citations c)" "document_citation index raw \<noteq> Inr []"
  obtain dss where dss: "mapE (document_citation index) (cm_citations c) = Inr dss"
    "concat dss = [] \<or> list_ex (\<lambda>(ls, n). list_ex looks_like_header_row (header_window ls n)) (concat dss)"
    using assms p by (auto simp: check_period_attribution_def bindE_eq_Inr require_def Let_def)
  obtain ds where "document_citation index raw = Inr ds" using mapE_ok_all [OF dss(1) raw(1)] by blast
  with raw mapE_in [OF dss(1)] have "ds \<in> set dss" "ds \<noteq> []" by auto
  then have "concat dss \<noteq> []" by auto
  with dss(2) obtain ds' ls n where d: "ds' \<in> set dss" "(ls, n) \<in> set ds'" "list_ex looks_like_header_row (header_window ls n)"
    by (auto simp: list_ex_iff)
  from d(1) mapE_in [OF dss(1)] obtain raw' where r: "raw' \<in> set (cm_citations c)" "document_citation index raw' = Inr ds'"
    by auto
  with d(2) document_citation_cases [OF r(2)] have "ds' = [(ls, n)]" by auto
  with r d(3) show "\<exists>raw \<in> set (cm_citations c). \<exists>ls n. document_citation index raw = Inr [(ls, n)]
      \<and> list_ex looks_like_header_row (header_window ls n)" by auto
qed

lemma parse_section_supported:
  assumes "parse_section index view payload section = Inr cs" and "fs_ok (vw_store view)" and "c \<in> set cs"
  shows "cm_citations c \<noteq> [] \<and> (\<forall>raw \<in> set (cm_citations c). supported index view raw) \<and> period_backed index c"
proof -
  obtain raws where s: "mapE parse_claim raws = Inr cs" "foldE (check_claim index view) () cs = Inr ()"
    using assms(1) by (auto simp: parse_section_def bindE_eq_Inr require_def split: option.splits json.splits)
  obtain raw where "parse_claim raw = Inr c" using mapE_in [OF s(1)] assms(3) by auto
  then have "cm_citations c \<noteq> []"
    by (auto simp: parse_claim_def bindE_eq_Inr require_def split: json.splits option.splits)
  moreover have k: "foldE (\<lambda>_. validate_citation index view) () (cm_citations c) = Inr ()" "check_period_attribution index c = Inr ()"
    using foldE_unit_all [OF s(2) assms(3)] by (auto simp: check_claim_def bindE_eq_Inr)
  ultimately show ?thesis
    using foldE_unit_all [OF k(1)] validate_citation_supported [OF _ assms(2)] check_period_backed [OF k(2)] by blast
qed

text \<open>
C17: An accepted analysis rests on known evidence: it has a bear case and a confidence between 0 and 1, and each
  of its claims cites something; every citation names a fact that is in the evidence store and was observed by the instant of the
  view (never a later one), and a line that the document has; and a claim that names a period and a figure and cites a
  document has a header row in the eight lines above a cited line.
\<close>
theorem accepted_analysis_is_cited:
  assumes "parse_analysis_output loads raw index view = Inr out" and "fs_ok (vw_store view)"
  shows "ao_bear_case out \<noteq> [] \<and> 0 \<le> ao_confidence out \<and> ao_confidence out \<le> 1
    \<and> (\<forall>c \<in> set (ao_bull_case out @ ao_bear_case out @ ao_contradicting out).
         cm_citations c \<noteq> [] \<and> (\<forall>raw \<in> set (cm_citations c). supported index view raw) \<and> period_backed index c)"
proof -
  obtain payload where p: "parse_confidence (json_get payload ''confidence'') = Inr (ao_confidence out)"
    "parse_section index view payload ''bull_case'' = Inr (ao_bull_case out)"
    "parse_section index view payload ''bear_case'' = Inr (ao_bear_case out)"
    "parse_section index view payload ''contradicting_evidence'' = Inr (ao_contradicting out)"
    using assms(1) by (auto simp: parse_analysis_output_def bindE_eq_Inr split: sum.splits json.splits)
  have "0 \<le> ao_confidence out \<and> ao_confidence out \<le> 1"
    using p(1) by (auto simp: parse_confidence_def bindE_eq_Inr require_def split: option.splits json.splits)
  moreover have "ao_bear_case out \<noteq> []"
  proof -
    obtain raws where "raws \<noteq> []" "mapE parse_claim raws = Inr (ao_bear_case out)"
      using p(3) by (auto simp: parse_section_def bindE_eq_Inr require_def split: option.splits json.splits)
    then show ?thesis by (cases raws) (auto simp: bindE_eq_Inr)
  qed
  ultimately show ?thesis
    using parse_section_supported [OF p(2) assms(2)] parse_section_supported [OF p(3) assms(2)]
      parse_section_supported [OF p(4) assms(2)] by auto
qed

text \<open>A filing of two lines, the figures under a row of years, and an answer that cites the second line.\<close>

definition ex_filing :: "evidence fact" where
  "ex_filing = \<lparr> fa_entity_id = ''SPY'', fa_field = FIELD_DOCUMENT, fa_value = OtherFact JNull, fa_observed_at = 10,
     fa_effective_at = 10, fa_source_id = ''sec_edgar'', fa_doc_hash = Some ''sha'' \<rparr>"

definition ex_view :: "evidence as_of_view" where
  "ex_view = \<lparr> vw_store = \<lparr> fs_facts = [ex_filing], fs_series = [((''SPY'', FIELD_DOCUMENT), ([10], [ex_filing]))],
     fs_file = None, fs_truncated = None \<rparr>, vw_t = 20 \<rparr>"

definition ex_index :: citation_index where
  "ex_index = [(''0123456789abcdef'', \<lparr> ci_fact = ex_filing, ci_lines = Some [''Years ended 2024 2025'', ''Revenue 4 5''] \<rparr>)]"

definition ex_answer :: "string \<Rightarrow> json result" where
  "ex_answer raw = Inr (JObj [(KStr ''bull_case'', JList []),
     (KStr ''bear_case'', JList [JObj [(KStr ''text'', JStr ''Revenue fell to 5 in FY2025.''),
        (KStr ''citations'', JList [JStr ''0123456789abcdef#L2''])]]),
     (KStr ''contradicting_evidence'', JList []), (KStr ''confidence'', JFloat (1 / 2))])"

lemma ex_view_ok: "fs_ok (vw_store ex_view)"
  using append_ok [OF empty_ok, of "\<lambda>_. []" False ex_filing None None]
  by (simp add: ex_view_def fs_append_def series_get_def bisect_right_def bisect_loop.simps insert_at_def ex_filing_def)

lemma ex_answer_accepted:
  "parse_analysis_output ex_answer [] ex_index ex_view = Inr \<lparr> ao_bull_case = [],
     ao_bear_case = [\<lparr> cm_text = ''Revenue fell to 5 in FY2025.'', cm_citations = [''0123456789abcdef#L2''] \<rparr>],
     ao_contradicting = [], ao_confidence = 1 / 2 \<rparr>"
proof -
  have c: "parse_citation_ref ''0123456789abcdef#L2'' = Inr (''0123456789abcdef'', Some 2)"
    "is_period_specific_claim ''Revenue fell to 5 in FY2025.''" "\<not> blank_line ''Revenue fell to 5 in FY2025.''"
    "list_ex looks_like_header_row (header_window [''Years ended 2024 2025'', ''Revenue 4 5''] 2)"
    by code_simp+
  show ?thesis
    by (simp add: parse_analysis_output_def ex_answer_def require_def json_get_def parse_confidence_def parse_section_def
        parse_claim_def is_str_def str_of_def check_claim_def validate_citation_def c fact_exists_as_of_def ex_index_def
        view_history_def ex_view_def ex_filing_def bisect_right_def bisect_loop.simps check_period_attribution_def
        document_citation_def)
qed

theorem accepted_analysis_is_cited_witness:
  "\<exists>out. parse_analysis_output ex_answer [] ex_index ex_view = Inr out
     \<and> (\<forall>c \<in> set (ao_bear_case out). supported ex_index ex_view (hd (cm_citations c)) \<and> period_backed ex_index c)"
  using accepted_analysis_is_cited [OF ex_answer_accepted ex_view_ok] ex_answer_accepted by auto

end
