(* ===== verification/Cost.thy ===== *)
theory Cost
  imports Journal Calendar
begin

text \<open>
  agent/cost.py, the ledger of what the model calls cost and the budget they are checked against; and the shape it shares with
  the other stores of the research stage: a memory and the journal of its rows, where a row is put into memory
  first and then written, and the journal is replayed by the same function at load. An update or a deletion raises in all of them.
\<close>

subsection \<open>A memory and its journal\<close>

record 'm kept =
  kp_mem :: 'm
  kp_journal :: journal

definition keep_row :: "('r \<Rightarrow> string) \<Rightarrow> ('m \<Rightarrow> 'r \<Rightarrow> 'm) \<Rightarrow> 'r \<Rightarrow> ('m kept, unit) action" where
  "keep_row enc add r =
     bindW (modifyW (\<lambda>s. s\<lparr>kp_mem := add (kp_mem s) r\<rparr>)) (\<lambda>_.
     on_part kp_journal (\<lambda>j s. s\<lparr>kp_journal := j\<rparr>) (journal_write enc r))"

definition kept_load :: "(string \<Rightarrow> 'r result) \<Rightarrow> ('m \<Rightarrow> 'r \<Rightarrow> 'm result) \<Rightarrow> 'm \<Rightarrow> string option \<Rightarrow> 'm kept result" where
  "kept_load de add m0 file =
     bindE (case file of None \<Rightarrow> Inr m0
            | Some body \<Rightarrow> foldE (\<lambda>m line. bindE (de line) (add m)) m0 (jsonl_lines body)) (\<lambda>m.
     Inr \<lparr> kp_mem = m, kp_journal = \<lparr> jn_file = file, jn_disk = [] \<rparr> \<rparr>)"

lemma keep_row_mem [simp]: "kp_mem (fst (keep_row enc add r s)) = add (kp_mem s) r"
  by (simp add: keep_row_def bindW_def modifyW_def on_part_def split: prod.split)

lemma keep_row_calm:
  assumes "jn_disk (kp_journal s) = []"
  shows "keep_row enc add r s
    = (\<lparr> kp_mem = add (kp_mem s) r, kp_journal = \<lparr> jn_file = Some (write_row enc (journal_text (kp_journal s)) r), jn_disk = [] \<rparr> \<rparr>, Inr ())"
  using assms by (simp add: keep_row_def bindW_def modifyW_def on_part_def journal_write_calm)

lemma wp_journal_any:
  "(\<And>j'. Q () j') \<Longrightarrow> (\<And>j'. E' OSError j') \<Longrightarrow> wp (journal_write enc r) Q E' j"
  by (simp add: wp_def journal_write_def split: list.split option.split)

lemma wp_keep_row:
  assumes "\<And>j. Q () \<lparr> kp_mem = add (kp_mem s) r, kp_journal = j \<rparr>"
    and "\<And>j. E' OSError \<lparr> kp_mem = add (kp_mem s) r, kp_journal = j \<rparr>"
  shows "wp (keep_row enc add r) Q E' s"
  using assms by (cases s) (auto simp: keep_row_def wp_simps intro!: wp_journal_any)

text \<open>What the journal of a memory holds: the rows that were put into it since \<open>m0\<close>, when nothing broke.\<close>

definition kept_ok :: "('r \<Rightarrow> string) \<Rightarrow> ('m \<Rightarrow> 'r \<Rightarrow> 'm) \<Rightarrow> 'm \<Rightarrow> ('r \<Rightarrow> bool) \<Rightarrow> 'm kept \<Rightarrow> bool" where
  "kept_ok enc add m0 ok s \<longleftrightarrow>
     (\<exists>rows. holds_rows enc rows (kp_journal s) \<and> list_all ok rows \<and> kp_mem s = foldl add m0 rows)"

lemma kept_ok_keep:
  assumes "kept_ok enc add m0 ok s" and "ok r"
  shows "kept_ok enc add m0 ok (fst (keep_row enc add r s))" and "snd (keep_row enc add r s) = Inr ()"
proof -
  obtain rows where r: "holds_rows enc rows (kp_journal s)" "list_all ok rows" "kp_mem s = foldl add m0 rows"
    using assms(1) by (auto simp: kept_ok_def)
  then have d: "jn_disk (kp_journal s) = []" by (simp add: holds_rows_def)
  show "snd (keep_row enc add r s) = Inr ()" by (simp add: keep_row_calm [OF d])
  show "kept_ok enc add m0 ok (fst (keep_row enc add r s))"
    unfolding kept_ok_def
    by (rule exI [of _ "rows @ [r]"])
       (use r assms(2) in \<open>simp add: keep_row_calm [OF d] holds_rows_def journal_text_def\<close>)
qed

lemma kept_ok_load:
  assumes "kept_ok enc add m0 ok s" and "\<And>r. ok r \<Longrightarrow> encodes enc de r"
    and "\<And>m r. ok r \<Longrightarrow> add' m r = Inr (add m r)"
  shows "kept_load de add' m0 (jn_file (kp_journal s)) = Inr s"
proof -
  obtain rows where r: "holds_rows enc rows (kp_journal s)" "list_all ok rows" "kp_mem s = foldl add m0 rows"
    using assms(1) by (auto simp: kept_ok_def)
  have e: "\<forall>r \<in> set rows. encodes enc de r" using r(2) assms(2) by (auto simp: list_all_iff)
  have f: "foldE add' m rows = Inr (foldl add m rows)" if "list_all ok rows" for m rows
    using that by (induction rows arbitrary: m) (simp_all add: assms(3))
  show ?thesis
  proof (cases "jn_file (kp_journal s)")
    case None
    with r have "rows = []" by (simp add: holds_rows_def)
    with r None show ?thesis by (cases s; cases "kp_journal s") (simp add: kept_load_def holds_rows_def)
  next
    case (Some body)
    then have "jsonl_lines body = map enc rows"
      using journal_lines [OF r(1) e] by (simp add: journal_text_def)
    then have "foldE (\<lambda>m line. bindE (de line) (add' m)) m0 (jsonl_lines body) = Inr (kp_mem s)"
      by (simp add: replay_lines [OF e] f [OF r(2)] r(3))
    with r(1) Some show ?thesis by (cases s; cases "kp_journal s") (simp add: kept_load_def holds_rows_def)
  qed
qed

subsection \<open>The cost ledger\<close>

datatype budget_verdict = BudgetOk | BudgetWarning | BudgetHardStop

record cost_entry =
  ce_provider :: string
  ce_operation :: string
  ce_units :: int
  ce_cost :: pyfloat
  ce_at :: instant
  ce_run_id :: "string option"
  ce_cache_hit :: bool

record budget =
  bu_monthly :: pyfloat
  bu_warning_at :: pyfloat
  bu_hard_stop_at :: pyfloat

type_synonym cost_ledger = "cost_entry list kept"

definition month_of :: "date \<Rightarrow> nat" where
  "month_of d = last (filter (\<lambda>m. mk_date (year_of d) m 1 \<le> d) [1..<13])"

definition in_month :: "date \<Rightarrow> cost_entry \<Rightarrow> bool" where
  "in_month on e \<longleftrightarrow> year_of (utc_date (ce_at e)) = year_of on \<and> month_of (utc_date (ce_at e)) = month_of on"

definition add_cost :: "cost_entry list \<Rightarrow> cost_entry \<Rightarrow> cost_entry list" where
  "add_cost es e = es @ [e]"

definition record_cost :: "(cost_entry \<Rightarrow> string) \<Rightarrow> cost_entry \<Rightarrow> (cost_ledger, unit) action" where
  "record_cost enc e = keep_row enc add_cost e"

definition cost_load :: "(string \<Rightarrow> cost_entry result) \<Rightarrow> string option \<Rightarrow> cost_ledger result" where
  "cost_load de file = kept_load de (\<lambda>es e. Inr (add_cost es e)) [] file"

definition cost_forbidden :: "cost_ledger \<Rightarrow> cost_ledger result" where
  "cost_forbidden l = Inl CostLedgerError"

definition month_to_date :: "cost_entry list \<Rightarrow> date \<Rightarrow> pyfloat" where
  "month_to_date es on = sum_seq fl 0 (map ce_cost (filter (in_month on) es))"

definition budget_state :: "budget \<Rightarrow> cost_entry list \<Rightarrow> date \<Rightarrow> budget_verdict" where
  "budget_state b es on =
     (let spent = month_to_date es on
      in if spent \<ge> bu_hard_stop_at b then BudgetHardStop
         else if spent \<ge> bu_warning_at b then BudgetWarning else BudgetOk)"

definition may_analyse :: "budget \<Rightarrow> cost_entry list \<Rightarrow> date \<Rightarrow> bool" where
  "may_analyse b es on \<longleftrightarrow> budget_state b es on \<noteq> BudgetHardStop"

definition would_exceed_hard_stop :: "budget \<Rightarrow> cost_entry list \<Rightarrow> pyfloat \<Rightarrow> date \<Rightarrow> bool" where
  "would_exceed_hard_stop b es estimated on \<longleftrightarrow> fl (month_to_date es on + estimated) \<ge> bu_hard_stop_at b"

definition is_analysis :: "cost_entry \<Rightarrow> bool" where
  "is_analysis e \<longleftrightarrow> ce_provider e = ''anthropic'' \<and> ce_operation e = ''analysis'' \<and> \<not> ce_cache_hit e"

definition analyses_today :: "cost_entry list \<Rightarrow> date \<Rightarrow> int" where
  "analyses_today es on = int (length (filter (\<lambda>e. is_analysis e \<and> utc_date (ce_at e) = on) es))"

definition cache_hit_rate :: "cost_entry list \<Rightarrow> pyfloat" where
  "cache_hit_rate es =
     (let model = filter (\<lambda>e. ce_provider e = ''anthropic'') es
      in if model = [] then 0
         else fl (of_nat (length (filter ce_cache_hit model)) / of_nat (length model)))"

subsection \<open>What an entry adds\<close>

lemma sum_seq_snoc: "sum_seq r a (xs @ [x]) = r (sum_seq r a xs + x)"
  by (induction xs arbitrary: a) simp_all

lemma month_to_date_add:
  "month_to_date (es @ [e]) on
   = (if in_month on e then fl (month_to_date es on + ce_cost e) else month_to_date es on)"
  by (simp add: month_to_date_def sum_seq_snoc)

lemma month_to_date_fl: "fl (month_to_date es on) = month_to_date es on"
proof (induction es rule: rev_induct)
  case Nil
  show ?case by (simp add: month_to_date_def num_simps)
next
  case (snoc e es)
  then show ?case by (simp add: month_to_date_add flt.rnd_idem)
qed

lemma month_to_date_free: "ce_cost e = 0 \<Longrightarrow> month_to_date (es @ [e]) on = month_to_date es on"
  by (simp add: month_to_date_add month_to_date_fl)

lemma in_month_at: "utc_date (ce_at e) = on \<Longrightarrow> in_month on e"
  by (simp add: in_month_def)

lemma month_to_date_same:
  "year_of on = year_of on' \<Longrightarrow> month_of on = month_of on' \<Longrightarrow> month_to_date es on = month_to_date es on'"
  by (simp add: month_to_date_def in_month_def [abs_def])

text \<open>An entry that the hard stop has let through keeps the month below it when it costs no more than was asked for.\<close>

lemma within_hard_stop:
  assumes "\<not> would_exceed_hard_stop b es estimated (utc_date (ce_at e))" and "ce_cost e \<le> estimated"
    and "\<forall>on. month_to_date es on < bu_hard_stop_at b"
  shows "month_to_date (es @ [e]) on < bu_hard_stop_at b"
proof (cases "in_month on e")
  case True
  then have "month_to_date es on = month_to_date es (utc_date (ce_at e))"
    by (intro month_to_date_same) (simp_all add: in_month_def)
  moreover have "fl (month_to_date es on + ce_cost e) \<le> fl (month_to_date es on + estimated)"
    using assms(2) by (intro flt.rnd_mono) simp
  ultimately show ?thesis using True assms(1) by (simp add: month_to_date_add would_exceed_hard_stop_def)
qed (use assms(3) in \<open>simp add: month_to_date_add\<close>)

end
