(* ===== verification/Analysis.thy ===== *)
theory Analysis
  imports AnalysisOutput Cost
begin

text \<open>
  agent/analysis.py with agent/analysis\_prompt.py, agent/analysis\_cache.py and agent/extraction\_store.py: one paid question to the language
  model about one document. The answer is looked up in the durable cache first; the question is asked only below the monthly hard
  stop of agent/cost.py; what it cost is recorded before the answer is read; an accepted answer and a refusal are
  cached, an answer that is not JSON is not.

  The model is the parameter \<open>ask\<close> with a state of its own; \<open>lb_asked\<close> lists the questions in order, for the statements only. The hash that
  makes a citation key, \<open>repr\<close>, \<open>isoformat\<close>, the text of the instructions and the extraction of text from HTML
  (the standard library's parser) are parameters.
\<close>

subsection \<open>The extraction cache\<close>

record cache_key =
  ck_doc_sha256 :: "string option"
  ck_prompt_version :: string
  ck_model_id :: string
  ck_schema_version :: string
  ck_validator_version :: string

record cached_refusal =
  cx_message :: string
  cx_tokens_in :: int
  cx_tokens_out :: int
  cx_cost :: pyfloat

datatype cached = Accepted analysis_output | Refused cached_refusal

datatype extraction_row =
  AcceptedRow cache_key analysis_output instant | RefusedRow cache_key cached_refusal instant | UnknownStatus

type_synonym cache_memory = "(cache_key \<times> cached) list"
type_synonym extraction_cache = "cache_memory kept"

definition cache_get :: "cache_memory \<Rightarrow> cache_key \<Rightarrow> cached option" where
  "cache_get m k = map_of m k"

definition cache_add :: "cache_memory \<Rightarrow> extraction_row \<Rightarrow> cache_memory" where
  "cache_add m row = (case row of
     AcceptedRow k out _ \<Rightarrow> AList.update k (Accepted out) m
   | RefusedRow k r _ \<Rightarrow> AList.update k (Refused r) m
   | UnknownStatus \<Rightarrow> m)"

definition cache_apply :: "cache_memory \<Rightarrow> extraction_row \<Rightarrow> cache_memory result" where
  "cache_apply m row = (case row of UnknownStatus \<Rightarrow> Inl ExtractionCacheStoreError | _ \<Rightarrow> Inr (cache_add m row))"

definition cache_put :: "(extraction_row \<Rightarrow> string) \<Rightarrow> cache_key \<Rightarrow> analysis_output \<Rightarrow> instant \<Rightarrow> (extraction_cache, unit) action" where
  "cache_put enc k out t = keep_row enc cache_add (AcceptedRow k out t)"

definition cache_put_refusal ::
  "(extraction_row \<Rightarrow> string) \<Rightarrow> cache_key \<Rightarrow> cached_refusal \<Rightarrow> instant \<Rightarrow> (extraction_cache, unit) action" where
  "cache_put_refusal enc k r t = keep_row enc cache_add (RefusedRow k r t)"

definition cache_load :: "(string \<Rightarrow> extraction_row result) \<Rightarrow> string option \<Rightarrow> extraction_cache result" where
  "cache_load de file = kept_load de cache_apply [] file"

definition cache_forbidden :: "extraction_cache \<Rightarrow> extraction_cache result" where
  "cache_forbidden c = Inl ExtractionCacheStoreError"

subsection \<open>The prompt\<close>

record analysis_env =
  ne_cost_row :: "cost_entry \<Rightarrow> string"
  ne_cache_row :: "extraction_row \<Rightarrow> string"
  ne_loads :: "string \<Rightarrow> json result"
  ne_fact_id :: "evidence fact \<Rightarrow> string"
  ne_repr :: "evidence \<Rightarrow> string"
  ne_iso :: "instant \<Rightarrow> string"
  ne_instructions :: "string \<Rightarrow> string \<Rightarrow> string \<Rightarrow> string"
  ne_extract :: "string \<Rightarrow> string"

record analysis_prompt =
  pm_system :: string
  pm_user :: string
  pm_index :: citation_index
  pm_boundary :: string

fun nat_str :: "nat \<Rightarrow> string" where
  "nat_str n = (if n < 10 then [char_of (48 + n)] else nat_str (n div 10) @ [char_of (48 + n mod 10)])"

declare nat_str.simps [simp del]

fun join :: "string \<Rightarrow> string list \<Rightarrow> string" where
  "join sep [] = []"
| "join sep [s] = s"
| "join sep (s # t # ss) = s @ sep @ join sep (t # ss)"

fun contains :: "string \<Rightarrow> string \<Rightarrow> bool" where
  "contains needle [] = (needle = [])"
| "contains needle (c # cs) \<longleftrightarrow> take (length needle) (c # cs) = needle \<or> contains needle cs"

text \<open>\<open>tokens\<close> are the tokens drawn, at most ten; the first one that does not occur in the data is taken.\<close>

definition new_boundary :: "analysis_env \<Rightarrow> string list \<Rightarrow> evidence fact list \<Rightarrow> string result" where
  "new_boundary N tokens facts =
     (let haystack = join [nl] (map (\<lambda>f. ne_repr N (fa_value f)) facts)
      in case find (\<lambda>t. \<not> contains t haystack) (take 10 tokens) of
           None \<Rightarrow> Inl AnalysisPromptError | Some t \<Rightarrow> Inr t)"

definition numbered :: "string list \<Rightarrow> string" where
  "numbered ls = join [nl] (map (\<lambda>(i, l). ''L'' @ nat_str (i + 1) @ '': '' @ l) (zip [0..<length ls] ls))"

definition render_fact :: "analysis_env \<Rightarrow> evidence fact \<Rightarrow> (citable_fact \<times> string) result" where
  "render_fact N f =
     (let head = ''[FACT '' @ ne_fact_id N f @ ''] kind='' @ fa_field f @ '' symbol='' @ fa_entity_id f
      in if fa_field f = FIELD_DOCUMENT then
           (case fa_value f of
              DocumentFact d \<Rightarrow>
                (let ls = splitlines (ne_extract N (fd_text d))
                 in Inr (\<lparr> ci_fact = f, ci_lines = Some ls \<rparr>,
                         head @ '' accession='' @ fd_accession d @ [nl] @ numbered ls))
            | _ \<Rightarrow> Inl (KeyError ''text''))
         else Inr (\<lparr> ci_fact = f, ci_lines = None \<rparr>,
                   head @ '' observed_at='' @ ne_iso N (fa_observed_at f) @ '' value='' @ ne_repr N (fa_value f)))"

definition add_fact ::
  "analysis_env \<Rightarrow> citation_index \<times> string list \<Rightarrow> evidence fact \<Rightarrow> (citation_index \<times> string list) result" where
  "add_fact N = (\<lambda>(index, blocks) f.
     let fid = ne_fact_id N f
     in if map_of index fid \<noteq> None \<and> map_option ci_fact (map_of index fid) \<noteq> Some f then Inl AnalysisPromptError
        else bindE (render_fact N f) (\<lambda>(cf, block). Inr (AList.update fid cf index, blocks @ [block])))"

definition build_analysis_prompt ::
  "analysis_env \<Rightarrow> string list \<Rightarrow> evidence fact list \<Rightarrow> datetime \<Rightarrow> string \<Rightarrow> string \<Rightarrow> analysis_prompt result" where
  "build_analysis_prompt N tokens facts t prompt_version schema_version =
     (case t of Naive _ \<Rightarrow> Inl AnalysisPromptError | Aware _ \<Rightarrow>
     bindE (new_boundary N tokens facts) (\<lambda>boundary.
     bindE (foldE (add_fact N) ([], []) facts) (\<lambda>(index, blocks).
     Inr \<lparr> pm_system = ne_instructions N boundary prompt_version schema_version,
           pm_user = boundary @ [nl] @ join [nl, nl] blocks @ [nl] @ boundary,
           pm_index = index, pm_boundary = boundary \<rparr>)))"

subsection \<open>Asking\<close>

record model_response =
  mr_raw_text :: string
  mr_input_tokens :: int
  mr_output_tokens :: int

record model_call =
  mq_key :: cache_key
  mq_at :: instant
  mq_answer :: "model_response result"

type_synonym 'm client = "'m \<Rightarrow> string \<Rightarrow> string \<Rightarrow> int \<Rightarrow> 'm \<times> model_response result"

record 'm lab =
  lb_costs :: cost_ledger
  lb_cache :: extraction_cache
  lb_model :: 'm
  lb_asked :: "model_call list"

type_synonym ('m, 'a) lab_act = "('m lab, 'a) action"

record analysis_args =
  an_facts :: "evidence fact list"
  an_as_of :: datetime
  an_now :: datetime
  an_view :: "evidence as_of_view"
  an_model_id :: string
  an_input_price :: pyfloat
  an_output_price :: pyfloat
  an_max_output :: int
  an_prompt_version :: string
  an_schema_version :: string
  an_validator_version :: string
  an_run_id :: "string option"
  an_tokens :: "string list"
  an_clock :: instant
  an_refusal_text :: string

record analysis_run_result =
  rr_output :: analysis_output
  rr_cache_hit :: bool
  rr_cost :: pyfloat
  rr_model_id :: string
  rr_prompt_version :: string
  rr_schema_version :: string

definition PROVIDER :: string where "PROVIDER = ''anthropic''"
definition OPERATION :: string where "OPERATION = ''analysis''"
definition CHARS_PER_TOKEN_ESTIMATE :: nat where "CHARS_PER_TOKEN_ESTIMATE = 4"

definition single_document_fact :: "evidence fact list \<Rightarrow> evidence fact result" where
  "single_document_fact facts =
     (case filter (\<lambda>f. fa_field f = FIELD_DOCUMENT) facts of
        [d] \<Rightarrow> Inr d | _ \<Rightarrow> Inl AnalysisError)"

definition estimate_input_tokens :: "analysis_prompt \<Rightarrow> int" where
  "estimate_input_tokens p = int ((length (pm_system p) + length (pm_user p)) div CHARS_PER_TOKEN_ESTIMATE)"

definition call_price :: "analysis_args \<Rightarrow> int \<Rightarrow> int \<Rightarrow> pyfloat" where
  "call_price a input_tokens output_tokens =
     fl (fl (fl (of_int input_tokens / 1000000) * an_input_price a)
         + fl (fl (of_int output_tokens / 1000000) * an_output_price a))"

definition cache_key_of :: "analysis_args \<Rightarrow> evidence fact \<Rightarrow> cache_key" where
  "cache_key_of a doc =
     \<lparr> ck_doc_sha256 = fa_doc_hash doc, ck_prompt_version = an_prompt_version a,
       ck_model_id = an_model_id a, ck_schema_version = an_schema_version a,
       ck_validator_version = an_validator_version a \<rparr>"

definition spend :: "analysis_env \<Rightarrow> analysis_args \<Rightarrow> instant \<Rightarrow> int \<Rightarrow> pyfloat \<Rightarrow> bool \<Rightarrow> ('m, unit) lab_act" where
  "spend N a now units cost hit =
     on_part lb_costs (\<lambda>c w. w\<lparr>lb_costs := c\<rparr>) (record_cost (ne_cost_row N)
       \<lparr> ce_provider = PROVIDER, ce_operation = OPERATION, ce_units = units, ce_cost = cost, ce_at = now,
         ce_run_id = an_run_id a, ce_cache_hit = hit \<rparr>)"

definition on_cache :: "(extraction_cache, 'a) action \<Rightarrow> ('m, 'a) lab_act" where
  "on_cache = on_part lb_cache (\<lambda>c w. w\<lparr>lb_cache := c\<rparr>)"

definition run_result :: "analysis_args \<Rightarrow> analysis_output \<Rightarrow> bool \<Rightarrow> pyfloat \<Rightarrow> analysis_run_result" where
  "run_result a out hit cost =
     \<lparr> rr_output = out, rr_cache_hit = hit, rr_cost = cost, rr_model_id = an_model_id a,
       rr_prompt_version = an_prompt_version a, rr_schema_version = an_schema_version a \<rparr>"

definition cached_answer :: "analysis_env \<Rightarrow> analysis_args \<Rightarrow> instant \<Rightarrow> cached \<Rightarrow> ('m, analysis_run_result) lab_act" where
  "cached_answer N a now c =
     bindW (spend N a now 0 0 True) (\<lambda>_.
     case c of Refused _ \<Rightarrow> raiseW AnalysisRefused | Accepted out \<Rightarrow> retW (run_result a out True 0))"

definition ask_model ::
  "'m client \<Rightarrow> analysis_args \<Rightarrow> instant \<Rightarrow> cache_key \<Rightarrow> analysis_prompt \<Rightarrow> ('m, model_response) lab_act" where
  "ask_model ask a now key p = (\<lambda>w.
     case ask (lb_model w) (pm_system p) (pm_user p) (an_max_output a) of
       (m, r) \<Rightarrow> (w\<lparr>lb_model := m, lb_asked := lb_asked w @ [\<lparr> mq_key = key, mq_at = now, mq_answer = r \<rparr>]\<rparr>, r))"

definition read_answer ::
  "analysis_env \<Rightarrow> analysis_args \<Rightarrow> cache_key \<Rightarrow> analysis_prompt \<Rightarrow> model_response \<Rightarrow> pyfloat
   \<Rightarrow> ('m, analysis_run_result) lab_act" where
  "read_answer N a key p r cost =
     (case parse_analysis_output (ne_loads N) (mr_raw_text r) (pm_index p) (an_view a) of
        Inr out \<Rightarrow>
          bindW (on_cache (cache_put (ne_cache_row N) key out (an_clock a))) (\<lambda>_. retW (run_result a out False cost))
      | Inl e \<Rightarrow>
          if e = AnalysisRefused then
            bindW (on_cache (cache_put_refusal (ne_cache_row N) key
              \<lparr> cx_message = an_refusal_text a, cx_tokens_in = mr_input_tokens r, cx_tokens_out = mr_output_tokens r,
                cx_cost = cost \<rparr> (an_clock a))) (\<lambda>_. raiseW e)
          else raiseW e)"

definition paid_answer ::
  "analysis_env \<Rightarrow> 'm client \<Rightarrow> budget \<Rightarrow> analysis_args \<Rightarrow> instant \<Rightarrow> cache_key \<Rightarrow> ('m, analysis_run_result) lab_act" where
  "paid_answer N ask B a now key =
     bindW (liftW (build_analysis_prompt N (an_tokens a) (an_facts a) (an_as_of a) (an_prompt_version a)
                     (an_schema_version a))) (\<lambda>p.
     bindW (getW (\<lambda>w. would_exceed_hard_stop B (kp_mem (lb_costs w))
                     (call_price a (estimate_input_tokens p) (an_max_output a)) (utc_date now))) (\<lambda>too_much.
     if too_much then raiseW BudgetExceeded
     else
       bindW (ask_model ask a now key p) (\<lambda>r.
       let cost = call_price a (mr_input_tokens r) (mr_output_tokens r)
       in bindW (spend N a now (mr_input_tokens r + mr_output_tokens r) cost False) (\<lambda>_.
          read_answer N a key p r cost))))"

definition run_analysis ::
  "analysis_env \<Rightarrow> 'm client \<Rightarrow> budget \<Rightarrow> analysis_args \<Rightarrow> ('m, analysis_run_result) lab_act" where
  "run_analysis N ask B a =
     (case (an_as_of a, an_now a) of
        (Aware _, Aware now) \<Rightarrow>
          bindW (liftW (single_document_fact (an_facts a))) (\<lambda>doc.
          let key = cache_key_of a doc
          in bindW (getW (\<lambda>w. cache_get (kp_mem (lb_cache w)) key)) (\<lambda>c.
             case c of
               Some hit \<Rightarrow> cached_answer N a now hit
             | None \<Rightarrow> paid_answer N ask B a now key))
      | _ \<Rightarrow> raiseW AnalysisError)"

end
