(* ===== verification/AnalysisProps.thy ===== *)
theory AnalysisProps
  imports Analysis
begin

text \<open>
  Any sequence of analyses, with restarts that read the cost ledger and the cache back from their files: the month stays below the hard
  stop, and a document whose answer could be read is never paid for again.
\<close>

subsection \<open>A calm disk\<close>

lemma wp_keep_calm:
  assumes "kept_ok enc add m0 ok s" and "ok r"
    and "\<And>s'. kept_ok enc add m0 ok s' \<Longrightarrow> kp_mem s' = add (kp_mem s) r \<Longrightarrow> Q () s'"
  shows "wp (keep_row enc add r) Q E' s"
  using kept_ok_keep [OF assms(1,2)] assms(3) [of "fst (keep_row enc add r s)"]
  by (cases "keep_row enc add r s") (simp add: wp_def keep_row_mem [of enc add r s, symmetric])

definition cost_ok :: "analysis_env \<Rightarrow> cost_ledger \<Rightarrow> bool" where
  "cost_ok N = kept_ok (ne_cost_row N) add_cost [] (\<lambda>_. True)"

definition cache_ok :: "analysis_env \<Rightarrow> extraction_cache \<Rightarrow> bool" where
  "cache_ok N = kept_ok (ne_cache_row N) cache_add [] (\<lambda>r. r \<noteq> UnknownStatus)"

lemma cache_get_add [simp]:
  "cache_get (cache_add m (AcceptedRow k out t)) k' = (if k' = k then Some (Accepted out) else cache_get m k')"
  "cache_get (cache_add m (RefusedRow k r t)) k' = (if k' = k then Some (Refused r) else cache_get m k')"
  by (simp_all add: cache_get_def cache_add_def update_conv')

subsection \<open>Restarts\<close>

definition reopen :: "(string \<Rightarrow> cost_entry result) \<Rightarrow> (string \<Rightarrow> extraction_row result) \<Rightarrow> 'm lab \<Rightarrow> 'm lab" where
  "reopen de_cost de_cache w =
     (case (cost_load de_cost (jn_file (kp_journal (lb_costs w))), cache_load de_cache (jn_file (kp_journal (lb_cache w)))) of
        (Inr c, Inr k) \<Rightarrow> w\<lparr>lb_costs := c, lb_cache := k\<rparr>
      | _ \<Rightarrow> w)"

datatype lab_op = Analyse analysis_args | Reopen

definition lab_step ::
  "analysis_env \<Rightarrow> (string \<Rightarrow> cost_entry result) \<Rightarrow> (string \<Rightarrow> extraction_row result) \<Rightarrow> 'm client \<Rightarrow> budget \<Rightarrow> lab_op
   \<Rightarrow> 'm lab \<Rightarrow> 'm lab" where
  "lab_step N de_cost de_cache ask B op w =
     (case op of Analyse a \<Rightarrow> fst (run_analysis N ask B a w) | Reopen \<Rightarrow> reopen de_cost de_cache w)"

abbreviation "lab_run N de_cost de_cache ask B \<equiv> fold (lab_step N de_cost de_cache ask B)"

lemma reopen_same:
  assumes "cost_ok N (lb_costs w)" and "cache_ok N (lb_cache w)"
    and "\<forall>e. encodes (ne_cost_row N) de_cost e" and "\<forall>r. r \<noteq> UnknownStatus \<longrightarrow> encodes (ne_cache_row N) de_cache r"
  shows "reopen de_cost de_cache w = w"
proof -
  have "cost_load de_cost (jn_file (kp_journal (lb_costs w))) = Inr (lb_costs w)"
    unfolding cost_load_def by (rule kept_ok_load [OF assms(1) [unfolded cost_ok_def]]) (use assms(3) in auto)
  moreover have "cache_load de_cache (jn_file (kp_journal (lb_cache w))) = Inr (lb_cache w)"
    unfolding cache_load_def
    by (rule kept_ok_load [OF assms(2) [unfolded cache_ok_def]])
       (use assms(4) in \<open>auto simp: cache_apply_def split: extraction_row.split\<close>)
  ultimately show ?thesis by (simp add: reopen_def)
qed

subsection \<open>Answers that can be read\<close>

definition readable :: "analysis_env \<Rightarrow> model_call \<Rightarrow> bool" where
  "readable N q \<longleftrightarrow> (case mq_answer q of Inl _ \<Rightarrow> False | Inr r \<Rightarrow> is_ok (ne_loads N (mr_raw_text r)))"

text \<open>Every step after the JSON refuses, and raises nothing else.\<close>

definition refusing :: "'a result \<Rightarrow> bool" where
  "refusing m \<longleftrightarrow> (\<forall>e. m = Inl e \<longrightarrow> e = AnalysisRefused)"

lemma refusing_basic [simp, intro]: "refusing (Inr x)" "refusing (Inl AnalysisRefused)" "refusing (require c)"
  by (simp_all add: refusing_def require_def)

lemma refusing_bind [intro]: "refusing m \<Longrightarrow> (\<And>x. refusing (f x)) \<Longrightarrow> refusing (bindE m f)"
  by (cases m) (simp_all add: refusing_def)

lemma refusing_map [intro]: "(\<And>x. refusing (f x)) \<Longrightarrow> refusing (mapE f xs)"
  by (induction xs) auto

lemma refusing_fold [intro]: "(\<And>s x. refusing (f s x)) \<Longrightarrow> refusing (foldE f s xs)"
  by (induction xs arbitrary: s) auto

lemma refusing_ref: "refusing (parse_citation_ref raw)"
  by (simp add: parse_citation_ref_def Let_def)

lemma refusing_fact: "refusing (fact_exists_as_of fid view index)"
  by (simp add: fact_exists_as_of_def Let_def split: option.split)

lemma refusing_validate: "refusing (validate_citation index view raw)"
  unfolding validate_citation_def
  by (auto intro!: refusing_bind refusing_ref refusing_fact split: option.split)

lemma refusing_document: "refusing (document_citation index raw)"
  unfolding document_citation_def by (auto intro!: refusing_bind refusing_ref)

lemma refusing_claim: "refusing (check_claim index view u c)"
  unfolding check_claim_def check_period_attribution_def Let_def
  by (auto intro!: refusing_bind refusing_fold refusing_map refusing_validate refusing_document)

lemma refusing_parse_claim: "refusing (parse_claim raw)"
  unfolding parse_claim_def by (auto intro!: refusing_bind split: json.split option.split)

lemma refusing_section: "refusing (parse_section index view payload section)"
  unfolding parse_section_def
  by (auto intro!: refusing_bind refusing_fold refusing_map refusing_claim refusing_parse_claim split: json.split option.split)

lemma refusing_confidence: "refusing (parse_confidence v)"
  unfolding parse_confidence_def by (auto intro!: refusing_bind split: json.split option.split)

lemma parse_refuses:
  assumes "parse_analysis_output loads raw index view = Inl e"
  shows "e = AnalysisRefused \<and> is_ok (loads raw) \<or> e = MalformedResponse \<and> \<not> is_ok (loads raw)"
proof (cases "loads raw")
  case (Inl x)
  with assms show ?thesis by (simp add: parse_analysis_output_def is_ok_def)
next
  case (Inr v)
  have "refusing (parse_analysis_output loads raw index view)"
    unfolding parse_analysis_output_def Inr sum.case
    by (auto intro!: refusing_bind refusing_confidence refusing_section split: json.split)
  with assms have "e = AnalysisRefused" by (simp add: refusing_def)
  with Inr show ?thesis by (simp add: is_ok_def)
qed

subsection \<open>What every analysis keeps\<close>

definition paid_ok :: "analysis_env \<Rightarrow> 'm lab \<Rightarrow> bool" where
  "paid_ok N w \<longleftrightarrow> cost_ok N (lb_costs w) \<and> cache_ok N (lb_cache w)
     \<and> (\<forall>q \<in> set (lb_asked w). readable N q \<longrightarrow> cache_get (kp_mem (lb_cache w)) (mq_key q) \<noteq> None)
     \<and> distinct (map mq_key (filter (readable N) (lb_asked w)))"

definition within_budget :: "budget \<Rightarrow> 'm lab \<Rightarrow> bool" where
  "within_budget B w \<longleftrightarrow> (\<forall>on. month_to_date (kp_mem (lb_costs w)) on < bu_hard_stop_at B)"

lemma wp_spend:
  assumes "cost_ok N (lb_costs w)"
    and "\<And>c. cost_ok N c \<Longrightarrow> kp_mem c = kp_mem (lb_costs w) @ [\<lparr> ce_provider = PROVIDER, ce_operation = OPERATION,
           ce_units = units, ce_cost = cost, ce_at = now, ce_run_id = an_run_id a, ce_cache_hit = hit \<rparr>]
         \<Longrightarrow> Q () (w\<lparr>lb_costs := c\<rparr>)"
  shows "wp (spend N a now units cost hit) Q E' w"
  unfolding spend_def record_cost_def wp_simps
  by (rule wp_keep_calm [OF assms(1) [unfolded cost_ok_def] TrueI]) (auto simp: add_cost_def cost_ok_def intro!: assms(2))

lemma wp_cached_answer:
  assumes "paid_ok N w"
  shows "wp (cached_answer N a now c) (\<lambda>_. paid_ok N) (\<lambda>_. paid_ok N) w"
  unfolding cached_answer_def wp_simps
  by (rule wp_spend) (use assms in \<open>auto simp: paid_ok_def wp_simps split: cached.split\<close>)

lemma wp_read_answer:
  assumes "cost_ok N (lb_costs w)" and "cache_ok N (lb_cache w)"
    and "\<forall>q \<in> set qs. readable N q \<longrightarrow> cache_get (kp_mem (lb_cache w)) (mq_key q) \<noteq> None"
    and "distinct (map mq_key (filter (readable N) qs))" and "cache_get (kp_mem (lb_cache w)) key = None"
    and "lb_asked w = qs @ [\<lparr> mq_key = key, mq_at = now, mq_answer = Inr r \<rparr>]"
  shows "wp (read_answer N a key p r cost) (\<lambda>_. paid_ok N) (\<lambda>_. paid_ok N) w"
proof -
  have new: "\<forall>q \<in> set qs. readable N q \<longrightarrow> mq_key q \<noteq> key" using assms(3,5) by auto
  have d: "distinct (map mq_key (filter (readable N) (lb_asked w)))" using assms(4,6) new by auto
  have put: "paid_ok N (w\<lparr>lb_cache := c\<rparr>)"
    if "cache_ok N c" "\<And>k. cache_get (kp_mem c) k = None \<Longrightarrow> k \<noteq> key \<and> cache_get (kp_mem (lb_cache w)) k = None" for c
    unfolding paid_ok_def
  proof (intro conjI ballI impI)
    fix q assume "q \<in> set (lb_asked (w\<lparr>lb_cache := c\<rparr>))" "readable N q"
    then have "mq_key q = key \<or> cache_get (kp_mem (lb_cache w)) (mq_key q) \<noteq> None" using assms(3,6) by auto
    with that(2) [of "mq_key q"] show "cache_get (kp_mem (lb_cache (w\<lparr>lb_cache := c\<rparr>))) (mq_key q) \<noteq> None"
      by (cases "cache_get (kp_mem c) (mq_key q)") auto
  qed (use assms(1) that(1) d in simp_all)
  show ?thesis
  proof (cases "parse_analysis_output (ne_loads N) (mr_raw_text r) (pm_index p) (an_view a)")
    case (Inr out)
    then show ?thesis unfolding read_answer_def
      by (auto simp: wp_simps on_cache_def cache_put_def
          intro!: wp_keep_calm [OF assms(2) [unfolded cache_ok_def]] put [unfolded cache_ok_def] split: if_splits)
  next
    case (Inl e)
    from parse_refuses [OF Inl] show ?thesis
    proof
      assume "e = AnalysisRefused \<and> is_ok (ne_loads N (mr_raw_text r))"
      with Inl show ?thesis unfolding read_answer_def
        by (auto simp: wp_simps on_cache_def cache_put_refusal_def
            intro!: wp_keep_calm [OF assms(2) [unfolded cache_ok_def]] put [unfolded cache_ok_def] split: if_splits)
    next
      assume e: "e = MalformedResponse \<and> \<not> is_ok (ne_loads N (mr_raw_text r))"
      then have "\<not> readable N \<lparr> mq_key = key, mq_at = now, mq_answer = Inr r \<rparr>" by (simp add: readable_def)
      with e Inl assms d show ?thesis unfolding read_answer_def by (auto simp: wp_simps paid_ok_def)
    qed
  qed
qed

lemma wp_ask_model:
  "wp (ask_model ask a now key p) Q E' w =
   (case ask (lb_model w) (pm_system p) (pm_user p) (an_max_output a) of
      (m, r) \<Rightarrow> (let w' = w\<lparr>lb_model := m, lb_asked := lb_asked w @ [\<lparr> mq_key = key, mq_at = now, mq_answer = r \<rparr>]\<rparr>
                 in case r of Inl e \<Rightarrow> E' e w' | Inr x \<Rightarrow> Q x w'))"
  by (simp add: wp_def ask_model_def Let_def split: prod.split sum.split)

lemma paid_ok_failed:
  assumes "paid_ok N w" and "lb_asked w' = lb_asked w @ [q]" and "\<not> readable N q"
    and "lb_costs w' = lb_costs w" and "lb_cache w' = lb_cache w"
  shows "paid_ok N w'"
  using assms by (auto simp: paid_ok_def)

lemma wp_paid_answer:
  assumes "paid_ok N w" and "cache_get (kp_mem (lb_cache w)) key = None"
  shows "wp (paid_answer N ask B a now key) (\<lambda>_. paid_ok N) (\<lambda>_. paid_ok N) w"
proof -
  have "wp (ask_model ask a now key p) (\<lambda>r. wp (bindW (spend N a now (mr_input_tokens r + mr_output_tokens r)
        (call_price a (mr_input_tokens r) (mr_output_tokens r)) False)
        (\<lambda>_. read_answer N a key p r (call_price a (mr_input_tokens r) (mr_output_tokens r))))
      (\<lambda>_. paid_ok N) (\<lambda>_. paid_ok N)) (\<lambda>_. paid_ok N) w" for p
  proof -
    obtain m r where r: "ask (lb_model w) (pm_system p) (pm_user p) (an_max_output a) = (m, r)" by fastforce
    let ?w = "w\<lparr>lb_model := m, lb_asked := lb_asked w @ [\<lparr> mq_key = key, mq_at = now, mq_answer = r \<rparr>]\<rparr>"
    show ?thesis
    proof (cases r)
      case (Inl e)
      then have "paid_ok N ?w" 
        by (intro paid_ok_failed [OF assms(1), where q = "\<lparr> mq_key = key, mq_at = now, mq_answer = r \<rparr>"])
           (simp_all add: readable_def)
      with Inl show ?thesis by (simp add: wp_ask_model r)
    next
      case (Inr x)
      have "wp (spend N a now u c False) (\<lambda>_. wp (read_answer N a key p x d) (\<lambda>_. paid_ok N) (\<lambda>_. paid_ok N))
          (\<lambda>_. paid_ok N) ?w" for u c d
        using assms by (intro wp_spend wp_read_answer [where qs = "lb_asked w" and now = now])
          (simp_all add: paid_ok_def Inr)
      then show ?thesis by (simp add: wp_ask_model r Inr wp_bind)
    qed
  qed
  with assms(1) show ?thesis unfolding paid_answer_def wp_simps Let_def
    by (auto simp: wp_simps split: sum.split)
qed

lemma run_analysis_paid:
  assumes "paid_ok N w"
  shows "wp (run_analysis N ask B a) (\<lambda>_. paid_ok N) (\<lambda>_. paid_ok N) w"
  using assms unfolding run_analysis_def
  by (auto simp: wp_simps Let_def intro!: wp_cached_answer wp_paid_answer split: datetime.split sum.split option.split)

lemma lab_run_paid:
  assumes "paid_ok N w" and "\<forall>e. encodes (ne_cost_row N) de_cost e"
    and "\<forall>r. r \<noteq> UnknownStatus \<longrightarrow> encodes (ne_cache_row N) de_cache r"
  shows "paid_ok N (lab_run N de_cost de_cache ask B ops w)"
  using assms(1)
proof (induction ops arbitrary: w)
  case (Cons op ops)
  have "paid_ok N (lab_step N de_cost de_cache ask B op w)"
  proof (cases op)
    case (Analyse a)
    have "keeps (paid_ok N) (run_analysis N ask B a)" using run_analysis_paid by (auto simp: keeps_def)
    from keepsD [OF this Cons.prems] Analyse show ?thesis by (simp add: lab_step_def)
  next
    case Reopen
    have "reopen de_cost de_cache w = w"
      using Cons.prems by (intro reopen_same [OF _ _ assms(2,3)]) (simp_all add: paid_ok_def)
    with Reopen Cons.prems show ?thesis by (simp add: lab_step_def)
  qed
  then show ?case using Cons.IH by simp
qed simp

subsection \<open>The hard stop\<close>

text \<open>A month stands below the hard stop, or one answer took it from below to where it stands.\<close>

definition passed_by_one :: "budget \<Rightarrow> cost_entry list \<Rightarrow> bool" where
  "passed_by_one B es \<longleftrightarrow> (\<forall>on. month_to_date es on < bu_hard_stop_at B
     \<or> (\<exists>e \<in> set es. \<exists>x < bu_hard_stop_at B. month_to_date es on = fl (x + ce_cost e)))"

text \<open>No answer is longer than what the question was priced at.\<close>

definition modest :: "'m client \<Rightarrow> bool" where
  "modest ask \<longleftrightarrow> (\<forall>m s u k. case snd (ask m s u k) of Inl _ \<Rightarrow> True
     | Inr r \<Rightarrow> mr_input_tokens r \<le> int ((length s + length u) div CHARS_PER_TOKEN_ESTIMATE) \<and> mr_output_tokens r \<le> k)"

definition priced :: "analysis_args \<Rightarrow> bool" where
  "priced a \<longleftrightarrow> 0 \<le> an_input_price a \<and> 0 \<le> an_output_price a \<and> 0 \<le> an_max_output a"

lemma price_mono:
  assumes "priced a" and "i \<le> i'" and "j \<le> j'"
  shows "call_price a i j \<le> call_price a i' j'"
  unfolding call_price_def
  by (intro flt.rnd_mono add_mono mult_right_mono) (use assms in \<open>simp_all add: priced_def divide_right_mono\<close>)

lemma price_nonneg: "priced a \<Longrightarrow> 0 \<le> i \<Longrightarrow> 0 \<le> j \<Longrightarrow> 0 \<le> call_price a i j"
  unfolding call_price_def by (intro flt.rnd_nonneg add_nonneg_nonneg mult_nonneg_nonneg) (simp_all add: priced_def)

lemma by_one_free: "passed_by_one B es \<Longrightarrow> ce_cost e = 0 \<Longrightarrow> passed_by_one B (es @ [e])"
  unfolding passed_by_one_def by (auto simp: month_to_date_free)

lemma by_one_paid:
  assumes "passed_by_one B es" and "0 \<le> estimated" and "\<not> would_exceed_hard_stop B es estimated (utc_date (ce_at e))"
  shows "passed_by_one B (es @ [e])"
  unfolding passed_by_one_def
proof
  fix on
  have "month_to_date es (utc_date (ce_at e)) \<le> fl (month_to_date es (utc_date (ce_at e)) + estimated)"
    using assms(2) by (intro flt.rnd_ge_fixed month_to_date_fl) simp
  with assms(3) have below: "month_to_date es (utc_date (ce_at e)) < bu_hard_stop_at B"
    by (simp add: would_exceed_hard_stop_def)
  show "month_to_date (es @ [e]) on < bu_hard_stop_at B
      \<or> (\<exists>d \<in> set (es @ [e]). \<exists>x < bu_hard_stop_at B. month_to_date (es @ [e]) on = fl (x + ce_cost d))"
  proof (cases "in_month on e")
    case True
    then have "month_to_date es on = month_to_date es (utc_date (ce_at e))"
      by (intro month_to_date_same) (simp_all add: in_month_def)
    with True below show ?thesis by (auto simp: month_to_date_add)
  qed (use assms(1) in \<open>auto simp: month_to_date_add passed_by_one_def\<close>)
qed

text \<open>What an analysis does to the cost ledger: nothing, a free entry, or a paid one that the hard stop let through.\<close>

definition charged :: "budget \<Rightarrow> bool \<Rightarrow> cost_entry list \<Rightarrow> cost_entry list \<Rightarrow> bool" where
  "charged B md es es' \<longleftrightarrow> es' = es
     \<or> (\<exists>e. es' = es @ [e] \<and> (ce_cost e = 0 \<or> (\<exists>estimated. 0 \<le> estimated
          \<and> \<not> would_exceed_hard_stop B es estimated (utc_date (ce_at e)) \<and> (md \<longrightarrow> ce_cost e \<le> estimated))))"

lemma wp_charge:
  assumes "\<And>c. kp_mem c = kp_mem (lb_costs w) @ [\<lparr> ce_provider = PROVIDER, ce_operation = OPERATION,
           ce_units = units, ce_cost = cost, ce_at = now, ce_run_id = an_run_id a, ce_cache_hit = hit \<rparr>]
         \<Longrightarrow> Q () (w\<lparr>lb_costs := c\<rparr>) \<and> E' OSError (w\<lparr>lb_costs := c\<rparr>)"
  shows "wp (spend N a now units cost hit) Q E' w"
  unfolding spend_def record_cost_def wp_simps
  by (rule wp_keep_row) (simp_all add: add_cost_def assms)

lemma keeps_on_cache: "keeps (\<lambda>w. P (lb_costs w)) (on_cache m)"
  by (simp add: keeps_iff on_cache_def on_part_def split: prod.split)

lemma keeps_read_answer: "keeps (\<lambda>w. P (lb_costs w)) (read_answer N a key p r cost)"
  unfolding read_answer_def by (auto intro!: keeps_bind keeps_on_cache keeps_ret keeps_raise split: sum.split)

lemma run_analysis_charged:
  fixes w :: "'m lab"
  assumes "priced a"
  shows "wp (run_analysis N ask B a)
    (\<lambda>_ w'. charged B (modest ask) (kp_mem (lb_costs w)) (kp_mem (lb_costs w')))
    (\<lambda>_ w'. charged B (modest ask) (kp_mem (lb_costs w)) (kp_mem (lb_costs w'))) w"
proof -
  let ?Q = "\<lambda>w'. charged B (modest ask) (kp_mem (lb_costs w)) (kp_mem (lb_costs w'))"
  have free: "wp (cached_answer N a now c) (\<lambda>_. ?Q) (\<lambda>_. ?Q) w" for now c
    unfolding cached_answer_def wp_simps
    by (rule wp_charge) (auto simp: charged_def wp_simps split: cached.split)
  have asked: "wp (ask_model ask a now key p) (\<lambda>r. wp (bindW (spend N a now (mr_input_tokens r + mr_output_tokens r)
        (call_price a (mr_input_tokens r) (mr_output_tokens r)) False)
        (\<lambda>_. read_answer N a key p r (call_price a (mr_input_tokens r) (mr_output_tokens r))))
      (\<lambda>_. ?Q) (\<lambda>_. ?Q)) (\<lambda>_. ?Q) w"
    if room: "\<not> would_exceed_hard_stop B (kp_mem (lb_costs w)) (call_price a (estimate_input_tokens p) (an_max_output a)) (utc_date now)"
    for p now key
  proof -
    obtain m r where r: "ask (lb_model w) (pm_system p) (pm_user p) (an_max_output a) = (m, r)" by fastforce
    show ?thesis
    proof (cases r)
      case (Inl e)
      then show ?thesis by (simp add: wp_ask_model r charged_def)
    next
      case (Inr x)
      have est: "0 \<le> call_price a (estimate_input_tokens p) (an_max_output a)"
        using assms by (intro price_nonneg) (simp_all add: estimate_input_tokens_def priced_def)
      have le: "call_price a (mr_input_tokens x) (mr_output_tokens x) \<le> call_price a (estimate_input_tokens p) (an_max_output a)"
        if "modest ask"
      proof (rule price_mono [OF assms])
        from that have "case snd (ask (lb_model w) (pm_system p) (pm_user p) (an_max_output a)) of Inl _ \<Rightarrow> True
          | Inr r \<Rightarrow> mr_input_tokens r \<le> int ((length (pm_system p) + length (pm_user p)) div CHARS_PER_TOKEN_ESTIMATE)
              \<and> mr_output_tokens r \<le> an_max_output a" unfolding modest_def by blast
        then show "mr_input_tokens x \<le> estimate_input_tokens p" "mr_output_tokens x \<le> an_max_output a"
          by (simp_all add: r Inr estimate_input_tokens_def)
      qed
      have "keeps ?Q (read_answer N a key p x d)" for d by (rule keeps_read_answer)
      then have "wp (read_answer N a key p x d) (\<lambda>_. ?Q) (\<lambda>_. ?Q) w'" if "?Q w'" for w' d
        using that unfolding keeps_def by blast
      note reads = this
      have paid: "charged B (modest ask) es (es @ [e])"
        if "es = kp_mem (lb_costs w)" "ce_at e = now" "ce_cost e = call_price a (mr_input_tokens x) (mr_output_tokens x)" for es e
        unfolding charged_def
        by (intro disjI2 exI [of _ e] conjI refl exI [of _ "call_price a (estimate_input_tokens p) (an_max_output a)"] impI)
           (use est le that room in simp_all)
      let ?w = "w\<lparr>lb_model := m, lb_asked := lb_asked w @ [\<lparr> mq_key = key, mq_at = now, mq_answer = r \<rparr>]\<rparr>"
      let ?c = "call_price a (mr_input_tokens x) (mr_output_tokens x)"
      have "wp (spend N a now u ?c False) (\<lambda>_. wp (read_answer N a key p x ?c) (\<lambda>_. ?Q) (\<lambda>_. ?Q)) (\<lambda>_. ?Q) ?w" for u
      proof (rule wp_charge)
        fix c :: cost_ledger assume "kp_mem c = kp_mem (lb_costs ?w) @ [\<lparr> ce_provider = PROVIDER, ce_operation = OPERATION,
           ce_units = u, ce_cost = ?c, ce_at = now, ce_run_id = an_run_id a, ce_cache_hit = False \<rparr>]"
        then have "?Q (?w\<lparr>lb_costs := c\<rparr>)" using paid [OF refl] by simp
        with reads show "wp (read_answer N a key p x ?c) (\<lambda>_. ?Q) (\<lambda>_. ?Q) (?w\<lparr>lb_costs := c\<rparr>) \<and> ?Q (?w\<lparr>lb_costs := c\<rparr>)" by blast
      qed
      then show ?thesis by (simp add: wp_ask_model r Inr wp_bind)
    qed
  qed
  show ?thesis
    unfolding run_analysis_def paid_answer_def
    by (auto simp: wp_simps Let_def free charged_def [of B "modest ask" "kp_mem (lb_costs w)" "kp_mem (lb_costs w)"]
        intro!: asked [unfolded wp_bind] split: datetime.split sum.split option.split)
qed


text \<open>
C19: A document is paid for once: in any sequence of analyses and restarts, for every cache key (document, prompt, model, schema and
  validator version) the model is asked at most once with an answer that is JSON, whether the answer was then accepted or
  refused. The disk is calm and the row codecs read back what they write.
\<close>
theorem document_paid_once:
  assumes "paid_ok N w" and "\<forall>e. encodes (ne_cost_row N) de_cost e"
    and "\<forall>r. r \<noteq> UnknownStatus \<longrightarrow> encodes (ne_cache_row N) de_cache r"
  shows "distinct (map mq_key (filter (readable N) (lb_asked (lab_run N de_cost de_cache ask B ops w))))"
  using lab_run_paid [OF assms] by (simp add: paid_ok_def)

subsection \<open>A refusal, asked for twice\<close>

definition cost_code :: "cost_entry \<Rightarrow> string \<times> string \<times> int \<times> rat \<times> int \<times> string option \<times> bool" where
  "cost_code e = (ce_provider e, ce_operation e, ce_units e, ce_cost e, ce_at e, ce_run_id e, ce_cache_hit e)"

definition claims_code :: "claim list \<Rightarrow> (string \<times> string list) list" where
  "claims_code cs = map (\<lambda>c. (cm_text c, cm_citations c)) cs"

definition key_code :: "cache_key \<Rightarrow> string option \<times> string \<times> string \<times> string \<times> string" where
  "key_code k = (ck_doc_sha256 k, ck_prompt_version k, ck_model_id k, ck_schema_version k, ck_validator_version k)"

definition entry_code :: "extraction_row \<Rightarrow> ((string option \<times> string \<times> string \<times> string \<times> string) \<times> int \<times>
    ((((string \<times> string list) list \<times> (string \<times> string list) list \<times> (string \<times> string list) list \<times> rat)
      + (string \<times> int \<times> int \<times> rat)))) option" where
  "entry_code row = (case row of
     AcceptedRow k out t \<Rightarrow> Some (key_code k, t, Inl (claims_code (ao_bull_case out), claims_code (ao_bear_case out),
        claims_code (ao_contradicting out), ao_confidence out))
   | RefusedRow k r t \<Rightarrow> Some (key_code k, t, Inr (cx_message r, cx_tokens_in r, cx_tokens_out r, cx_cost r))
   | UnknownStatus \<Rightarrow> None)"

lemma codes_inj: "inj cost_code" "inj entry_code"
proof -
  have "inj claims_code"
    unfolding claims_code_def [abs_def] by (rule inj_mapI) (auto intro!: injI)
  then have c: "claims_code x = claims_code y \<longleftrightarrow> x = y" for x y by (simp add: inj_eq)
  show "inj cost_code" by (auto intro!: injI simp: cost_code_def)
  show "inj entry_code"
    by (auto intro!: injI simp: entry_code_def key_code_def c split: extraction_row.splits)
qed

lemma ex_codecs:
  "\<exists>enc de. \<forall>e :: cost_entry. encodes enc de e" "\<exists>enc de. \<forall>r :: extraction_row. encodes enc de r"
  by (rule codec_exists, rule codes_inj)+

definition ex_doc :: "evidence fact" where
  "ex_doc = ex_filing\<lparr>fa_value := DocumentFact \<lparr> fd_cik = [], fd_accession = [], fd_primary_document = [], fd_text = ''Years'',
     fd_byte_length = 5, fd_truncated = False \<rparr>\<rparr>"

definition ex_lab_env :: "(cost_entry \<Rightarrow> string) \<Rightarrow> (extraction_row \<Rightarrow> string) \<Rightarrow> analysis_env" where
  "ex_lab_env enc_cost enc_cache = \<lparr> ne_cost_row = enc_cost, ne_cache_row = enc_cache, ne_loads = (\<lambda>_. Inr JNull),
     ne_fact_id = (\<lambda>_. ''0123456789abcdef''), ne_repr = (\<lambda>_. []), ne_iso = (\<lambda>_. []), ne_instructions = (\<lambda>_ _ _. []),
     ne_extract = (\<lambda>s. s) \<rparr>"

definition ex_analysis :: analysis_args where
  "ex_analysis = \<lparr> an_facts = [ex_doc], an_as_of = Aware 20, an_now = Aware 20, an_view = ex_view, an_model_id = ''m'',
     an_input_price = 0, an_output_price = 1, an_max_output = 2000000, an_prompt_version = ''p'', an_schema_version = ''s'',
     an_validator_version = ''v'', an_run_id = None, an_tokens = [''token''], an_clock = 20, an_refusal_text = ''no'' \<rparr>"

definition ex_lab :: "unit lab" where
  "ex_lab = (let fresh = \<lparr> jn_file = None, jn_disk = [] \<rparr>
     in \<lparr> lb_costs = \<lparr> kp_mem = [], kp_journal = fresh \<rparr>, lb_cache = \<lparr> kp_mem = [], kp_journal = fresh \<rparr>,
          lb_model = (), lb_asked = [] \<rparr>)"

definition ex_ask :: "unit client" where
  "ex_ask m s u k = (m, Inr \<lparr> mr_raw_text = [], mr_input_tokens = 0, mr_output_tokens = 1000000 \<rparr>)"

definition ex_budget :: budget where
  "ex_budget = \<lparr> bu_monthly = 3, bu_warning_at = 2, bu_hard_stop_at = 3 \<rparr>"

definition ex_key :: cache_key where
  "ex_key = \<lparr> ck_doc_sha256 = Some ''sha'', ck_prompt_version = ''p'', ck_model_id = ''m'', ck_schema_version = ''s'',
     ck_validator_version = ''v'' \<rparr>"

definition ex_entry :: "int \<Rightarrow> pyfloat \<Rightarrow> bool \<Rightarrow> cost_entry" where
  "ex_entry units cost hit = \<lparr> ce_provider = PROVIDER, ce_operation = OPERATION, ce_units = units, ce_cost = cost, ce_at = 20,
     ce_run_id = None, ce_cache_hit = hit \<rparr>"

definition ex_refused :: cached_refusal where
  "ex_refused = \<lparr> cx_message = ''no'', cx_tokens_in = 0, cx_tokens_out = 1000000, cx_cost = 1 \<rparr>"

lemma kept_ok_fresh: "kept_ok enc add m0 ok \<lparr> kp_mem = m0, kp_journal = \<lparr> jn_file = None, jn_disk = [] \<rparr> \<rparr>"
  unfolding kept_ok_def by (rule exI [of _ "[]"]) (simp add: holds_rows_def journal_text_def rows_text_def)

lemma ex_lab_start: "paid_ok (ex_lab_env enc_cost enc_cache) ex_lab" "within_budget ex_budget ex_lab"
proof -
  show "paid_ok (ex_lab_env enc_cost enc_cache) ex_lab"
    by (simp add: paid_ok_def cost_ok_def cache_ok_def ex_lab_def Let_def kept_ok_fresh)
  show "within_budget ex_budget ex_lab"
    by (simp add: within_budget_def ex_lab_def Let_def month_to_date_def ex_budget_def)
qed

lemma ex_prompt: "\<exists>p. build_analysis_prompt (ex_lab_env enc_cost enc_cache) [''token''] [ex_doc] (Aware 20) ''p'' ''s'' = Inr p"
  by (simp add: build_analysis_prompt_def new_boundary_def add_fact_def render_fact_def ex_doc_def ex_filing_def
      ex_lab_env_def Let_def bindE_def FIELD_DOCUMENT_def)

lemma ex_fits: "\<not> would_exceed_hard_stop ex_budget [] (call_price ex_analysis n 2000000) d"
  by (simp add: would_exceed_hard_stop_def call_price_def ex_analysis_def month_to_date_def ex_budget_def num_simps)

lemma ex_first:
  "\<exists>j j'. jn_disk j = [] \<and> jn_disk j' = [] \<and> fst (run_analysis (ex_lab_env enc_cost enc_cache) ex_ask ex_budget ex_analysis ex_lab)
   = \<lparr> lb_costs = \<lparr> kp_mem = [ex_entry 1000000 1 False], kp_journal = j \<rparr>,
       lb_cache = \<lparr> kp_mem = [(ex_key, Refused ex_refused)], kp_journal = j' \<rparr>, lb_model = (),
       lb_asked = [\<lparr> mq_key = ex_key, mq_at = 20, mq_answer = Inr \<lparr> mr_raw_text = [], mr_input_tokens = 0, mr_output_tokens = 1000000 \<rparr> \<rparr>] \<rparr>"
proof -
  let ?N = "ex_lab_env enc_cost enc_cache"
  have doc: "single_document_fact [ex_doc] = Inr ex_doc" by (simp add: single_document_fact_def ex_doc_def ex_filing_def)
  have key: "cache_key_of ex_analysis ex_doc = ex_key" by (simp add: cache_key_of_def ex_analysis_def ex_key_def ex_doc_def ex_filing_def)
  have refused: "parse_analysis_output (ne_loads ?N) raw index view = Inl AnalysisRefused" for raw index view
    by (simp add: parse_analysis_output_def ex_lab_env_def)
  have price: "call_price ex_analysis 0 1000000 = 1"
    by (simp add: call_price_def ex_analysis_def num_simps)
  obtain p where p: "build_analysis_prompt ?N [''token''] [ex_doc] (Aware 20) ''p'' ''s'' = Inr p" using ex_prompt by blast
  have a [simp]: "an_facts ex_analysis = [ex_doc]" "an_as_of ex_analysis = Aware 20" "an_now ex_analysis = Aware 20"
    "an_max_output ex_analysis = 2000000" "an_prompt_version ex_analysis = ''p''" "an_schema_version ex_analysis = ''s''"
    "an_tokens ex_analysis = [''token'']" "an_run_id ex_analysis = None" "an_clock ex_analysis = 20" "an_refusal_text ex_analysis = ''no''"
    by (simp_all add: ex_analysis_def)
  show ?thesis
    by (simp add: run_analysis_def doc key p refused price cache_get_def ex_lab_def Let_def paid_answer_def ex_fits
        ask_model_def ex_ask_def spend_def record_cost_def on_part_def keep_row_calm read_answer_def on_cache_def cache_put_refusal_def
        add_cost_def cache_add_def ex_entry_def ex_refused_def bindW_def liftW_def getW_def raiseW_def)
qed

lemma ex_second:
  assumes "jn_disk j = []"
  shows "\<exists>c. kp_mem c = [ex_entry 1000000 1 False, ex_entry 0 0 True] \<and>
    fst (run_analysis N ex_ask ex_budget ex_analysis
     \<lparr> lb_costs = \<lparr> kp_mem = [ex_entry 1000000 1 False], kp_journal = j \<rparr>,
       lb_cache = \<lparr> kp_mem = [(ex_key, Refused ex_refused)], kp_journal = j' \<rparr>, lb_model = (), lb_asked = qs \<rparr>)
    = \<lparr> lb_costs = c, lb_cache = \<lparr> kp_mem = [(ex_key, Refused ex_refused)], kp_journal = j' \<rparr>, lb_model = (), lb_asked = qs \<rparr>"
proof -
  have doc: "single_document_fact [ex_doc] = Inr ex_doc" by (simp add: single_document_fact_def ex_doc_def ex_filing_def)
  have key: "cache_key_of ex_analysis ex_doc = ex_key" by (simp add: cache_key_of_def ex_analysis_def ex_key_def ex_doc_def ex_filing_def)
  have a [simp]: "an_facts ex_analysis = [ex_doc]" "an_as_of ex_analysis = Aware 20" "an_now ex_analysis = Aware 20"
    "an_run_id ex_analysis = None"
    by (simp_all add: ex_analysis_def)
  show ?thesis using assms
    by (simp add: run_analysis_def doc key cache_get_def Let_def cached_answer_def spend_def record_cost_def on_part_def keep_row_calm
        add_cost_def ex_entry_def bindW_def liftW_def getW_def raiseW_def)
qed

lemma ex_paid_once:
  "\<exists>w. lab_run (ex_lab_env enc_cost enc_cache) de_cost de_cache ex_ask ex_budget [Analyse ex_analysis, Analyse ex_analysis] ex_lab = w
     \<and> lb_asked w = [\<lparr> mq_key = ex_key, mq_at = 20, mq_answer = Inr \<lparr> mr_raw_text = [], mr_input_tokens = 0, mr_output_tokens = 1000000 \<rparr> \<rparr>]
     \<and> kp_mem (lb_costs w) = [ex_entry 1000000 1 False, ex_entry 0 0 True]"
proof -
  obtain j j' where "jn_disk j = []" and
    f: "fst (run_analysis (ex_lab_env enc_cost enc_cache) ex_ask ex_budget ex_analysis ex_lab)
    = \<lparr> lb_costs = \<lparr> kp_mem = [ex_entry 1000000 1 False], kp_journal = j \<rparr>,
       lb_cache = \<lparr> kp_mem = [(ex_key, Refused ex_refused)], kp_journal = j' \<rparr>, lb_model = (),
       lb_asked = [\<lparr> mq_key = ex_key, mq_at = 20, mq_answer = Inr \<lparr> mr_raw_text = [], mr_input_tokens = 0, mr_output_tokens = 1000000 \<rparr> \<rparr>] \<rparr>"
    using ex_first by blast
  from ex_second [OF this(1), of "ex_lab_env enc_cost enc_cache" j'
      "[\<lparr> mq_key = ex_key, mq_at = 20, mq_answer = Inr \<lparr> mr_raw_text = [], mr_input_tokens = 0, mr_output_tokens = 1000000 \<rparr> \<rparr>]"]
  show ?thesis by (auto simp: lab_step_def f)
qed


theorem document_paid_once_witness:
  "\<exists>enc_cost enc_cache de_cost de_cache qs.
     lb_asked (lab_run (ex_lab_env enc_cost enc_cache) de_cost de_cache ex_ask ex_budget [Analyse ex_analysis, Analyse ex_analysis] ex_lab) = qs
     \<and> length qs = 1 \<and> filter (readable (ex_lab_env enc_cost enc_cache)) qs = qs
     \<and> distinct (map mq_key (filter (readable (ex_lab_env enc_cost enc_cache)) qs))"
proof -
  obtain ec dc ek dk where e: "\<forall>e :: cost_entry. encodes ec dc e" "\<forall>r :: extraction_row. encodes ek dk r" using ex_codecs by blast
  have "distinct (map mq_key (filter (readable (ex_lab_env ec ek))
      (lb_asked (lab_run (ex_lab_env ec ek) dc dk ex_ask ex_budget [Analyse ex_analysis, Analyse ex_analysis] ex_lab))))"
    by (rule document_paid_once [OF ex_lab_start(1)]) (use e in \<open>simp_all add: ex_lab_env_def\<close>)
  moreover obtain w where "lab_run (ex_lab_env ec ek) dc dk ex_ask ex_budget [Analyse ex_analysis, Analyse ex_analysis] ex_lab = w"
    "lb_asked w = [\<lparr> mq_key = ex_key, mq_at = 20, mq_answer = Inr \<lparr> mr_raw_text = [], mr_input_tokens = 0, mr_output_tokens = 1000000 \<rparr> \<rparr>]"
    using ex_paid_once by blast
  moreover have "readable (ex_lab_env ec ek) \<lparr> mq_key = k, mq_at = t, mq_answer = Inr r \<rparr>" for k t r
    by (simp add: readable_def ex_lab_env_def is_ok_def)
  ultimately show ?thesis by (intro exI [of _ ec] exI [of _ ek] exI [of _ dc] exI [of _ dk]) simp
qed

end
