(* ===== verification/Opportunity.thy ===== *)
theory Opportunity
  imports Cost
begin

text \<open>
  The two records the research stage keeps of the candidates it has scored: agent/opportunity\_event\_store.py keeps every event,
  the first evaluation of an id only; agent/opportunity\_event\_tracker.py remembers which events are done with, for good or until an
  instant. OpportunityEvent of agent/entities.py. A number may be not finite here, because the event store is what
  refuses such numbers. An instant and its ISO text are the same.
\<close>

subsection \<open>Events\<close>

datatype number = Fin pyfloat | NonFinite

datatype component =
  CNone | CBool bool | CNum number | CText string | CTexts "string list" | CMap "(string \<times> component) list"

record opportunity_event =
  oe_event_id :: string
  oe_type :: string
  oe_source_id :: string
  oe_observed_at :: instant
  oe_effective_at :: instant
  oe_symbols :: "string list"
  oe_score :: number
  oe_components :: "component dict"
  oe_threshold_version :: string
  oe_status :: string
  oe_suppressed :: "string option"

subsection \<open>The event store\<close>

record event_memory =
  em_events :: "opportunity_event dict"
  em_evaluated_at :: "instant dict"
  em_order :: "string list"

type_synonym event_row = "opportunity_event \<times> instant"
type_synonym event_store = "event_memory kept"

definition non_finite :: "component \<Rightarrow> bool" where
  "non_finite c = (case c of CNum NonFinite \<Rightarrow> True | _ \<Rightarrow> False)"

definition reject_non_finite :: "opportunity_event \<Rightarrow> unit result" where
  "reject_non_finite e =
     bindE (guardE (oe_score e \<noteq> NonFinite) OpportunityEventStoreError) (\<lambda>_.
     guardE (list_all (\<lambda>(_, c). \<not> non_finite c) (oe_components e)) OpportunityEventStoreError)"

definition no_events :: event_memory where
  "no_events = \<lparr> em_events = [], em_evaluated_at = [], em_order = [] \<rparr>"

definition add_event :: "event_memory \<Rightarrow> event_row \<Rightarrow> event_memory" where
  "add_event m = (\<lambda>(e, t). m\<lparr>em_events := AList.update (oe_event_id e) e (em_events m),
     em_evaluated_at := AList.update (oe_event_id e) t (em_evaluated_at m), em_order := em_order m @ [oe_event_id e]\<rparr>)"

definition record_event :: "(event_row \<Rightarrow> string) \<Rightarrow> opportunity_event \<Rightarrow> instant \<Rightarrow> (event_store, bool) action" where
  "record_event enc e t =
     bindW (liftW (reject_non_finite e)) (\<lambda>_.
     bindW (getW (\<lambda>s. map_of (em_events (kp_mem s)) (oe_event_id e))) (\<lambda>known.
     if known \<noteq> None then retW False
     else bindW (keep_row enc add_event (e, t)) (\<lambda>_. retW True)))"

definition replay_event :: "event_memory \<Rightarrow> event_row \<Rightarrow> event_memory result" where
  "replay_event m = (\<lambda>(e, t).
     bindE (reject_non_finite e) (\<lambda>_.
     Inr (if map_of (em_events m) (oe_event_id e) \<noteq> None then m else add_event m (e, t))))"

definition events_load :: "(string \<Rightarrow> event_row result) \<Rightarrow> string option \<Rightarrow> event_store result" where
  "events_load de file = kept_load de replay_event no_events file"

definition events_forbidden :: "event_store \<Rightarrow> event_store result" where
  "events_forbidden s = Inl OpportunityEventStoreError"

definition all_events :: "event_memory \<Rightarrow> opportunity_event list" where
  "all_events m = map (\<lambda>k. the (map_of (em_events m) k)) (em_order m)"

definition event_get :: "event_memory \<Rightarrow> string \<Rightarrow> opportunity_event option" where
  "event_get m k = map_of (em_events m) k"

definition events_by_status :: "event_memory \<Rightarrow> string \<Rightarrow> opportunity_event list" where
  "events_by_status m status = filter (\<lambda>e. oe_status e = status) (all_events m)"

subsection \<open>The tracker\<close>

record handled_record =
  hr_event_id :: string
  hr_outcome :: string
  hr_handled_at :: instant
  hr_eligible_again_at :: "instant option"

record tracker_memory =
  tm_records :: "handled_record list"
  tm_latest :: "handled_record dict"

type_synonym event_tracker = "tracker_memory kept"

definition no_handled :: tracker_memory where
  "no_handled = \<lparr> tm_records = [], tm_latest = [] \<rparr>"

definition add_handled :: "tracker_memory \<Rightarrow> handled_record \<Rightarrow> tracker_memory" where
  "add_handled m r = m\<lparr>tm_records := tm_records m @ [r], tm_latest := AList.update (hr_event_id r) r (tm_latest m)\<rparr>"

definition mark_handled ::
  "(handled_record \<Rightarrow> string) \<Rightarrow> string \<Rightarrow> string \<Rightarrow> instant \<Rightarrow> instant option \<Rightarrow> (event_tracker, unit) action" where
  "mark_handled enc k outcome now eligible =
     keep_row enc add_handled
       \<lparr> hr_event_id = k, hr_outcome = outcome, hr_handled_at = now, hr_eligible_again_at = eligible \<rparr>"

definition tracker_load :: "(string \<Rightarrow> handled_record result) \<Rightarrow> string option \<Rightarrow> event_tracker result" where
  "tracker_load de file = kept_load de (\<lambda>m r. Inr (add_handled m r)) no_handled file"

definition tracker_forbidden :: "event_tracker \<Rightarrow> event_tracker result" where
  "tracker_forbidden s = Inl OpportunityEventTrackerError"

definition is_handled :: "tracker_memory \<Rightarrow> string \<Rightarrow> instant \<Rightarrow> bool" where
  "is_handled m k now =
     (case map_of (tm_latest m) k of
        None \<Rightarrow> False
      | Some r \<Rightarrow> (case hr_eligible_again_at r of None \<Rightarrow> True | Some t \<Rightarrow> now < t))"

lemma is_handled_add:
  "is_handled (add_handled m r) k now =
     (if k = hr_event_id r then (case hr_eligible_again_at r of None \<Rightarrow> True | Some t \<Rightarrow> now < t) else is_handled m k now)"
  by (simp add: is_handled_def add_handled_def)

subsection \<open>The event store keeps its order and survives a restart\<close>

definition events_ok :: "event_memory \<Rightarrow> bool" where
  "events_ok m \<longleftrightarrow> em_order m = map fst (em_events m) \<and> map fst (em_evaluated_at m) = em_order m \<and> dict_ok (em_events m)
     \<and> (\<forall>(k, e) \<in> set (em_events m). k = oe_event_id e \<and> reject_non_finite e = Inr ())"

lemma add_event_ok:
  assumes "events_ok m" and "map_of (em_events m) (oe_event_id e) = None" and "reject_non_finite e = Inr ()"
  shows "events_ok (add_event m (e, t))"
proof -
  have n: "oe_event_id e \<notin> fst ` set (em_events m)" using assms(2) by (simp add: map_of_eq_None_iff)
  have "map fst (em_evaluated_at m) = map fst (em_events m)" using assms(1) by (simp add: events_ok_def)
  then have "map_of (em_evaluated_at m) (oe_event_id e) = None"
    using n by (simp add: map_of_eq_None_iff) (metis image_set)
  with assms n show ?thesis by (auto simp: events_ok_def add_event_def update_absent dict_ok_def)
qed

lemma record_event_cases:
  "reject_non_finite e = Inl x \<Longrightarrow> record_event enc e t s = (s, Inl x)"
  "reject_non_finite e = Inr () \<Longrightarrow> map_of (em_events (kp_mem s)) (oe_event_id e) \<noteq> None \<Longrightarrow>
   record_event enc e t s = (s, Inr False)"
  by (simp_all add: record_event_def bindW_def liftW_def getW_def retW_def)

lemma wp_record_event:
  assumes "\<And>x. reject_non_finite e = Inl x \<Longrightarrow> E' x s"
    and "\<And>e'. reject_non_finite e = Inr () \<Longrightarrow> map_of (em_events (kp_mem s)) (oe_event_id e) = Some e' \<Longrightarrow> Q False s"
    and "\<And>j. reject_non_finite e = Inr () \<Longrightarrow> map_of (em_events (kp_mem s)) (oe_event_id e) = None \<Longrightarrow>
           Q True \<lparr> kp_mem = add_event (kp_mem s) (e, t), kp_journal = j \<rparr>"
    and "\<And>j. reject_non_finite e = Inr () \<Longrightarrow> map_of (em_events (kp_mem s)) (oe_event_id e) = None \<Longrightarrow>
           E' OSError \<lparr> kp_mem = add_event (kp_mem s) (e, t), kp_journal = j \<rparr>"
  shows "wp (record_event enc e t) Q E' s"
proof (cases "reject_non_finite e")
  case (Inl x)
  then show ?thesis using assms(1) by (simp add: record_event_def wp_simps)
next
  case (Inr u)
  then show ?thesis using assms(2-4) unfolding record_event_def
    by (cases "map_of (em_events (kp_mem s)) (oe_event_id e)")
       (auto simp: wp_simps intro!: wp_keep_row)
qed

end
