(* ===== verification/Materiality.thy ===== *)
theory Materiality
  imports Opportunity AnalysisOutput Policy
begin

text \<open>
  agent/materiality.py: the screen between the collected data and a paid analysis. A candidate's score is a sum of six weighted terms;
  the event it becomes is pending, suppressed or not material by the score and four gates. A number that is not finite or
  not known under a weight that is not zero is refused, never guessed. The natural logarithm of a float is the parameter
  \<open>plog\<close>; a message ends where the source inserts the first value.
\<close>

subsection \<open>Policy and candidate\<close>

record materiality_policy =
  my_version :: string
  my_w1 :: pyfloat
  my_w2 :: pyfloat
  my_w3 :: pyfloat
  my_w4 :: pyfloat
  my_w5 :: pyfloat
  my_w6 :: pyfloat
  my_threshold :: pyfloat
  my_filing_weights :: "pyfloat dict"

record candidate =
  mc_symbol :: string
  mc_asset_class :: string
  mc_ret :: number
  mc_atr :: number
  mc_volume :: number
  mc_median :: number
  mc_sector_ret :: "number option"
  mc_earnings :: "number option"
  mc_form :: "string option"
  mc_items :: "string list"

definition VOLUME_RATIO_FLOOR :: pyfloat where "VOLUME_RATIO_FLOOR = fl (1 / 1000000)"

definition MATERIAL_8K_ITEMS :: "string list" where
  "MATERIAL_8K_ITEMS = [''1.01'', ''2.02'', ''4.02'', ''5.02'', ''7.01'']"

definition WEIGHTED_FORMS :: "string list" where "WEIGHTED_FORMS = [''10-K'', ''10-Q'']"

definition DEFAULT_FILING_WEIGHTS :: "pyfloat dict" where
  "DEFAULT_FILING_WEIGHTS = map (\<lambda>i. (''8-K:'' @ i, 1)) MATERIAL_8K_ITEMS @ map (\<lambda>f. (f, 1)) WEIGHTED_FORMS"

definition filing_weight :: "string option \<Rightarrow> string list \<Rightarrow> pyfloat dict \<Rightarrow> pyfloat" where
  "filing_weight form items weights =
     (case form of
        None \<Rightarrow> 0
      | Some f \<Rightarrow>
          if f = [] then 0
          else if upper f = ''8-K'' then
            (let ws = map (\<lambda>i. dict_get weights (''8-K:'' @ i) 0) items
             in case ws of [] \<Rightarrow> 0 | w # ws' \<Rightarrow> foldl max w ws')
          else dict_get weights (upper f) 0)"

subsection \<open>The score\<close>

definition refuse :: "candidate \<Rightarrow> string \<Rightarrow> exn" where
  "refuse c why = MaterialityInputError (mc_symbol c @ '': '' @ why)"

definition need_finite :: "candidate \<Rightarrow> string \<Rightarrow> number \<Rightarrow> pyfloat result" where
  "need_finite c name x =
     (case x of Fin v \<Rightarrow> Inr v | NonFinite \<Rightarrow> Inl (refuse c (name @ '' must be finite'')))"

text \<open>A term that is allowed to be unknown or not finite only under a zero weight, and then counts as zero.\<close>

definition need_known :: "candidate \<Rightarrow> string \<Rightarrow> string \<Rightarrow> pyfloat \<Rightarrow> number option \<Rightarrow> unit result" where
  "need_known c name wname w x =
     guardE (w = 0 \<or> x \<noteq> None) (refuse c (name @ '' is unknown but materiality_'' @ wname @ ''=''))"

definition live_value :: "candidate \<Rightarrow> string \<Rightarrow> pyfloat \<Rightarrow> number option \<Rightarrow> pyfloat result" where
  "live_value c name w x =
     (if w = 0 then Inr 0 else case x of None \<Rightarrow> Inr 0 | Some v \<Rightarrow> need_finite c name v)"

record inputs =
  in_ret :: pyfloat
  in_atr :: pyfloat
  in_volume :: pyfloat
  in_median :: pyfloat
  in_earnings :: pyfloat
  in_sector :: pyfloat

definition checked_inputs :: "candidate \<Rightarrow> materiality_policy \<Rightarrow> int \<Rightarrow> inputs result" where
  "checked_inputs c p max_analyses =
     bindE (need_finite c ''ret_since_open'' (mc_ret c)) (\<lambda>ret.
     bindE (need_finite c ''atr_20'' (mc_atr c)) (\<lambda>atr.
     bindE (need_finite c ''volume_so_far'' (mc_volume c)) (\<lambda>vol.
     bindE (need_finite c ''median_volume_same_time'' (mc_median c)) (\<lambda>med.
     bindE (guardE (0 < atr) (refuse c ''atr_20 must be positive'')) (\<lambda>_.
     bindE (guardE (0 < med) (refuse c ''median_volume_same_time must be positive'')) (\<lambda>_.
     bindE (guardE (0 \<le> vol) (refuse c ''volume_so_far cannot be negative'')) (\<lambda>_.
     bindE (guardE (0 < max_analyses) (MaterialityInputError ''max_model_analyses_per_day must be positive'')) (\<lambda>_.
     bindE (need_known c ''earnings_proximity'' ''w4'' (my_w4 p) (mc_earnings c)) (\<lambda>_.
     bindE (need_known c ''sector_ret'' ''w5'' (my_w5 p) (mc_sector_ret c)) (\<lambda>_.
     bindE (live_value c ''earnings_proximity'' (my_w4 p) (mc_earnings c)) (\<lambda>earnings.
     bindE (live_value c ''sector_ret'' (my_w5 p) (mc_sector_ret c)) (\<lambda>sector.
     Inr \<lparr> in_ret = ret, in_atr = atr, in_volume = vol, in_median = med, in_earnings = earnings,
           in_sector = sector \<rparr>))))))))))))"

definition weighted_terms ::
  "(pyfloat \<Rightarrow> pyfloat) \<Rightarrow> materiality_policy \<Rightarrow> pyfloat \<Rightarrow> inputs \<Rightarrow> int \<Rightarrow> int \<Rightarrow> pyfloat dict" where
  "weighted_terms plog p fw i today_n max_analyses =
     [(''momentum_vs_atr'', fl (my_w1 p * fl (\<bar>in_ret i\<bar> / in_atr i))),
      (''volume'', fl (my_w2 p * plog (max (fl (in_volume i / in_median i)) VOLUME_RATIO_FLOOR))),
      (''filing'', fl (my_w3 p * fw)),
      (''earnings_proximity'', fl (my_w4 p * in_earnings i)),
      (''idiosyncratic_vs_sector'', fl (my_w5 p * fl (\<bar>fl (in_ret i - in_sector i)\<bar> / in_atr i))),
      (''budget_brake'', fl (- my_w6 p * fl (of_int today_n / of_int max_analyses)))]"

definition num_option :: "number option \<Rightarrow> component" where
  "num_option x = (case x of None \<Rightarrow> CNone | Some n \<Rightarrow> CNum n)"

definition raw_terms :: "candidate \<Rightarrow> pyfloat \<Rightarrow> int \<Rightarrow> int \<Rightarrow> component" where
  "raw_terms c fw today_n max_analyses = CMap
     [(''ret_since_open'', CNum (mc_ret c)), (''atr_20'', CNum (mc_atr c)), (''volume_so_far'', CNum (mc_volume c)),
      (''median_volume_same_time'', CNum (mc_median c)), (''filing_weight'', CNum (Fin fw)),
      (''form_type'', case mc_form c of None \<Rightarrow> CNone | Some f \<Rightarrow> CText f), (''item_codes'', CTexts (mc_items c)),
      (''earnings_proximity'', num_option (mc_earnings c)), (''sector_ret'', num_option (mc_sector_ret c)),
      (''analyses_today'', CNum (Fin (of_int today_n))),
      (''max_model_analyses_per_day'', CNum (Fin (of_int max_analyses)))]"

definition policy_weights :: "materiality_policy \<Rightarrow> component" where
  "policy_weights p = CMap
     [(''w1'', CNum (Fin (my_w1 p))), (''w2'', CNum (Fin (my_w2 p))), (''w3'', CNum (Fin (my_w3 p))),
      (''w4'', CNum (Fin (my_w4 p))), (''w5'', CNum (Fin (my_w5 p))), (''w6'', CNum (Fin (my_w6 p)))]"

definition compute_score ::
  "(pyfloat \<Rightarrow> pyfloat) \<Rightarrow> candidate \<Rightarrow> materiality_policy \<Rightarrow> int \<Rightarrow> int \<Rightarrow> (pyfloat \<times> component dict) result" where
  "compute_score plog c p today_n max_analyses =
     bindE (checked_inputs c p max_analyses) (\<lambda>i.
     let fw = filing_weight (mc_form c) (mc_items c) (my_filing_weights p);
         terms = weighted_terms plog p fw i today_n max_analyses;
         score = sum_seq fl 0 (map snd terms)
     in Inr (score,
          [(''weights'', policy_weights p), (''threshold'', CNum (Fin (my_threshold p))),
           (''raw_terms'', raw_terms c fw today_n max_analyses),
           (''weighted_terms'', CMap (map (\<lambda>(k, v). (k, CNum (Fin v))) terms)), (''score'', CNum (Fin score))]))"

subsection \<open>The screen\<close>

record screen_args =
  sn_policy :: materiality_policy
  sn_capability :: capability_policy
  sn_live :: bool
  sn_analyses_today :: int
  sn_max_analyses :: int
  sn_approvals_today :: int
  sn_max_approvals :: int
  sn_universe :: "string list"
  sn_cooldown :: "string list"

record event_head =
  eh_event_id :: string
  eh_type :: string
  eh_source_id :: string
  eh_observed_at :: instant
  eh_effective_at :: instant
  eh_side :: string

definition gate_components :: "bool \<Rightarrow> bool \<Rightarrow> bool \<Rightarrow> bool \<Rightarrow> bool \<Rightarrow> component" where
  "gate_components threshold universe capability cooldown approvals = CMap
     [(''meets_threshold'', CBool threshold), (''in_eligible_universe'', CBool universe),
      (''capability_allowed'', CBool capability), (''not_in_cooldown'', CBool cooldown),
      (''approvals_under_cap'', CBool approvals)]"

definition suppression_reasons :: "bool \<Rightarrow> bool \<Rightarrow> bool \<Rightarrow> bool \<Rightarrow> string list" where
  "suppression_reasons universe capability cooldown approvals =
     (if universe then [] else [''not_in_eligible_universe'']) @ (if capability then [] else [''capability_denied''])
     @ (if cooldown then [] else [''in_cooldown'']) @ (if approvals then [] else [''approval_cap_reached''])"

definition commas :: "string list \<Rightarrow> string" where
  "commas ss = (case ss of [] \<Rightarrow> [] | s # rest \<Rightarrow> s @ concat (map (\<lambda>t. '','' @ t) rest))"

definition screen_dims :: "candidate \<Rightarrow> string \<Rightarrow> dimensions" where
  "screen_dims c side = [(''asset_class'', mc_asset_class c), (''side'', side), (''funding'', ''SETTLED_CASH'')]"

definition screen ::
  "(pyfloat \<Rightarrow> pyfloat) \<Rightarrow> screen_args \<Rightarrow> event_head \<Rightarrow> candidate \<Rightarrow> opportunity_event result" where
  "screen plog a h c =
     bindE (compute_score plog c (sn_policy a) (sn_analyses_today a) (sn_max_analyses a)) (\<lambda>(score, components).
     bindE (policy_allows (sn_capability a) UNIVERSE (sn_live a) (Some (mc_symbol c)) (screen_dims c (eh_side h))) (\<lambda>capability.
     let threshold = score \<ge> my_threshold (sn_policy a);
         universe = mc_symbol c \<in> set (sn_universe a);
         cooldown = mc_symbol c \<notin> set (sn_cooldown a);
         approvals = sn_approvals_today a < sn_max_approvals a;
         triggers = threshold \<and> universe \<and> capability \<and> cooldown \<and> approvals;
         suppressed = (if threshold \<and> \<not> triggers
                       then Some (commas (suppression_reasons universe capability cooldown approvals)) else None)
     in Inr \<lparr> oe_event_id = eh_event_id h, oe_type = eh_type h, oe_source_id = eh_source_id h,
              oe_observed_at = eh_observed_at h, oe_effective_at = eh_effective_at h, oe_symbols = [mc_symbol c],
              oe_score = Fin score,
              oe_components = AList.update ''gates'' (gate_components threshold universe capability cooldown approvals) components,
              oe_threshold_version = my_version (sn_policy a),
              oe_status = (if triggers then ''PENDING_ANALYSIS''
                           else if suppressed \<noteq> None \<and> suppressed \<noteq> Some [] then ''SUPPRESSED'' else ''NOT_MATERIAL''),
              oe_suppressed = suppressed \<rparr>))"

subsection \<open>Which candidates have a score\<close>

definition known_under :: "pyfloat \<Rightarrow> number option \<Rightarrow> bool" where
  "known_under w x \<longleftrightarrow> w = 0 \<or> (\<exists>v. x = Some (Fin v))"

definition scorable :: "candidate \<Rightarrow> materiality_policy \<Rightarrow> int \<Rightarrow> bool" where
  "scorable c p max_analyses \<longleftrightarrow>
     (\<exists>ret atr vol med. mc_ret c = Fin ret \<and> mc_atr c = Fin atr \<and> mc_volume c = Fin vol \<and> mc_median c = Fin med
        \<and> 0 < atr \<and> 0 < med \<and> 0 \<le> vol)
     \<and> 0 < max_analyses \<and> known_under (my_w4 p) (mc_earnings c) \<and> known_under (my_w5 p) (mc_sector_ret c)"

lemma need_finite_ok: "need_finite c n x = Inr v \<longleftrightarrow> x = Fin v"
  by (cases x) (auto simp: need_finite_def)

lemma live_known:
  "need_known c n wn w x = Inr () \<and> (\<exists>v. live_value c n w x = Inr v) \<longleftrightarrow> known_under w x"
  by (auto simp: need_known_def live_value_def known_under_def need_finite_ok split: option.split)

lemma checked_inputs_ok: "is_ok (checked_inputs c p n) \<longleftrightarrow> scorable c p n"
proof -
  have "(\<exists>i. checked_inputs c p n = Inr i) \<longleftrightarrow>
    (\<exists>ret atr vol med. mc_ret c = Fin ret \<and> mc_atr c = Fin atr \<and> mc_volume c = Fin vol \<and> mc_median c = Fin med
        \<and> 0 < atr \<and> 0 < med \<and> 0 \<le> vol) \<and> 0 < n
     \<and> (need_known c ''earnings_proximity'' ''w4'' (my_w4 p) (mc_earnings c) = Inr ()
        \<and> (\<exists>v. live_value c ''earnings_proximity'' (my_w4 p) (mc_earnings c) = Inr v))
     \<and> (need_known c ''sector_ret'' ''w5'' (my_w5 p) (mc_sector_ret c) = Inr ()
        \<and> (\<exists>v. live_value c ''sector_ret'' (my_w5 p) (mc_sector_ret c) = Inr v))"
    by (simp add: checked_inputs_def bindE_eq_Inr need_finite_ok) blast
  then show ?thesis unfolding live_known by (simp add: is_ok_iff scorable_def)
qed

lemma checked_inputs_atr: "checked_inputs c p n = Inr i \<Longrightarrow> 0 < in_atr i"
  by (auto simp: checked_inputs_def bindE_eq_Inr)

lemma compute_score_ok: "is_ok (compute_score plog c p m n) \<longleftrightarrow> scorable c p n"
  by (simp add: compute_score_def is_ok_iff bindE_eq_Inr Let_def flip: checked_inputs_ok)

subsection \<open>The gates\<close>

definition screen_capability :: "screen_args \<Rightarrow> string \<Rightarrow> candidate \<Rightarrow> bool" where
  "screen_capability a side c \<longleftrightarrow>
     symbol_ok (sn_capability a) (Some (mc_symbol c))
     \<and> (\<forall>dv \<in> set (screen_dims c side). dimension_ok (sn_capability a) (sn_live a) dv)"

definition screen_gates :: "screen_args \<Rightarrow> string \<Rightarrow> candidate \<Rightarrow> bool" where
  "screen_gates a side c \<longleftrightarrow> mc_symbol c \<in> set (sn_universe a) \<and> screen_capability a side c
     \<and> mc_symbol c \<notin> set (sn_cooldown a) \<and> sn_approvals_today a < sn_max_approvals a"

lemma screen_allows:
  "policy_allows (sn_capability a) UNIVERSE (sn_live a) (Some (mc_symbol c)) (screen_dims c side)
   = Inr (screen_capability a side c)"
  unfolding screen_capability_def
  by (rule policy_allows_iff) (simp add: screen_dims_def known_dimensions_def)

lemma screen_ok: "is_ok (screen plog a h c) \<longleftrightarrow> scorable c (sn_policy a) (sn_max_analyses a)"
  unfolding screen_def compute_score_ok [of plog _ _ "sn_analyses_today a", symmetric]
  by (auto simp: is_ok_iff bindE_eq_Inr screen_allows Let_def split: prod.split)

lemma commas_nonempty: "\<exists>s \<in> set ss. s \<noteq> [] \<Longrightarrow> commas ss \<noteq> []"
  by (cases ss) (auto simp: commas_def)

lemma reasons_nonempty: "\<not> (u \<and> c \<and> d \<and> p) \<Longrightarrow> commas (suppression_reasons u c d p) \<noteq> []"
  by (rule commas_nonempty) (auto simp: suppression_reasons_def)

lemma screen_event:
  assumes "screen plog a h c = Inr e"
  obtains score components where
    "compute_score plog c (sn_policy a) (sn_analyses_today a) (sn_max_analyses a) = Inr (score, components)"
    "oe_score e = Fin score"
    "oe_status e = (if my_threshold (sn_policy a) \<le> score
       then if screen_gates a (eh_side h) c then ''PENDING_ANALYSIS'' else ''SUPPRESSED'' else ''NOT_MATERIAL'')"
    "oe_suppressed e = (if my_threshold (sn_policy a) \<le> score \<and> \<not> screen_gates a (eh_side h) c
       then Some (commas (suppression_reasons (mc_symbol c \<in> set (sn_universe a)) (screen_capability a (eh_side h) c)
         (mc_symbol c \<notin> set (sn_cooldown a)) (sn_approvals_today a < sn_max_approvals a))) else None)"
    "oe_symbols e = [mc_symbol c]" "oe_event_id e = eh_event_id h" "oe_type e = eh_type h"
  using assms reasons_nonempty
  by (auto simp: screen_def bindE_eq_Inr screen_allows Let_def screen_gates_def split: if_splits)

text \<open>The budget brake only lowers a score: with a weight that is not negative, more analyses today never give a higher one.\<close>

lemma brake_lowers_score:
  assumes "compute_score plog c p m n = Inr (s, k)" and "compute_score plog c p m' n = Inr (s', k')"
    and "m \<le> m'" and "0 \<le> my_w6 p"
  shows "s' \<le> s"
proof -
  obtain i where i: "checked_inputs c p n = Inr i" using assms(1) by (auto simp: compute_score_def bindE_eq_Inr)
  then have n: "0 < n" using checked_inputs_ok [of c p n] by (simp add: is_ok_iff scorable_def)
  have "fl (of_int m / of_int n) \<le> fl (of_int m' / of_int n)"
    using assms(3) n by (intro flt.rnd_mono divide_right_mono) simp_all
  then have "fl (- my_w6 p * fl (of_int m' / of_int n)) \<le> fl (- my_w6 p * fl (of_int m / of_int n))"
    using assms(4) by (intro flt.rnd_mono) (simp add: mult_left_mono)
  then have "fl (x + fl (- my_w6 p * fl (of_int m' / of_int n))) \<le> fl (x + fl (- my_w6 p * fl (of_int m / of_int n)))" for x
    by (rule flt.rnd_mono [OF add_left_mono])
  with i show ?thesis
    using assms(1,2) by (auto simp: compute_score_def weighted_terms_def Let_def simp del: mult_minus_left)
qed

end
