(* ===== verification/Collectors.thy ===== *)
theory Collectors
  imports AnalysisOutput Journal "HOL-Library.List_Lexorder" "HOL-Library.Char_ord"
begin

text \<open>
  agent/market\_data\_collector.py, agent/edgar\_collector.py and agent/news\_collector.py: what one collection cycle appends to the
  evidence store. What the clients return in a cycle is the record \<open>feeds\<close>; \<open>parse_ts\<close> (\<open>_parse_ts\<close> of the
  broker's module) and \<open>date.fromisoformat\<close> are in \<open>collect_env\<close>. A bar is typed, its volume a whole number. The
  detour over a float number of elapsed minutes gives back the same microseconds and is left out.
\<close>

subsection \<open>What the clients return\<close>

record bar =
  br_t :: string
  br_o :: pyfloat
  br_h :: pyfloat
  br_l :: pyfloat
  br_c :: pyfloat
  br_v :: int

record filing =
  fg_accession :: string
  fg_form :: string
  fg_items :: "string list"
  fg_primary :: string
  fg_filing_date :: string
  fg_report_date :: string
  fg_accepted_at :: "string option"

record news_event =
  nv_symbol :: string
  nv_headline :: string
  nv_url :: string
  nv_provider :: string
  nv_published_at :: instant

record document_fetch =
  df_text :: string
  df_byte_length :: int
  df_truncated :: bool
  df_sha256 :: string

record feeds =
  fe_daily :: "bar list dict result"
  fe_minute :: "bar list dict result"
  fe_tickers :: "string dict result"
  fe_filings :: "string \<Rightarrow> filing list result"
  fe_news :: "news_event list result"
  fe_wall :: instant

record collect_env =
  co_row :: "evidence fact \<Rightarrow> string"
  co_parse_ts :: "string \<Rightarrow> instant result"
  co_parse_date :: "string \<Rightarrow> date result"
  co_iso :: "instant \<Rightarrow> string"

record cik_cache =
  kc_map :: "string dict"
  kc_refreshed_at :: "instant option"

record collect_state =
  cs_facts :: "evidence fact_store"
  cs_ciks :: cik_cache

type_synonym 'a collect_act = "(collect_state, 'a) action"

definition aware :: "exn \<Rightarrow> datetime \<Rightarrow> instant result" where
  "aware e t = (case t of Aware i \<Rightarrow> Inr i | Naive _ \<Rightarrow> Inl e)"

definition store_fact :: "collect_env \<Rightarrow> evidence fact \<Rightarrow> unit collect_act" where
  "store_fact V f = modifyW (\<lambda>s. s\<lparr>cs_facts := fs_append (co_row V) True f (cs_facts s)\<rparr>)"

text \<open>\<open>store.now_view().history(...)\<close>: the view reads the store as it is when it is asked.\<close>

definition history_now :: "feeds \<Rightarrow> string \<Rightarrow> string \<Rightarrow> evidence fact list collect_act" where
  "history_now F e f = getW (\<lambda>s. view_history \<lparr> vw_store = cs_facts s, vw_t = fe_wall F \<rparr> e f)"

subsection \<open>The market snapshot\<close>

definition MARKET_SOURCE_ID :: string where "MARKET_SOURCE_ID = ''alpaca_market_data''"
definition ATR_LOOKBACK :: nat where "ATR_LOOKBACK = 20"
definition SAME_TIME_LOOKBACK_SESSIONS :: int where "SAME_TIME_LOOKBACK_SESSIONS = 20"

definition true_range :: "bar \<Rightarrow> bar \<Rightarrow> pyfloat" where
  "true_range prev b =
     max (max (fl (br_h b - br_l b)) \<bar>fl (br_h b - br_c prev)\<bar>) \<bar>fl (br_l b - br_c prev)\<bar>"

definition compute_atr_20 :: "bar list \<Rightarrow> pyfloat result" where
  "compute_atr_20 bars =
     (if length bars < ATR_LOOKBACK + 1 then Inl MarketDataInputError
      else let recent = drop (length bars - (ATR_LOOKBACK + 1)) bars;
               ranges = map2 true_range recent (tl recent)
           in Inr (fl (sum_seq fl 0 ranges / of_nat (length ranges))))"

definition median_of :: "pyfloat list \<Rightarrow> pyfloat" where
  "median_of xs =
     (let s = sort xs; n = length xs
      in if odd n then s ! (n div 2) else fl (fl (s ! (n div 2 - 1) + s ! (n div 2)) / 2))"

text \<open>The sessions of the bars and the bars of each, in the order met.\<close>

definition add_bar :: "collect_env \<Rightarrow> (date \<times> (instant \<times> bar) list) list \<Rightarrow> bar \<Rightarrow> (date \<times> (instant \<times> bar) list) list result" where
  "add_bar V groups b =
     bindE (co_parse_ts V (br_t b)) (\<lambda>t.
     bindE (session_for_instant (Aware t)) (\<lambda>d.
     Inr (AList.update d ((case map_of groups d of None \<Rightarrow> [] | Some bs \<Rightarrow> bs) @ [(t, b)]) groups)))"

definition same_time_volume ::
  "date \<Rightarrow> instant \<Rightarrow> pyfloat list \<Rightarrow> date \<times> (instant \<times> bar) list \<Rightarrow> pyfloat list result" where
  "same_time_volume today elapsed vols = (\<lambda>(session, bars).
     if session = today then Inr vols
     else bindE (session_times session) (\<lambda>st.
       let early = filter (\<lambda>(t, _). t < st_open st + elapsed) bars
       in Inr (if early = [] then vols else vols @ [fl (of_int (sum_list (map (br_v \<circ> snd) early)))])))"

definition compute_same_time_metrics ::
  "collect_env \<Rightarrow> bar list \<Rightarrow> date \<Rightarrow> instant \<Rightarrow> (pyfloat \<times> pyfloat \<times> pyfloat \<times> pyfloat) result" where
  "compute_same_time_metrics V bars today now =
     bindE (foldE (add_bar V) [] bars) (\<lambda>groups.
     bindE (session_times today) (\<lambda>st.
     bindE (guardE (st_open st \<le> now) MarketDataInputError) (\<lambda>_.
     let mine = sort_key (br_t \<circ> snd) (case map_of groups today of None \<Rightarrow> [] | Some bs \<Rightarrow> bs)
     in if mine = [] then Inl MarketDataInputError
        else let volume = fl (of_int (sum_list (map (br_v \<circ> snd) mine)));
                 start = br_o (snd (hd mine));
                 current = br_c (snd (last mine))
             in bindE (guardE (0 < start) MarketDataInputError) (\<lambda>_.
                bindE (foldE (same_time_volume today (now - st_open st)) [] groups) (\<lambda>vols.
                bindE (guardE (vols \<noteq> []) MarketDataInputError) (\<lambda>_.
                Inr (volume, fl (fl (current / start) - 1), median_of vols, current)))))))"

definition symbol_snapshot ::
  "collect_env \<Rightarrow> bar list dict \<Rightarrow> bar list dict \<Rightarrow> date \<Rightarrow> instant \<Rightarrow> date option \<Rightarrow> string \<Rightarrow> market_snapshot result" where
  "symbol_snapshot V daily minute today now marker symbol =
     bindE (compute_atr_20 (sort_key br_t (dict_get daily symbol []))) (\<lambda>atr.
     bindE (compute_same_time_metrics V (dict_get minute symbol []) today now) (\<lambda>(volume, ret, median, current).
     Inr \<lparr> sq_atr_20 = atr, sq_ret_since_open = ret, sq_volume_so_far = volume, sq_median_volume = median,
           sq_current_price = current, sq_session = marker \<rparr>))"

definition snapshot_fact :: "string \<Rightarrow> market_snapshot \<Rightarrow> instant \<Rightarrow> instant \<Rightarrow> evidence fact" where
  "snapshot_fact symbol q observed effective =
     \<lparr> fa_entity_id = symbol, fa_field = SNAPSHOT_FIELD, fa_value = SnapshotFact q, fa_observed_at = observed,
       fa_effective_at = effective, fa_source_id = MARKET_SOURCE_ID, fa_doc_hash = None \<rparr>"

text \<open>One symbol of the loop: its fact, or nothing when its bars are not good enough.\<close>

definition collect_symbol ::
  "collect_env \<Rightarrow> market_snapshot result \<Rightarrow> string \<Rightarrow> instant \<Rightarrow> instant \<Rightarrow> evidence fact option collect_act" where
  "collect_symbol V q symbol observed effective =
     (case q of
        Inr s \<Rightarrow> (let f = snapshot_fact symbol s observed effective
                  in bindW (store_fact V f) (\<lambda>_. retW (Some f)))
      | Inl e \<Rightarrow> if e = MarketDataInputError then retW None else raiseW e)"

definition collect_market_data ::
  "collect_env \<Rightarrow> feeds \<Rightarrow> string list \<Rightarrow> datetime \<Rightarrow> evidence fact list collect_act" where
  "collect_market_data V F symbols now =
     bindW (liftW (aware MarketDataInputError now)) (\<lambda>t.
     bindW (liftW (session_for_instant now)) (\<lambda>today.
     bindW (liftW (is_trading_day today)) (\<lambda>td.
     if \<not> td then retW []
     else
       bindW (liftW (session_times today)) (\<lambda>st.
       if t < st_open st then retW []
       else
         bindW (liftW (bindE (trailing_sessions today (SAME_TIME_LOOKBACK_SESSIONS + 1)) (\<lambda>ss. session_times (hd ss)))) (\<lambda>_.
         bindW (liftW (fe_daily F)) (\<lambda>daily.
         bindW (liftW (fe_minute F)) (\<lambda>minute.
         bindW (forW (\<lambda>symbol. collect_symbol V (symbol_snapshot V daily minute today t None symbol) symbol t t) symbols) (\<lambda>rs.
         retW (concat (map (\<lambda>r. case r of None \<Rightarrow> [] | Some f \<Rightarrow> [f]) rs))))))))))"

definition most_recent_completed_session :: "datetime \<Rightarrow> date result" where
  "most_recent_completed_session now =
     bindE (aware MarketDataInputError now) (\<lambda>t.
     bindE (session_for_instant now) (\<lambda>today.
     bindE (is_trading_day today) (\<lambda>td.
     bindE (if td then bindE (session_times today) (\<lambda>st. Inr (st_close st \<le> t)) else Inr False) (\<lambda>closed.
     if closed then Inr today else bindE (trailing_sessions (today - 1) 1) (\<lambda>ss. Inr (hd ss))))))"

text \<open>A batch request that fails in the client is raised again with its operation's name.\<close>

definition batch :: "'a result \<Rightarrow> 'a result" where
  "batch r = (case r of Inl e \<Rightarrow> Inl (if e = AlpacaMarketDataError then MarketDataFetchError else e) | Inr x \<Rightarrow> Inr x)"

definition collect_completed_session ::
  "collect_env \<Rightarrow> feeds \<Rightarrow> string list \<Rightarrow> datetime \<Rightarrow> date \<Rightarrow> evidence fact list collect_act" where
  "collect_completed_session V F symbols now session =
     bindW (liftW (aware MarketDataInputError now)) (\<lambda>t.
     bindW (liftW (is_trading_day session)) (\<lambda>td.
     bindW (liftW (guardE td MarketDataInputError)) (\<lambda>_.
     bindW (liftW (session_times session)) (\<lambda>st.
     bindW (liftW (guardE (st_close st \<le> t) MarketDataInputError)) (\<lambda>_.
     bindW (liftW (bindE (trailing_sessions session (SAME_TIME_LOOKBACK_SESSIONS + 1)) (\<lambda>ss. session_times (hd ss)))) (\<lambda>_.
     bindW (liftW (bindE (trailing_sessions session (int ATR_LOOKBACK + 2)) (\<lambda>ss. session_times (hd ss)))) (\<lambda>_.
     bindW (liftW (batch (fe_daily F))) (\<lambda>daily.
     bindW (liftW (batch (fe_minute F))) (\<lambda>minute.
     bindW (forW (\<lambda>symbol. collect_symbol V
         (symbol_snapshot V daily minute session (st_close st) (Some session) symbol) symbol t (st_close st)) symbols) (\<lambda>rs.
     retW (concat (map (\<lambda>r. case r of None \<Rightarrow> [] | Some f \<Rightarrow> [f]) rs))))))))))))"

subsection \<open>Filings\<close>

definition EDGAR_SOURCE_ID :: string where "EDGAR_SOURCE_ID = ''sec_edgar''"

definition ciks_stale :: "cik_cache \<Rightarrow> instant \<Rightarrow> timedelta \<Rightarrow> bool" where
  "ciks_stale k now max_age \<longleftrightarrow> (case kc_refreshed_at k of None \<Rightarrow> True | Some t \<Rightarrow> now - t \<ge> max_age)"

definition ciks_fresh :: "feeds \<Rightarrow> instant \<Rightarrow> timedelta \<Rightarrow> unit collect_act" where
  "ciks_fresh F now max_age =
     bindW (getW (\<lambda>s. ciks_stale (cs_ciks s) now max_age)) (\<lambda>stale.
     if stale then bindW (liftW (fe_tickers F)) (\<lambda>m.
       modifyW (\<lambda>s. s\<lparr>cs_ciks := \<lparr> kc_map = m, kc_refreshed_at = Some now \<rparr>\<rparr>))
     else retW ())"

definition cik_get :: "cik_cache \<Rightarrow> string \<Rightarrow> string option" where
  "cik_get k symbol = map_of (kc_map k) (upper symbol)"

text \<open>When a filing became known: its acceptance, or the last second of its filing date in New York.\<close>

definition filing_observed_at :: "collect_env \<Rightarrow> filing \<Rightarrow> instant result" where
  "filing_observed_at V g =
     (case fg_accepted_at g of
        Some s \<Rightarrow> if s \<noteq> [] then co_parse_ts V s
                  else bindE (co_parse_date V (fg_filing_date g)) (\<lambda>d. Inr (local_instant d (86399 * 1000000)))
      | None \<Rightarrow> bindE (co_parse_date V (fg_filing_date g)) (\<lambda>d. Inr (local_instant d (86399 * 1000000))))"

definition filing_effective_at :: "collect_env \<Rightarrow> filing \<Rightarrow> instant result" where
  "filing_effective_at V g =
     bindE (co_parse_date V (if fg_report_date g \<noteq> [] then fg_report_date g else fg_filing_date g)) (\<lambda>d. Inr (d * day_us))"

definition filing_fact :: "collect_env \<Rightarrow> string \<Rightarrow> string \<Rightarrow> filing \<Rightarrow> evidence fact result" where
  "filing_fact V symbol cik g =
     bindE (filing_observed_at V g) (\<lambda>ob. bindE (filing_effective_at V g) (\<lambda>ef.
     Inr \<lparr> fa_entity_id = symbol, fa_field = FILING_FIELD,
           fa_value = FilingFact \<lparr> fm_cik = cik, fm_form = fg_form g, fm_item_codes = fg_items g,
             fm_accession = fg_accession g, fm_primary_document = fg_primary g, fm_filing_date = fg_filing_date g,
             fm_report_date = fg_report_date g \<rparr>,
           fa_observed_at = ob, fa_effective_at = ef, fa_source_id = EDGAR_SOURCE_ID,
           fa_doc_hash = Some (fg_accession g) \<rparr>))"

definition accession_of :: "evidence fact \<Rightarrow> string result" where
  "accession_of f = (case fa_value f of FilingFact m \<Rightarrow> Inr (fm_accession m) | _ \<Rightarrow> Inl (KeyError ''accession_number''))"

text \<open>A filing whose number the view knew before the loop is counted as a duplicate; the others are appended.\<close>

definition collect_filing :: "collect_env \<Rightarrow> string \<Rightarrow> string \<Rightarrow> string list \<Rightarrow> filing \<Rightarrow> evidence fact option collect_act" where
  "collect_filing V symbol cik known g =
     (if fg_accession g \<in> set known then retW None
      else bindW (liftW (filing_fact V symbol cik g)) (\<lambda>f. bindW (store_fact V f) (\<lambda>_. retW (Some f))))"

definition collect_filings_of ::
  "collect_env \<Rightarrow> feeds \<Rightarrow> string \<Rightarrow> (string \<times> evidence fact option list option) collect_act" where
  "collect_filings_of V F symbol =
     bindW (getW (\<lambda>s. cik_get (cs_ciks s) symbol)) (\<lambda>k.
     case k of
       None \<Rightarrow> retW (symbol, None)
     | Some cik \<Rightarrow>
         bindW (history_now F symbol FILING_FIELD) (\<lambda>h.
         bindW (liftW (mapE accession_of h)) (\<lambda>known.
         bindW (liftW (fe_filings F cik)) (\<lambda>gs.
         bindW (forW (collect_filing V symbol cik known) gs) (\<lambda>rs. retW (symbol, Some rs))))))"

record edgar_result =
  er_facts :: "evidence fact list"
  er_skipped :: "string list"
  er_duplicates :: nat

definition edgar_result_of :: "(string \<times> evidence fact option list option) list \<Rightarrow> edgar_result" where
  "edgar_result_of rs =
     (let filed = concat (map (\<lambda>(_, r). case r of None \<Rightarrow> [] | Some fs \<Rightarrow> fs) rs)
      in \<lparr> er_facts = concat (map (\<lambda>f. case f of None \<Rightarrow> [] | Some x \<Rightarrow> [x]) filed),
           er_skipped = map fst (filter (\<lambda>(_, r). r = None) rs),
           er_duplicates = length (filter (\<lambda>f. f = None) filed) \<rparr>)"

definition collect_filings ::
  "collect_env \<Rightarrow> feeds \<Rightarrow> string list \<Rightarrow> datetime \<Rightarrow> timedelta \<Rightarrow> edgar_result collect_act" where
  "collect_filings V F symbols now max_age =
     bindW (liftW (aware EdgarCollectorError now)) (\<lambda>t.
     bindW (ciks_fresh F t max_age) (\<lambda>_.
     bindW (forW (collect_filings_of V F) symbols) (\<lambda>rs. retW (edgar_result_of rs))))"

definition document_fact :: "string \<Rightarrow> string \<Rightarrow> string \<Rightarrow> string \<Rightarrow> document_fetch \<Rightarrow> instant \<Rightarrow> evidence fact" where
  "document_fact symbol cik accession primary d t =
     \<lparr> fa_entity_id = symbol, fa_field = FIELD_DOCUMENT,
       fa_value = DocumentFact \<lparr> fd_cik = cik, fd_accession = accession, fd_primary_document = primary,
         fd_text = df_text d, fd_byte_length = df_byte_length d, fd_truncated = df_truncated d \<rparr>,
       fa_observed_at = t, fa_effective_at = t, fa_source_id = EDGAR_SOURCE_ID, fa_doc_hash = Some (df_sha256 d) \<rparr>"

subsection \<open>News\<close>

definition NEWS_FIELD :: string where "NEWS_FIELD = ''news_event''"

definition news_fact :: "collect_env \<Rightarrow> string \<Rightarrow> news_event \<Rightarrow> evidence fact" where
  "news_fact V symbol e =
     \<lparr> fa_entity_id = symbol, fa_field = NEWS_FIELD,
       fa_value = OtherFact (JObj [(KStr ''headline'', JStr (nv_headline e)), (KStr ''url'', JStr (nv_url e)),
         (KStr ''provider_name'', JStr (nv_provider e)), (KStr ''published_at'', JStr (co_iso V (nv_published_at e)))]),
       fa_observed_at = nv_published_at e, fa_effective_at = nv_published_at e,
       fa_source_id = nv_provider e, fa_doc_hash = Some (nv_url e) \<rparr>"

definition url_of :: "evidence fact \<Rightarrow> string result" where
  "url_of f = (case fa_value f of
     OtherFact (JObj kvs) \<Rightarrow> (case json_get kvs ''url'' of Some (JStr u) \<Rightarrow> Inr u | _ \<Rightarrow> Inl (KeyError ''url''))
   | _ \<Rightarrow> Inl (KeyError ''url''))"

text \<open>\<open>known\<close> is \<open>known_by_symbol\<close>, filled when a symbol is first met and extended by every item taken.\<close>

definition collect_news_item ::
  "collect_env \<Rightarrow> feeds \<Rightarrow> string list \<Rightarrow> string list dict \<times> evidence fact list \<times> nat \<Rightarrow> news_event
   \<Rightarrow> (string list dict \<times> evidence fact list \<times> nat) collect_act" where
  "collect_news_item V F wanted = (\<lambda>(known, facts, dups) e.
     let symbol = upper (nv_symbol e)
     in if symbol \<notin> set wanted then retW (known, facts, dups)
        else
          bindW (case map_of known symbol of
                   Some us \<Rightarrow> retW us
                 | None \<Rightarrow> bindW (history_now F symbol NEWS_FIELD) (\<lambda>h. liftW (mapE url_of h))) (\<lambda>urls.
          if nv_url e \<in> set urls then retW (AList.update symbol urls known, facts, dups + 1)
          else
            let f = news_fact V symbol e
            in bindW (store_fact V f) (\<lambda>_.
               retW (AList.update symbol (urls @ [nv_url e]) known, facts @ [f], dups))))"

fun collect_news_items ::
  "collect_env \<Rightarrow> feeds \<Rightarrow> string list \<Rightarrow> string list dict \<times> evidence fact list \<times> nat \<Rightarrow> news_event list
   \<Rightarrow> (string list dict \<times> evidence fact list \<times> nat) collect_act" where
  "collect_news_items V F wanted acc [] = retW acc"
| "collect_news_items V F wanted acc (e # es) =
     bindW (collect_news_item V F wanted acc e) (\<lambda>acc'. collect_news_items V F wanted acc' es)"

definition collect_news_events ::
  "collect_env \<Rightarrow> feeds \<Rightarrow> string list \<Rightarrow> datetime \<Rightarrow> timedelta \<Rightarrow> (evidence fact list \<times> nat) collect_act" where
  "collect_news_events V F symbols now lookback =
     bindW (liftW (aware NewsCollectorError now)) (\<lambda>t.
     bindW (liftW (guardE (0 < lookback) NewsCollectorError)) (\<lambda>_.
     bindW (liftW (fe_news F)) (\<lambda>es.
     bindW (collect_news_items V F (map upper symbols) ([], [], 0) es) (\<lambda>(_, facts, dups).
     retW (facts, dups)))))"

subsection \<open>A filing is stored once\<close>

definition accession :: "evidence fact \<Rightarrow> string" where
  "accession f = (case fa_value f of FilingFact m \<Rightarrow> fm_accession m | _ \<Rightarrow> [])"

text \<open>Every filing is a filing and was known by \<open>t\<close>, and no symbol has two of one accession number.\<close>

definition filings_once :: "instant \<Rightarrow> evidence fact_store \<Rightarrow> bool" where
  "filings_once t st \<longleftrightarrow> fs_ok st
     \<and> (\<forall>f \<in> set (fs_facts st). fa_field f = FILING_FIELD \<longrightarrow> fa_observed_at f \<le> t \<and> accession_of f = Inr (accession f))
     \<and> (\<forall>symbol. distinct (map accession (filter (about (symbol, FILING_FIELD)) (fs_facts st))))"

text \<open>What EDGAR must return in a cycle: each filing once, and none that is observed later than the clock.\<close>

definition timely :: "collect_env \<Rightarrow> feeds \<Rightarrow> bool" where
  "timely V F \<longleftrightarrow> (\<forall>cik gs. fe_filings F cik = Inr gs \<longrightarrow> distinct (map fg_accession gs)
     \<and> (\<forall>g \<in> set gs. \<forall>t. filing_observed_at V g = Inr t \<longrightarrow> t \<le> fe_wall F))"

lemma filing_fact_shape:
  assumes "filing_fact V symbol cik g = Inr f"
  shows "fa_field f = FILING_FIELD" "fa_entity_id f = symbol" "accession_of f = Inr (fg_accession g)"
    "accession f = fg_accession g" "filing_observed_at V g = Inr (fa_observed_at f)"
  using assms by (auto simp: filing_fact_def bindE_eq_Inr accession_of_def accession_def)

lemma filings_once_append:
  assumes "filings_once t st" and "fa_field f = FILING_FIELD" and "fa_observed_at f \<le> t" and "accession_of f = Inr (accession f)"
    and "\<forall>x \<in> set (fs_facts st). about (fa_entity_id f, FILING_FIELD) x \<longrightarrow> accession x \<noteq> accession f"
  shows "filings_once t (fs_append enc p f st)"
  using assms by (auto simp: filings_once_def append_ok about_def)

lemma wp_store_fact [wp_simps]:
  "wp (store_fact V f) Q E s = Q () (s\<lparr>cs_facts := fs_append (co_row V) True f (cs_facts s)\<rparr>)"
  by (simp add: store_fact_def wp_simps)

lemma collect_filing_loop:
  assumes "filings_once t (cs_facts s)" and "distinct (map fg_accession gs)"
    and "\<forall>f \<in> set (fs_facts (cs_facts s)). about (symbol, FILING_FIELD) f \<longrightarrow> accession f \<in> set known \<or> accession f \<notin> fg_accession ` set gs"
    and "\<forall>g \<in> set gs. \<forall>u. filing_observed_at V g = Inr u \<longrightarrow> u \<le> t"
  shows "wp (forW (collect_filing V symbol cik known) gs) (\<lambda>_ s'. filings_once t (cs_facts s')) (\<lambda>_ s'. filings_once t (cs_facts s')) s"
  using assms
proof (induction gs arbitrary: s)
  case Nil
  then show ?case by (simp add: wp_simps)
next
  case (Cons g gs)
  have step: "wp (forW (collect_filing V symbol cik known) gs) (\<lambda>_ s'. filings_once t (cs_facts s')) (\<lambda>_ s'. filings_once t (cs_facts s')) s'"
    if "filings_once t (cs_facts s')"
      "\<forall>f \<in> set (fs_facts (cs_facts s')). f \<in> set (fs_facts (cs_facts s)) \<or> accession f = fg_accession g" for s'
  proof (rule Cons.IH [OF that(1)])
    show "\<forall>f \<in> set (fs_facts (cs_facts s')). about (symbol, FILING_FIELD) f \<longrightarrow>
        accession f \<in> set known \<or> accession f \<notin> fg_accession ` set gs"
    proof (intro ballI impI)
      fix f assume f: "f \<in> set (fs_facts (cs_facts s'))" "about (symbol, FILING_FIELD) f"
      show "accession f \<in> set known \<or> accession f \<notin> fg_accession ` set gs"
      proof (cases "f \<in> set (fs_facts (cs_facts s))")
        case True
        with f(2) Cons.prems(3) show ?thesis by auto
      next
        case False
        with f(1) that(2) have "accession f = fg_accession g" by blast
        with Cons.prems(2) show ?thesis by simp
      qed
    qed
  qed (use Cons.prems in auto)
  show ?case
  proof (cases "fg_accession g \<in> set known")
    case True
    then show ?thesis using step [OF Cons.prems(1)] by (simp add: collect_filing_def [of V symbol cik known g] wp_simps)
  next
    case new: False
    show ?thesis
    proof (cases "filing_fact V symbol cik g")
      case (Inl e)
      with new Cons.prems(1) show ?thesis by (simp add: collect_filing_def [of V symbol cik known g] wp_simps)
    next
      case (Inr f)
      note f = filing_fact_shape [OF Inr]
      let ?s = "s\<lparr>cs_facts := fs_append (co_row V) True f (cs_facts s)\<rparr>"
      have "filings_once t (cs_facts ?s)"
        using Cons.prems f new by (auto intro!: filings_once_append)
      from step [OF this] f show ?thesis using new Inr by (simp add: collect_filing_def [of V symbol cik known g] wp_simps)
    qed
  qed
qed

lemma known_filings:
  fixes s :: collect_state
  assumes "filings_once t (cs_facts s)" and "t \<le> fe_wall F"
  shows "mapE accession_of (view_history \<lparr> vw_store = cs_facts s, vw_t = fe_wall F \<rparr> symbol FILING_FIELD)
     = Inr (map accession (view_history \<lparr> vw_store = cs_facts s, vw_t = fe_wall F \<rparr> symbol FILING_FIELD))"
    and "set (view_history \<lparr> vw_store = cs_facts s, vw_t = fe_wall F \<rparr> symbol FILING_FIELD)
     = {f \<in> set (fs_facts (cs_facts s)). about (symbol, FILING_FIELD) f}"
proof -
  let ?h = "view_history \<lparr> vw_store = cs_facts s, vw_t = fe_wall F \<rparr> symbol FILING_FIELD"
  have h: "?h = known_at (fe_wall F) (symbol, FILING_FIELD) (fs_facts (cs_facts s))"
    using assms(1) by (simp add: view_history_eq filings_once_def)
  show set: "set ?h = {f \<in> set (fs_facts (cs_facts s)). about (symbol, FILING_FIELD) f}"
    unfolding h using assms by (fastforce simp: known_at_def filings_once_def about_def)
  have all: "accession_of f = Inr (accession f)" if "f \<in> set ?h" for f
    using that assms(1) unfolding set by (auto simp: filings_once_def about_def)
  have "mapE accession_of fs = Inr (map accession fs)" if "\<forall>f \<in> set fs. accession_of f = Inr (accession f)" for fs
    using that by (induction fs) auto
  then show "mapE accession_of ?h = Inr (map accession ?h)" using all by blast
qed

lemma filings_once_later: "filings_once t st \<Longrightarrow> t \<le> t' \<Longrightarrow> filings_once t' st"
  by (fastforce simp: filings_once_def)

lemma collect_filings_of_keeps:
  assumes "timely V F"
  shows "keeps (\<lambda>s. filings_once (fe_wall F) (cs_facts s)) (collect_filings_of V F symbol)"
  unfolding keeps_def
proof (intro allI impI)
  fix s :: collect_state assume once: "filings_once (fe_wall F) (cs_facts s)"
  note k = known_filings [OF once order_refl, of symbol]
  have "wp (forW (collect_filing V symbol cik (map accession (view_history \<lparr> vw_store = cs_facts s, vw_t = fe_wall F \<rparr> symbol FILING_FIELD))) gs)
      (\<lambda>_ s'. filings_once (fe_wall F) (cs_facts s')) (\<lambda>_ s'. filings_once (fe_wall F) (cs_facts s')) s"
    if "fe_filings F cik = Inr gs" for cik gs
    using assms that once by (intro collect_filing_loop) (auto simp: timely_def k(2))
  with once show "wp (collect_filings_of V F symbol) (\<lambda>_ s. filings_once (fe_wall F) (cs_facts s)) (\<lambda>_ s. filings_once (fe_wall F) (cs_facts s)) s"
    by (auto simp: collect_filings_of_def history_now_def wp_simps k(1) split: option.split sum.split)
qed



text \<open>
  A filing without an acceptance instant counts as observed at the last second of its filing date; until then the view of the
  collector does not see it, and every collection stores it again.
\<close>

lemma late_filing_appended:
  fixes s :: collect_state
  assumes "fs_ok (cs_facts s)" and "known_at (fe_wall F) (symbol, FILING_FIELD) (fs_facts (cs_facts s)) = []"
    and "\<not> ciks_stale (cs_ciks s) t max_age" and "cik_get (cs_ciks s) symbol = Some cik" and "fe_filings F cik = Inr [g]"
    and "filing_fact V symbol cik g = Inr f"
  shows "fst (collect_filings V F [symbol] (Aware t) max_age s) = s\<lparr>cs_facts := fs_append (co_row V) True f (cs_facts s)\<rparr>"
proof -
  have "view_history \<lparr> vw_store = cs_facts s, vw_t = fe_wall F \<rparr> symbol FILING_FIELD = []"
    using assms(1,2) by (simp add: view_history_eq)
  with assms(3-6) show ?thesis
    by (simp add: collect_filings_def aware_def ciks_fresh_def collect_filings_of_def history_now_def collect_filing_def store_fact_def
        bindW_def liftW_def getW_def modifyW_def retW_def)
qed

theorem late_filing_stored_again:
  fixes s :: collect_state
  assumes "fs_ok (cs_facts s)" and "known_at (fe_wall F) (symbol, FILING_FIELD) (fs_facts (cs_facts s)) = []"
    and "\<not> ciks_stale (cs_ciks s) t max_age" and "\<not> ciks_stale (cs_ciks s) t' max_age"
    and "cik_get (cs_ciks s) symbol = Some cik" and "fe_filings F cik = Inr [g]"
    and "filing_fact V symbol cik g = Inr f" and "fe_wall F < fa_observed_at f"
  shows "fs_facts (cs_facts (fst (collect_filings V F [symbol] (Aware t') max_age
      (fst (collect_filings V F [symbol] (Aware t) max_age s))))) = fs_facts (cs_facts s) @ [f, f]"
proof -
  let ?s = "s\<lparr>cs_facts := fs_append (co_row V) True f (cs_facts s)\<rparr>"
  have "known_at (fe_wall F) (symbol, FILING_FIELD) (fs_facts (cs_facts ?s)) = []"
    using assms(2,8) by (simp add: known_at_def)
  then have "fst (collect_filings V F [symbol] (Aware t') max_age ?s) = ?s\<lparr>cs_facts := fs_append (co_row V) True f (cs_facts ?s)\<rparr>"
    using assms by (intro late_filing_appended) (simp_all add: append_ok)
  then show ?thesis by (simp add: late_filing_appended [OF assms(1-3,5-7)])
qed

definition ex_filing_row :: "string option \<Rightarrow> filing" where
  "ex_filing_row accepted = \<lparr> fg_accession = ''a1'', fg_form = ''8-K'', fg_items = [''2.02''], fg_primary = ''d.htm'',
     fg_filing_date = ''2025-01-02'', fg_report_date = [], fg_accepted_at = accepted \<rparr>"

definition ex_collect_env :: collect_env where
  "ex_collect_env = \<lparr> co_row = (\<lambda>_. []), co_parse_ts = (\<lambda>_. Inr 5), co_parse_date = (\<lambda>_. Inr 739253), co_iso = (\<lambda>_. []) \<rparr>"

definition ex_feeds :: "string option \<Rightarrow> feeds" where
  "ex_feeds accepted = \<lparr> fe_daily = Inr [], fe_minute = Inr [], fe_tickers = Inr [(''SPY'', ''7'')],
     fe_filings = (\<lambda>_. Inr [ex_filing_row accepted]), fe_news = Inr [], fe_wall = 10 \<rparr>"

definition ex_collect :: collect_state where
  "ex_collect = \<lparr> cs_facts = \<lparr> fs_facts = [], fs_series = [], fs_file = None, fs_truncated = None \<rparr>,
     cs_ciks = \<lparr> kc_map = [(''SPY'', ''7'')], kc_refreshed_at = Some 10 \<rparr> \<rparr>"

lemma ex_feeds_timely: "timely ex_collect_env (ex_feeds (Some ''t''))"
  by (auto simp: timely_def ex_feeds_def ex_filing_row_def filing_observed_at_def ex_collect_env_def)

lemma ex_filing_fact: "\<exists>f. filing_fact ex_collect_env ''SPY'' ''7'' (ex_filing_row a) = Inr f"
  by (simp add: filing_fact_def filing_observed_at_def filing_effective_at_def ex_collect_env_def ex_filing_row_def split: option.split)

lemma ex_collect_start: "filings_once 10 (cs_facts ex_collect)" "fs_ok (cs_facts ex_collect)"
  "cik_get (cs_ciks ex_collect) ''SPY'' = Some ''7''" "\<not> ciks_stale (cs_ciks ex_collect) 10 100"
  "known_at t k (fs_facts (cs_facts ex_collect)) = []"
  by (simp_all add: ex_collect_def filings_once_def empty_ok cik_get_def upper_def upper_char_def ciks_stale_def known_at_def)


end
