(* ===== verification/Screening.thy ===== *)
theory Screening
  imports Materiality Collectors Analysis
begin

text \<open>
  agent/earnings.py and agent/materiality\_cycle.py: one screening cycle over the symbols of the universe. A candidate is built of a
  symbol's latest snapshot and filing in a view of the evidence store; a symbol without a snapshot, or whose candidate
  cannot be scored, is skipped with the message of the exception. \<open>isoformat\<close> is the parameter \<open>fmt\<close>; the note on
  the peer median is shortened, and the two warnings are their numbers.
\<close>

subsection \<open>Earnings proximity\<close>

definition EARNINGS_RELEASE_ITEM :: string where "EARNINGS_RELEASE_ITEM = ''2.02''"
definition PROXIMITY_HALF_WINDOW_DAYS :: int where "PROXIMITY_HALF_WINDOW_DAYS = 5"

definition filing_of :: "evidence fact \<Rightarrow> filing_meta result" where
  "filing_of f = (case fa_value f of FilingFact m \<Rightarrow> Inr m | _ \<Rightarrow> Inl (KeyError ''form''))"

definition release_date :: "evidence fact \<Rightarrow> date list result" where
  "release_date f =
     bindE (filing_of f) (\<lambda>m.
     Inr (if fm_form m = ''8-K'' \<and> EARNINGS_RELEASE_ITEM \<in> set (fm_item_codes m) then [utc_date (fa_effective_at f)] else []))"

definition earnings_release_dates :: "evidence as_of_view \<Rightarrow> string \<Rightarrow> date list result" where
  "earnings_release_dates view symbol =
     bindE (mapE release_date (view_history view symbol FILING_FIELD)) (\<lambda>dss. Inr (sort (remdups (concat dss))))"

text \<open>The median of whole days may end in a half; adding it to a date drops the half.\<close>

definition median_days :: "int list \<Rightarrow> int" where
  "median_days ds =
     (let s = sort ds; n = length ds
      in if odd n then s ! (n div 2) else (s ! (n div 2 - 1) + s ! (n div 2)) div 2)"

definition compute_earnings_proximity :: "date list \<Rightarrow> date \<Rightarrow> pyfloat option" where
  "compute_earnings_proximity dates t =
     (if length dates < 2 then None
      else let ordered = sort dates;
               estimated = last ordered + median_days (map2 (\<lambda>b a. b - a) (tl ordered) ordered);
               distance = \<bar>t - estimated\<bar>
           in Some (if distance \<ge> PROXIMITY_HALF_WINDOW_DAYS then 0
                    else fl (1 - fl (of_int distance / of_int PROXIMITY_HALF_WINDOW_DAYS))))"

definition earnings_proximity :: "evidence as_of_view \<Rightarrow> string \<Rightarrow> date \<Rightarrow> pyfloat option result" where
  "earnings_proximity view symbol t =
     bindE (earnings_release_dates view symbol) (\<lambda>ds. Inr (compute_earnings_proximity ds t))"

subsection \<open>Candidates\<close>

definition read_market_snapshot :: "evidence as_of_view \<Rightarrow> string \<Rightarrow> market_snapshot option result" where
  "read_market_snapshot view symbol =
     bindE (get_value view symbol SNAPSHOT_FIELD) (\<lambda>v.
     case v of None \<Rightarrow> Inr None | Some (SnapshotFact q) \<Rightarrow> Inr (Some q) | _ \<Rightarrow> Inl (KeyError ''ret_since_open''))"

definition latest_filing_fact :: "evidence as_of_view \<Rightarrow> string \<Rightarrow> evidence fact option" where
  "latest_filing_fact view symbol =
     (case view_history view symbol FILING_FIELD of [] \<Rightarrow> None | h \<Rightarrow> Some (last h))"

type_synonym universe = "string dict"

definition peers_of :: "universe \<Rightarrow> market_snapshot dict \<Rightarrow> string \<Rightarrow> string \<Rightarrow> pyfloat list" where
  "peers_of u snapshots symbol asset_class =
     map (sq_ret_since_open \<circ> snd) (filter (\<lambda>(s, _). s \<noteq> symbol \<and> map_of u s = Some asset_class) snapshots)"

definition snapshots_of :: "evidence as_of_view \<Rightarrow> universe \<Rightarrow> market_snapshot dict result" where
  "snapshots_of view u =
     bindE (mapE (\<lambda>(s, _). bindE (read_market_snapshot view s) (\<lambda>q. Inr (case q of None \<Rightarrow> [] | Some x \<Rightarrow> [(s, x)]))) u)
       (\<lambda>ds. Inr (concat ds))"

definition candidate_of ::
  "evidence as_of_view \<Rightarrow> universe \<Rightarrow> market_snapshot dict \<Rightarrow> instant \<Rightarrow> int \<Rightarrow> string \<Rightarrow> string \<Rightarrow> market_snapshot
   \<Rightarrow> candidate result" where
  "candidate_of view u snapshots now min_peers symbol asset_class q =
     (let peers = peers_of u snapshots symbol asset_class
      in bindE (case latest_filing_fact view symbol of None \<Rightarrow> Inr None | Some f \<Rightarrow> bindE (filing_of f) (\<lambda>m. Inr (Some m)))
           (\<lambda>filed.
         bindE (earnings_proximity view symbol (utc_date now)) (\<lambda>proximity.
         Inr \<lparr> mc_symbol = symbol, mc_asset_class = asset_class, mc_ret = Fin (sq_ret_since_open q),
               mc_atr = Fin (sq_atr_20 q), mc_volume = Fin (sq_volume_so_far q), mc_median = Fin (sq_median_volume q),
               mc_sector_ret = (if int (length peers) \<ge> min_peers then Some (Fin (median_of peers)) else None),
               mc_earnings = map_option Fin proximity, mc_form = map_option fm_form filed,
               mc_items = (case filed of None \<Rightarrow> [] | Some m \<Rightarrow> fm_item_codes m) \<rparr>)))"

datatype built = Candidate candidate | SkippedAt string string

definition build_candidate ::
  "evidence as_of_view \<Rightarrow> universe \<Rightarrow> market_snapshot dict \<Rightarrow> instant \<Rightarrow> int \<Rightarrow> string \<times> string \<Rightarrow> built result" where
  "build_candidate view u snapshots now min_peers = (\<lambda>(symbol, asset_class).
     case map_of snapshots symbol of
       None \<Rightarrow> Inr (SkippedAt symbol ''no market_snapshot fact available as of now'')
     | Some q \<Rightarrow> bindE (candidate_of view u snapshots now min_peers symbol asset_class q) (\<lambda>c. Inr (Candidate c)))"

definition build_materiality_candidates ::
  "evidence as_of_view \<Rightarrow> universe \<Rightarrow> datetime \<Rightarrow> int \<Rightarrow> built list result" where
  "build_materiality_candidates view u now min_peers =
     bindE (aware MaterialityCycleError now) (\<lambda>t.
     bindE (snapshots_of view u) (\<lambda>snapshots.
     mapE (build_candidate view u snapshots t min_peers) u))"

subsection \<open>The cycle\<close>

record materiality_result =
  mt_events :: "opportunity_event list"
  mt_skipped :: "string dict"
  mt_degraded :: "(nat \<times> string) option option"

definition SKIP_REASON_PATTERNS :: "(string \<times> string) list" where
  "SKIP_REASON_PATTERNS =
     [(''no market_snapshot fact available'', ''NO_MARKET_SNAPSHOT''),
      (''sector_ret is unknown but'', ''SECTOR_RET_UNKNOWN_UNDER_LIVE_WEIGHT''),
      (''earnings_proximity is unknown but'', ''EARNINGS_PROXIMITY_UNKNOWN_UNDER_LIVE_WEIGHT''),
      (''atr_20 must be positive'', ''MALFORMED_ATR_20''),
      (''median_volume_same_time must be positive'', ''MALFORMED_MEDIAN_VOLUME''),
      (''volume_so_far cannot be negative'', ''MALFORMED_VOLUME_SO_FAR'')]"

definition classify_skip_reason :: "string \<Rightarrow> string" where
  "classify_skip_reason message =
     (case find (\<lambda>(p, _). contains p message) SKIP_REASON_PATTERNS of None \<Rightarrow> ''OTHER'' | Some (_, c) \<Rightarrow> c)"

text \<open>\<open>Some None\<close>: the universe is empty; \<open>Some (Some (n, code))\<close>: all n symbols were skipped for the one reason.\<close>

definition degraded_reason :: "universe \<Rightarrow> opportunity_event list \<Rightarrow> string dict \<Rightarrow> (nat \<times> string) option option" where
  "degraded_reason u events skipped =
     (if u = [] then Some None
      else if events \<noteq> [] \<or> skipped = [] then None
      else if length skipped \<noteq> length u then None
      else case remdups (map (classify_skip_reason \<circ> snd) skipped) of
             [only] \<Rightarrow> Some (Some (length u, only)) | _ \<Rightarrow> None)"

record cycle_args =
  cg_universe :: universe
  cg_policy :: materiality_policy
  cg_capability :: capability_policy
  cg_live :: bool
  cg_max_analyses :: int
  cg_approvals_today :: int
  cg_max_approvals :: int
  cg_cooldown :: "string list"
  cg_min_peers :: int
  cg_held :: "string list"

definition head_of :: "(instant \<Rightarrow> string) \<Rightarrow> evidence as_of_view \<Rightarrow> string list \<Rightarrow> instant \<Rightarrow> string \<Rightarrow> event_head" where
  "head_of fmt view held now symbol =
     (let side = (if symbol \<in> set held then ''SELL'' else ''BUY'')
      in case latest_filing_fact view symbol of
           Some f \<Rightarrow> \<lparr> eh_event_id = EDGAR_SOURCE_ID @ '':'' @ symbol @ '':'' @ fmt (fa_observed_at f), eh_type = ''FILING'',
                      eh_source_id = EDGAR_SOURCE_ID, eh_observed_at = fa_observed_at f,
                      eh_effective_at = fa_effective_at f, eh_side = side \<rparr>
         | None \<Rightarrow> \<lparr> eh_event_id = MARKET_SOURCE_ID @ '':'' @ symbol @ '':'' @ fmt now, eh_type = ''PRICE_MOVE'',
                   eh_source_id = MARKET_SOURCE_ID, eh_observed_at = now, eh_effective_at = now, eh_side = side \<rparr>)"

definition with_provenance :: "opportunity_event \<Rightarrow> opportunity_event" where
  "with_provenance e =
     e\<lparr>oe_components := AList.update ''data_provenance'' (CMap [(''sector_ret'', CText ''peer median, not a sector return'')])
         (oe_components e)\<rparr>"

definition screen_one ::
  "(pyfloat \<Rightarrow> pyfloat) \<Rightarrow> (instant \<Rightarrow> string) \<Rightarrow> cycle_args \<Rightarrow> screen_args \<Rightarrow> evidence as_of_view \<Rightarrow> instant
   \<Rightarrow> opportunity_event list \<times> string dict \<Rightarrow> built \<Rightarrow> (opportunity_event list \<times> string dict) result" where
  "screen_one plog fmt g a view now = (\<lambda>(events, skipped) b.
     case b of
       SkippedAt _ _ \<Rightarrow> Inr (events, skipped)
     | Candidate c \<Rightarrow>
         (case screen plog a (head_of fmt view (cg_held g) now (mc_symbol c)) c of
            Inr e \<Rightarrow> Inr (events @ [with_provenance e], skipped)
          | Inl (MaterialityInputError why) \<Rightarrow> Inr (events, AList.update (mc_symbol c) why skipped)
          | Inl e \<Rightarrow> Inl e))"

definition build_skips :: "built list \<Rightarrow> string dict" where
  "build_skips bs = concat (map (\<lambda>b. case b of SkippedAt s why \<Rightarrow> [(s, why)] | Candidate _ \<Rightarrow> []) bs)"

definition screen_args_of :: "cycle_args \<Rightarrow> int \<Rightarrow> screen_args" where
  "screen_args_of g n =
     \<lparr> sn_policy = cg_policy g, sn_capability = cg_capability g, sn_live = cg_live g, sn_analyses_today = n,
       sn_max_analyses = cg_max_analyses g, sn_approvals_today = cg_approvals_today g,
       sn_max_approvals = cg_max_approvals g, sn_universe = map fst (cg_universe g), sn_cooldown = cg_cooldown g \<rparr>"

definition run_materiality_cycle ::
  "(pyfloat \<Rightarrow> pyfloat) \<Rightarrow> (instant \<Rightarrow> string) \<Rightarrow> cycle_args \<Rightarrow> cost_entry list \<Rightarrow> evidence as_of_view \<Rightarrow> datetime
   \<Rightarrow> materiality_result result" where
  "run_materiality_cycle plog fmt g costs view now =
     bindE (build_materiality_candidates view (cg_universe g) now (cg_min_peers g)) (\<lambda>built.
     bindE (aware MaterialityCycleError now) (\<lambda>t.
     bindE (foldE (screen_one plog fmt g (screen_args_of g (analyses_today costs (utc_date t))) view t)
              ([], build_skips built) built) (\<lambda>(events, skipped).
     Inr \<lparr> mt_events = events, mt_skipped = skipped,
           mt_degraded = degraded_reason (cg_universe g) events skipped \<rparr>)))"

text \<open>\<open>assert_materiality_config_sane\<close>: \<open>Some None\<close> for an empty universe, \<open>Some (Some n)\<close> when no symbol has more than n peers.\<close>

definition config_sane :: "pyfloat \<Rightarrow> universe \<Rightarrow> int \<Rightarrow> int option option" where
  "config_sane w5 u min_peers =
     (if w5 = 0 then None
      else if u = [] then Some None
      else let largest = foldl max 0 (map (\<lambda>(_, c). int (length (filter (\<lambda>(_, d). d = c) u)) - 1) u)
           in if largest < min_peers then Some (Some largest) else None)"

subsection \<open>No look-ahead\<close>

definition sees_alike :: "evidence as_of_view \<Rightarrow> evidence as_of_view \<Rightarrow> bool" where
  "sees_alike v v' \<longleftrightarrow> view_history v = view_history v' \<and> get_fact v = get_fact v'"

lemma alike_past:
  assumes "fs_ok st" and "fs_ok st'"
    and "filter (\<lambda>f. fa_observed_at f \<le> t) (fs_facts st) = filter (\<lambda>f. fa_observed_at f \<le> t) (fs_facts st')"
  shows "sees_alike \<lparr> vw_store = st, vw_t = t \<rparr> \<lparr> vw_store = st', vw_t = t \<rparr>"
proof -
  have "known_at t k (fs_facts st) = known_at t k (fs_facts st')" for k
  proof -
    have "filter (\<lambda>x. about k x \<and> fa_observed_at x \<le> t) fs = filter (about k) (filter (\<lambda>f. fa_observed_at f \<le> t) fs)"
      for fs :: "evidence fact list" by (induction fs) auto
    then show ?thesis unfolding known_at_def using assms(3) by (simp only:)
  qed
  then show ?thesis
    using assms(1,2) by (auto simp: sees_alike_def view_history_eq get_fact_eq intro!: ext)
qed

lemma run_alike:
  assumes "sees_alike v v'"
  shows "run_materiality_cycle plog fmt g costs v now = run_materiality_cycle plog fmt g costs v' now"
proof -
  have h: "view_history v = view_history v'" "get_fact v = get_fact v'" using assms by (simp_all add: sees_alike_def)
  then have q: "read_market_snapshot v = read_market_snapshot v'" and f: "latest_filing_fact v = latest_filing_fact v'"
    and p: "earnings_proximity v = earnings_proximity v'"
    by (auto simp: read_market_snapshot_def get_value_def latest_filing_fact_def earnings_proximity_def earnings_release_dates_def
        intro!: ext)
  have c: "candidate_of v = candidate_of v'" by (intro ext) (simp add: candidate_of_def f p)
  have b: "build_candidate v = build_candidate v'" by (intro ext) (simp add: build_candidate_def c split: option.split prod.split)
  have "build_materiality_candidates v u now n = build_materiality_candidates v' u now n" for u n
    by (simp add: build_materiality_candidates_def snapshots_of_def b q)
  moreover have "screen_one plog fmt g a v t = screen_one plog fmt g a v' t" for a t
  proof -
    have "head_of fmt v = head_of fmt v'" by (intro ext) (simp add: head_of_def f)
    then show ?thesis by (intro ext) (simp add: screen_one_def split: prod.split built.split)
  qed
  ultimately show ?thesis by (simp add: run_materiality_cycle_def)
qed

text \<open>
C21: The screen never looks ahead: two evidence stores that agree on the facts observed by an instant give the same events, skips and
  warnings at that instant, whatever they hold that was observed later.
\<close>
theorem screen_ignores_later_facts:
  assumes "fs_ok st" and "fs_ok st'"
    and "filter (\<lambda>f. fa_observed_at f \<le> t) (fs_facts st) = filter (\<lambda>f. fa_observed_at f \<le> t) (fs_facts st')"
  shows "run_materiality_cycle plog fmt g costs \<lparr> vw_store = st, vw_t = t \<rparr> now
    = run_materiality_cycle plog fmt g costs \<lparr> vw_store = st', vw_t = t \<rparr> now"
  by (rule run_alike [OF alike_past [OF assms]])

subsection \<open>Every symbol is accounted for\<close>

definition built_symbol :: "built \<Rightarrow> string" where
  "built_symbol b = (case b of Candidate c \<Rightarrow> mc_symbol c | SkippedAt s _ \<Rightarrow> s)"

abbreviation "screened plog fmt g a v t c \<equiv> screen plog a (head_of fmt v (cg_held g) t (mc_symbol c)) c"

definition event_of ::
  "(pyfloat \<Rightarrow> pyfloat) \<Rightarrow> (instant \<Rightarrow> string) \<Rightarrow> cycle_args \<Rightarrow> screen_args \<Rightarrow> evidence as_of_view \<Rightarrow> instant \<Rightarrow> built
   \<Rightarrow> opportunity_event list" where
  "event_of plog fmt g a v t b = (case b of
     Candidate c \<Rightarrow> (case screened plog fmt g a v t c of Inr e \<Rightarrow> [with_provenance e] | Inl _ \<Rightarrow> []) | SkippedAt _ _ \<Rightarrow> [])"

lemma screen_one_step:
  assumes "screen_one plog fmt g a v t (es, sk) b = Inr (es', sk')"
  shows "es' = es @ event_of plog fmt g a v t b
    \<and> (\<forall>s. map_of sk' s \<noteq> None \<longleftrightarrow> map_of sk s \<noteq> None
         \<or> (\<exists>c. b = Candidate c \<and> mc_symbol c = s \<and> \<not> is_ok (screened plog fmt g a v t c)))"
proof (cases b)
  case (SkippedAt x1 x2)
  with assms show ?thesis by (simp add: screen_one_def event_of_def)
next
  case (Candidate c)
  show ?thesis
  proof (cases "screened plog fmt g a v t c")
    case (Inr e)
    with assms Candidate show ?thesis by (auto simp: screen_one_def event_of_def is_ok_iff)
  next
    case (Inl x)
    with assms Candidate obtain why where "x = MaterialityInputError why" "es' = es" "sk' = AList.update (mc_symbol c) why sk"
      by (auto simp: screen_one_def split: exn.splits research_exn.splits)
    with Inl Candidate show ?thesis by (auto simp: event_of_def is_ok_iff)
  qed
qed

lemma screen_fold:
  assumes "foldE (screen_one plog fmt g a v t) (es, sk) bs = Inr (es', sk')"
  shows "es' = es @ concat (map (event_of plog fmt g a v t) bs)
    \<and> (\<forall>s. map_of sk' s \<noteq> None \<longleftrightarrow> map_of sk s \<noteq> None
      \<or> (\<exists>c. Candidate c \<in> set bs \<and> mc_symbol c = s \<and> \<not> is_ok (screened plog fmt g a v t c)))"
  using assms
proof (induction bs arbitrary: es sk)
  case (Cons b bs)
  then obtain es1 sk1 where b: "screen_one plog fmt g a v t (es, sk) b = Inr (es1, sk1)"
    "foldE (screen_one plog fmt g a v t) (es1, sk1) bs = Inr (es', sk')" by (auto simp: bindE_eq_Inr)
  from screen_one_step [OF b(1)] Cons.IH [OF b(2)] show ?case by auto
qed simp

lemma mapE_map: "mapE f xs = Inr ys \<Longrightarrow> (\<And>x y. f x = Inr y \<Longrightarrow> h y = k x) \<Longrightarrow> map h ys = map k xs"
  by (induction xs arbitrary: ys) (auto simp: bindE_eq_Inr)

lemma build_symbols:
  assumes "build_materiality_candidates v u now n = Inr bs"
  shows "map built_symbol bs = map fst u"
    and "\<forall>c. Candidate c \<in> set bs \<longrightarrow> (mc_symbol c, mc_asset_class c) \<in> set u"
proof -
  obtain t snapshots where m: "mapE (build_candidate v u snapshots t n) u = Inr bs"
    using assms by (auto simp: build_materiality_candidates_def bindE_eq_Inr)
  have one: "built_symbol b = fst x \<and> (\<forall>c. b = Candidate c \<longrightarrow> mc_symbol c = fst x \<and> mc_asset_class c = snd x)"
    if "build_candidate v u snapshots t n x = Inr b" for x b
    using that by (cases x)
      (auto simp: build_candidate_def candidate_of_def built_symbol_def Let_def bindE_eq_Inr split: option.splits)
  show "map built_symbol bs = map fst u" by (rule mapE_map [OF m]) (use one in blast)
  show "\<forall>c. Candidate c \<in> set bs \<longrightarrow> (mc_symbol c, mc_asset_class c) \<in> set u"
    using mapE_in [OF m] one by fastforce
qed

lemma build_skips_symbols: "map_of (build_skips bs) s \<noteq> None \<longleftrightarrow> (\<exists>why. SkippedAt s why \<in> set bs)"
proof -
  have "map_of (build_skips bs) s \<noteq> None \<longleftrightarrow> s \<in> fst ` set (build_skips bs)" by (simp add: map_of_eq_None_iff)
  also have "\<dots> \<longleftrightarrow> (\<exists>why. SkippedAt s why \<in> set bs)" by (force simp: build_skips_def split: built.splits)
  finally show ?thesis .
qed

lemma screen_symbols: "screen plog a h c = Inr e \<Longrightarrow> oe_symbols e = [mc_symbol c]"
  by (elim screen_event)

lemma event_of_symbol: "e \<in> set (event_of plog fmt g a v t b) \<Longrightarrow> oe_symbols e = [built_symbol b]"
  by (auto simp: event_of_def built_symbol_def with_provenance_def screen_symbols split: built.splits sum.splits)

lemma event_of_length: "length (event_of plog fmt g a v t b) \<le> 1"
  by (simp add: event_of_def split: built.split sum.split)

lemma distinct_events:
  assumes "distinct (map built_symbol bs)"
  shows "distinct (map oe_symbols (concat (map (event_of plog fmt g a v t) bs)))"
  using assms
proof (induction bs)
  case (Cons b bs)
  have "oe_symbols e \<noteq> oe_symbols e'" if "e \<in> set (event_of plog fmt g a v t b)" "b' \<in> set bs" "e' \<in> set (event_of plog fmt g a v t b')"
    for e e' b' using that Cons.prems by (auto simp: event_of_symbol)
  moreover have "distinct (map oe_symbols (event_of plog fmt g a v t b))"
    using event_of_length [of plog fmt g a v t b] by (cases "event_of plog fmt g a v t b") auto
  ultimately show ?case using Cons by fastforce
qed simp

text \<open>
C20: A screening cycle accounts for every symbol of the universe exactly once: it is skipped with a reason, or it has one event. An event
  is of a candidate whose numbers are finite and known where their weight is not zero; it is pending exactly when its score
  reaches the threshold and the universe, the capability policy, the cooldown and the cap on approvals let it through,
  suppressed when it reaches the threshold and one of them does not, and not material otherwise.
\<close>
theorem every_symbol_screened:
  assumes "run_materiality_cycle plog fmt g costs v now = Inr r" and "dict_ok (cg_universe g)"
  shows "distinct (map oe_symbols (mt_events r))
    \<and> (\<forall>s \<in> fst ` set (cg_universe g).
         (map_of (mt_skipped r) s \<noteq> None) \<noteq> (\<exists>e \<in> set (mt_events r). oe_symbols e = [s]))
    \<and> (\<forall>e \<in> set (mt_events r). \<exists>c score. oe_symbols e = [mc_symbol c] \<and> (mc_symbol c, mc_asset_class c) \<in> set (cg_universe g)
         \<and> scorable c (cg_policy g) (cg_max_analyses g) \<and> oe_score e = Fin score
         \<and> oe_status e = (if my_threshold (cg_policy g) \<le> score
              then if screen_gates (screen_args_of g 0) (if mc_symbol c \<in> set (cg_held g) then ''SELL'' else ''BUY'') c
                   then ''PENDING_ANALYSIS'' else ''SUPPRESSED''
              else ''NOT_MATERIAL''))"
proof -
  obtain bs t where bs: "build_materiality_candidates v (cg_universe g) now (cg_min_peers g) = Inr bs" and
    fold: "foldE (screen_one plog fmt g (screen_args_of g (analyses_today costs (utc_date t))) v t) ([], build_skips bs) bs
      = Inr (mt_events r, mt_skipped r)"
    using assms(1) by (auto simp: run_materiality_cycle_def bindE_eq_Inr)
  let ?a = "screen_args_of g (analyses_today costs (utc_date t))"
  note f = screen_fold [OF fold] and sy = build_symbols [OF bs]
  have d: "distinct (map built_symbol bs)" using sy(1) assms(2) by (simp add: dict_ok_def)
  have ev: "mt_events r = concat (map (event_of plog fmt g ?a v t) bs)" using f by simp
  have "distinct (map oe_symbols (mt_events r))" unfolding ev by (rule distinct_events [OF d])
  moreover have "(map_of (mt_skipped r) s \<noteq> None) \<noteq> (\<exists>e \<in> set (mt_events r). oe_symbols e = [s])"
    if "s \<in> fst ` set (cg_universe g)" for s
  proof -
    from that sy(1) have "s \<in> built_symbol ` set bs" by (metis image_set)
    then obtain b where b: "b \<in> set bs" "built_symbol b = s" by blast
    have only: "b' = b" if "b' \<in> set bs" "built_symbol b' = s" for b'
      using d b that by (metis distinct_map inj_onD)
    have e: "(\<exists>e \<in> set (mt_events r). oe_symbols e = [s]) \<longleftrightarrow> event_of plog fmt g ?a v t b \<noteq> []"
    proof
      assume "\<exists>e \<in> set (mt_events r). oe_symbols e = [s]"
      then obtain e b' where "b' \<in> set bs" "e \<in> set (event_of plog fmt g ?a v t b')" "oe_symbols e = [s]" by (auto simp: ev)
      with only show "event_of plog fmt g ?a v t b \<noteq> []" by (metis event_of_symbol list.inject empty_iff empty_set)
    next
      assume "event_of plog fmt g ?a v t b \<noteq> []"
      then obtain e where "e \<in> set (event_of plog fmt g ?a v t b)" by (metis list.set_intros(1) neq_Nil_conv)
      with b event_of_symbol show "\<exists>e \<in> set (mt_events r). oe_symbols e = [s]" by (force simp: ev)
    qed
    have sk: "map_of (mt_skipped r) s \<noteq> None \<longleftrightarrow> (\<exists>why. SkippedAt s why \<in> set bs)
        \<or> (\<exists>c. Candidate c \<in> set bs \<and> mc_symbol c = s \<and> \<not> is_ok (screened plog fmt g ?a v t c))"
      using f build_skips_symbols [of bs s] by auto
    show ?thesis
    proof (cases b)
      case (SkippedAt s' why)
      with b sk have "map_of (mt_skipped r) s \<noteq> None" unfolding sk by (auto simp: built_symbol_def)
      with e SkippedAt show ?thesis by (simp add: event_of_def)
    next
      case (Candidate c)
      with b have c: "Candidate c \<in> set bs" "mc_symbol c = s" by (simp_all add: built_symbol_def)
      have "\<not> (\<exists>why. SkippedAt s why \<in> set bs)" using only Candidate by (fastforce simp: built_symbol_def)
      moreover have "c' = c" if "Candidate c' \<in> set bs" "mc_symbol c' = s" for c'
        using only [of "Candidate c'"] that Candidate by (simp add: built_symbol_def)
      ultimately have "map_of (mt_skipped r) s \<noteq> None \<longleftrightarrow> \<not> is_ok (screened plog fmt g ?a v t c)"
        unfolding sk using c by blast
      with e Candidate show ?thesis by (auto simp: event_of_def is_ok_def split: sum.splits)
    qed
  qed
  moreover have "\<exists>c score. oe_symbols e = [mc_symbol c] \<and> (mc_symbol c, mc_asset_class c) \<in> set (cg_universe g)
         \<and> scorable c (cg_policy g) (cg_max_analyses g) \<and> oe_score e = Fin score
         \<and> oe_status e = (if my_threshold (cg_policy g) \<le> score
              then if screen_gates (screen_args_of g 0) (if mc_symbol c \<in> set (cg_held g) then ''SELL'' else ''BUY'') c
                   then ''PENDING_ANALYSIS'' else ''SUPPRESSED'' else ''NOT_MATERIAL'')"
    if "e \<in> set (mt_events r)" for e
  proof -
    from that obtain b where b: "b \<in> set bs" "e \<in> set (event_of plog fmt g ?a v t b)" by (auto simp: ev)
    from b(2) have "\<exists>c. b = Candidate c" by (auto simp: event_of_def split: built.splits)
    then obtain c where c0: "b = Candidate c" by blast
    from b(2) have "\<exists>e'. screened plog fmt g ?a v t c = Inr e' \<and> e = with_provenance e'"
      by (auto simp: event_of_def c0 split: sum.splits dest: sym)
    then obtain e' where "screened plog fmt g ?a v t c = Inr e'" "e = with_provenance e'" by blast
    with b c0 have c: "Candidate c \<in> set bs" "screened plog fmt g ?a v t c = Inr e'" "e = with_provenance e'" by simp_all
    have sc: "scorable c (cg_policy g) (cg_max_analyses g)"
      using screen_ok [of plog ?a "head_of fmt v (cg_held g) t (mc_symbol c)" c] c(2) by (simp add: is_ok_iff screen_args_of_def)
    have "eh_side (head_of fmt v (cg_held g) t (mc_symbol c)) = (if mc_symbol c \<in> set (cg_held g) then ''SELL'' else ''BUY'')"
      by (simp add: head_of_def Let_def split: option.split)
    moreover have "sn_policy ?a = cg_policy g" "screen_gates ?a side c = screen_gates (screen_args_of g 0) side c" for side
      by (simp_all add: screen_args_of_def screen_gates_def screen_capability_def)
    ultimately show ?thesis
      using sc sy(2) c by (elim screen_event) (intro exI [of _ c], auto simp: with_provenance_def)
  qed
  ultimately show ?thesis by blast
qed

subsection \<open>A symbol above the threshold\<close>

definition ex_snapshot :: "instant \<Rightarrow> evidence fact" where
  "ex_snapshot t = snapshot_fact ''SPY'' \<lparr> sq_atr_20 = 1, sq_ret_since_open = 2, sq_volume_so_far = 1, sq_median_volume = 1,
     sq_current_price = 10, sq_session = None \<rparr> t t"

definition ex_facts :: "evidence fact list \<Rightarrow> evidence fact_store" where
  "ex_facts fs = fs_extend (\<lambda>_. []) fs \<lparr> fs_facts = [], fs_series = [], fs_file = None, fs_truncated = None \<rparr>"

definition ex_cycle_args :: cycle_args where
  "ex_cycle_args = \<lparr> cg_universe = [(''SPY'', ''ETF'')],
     cg_policy = \<lparr> my_version = ''v1'', my_w1 = 1, my_w2 = 0, my_w3 = 0, my_w4 = 0, my_w5 = 0, my_w6 = 0, my_threshold = 2,
       my_filing_weights = DEFAULT_FILING_WEIGHTS \<rparr>,
     cg_capability = initial_policy ''v1'', cg_live = False, cg_max_analyses = 8, cg_approvals_today = 0,
     cg_max_approvals = 4, cg_cooldown = [], cg_min_peers = 3, cg_held = [] \<rparr>"

lemma ex_facts_ok: "fs_ok (ex_facts fs)" "fs_facts (ex_facts fs) = fs"
  by (simp_all add: ex_facts_def fs_extend_def extend_ok empty_ok extend_facts)

lemma ex_cycle_run:
  "\<exists>e. run_materiality_cycle (\<lambda>_. 0) (\<lambda>_. []) ex_cycle_args [] \<lparr> vw_store = ex_facts [ex_snapshot 10], vw_t = 20 \<rparr> (Aware 20)
     = Inr \<lparr> mt_events = [e], mt_skipped = [], mt_degraded = None \<rparr> \<and> oe_score e = Fin 2"
proof -
  let ?v = "\<lparr> vw_store = ex_facts [ex_snapshot 10], vw_t = 20 \<rparr>"
  have h: "view_history ?v ''SPY'' FILING_FIELD = []"
    by (simp add: view_history_eq ex_facts_ok known_at_def about_def ex_snapshot_def snapshot_fact_def SNAPSHOT_FIELD_def FILING_FIELD_def)
  have q: "read_market_snapshot ?v ''SPY'' = Inr (Some \<lparr> sq_atr_20 = 1, sq_ret_since_open = 2, sq_volume_so_far = 1,
      sq_median_volume = 1, sq_current_price = 10, sq_session = None \<rparr>)"
    by (simp add: read_market_snapshot_def get_value_def get_fact_eq ex_facts_ok known_at_def about_def ex_snapshot_def
        snapshot_fact_def)
  have n: "fl 0 = 0" "fl 1 = 1" "fl 2 = 2" by (simp_all add: num_simps)
  have c: "candidate_of ?v [(''SPY'', ''ETF'')] [(''SPY'', q)] 20 3 ''SPY'' ''ETF'' x = Inr
      \<lparr> mc_symbol = ''SPY'', mc_asset_class = ''ETF'', mc_ret = Fin (sq_ret_since_open x), mc_atr = Fin (sq_atr_20 x),
        mc_volume = Fin (sq_volume_so_far x), mc_median = Fin (sq_median_volume x), mc_sector_ret = None, mc_earnings = None,
        mc_form = None, mc_items = [] \<rparr>" for q x
    by (simp add: candidate_of_def Let_def peers_of_def latest_filing_fact_def h earnings_proximity_def earnings_release_dates_def
        compute_earnings_proximity_def)
  let ?c = "\<lparr> mc_symbol = ''SPY'', mc_asset_class = ''ETF'', mc_ret = Fin 2, mc_atr = Fin 1, mc_volume = Fin 1,
      mc_median = Fin 1, mc_sector_ret = None, mc_earnings = None, mc_form = None, mc_items = [] \<rparr>"
  have b: "build_materiality_candidates ?v (cg_universe ex_cycle_args) (Aware 20) (cg_min_peers ex_cycle_args) = Inr [Candidate ?c]"
    by (simp add: ex_cycle_args_def build_materiality_candidates_def aware_def snapshots_of_def q build_candidate_def c)
  have sc: "\<exists>k. compute_score (\<lambda>_. 0) ?c (sn_policy (screen_args_of ex_cycle_args 0)) (sn_analyses_today (screen_args_of ex_cycle_args 0))
      (sn_max_analyses (screen_args_of ex_cycle_args 0)) = Inr (2, k)"
    by (simp add: compute_score_def checked_inputs_def need_finite_def need_known_def live_value_def Let_def
        weighted_terms_def filing_weight_def n screen_args_of_def ex_cycle_args_def)
  have "is_ok (screened (\<lambda>_. 0) (\<lambda>_. []) ex_cycle_args (screen_args_of ex_cycle_args 0) ?v 20 ?c)"
    by (simp add: screen_ok scorable_def known_under_def screen_args_of_def ex_cycle_args_def)
  then obtain e where e1: "screened (\<lambda>_. 0) (\<lambda>_. []) ex_cycle_args (screen_args_of ex_cycle_args 0) ?v 20 ?c = Inr e"
    by (auto simp: is_ok_iff)
  have "oe_score e = Fin 2" by (rule screen_event [OF e1]) (use sc in simp)
  note e = e1 this
  have "foldE (screen_one (\<lambda>_. 0) (\<lambda>_. []) ex_cycle_args (screen_args_of ex_cycle_args 0) ?v 20) ([], []) [Candidate ?c]
      = Inr ([with_provenance e], [])"
    using e(1) by (simp add: screen_one_def)
  moreover have "degraded_reason (cg_universe ex_cycle_args) [with_provenance e] [] = None"
    by (simp add: degraded_reason_def ex_cycle_args_def)
  moreover have "oe_score (with_provenance e) = Fin 2" using e(2) by (simp add: with_provenance_def)
  ultimately show ?thesis
    by (simp add: run_materiality_cycle_def b aware_def analyses_today_def build_skips_def)
qed

theorem every_symbol_screened_witness:
  "\<exists>r e. run_materiality_cycle (\<lambda>_. 0) (\<lambda>_. []) ex_cycle_args [] \<lparr> vw_store = ex_facts [ex_snapshot 10], vw_t = 20 \<rparr> (Aware 20) = Inr r
     \<and> mt_events r = [e] \<and> oe_symbols e = [''SPY''] \<and> oe_status e = ''PENDING_ANALYSIS''"
proof -
  obtain e where e: "run_materiality_cycle (\<lambda>_. 0) (\<lambda>_. []) ex_cycle_args [] \<lparr> vw_store = ex_facts [ex_snapshot 10], vw_t = 20 \<rparr> (Aware 20)
     = Inr \<lparr> mt_events = [e], mt_skipped = [], mt_degraded = None \<rparr>" "oe_score e = Fin 2"
    using ex_cycle_run by blast
  have "screen_gates (screen_args_of ex_cycle_args 0) ''BUY'' c" if "mc_symbol c = ''SPY''" "mc_asset_class c = ''ETF''" for c
    using that by (simp add: screen_gates_def screen_capability_def ex_cycle_args_def screen_args_of_def screen_dims_def symbol_ok_def
        dimension_ok_def initial_policy_def policy_table_def policy_required_def upper_def upper_char_def less_eq_capability_status_def
        Let_def dict_get_def)
  note gates = this
  have g: "cg_universe ex_cycle_args = [(''SPY'', ''ETF'')]" "cg_held ex_cycle_args = []" "my_threshold (cg_policy ex_cycle_args) = 2"
    by (simp_all add: ex_cycle_args_def)
  have "dict_ok (cg_universe ex_cycle_args)" by (simp add: g dict_ok_def)
  from every_symbol_screened [OF e(1) this] e(2) gates
  have "oe_symbols e = [''SPY''] \<and> oe_status e = ''PENDING_ANALYSIS''" by (auto simp: g)
  with e(1) show ?thesis by auto
qed

theorem screen_ignores_later_facts_witness:
  "run_materiality_cycle (\<lambda>_. 0) (\<lambda>_. []) ex_cycle_args [] \<lparr> vw_store = ex_facts [ex_snapshot 10], vw_t = 20 \<rparr> (Aware 20)
   = run_materiality_cycle (\<lambda>_. 0) (\<lambda>_. []) ex_cycle_args [] \<lparr> vw_store = ex_facts [ex_snapshot 30, ex_snapshot 10], vw_t = 20 \<rparr> (Aware 20)"
  by (rule screen_ignores_later_facts) (simp_all add: ex_facts_ok ex_snapshot_def snapshot_fact_def)

end
