(* ===== verification/Spec2Isabelle.thy ===== *)
theory Spec2Isabelle
  imports Policy Lots Accounts Risk Pipeline Approval RequestStore Broker Simulator LedgerPositions Store
    StartupProperties LedgerStoreProps SyncOrders Processes Cycle TriggerProps AnalysisProps Screening
begin

text \<open>
  investmentagent: an agent that watches a brokerage account, proposes orders to an operator and submits the approved ones.

  The program. Facts are collected into an append-only evidence store (agent/market\_data\_collector.py,
  agent/edgar\_collector.py, agent/news\_collector.py, agent/store.py), a score without any model decides which symbols
  are worth an analysis (agent/materiality.py, agent/materiality\_cycle.py), and the analysis asks a model about one filing under a
  monthly budget and accepts only answers whose every claim cites a fact known at the time (agent/analysis.py,
  agent/analysis\_output.py, agent/cost.py).

  Everything of value is guarded twice. On the way to an order, the gatekeeper (agent/pipeline.py)
  checks capability policy, holding period, day trades and risk and signs what it allows; the request it
  becomes waits in the request store (agent/approval\_request\_store.py) for the operator, whose decision mints a single-use token
  (agent/approval.py, agent/approval\_bridge.py, agent/dashboard\_decisions.py); the execution path
  (agent/approval\_execution.py) re-checks the signature, the token, the broker's state, the mode, the last
  reconciliation, the session and the price, and the adapter (agent/broker/base.py) checks signature, policy and token once more.
  On the way back, the scheduled loop (agent/run\_loop.py) takes in what the broker reports (agent/fill\_sync.py,
  agent/cash\_events.py), keeps what it cannot place in quarantine for the operator, derives cash, lots and
  positions from the durable ledger (agent/ledger.py, agent/ledger\_store.py), reconciles them exactly with the
  broker (agent/reconciliation.py) and runs the startup sequence (agent/startup.py) which alone moves the mode of the
  system (agent/mode.py, agent/mode\_store.py) and appends to the hash-chained audit log (agent/audit.py).

  The theories, each with its own opening text:
  \<^item> \<open>Prelude\<close>, \<open>PyNum\<close>: exceptions and results, insertion-ordered dicts, binary64 floats and Decimal(28) on
    rationals with their rounding, money.py. \<open>Effects\<close>, \<open>Jsonl\<close>, \<open>Journal\<close>: code that raises half-way through
    changing shared state, with weakest preconditions, and append-only files whose writes may break off.
  \<^item> \<open>Calendar\<close>, \<open>Session\<close>: market\_calendar.py and the scheduling functions of run\_loop.py.
  \<^item> \<open>Policy\<close>, \<open>Lots\<close>, \<open>Accounts\<close>, \<open>Risk\<close>, \<open>Pipeline\<close>: policy.py, lot\_selection.py, holding.py, accounts.py, tax.py,
    daytrade.py, risk.py, pipeline.py: the gates and the signed order they compose.
  \<^item> \<open>Approval\<close>, \<open>RequestStore\<close>, \<open>Bridge\<close>, \<open>BridgeProps\<close>: tokens, requests, and from a decision to a token.
  \<^item> \<open>Trigger\<close>, \<open>TriggerProps\<close>, \<open>Modified\<close>: approval\_trigger.py, from an analysis to a request, and what becomes of
    an approval that changes the order.
  \<^item> \<open>Broker\<close>, \<open>Simulator\<close>: broker/base.py and broker/simulator.py.
  \<^item> \<open>Execution\<close>, \<open>ExecutionProps\<close>, \<open>Processes\<close>: approval\_execution.py, \<open>_run_submit_approved\<close> of
    scripts/run\_agent.py, and what happens when two processes write one file.
  \<^item> \<open>Ledger\<close>, \<open>LedgerRecord\<close>, \<open>LedgerCash\<close>, \<open>LedgerPositions\<close>, \<open>LedgerStore\<close>, \<open>LedgerStoreProps\<close>: ledger.py
    and ledger\_store.py: replay, balances, positions, the durable file.
  \<^item> \<open>Quarantine\<close>, \<open>Sync\<close>, \<open>SyncProps\<close>, \<open>SyncOrders\<close>: the two quarantine stores, fill\_sync.py, cash\_events.py.
  \<^item> \<open>Store\<close>, \<open>AuditLog\<close>, \<open>Mode\<close>: store.py, audit.py, mode.py and mode\_store.py.
  \<^item> \<open>Reconciliation\<close>, \<open>Startup\<close>, \<open>StartupSafety\<close>, \<open>StartupProperties\<close>: reconciliation.py, startup.py and the
    operator's mode command of scripts/run\_agent.py.
  \<^item> \<open>Cycle\<close>: account\_wiring.py and the cycle and loop of run\_loop.py.
  \<^item> \<open>Cost\<close>, \<open>Opportunity\<close>: cost.py, opportunity\_event\_store.py, opportunity\_event\_tracker.py, and the shape their
    journals share.
  \<^item> \<open>Collectors\<close>, \<open>Materiality\<close>, \<open>Screening\<close>: market\_data\_collector.py, edgar\_collector.py, news\_collector.py,
    materiality.py, earnings.py, materiality\_cycle.py: from feeds to facts, from facts to screened events.
  \<^item> \<open>AnalysisOutput\<close>, \<open>Analysis\<close>, \<open>AnalysisProps\<close>: analysis\_output.py, analysis\_prompt.py,
    extraction\_store.py, analysis.py: what an answer must be to be accepted, what it costs, and that no filing is paid for twice.

  How the model reads. A dataclass is a record, an Enum the string or datatype the code compares, a raise an \<open>Inl\<close> of
  the datatype \<open>exn\<close> (the class of the exception, and the values a handler looks at; not the message). Floats are the
  rationals binary64 can represent, every operation rounded (\<open>fl\<close>); Decimals are rounded at 28 digits (\<open>dec\<close>). An instant is
  a number of microseconds UTC. An object shared between calls is a component of an explicit state, left
  changed when the call raises.

  Parameters. HMAC, SHA-256, json.dumps, the row codecs of the JSONL files, the texts of messages, the logarithm, and what the
  broker adapter, the quote provider, the data feeds, the language model and the clock return are arguments. The hypotheses about them are: a decoded
  row is the encoded one and an encoded row is one line; a call of the adapter only moves the broker's state. No
  hypothesis excludes a hash collision: the security statements end in agreement or an explicit collision.

  Bounds. Loops of the code are structural recursions on what they walk over, except the two searches of
  the calendar, which are bounded by the last day of the verified tables, past which the code raises. A
  run of the endless loop is given the finite list of clock readings that happened.

  Not modelled: HTTP and JSON parsing (broker/alpaca.py, broker/transport.py, alpaca\_market\_data.py, the client of
  edgar.py, filing\_text.py), the driver of the research stage (pipeline\_stage.py, analysis\_trigger.py,
  analysis\_result\_store.py, research\_once.py), which calls the modelled parts event by event, the dashboard's and admin
  console's HTTP servers and views, configuration loading, secrets, notification, and the maintenance scripts.
  PROJECT.json gives the reason for each.
\<close>

end
